(* ===== verification/Bellows_Prelude.thy ===== *)
theory Bellows_Prelude
  imports
    Main
    "HOL-Library.Word"
    "HOL-Library.Multiset"
    "HOL-Library.Char_ord"
    "HOL-Library.List_Lexorder"
    "HOL-Library.Product_Lexorder"
    "HOL-Library.Option_ord"
    "HOL-Library.Sublist"
begin

text \<open>
  The vocabulary the components share: Rust's unsigned integers as natural numbers with the
  saturation and wrap-around of the operations written out, results as sums whose left side is
  the error, \<open>BTreeMap\<close> as a list sorted by key, the string functions the code calls on ASCII
  patterns, decimal and hexadecimal rendering, and the lemmas on lists and maps that several
  component theories use. A Rust \<open>String\<close> is the list of its UTF-8 bytes, one \<open>char\<close> each, so
  \<open>length\<close> is \<open>str::len\<close>.
\<close>

section \<open>Unsigned integers\<close>

text \<open>
  \<open>u64\<close>, \<open>u32\<close> and \<open>usize\<close> (64 bits on the supported targets) values are naturals.
  \<open>saturating_sub\<close> is exactly the truncated subtraction on \<open>nat\<close>; \<open>saturating_add\<close>,
  \<open>saturating_mul\<close> and the release-mode wrap of a plain \<open>+\<close> are spelled out here.
\<close>

definition u64_max :: nat where
  "u64_max = 18446744073709551615"

definition usize_max :: nat where
  "usize_max = u64_max"

definition sat_add64 :: "nat \<Rightarrow> nat \<Rightarrow> nat" where
  "sat_add64 a b = min (a + b) u64_max"

definition sat_mul64 :: "nat \<Rightarrow> nat \<Rightarrow> nat" where
  "sat_mul64 a b = min (a * b) u64_max"

definition wrap_add64 :: "nat \<Rightarrow> nat \<Rightarrow> nat" where
  "wrap_add64 a b = (a + b) mod (u64_max + 1)"

lemma wrap_add64_id: "a + b \<le> u64_max \<Longrightarrow> wrap_add64 a b = a + b"
  by (simp add: wrap_add64_def)

lemma wrap_add64_bound: "wrap_add64 a b \<le> u64_max"
  by (simp add: wrap_add64_def u64_max_def less_Suc_eq_le [symmetric])

lemma sat_add64_ge: "a \<le> u64_max \<Longrightarrow> a \<le> sat_add64 a b"
  by (simp add: sat_add64_def)

section \<open>Results\<close>

text \<open>
  \<open>Result<T>\<close> is \<open>'e + 'a\<close>. \<open>ensure\<close> is an \<open>if \<not> c { bail!(e) }\<close>, \<open>r_bind\<close> the \<open>?\<close>
  operator, \<open>check_all\<close> a \<open>for\<close> loop whose body may bail out.
\<close>

definition ensure :: "bool \<Rightarrow> 'e \<Rightarrow> 'e + unit" where
  "ensure c e = (if c then Inr () else Inl e)"

fun r_bind :: "'e + 'a \<Rightarrow> ('a \<Rightarrow> 'e + 'b) \<Rightarrow> 'e + 'b" where
  "r_bind (Inl e) f = Inl e"
| "r_bind (Inr a) f = f a"

definition r_then :: "'e + unit \<Rightarrow> 'e + 'b \<Rightarrow> 'e + 'b" where
  "r_then r s = r_bind r (\<lambda>_. s)"

fun check_all :: "('a \<Rightarrow> 'e + unit) \<Rightarrow> 'a list \<Rightarrow> 'e + unit" where
  "check_all f [] = Inr ()"
| "check_all f (x # xs) = r_then (f x) (check_all f xs)"

fun map_err :: "('e \<Rightarrow> 'f) \<Rightarrow> 'e + 'a \<Rightarrow> 'f + 'a" where
  "map_err f (Inl e) = Inl (f e)"
| "map_err f (Inr a) = Inr a"

lemma ensure_ok [simp]: "ensure c e = Inr u \<longleftrightarrow> c"
  by (simp add: ensure_def)

lemma ensure_err [simp]: "ensure c e = Inl e' \<longleftrightarrow> \<not> c \<and> e' = e"
  by (auto simp: ensure_def)

lemma ensure_True [simp]: "ensure True e = Inr ()" and ensure_False [simp]: "ensure False e = Inl e"
  by (simp_all add: ensure_def)

lemma r_bind_ok [simp]: "r_bind r f = Inr b \<longleftrightarrow> (\<exists>a. r = Inr a \<and> f a = Inr b)"
  by (cases r) auto

lemma r_bind_err: "r_bind r f = Inl e \<longleftrightarrow> r = Inl e \<or> (\<exists>a. r = Inr a \<and> f a = Inl e)"
  by (cases r) auto

lemma r_then_ok [simp]: "r_then r s = Inr b \<longleftrightarrow> r = Inr () \<and> s = Inr b"
  by (cases r) (auto simp: r_then_def)

lemma r_then_Inr [simp]: "r_then (Inr u) s = s"
  by (simp add: r_then_def)

lemma r_then_Inl [simp]: "r_then (Inl e) s = Inl e"
  by (simp add: r_then_def)

lemma check_all_ok [simp]: "check_all f xs = Inr u \<longleftrightarrow> (\<forall>x \<in> set xs. f x = Inr ())"
  by (induction xs) auto

lemma map_err_ok [simp]: "map_err f r = Inr a \<longleftrightarrow> r = Inr a"
  by (cases r) auto

section \<open>Ordered maps\<close>

text \<open>
  \<open>BTreeMap<K, V>\<close> as the association list of its entries in ascending key order, so that its
  iteration order is the list's order.
\<close>

fun bt_insert :: "'k::linorder \<Rightarrow> 'v \<Rightarrow> ('k \<times> 'v) list \<Rightarrow> ('k \<times> 'v) list" where
  "bt_insert k v [] = [(k, v)]"
| "bt_insert k v ((k', v') # m) =
     (if k < k' then (k, v) # (k', v') # m
      else if k = k' then (k, v) # m
      else (k', v') # bt_insert k v m)"

definition bt_remove :: "'k \<Rightarrow> ('k \<times> 'v) list \<Rightarrow> ('k \<times> 'v) list" where
  "bt_remove k m = filter (\<lambda>(k', v). k' \<noteq> k) m"

definition bt_wf :: "('k::linorder \<times> 'v) list \<Rightarrow> bool" where
  "bt_wf m \<longleftrightarrow> sorted_wrt (<) (map fst m)"

lemma map_of_bt_insert [simp]: "map_of (bt_insert k v m) = (map_of m)(k \<mapsto> v)"
  by (induction m rule: bt_insert.induct [of _ k v]) (auto simp: fun_eq_iff)

lemma map_of_bt_remove [simp]: "map_of (bt_remove k m) = (map_of m)(k := None)"
  by (induction m) (auto simp: bt_remove_def fun_eq_iff)

lemma set_fst_bt_insert: "set (map fst (bt_insert k v m)) = insert k (set (map fst m))"
  by (induction m rule: bt_insert.induct [of _ k v]) auto

lemma fst_bt_insert: "fst ` set (bt_insert k v m) = insert k (fst ` set m)"
  using set_fst_bt_insert [of k v m] by simp

lemma bt_wf_Nil [simp]: "bt_wf []"
  by (simp add: bt_wf_def)

lemma bt_wf_insert: "bt_wf m \<Longrightarrow> bt_wf (bt_insert k v m)"
proof (induction m)
  case Nil
  show ?case by (simp add: bt_wf_def)
next
  case (Cons e m)
  obtain k' v' where e: "e = (k', v')" by (cases e)
  from Cons.prems have wf: "bt_wf m" and lt: "\<forall>x \<in> fst ` set m. k' < x"
    by (auto simp: e bt_wf_def)
  consider "k < k'" | "k = k'" | "k' < k" by (rule linorder_cases)
  then show ?case
  proof cases
    case 3
    then have "bt_insert k v (e # m) = (k', v') # bt_insert k v m"
      by (auto simp: e dest: order.asym)
    moreover have "\<forall>x \<in> fst ` set (bt_insert k v m). k' < x"
      using lt 3 by (simp add: fst_bt_insert)
    ultimately show ?thesis
      using Cons.IH [OF wf] by (simp add: bt_wf_def)
  qed (use lt wf in \<open>auto simp: e bt_wf_def dest: order.strict_trans\<close>)
qed

lemma bt_wf_remove: "bt_wf m \<Longrightarrow> bt_wf (bt_remove k m)"
  unfolding bt_wf_def bt_remove_def sorted_wrt_map by (rule sorted_wrt_filter)

lemma bt_wf_distinct: "bt_wf m \<Longrightarrow> distinct (map fst m)"
  by (simp add: bt_wf_def strict_sorted_iff)

lemma bt_wf_map_val: "bt_wf (map (\<lambda>(k, v). (k, f k v)) m) = bt_wf m"
  by (simp add: bt_wf_def comp_def case_prod_unfold)

lemma bt_get_iff: "bt_wf m \<Longrightarrow> map_of m k = Some v \<longleftrightarrow> (k, v) \<in> set m"
  using bt_wf_distinct [of m] by (simp add: map_of_eq_Some_iff)

lemma bt_insert_fresh_values:
  "k \<notin> fst ` set m \<Longrightarrow>
     mset (map (\<lambda>e. f (snd e)) (bt_insert k v m)) = add_mset (f v) (mset (map (\<lambda>e. f (snd e)) m))"
  by (induction m rule: bt_insert.induct [of _ k v]) auto

lemma bt_insert_fresh_set: "k \<notin> fst ` set m \<Longrightarrow> set (bt_insert k v m) = insert (k, v) (set m)"
  by (induction m rule: bt_insert.induct [of _ k v]) auto

lemma map_of_None_fst: "map_of m k = None \<longleftrightarrow> k \<notin> fst ` set m"
  by (rule map_of_eq_None_iff)

section \<open>Strings\<close>


abbreviation str_contains :: "string \<Rightarrow> string \<Rightarrow> bool" where
  "str_contains hay needle \<equiv> sublist needle hay"

definition strip_prefix :: "string \<Rightarrow> string \<Rightarrow> string option" where
  "strip_prefix p s = (if prefix p s then Some (drop (length p) s) else None)"

text \<open>\<open>str::split\<close> with a set of separator characters: one more segment than separators.\<close>

fun split_on :: "('a \<Rightarrow> bool) \<Rightarrow> 'a list \<Rightarrow> 'a list list" where
  "split_on p [] = [[]]"
| "split_on p (c # cs) =
     (if p c then [] # split_on p cs
      else (case split_on p cs of [] \<Rightarrow> [[c]] | w # ws \<Rightarrow> (c # w) # ws))"

lemma split_on_clean: "(\<forall>c \<in> set w. \<not> p c) \<Longrightarrow> split_on p w = [w]"
  by (induction w) auto

lemma split_on_field: "(\<forall>c \<in> set w. \<not> p c) \<Longrightarrow> p c \<Longrightarrow> split_on p (w @ c # s) = w # split_on p s"
  by (induction w) auto

definition is_sep :: "char \<Rightarrow> bool" where
  "is_sep c \<longleftrightarrow> c = CHR ''/'' \<or> c = CHR 0x5C"

definition is_digit :: "char \<Rightarrow> bool" where
  "is_digit c \<longleftrightarrow> 48 \<le> (of_char c :: nat) \<and> (of_char c :: nat) \<le> 57"

definition is_alpha :: "char \<Rightarrow> bool" where
  "is_alpha c \<longleftrightarrow> (65 \<le> (of_char c :: nat) \<and> (of_char c :: nat) \<le> 90)
     \<or> (97 \<le> (of_char c :: nat) \<and> (of_char c :: nat) \<le> 122)"

lemma split_on_not_Nil [simp]: "split_on p s \<noteq> []"
  by (cases s) (auto split: list.splits)

lemma split_on_segments: "w \<in> set (split_on p s) \<Longrightarrow> c \<in> set w \<Longrightarrow> \<not> p c"
  by (induction s arbitrary: w) (fastforce split: if_splits list.splits)+

lemma split_on_chars: "w \<in> set (split_on p s) \<Longrightarrow> set w \<subseteq> set s"
  by (induction s arbitrary: w) (fastforce split: if_splits list.splits)+

section \<open>White space\<close>

text \<open>
  \<open>str::trim\<close> removes the code points with Unicode's \<open>White_Space\<close> property; these are their
  UTF-8 encodings. A valid UTF-8 string ends in such a code point exactly when it ends in its
  encoding.
\<close>

definition white_space :: "string list" where
  "white_space = map (map char_of)
     ([[9], [10], [11], [12], [13], [32], [194, 133], [194, 160], [225, 154, 128],
       [226, 128, 128], [226, 128, 129], [226, 128, 130], [226, 128, 131], [226, 128, 132],
       [226, 128, 133], [226, 128, 134], [226, 128, 135], [226, 128, 136], [226, 128, 137],
       [226, 128, 138], [226, 128, 168], [226, 128, 169], [226, 128, 175], [226, 129, 159],
       [227, 128, 128]] :: nat list list)"

function strip_start :: "string list \<Rightarrow> string \<Rightarrow> string" where
  "strip_start ws s =
     (case find (\<lambda>w. w \<noteq> [] \<and> prefix w s) ws of
        None \<Rightarrow> s
      | Some w \<Rightarrow> strip_start ws (drop (length w) s))"
  by pat_completeness auto
termination
proof (relation "measure (\<lambda>(ws, s). length s)")
  fix ws :: "string list" and s w :: string
  assume "find (\<lambda>w. w \<noteq> [] \<and> prefix w s) ws = Some w"
  then have "w \<noteq> []" and "prefix w s" by (auto simp: find_Some_iff)
  then show "((ws, drop (length w) s), ws, s) \<in> measure (\<lambda>(ws, s). length s)"
    by (auto simp: prefix_def)
qed simp

declare strip_start.simps [simp del]

definition trim_start :: "string \<Rightarrow> string" where
  "trim_start s = strip_start white_space s"

definition trim_end :: "string \<Rightarrow> string" where
  "trim_end s = rev (strip_start (map rev white_space) (rev s))"

definition trim :: "string \<Rightarrow> string" where
  "trim s = trim_end (trim_start s)"

definition is_graph :: "char \<Rightarrow> bool" where
  "is_graph c \<longleftrightarrow> 33 \<le> (of_char c :: nat) \<and> (of_char c :: nat) < 127"

lemma white_space_not_graph:
  "w \<in> set white_space \<Longrightarrow> w \<noteq> [] \<and> \<not> is_graph (hd w) \<and> \<not> is_graph (last w)"
  by (auto simp: white_space_def is_graph_def)

lemma strip_start_id:
  assumes "\<And>w. w \<in> set ws \<Longrightarrow> w \<noteq> [] \<Longrightarrow> \<not> is_graph (hd w)" and "s = [] \<or> is_graph (hd s)"
  shows "strip_start ws s = s"
proof -
  have "find (\<lambda>w. w \<noteq> [] \<and> prefix w s) ws = None"
    using assms by (fastforce simp: find_None_iff prefix_def hd_append)
  then show ?thesis by (subst strip_start.simps) simp
qed

lemma trim_id:
  assumes "s = [] \<or> is_graph (hd s) \<and> is_graph (last s)"
  shows "trim s = s"
proof -
  have "strip_start white_space s = s"
    using assms white_space_not_graph by (intro strip_start_id) auto
  moreover have "strip_start (map rev white_space) (rev s) = rev s"
    using assms white_space_not_graph by (intro strip_start_id) (auto simp: hd_rev)
  ultimately show ?thesis by (simp add: trim_def trim_start_def trim_end_def)
qed

section \<open>Decimal and hexadecimal rendering\<close>

definition digit_char :: "nat \<Rightarrow> char" where
  "digit_char d = char_of (if d < 10 then 48 + d else 87 + d)"

fun dec_string :: "nat \<Rightarrow> string" where
  "dec_string n = (if n < 10 then [digit_char n] else dec_string (n div 10) @ [digit_char (n mod 10)])"

declare dec_string.simps [simp del]

definition hex16 :: "nat \<Rightarrow> string" where
  "hex16 n = map (\<lambda>i. digit_char (n div 16 ^ i mod 16)) (rev [0..<16])"

lemma of_char_digit_char: "d < 16 \<Longrightarrow> of_char (digit_char d) = (if d < 10 then 48 + d else 87 + d)"
  by (simp add: digit_char_def)

lemma is_digit_digit_char: "d < 10 \<Longrightarrow> is_digit (digit_char d)"
  by (simp add: is_digit_def of_char_digit_char)

lemma digit_char_inj:
  assumes "d < 16" and "e < 16"
  shows "digit_char d = digit_char e \<longleftrightarrow> d = e"
proof
  assume "digit_char d = digit_char e"
  then have "(if d < 10 then 48 + d else 87 + d) = (if e < 10 then 48 + e else 87 + e)"
    by (simp only: of_char_digit_char [OF assms(1), symmetric] of_char_digit_char [OF assms(2), symmetric])
  with assms show "d = e" by (simp split: if_splits)
qed simp

lemma dec_string_step:
  "dec_string n = (if n < 10 then [] else dec_string (n div 10)) @ [digit_char (n mod 10)]"
  by (subst dec_string.simps) simp

lemma dec_string_digits: "c \<in> set (dec_string n) \<Longrightarrow> is_digit c"
proof (induction n rule: dec_string.induct)
  case (1 n)
  from "1.prems" have "c = digit_char (n mod 10) \<or> (\<not> n < 10 \<and> c \<in> set (dec_string (n div 10)))"
    unfolding dec_string_step [of n] by (auto split: if_splits)
  with "1.IH" show ?case by (auto intro: is_digit_digit_char)
qed

lemma dec_string_not_Nil [simp]: "dec_string n \<noteq> []"
  by (subst dec_string_step) simp

lemma Nil_not_dec_string [simp]: "[] \<noteq> dec_string n"
  by (rule dec_string_not_Nil [THEN not_sym])

lemma dec_string_inj: "dec_string m = dec_string n \<Longrightarrow> m = n"
proof (induction m arbitrary: n rule: dec_string.induct)
  case (1 m)
  from "1.prems" have
    hi: "(if m < 10 then [] else dec_string (m div 10)) = (if n < 10 then [] else dec_string (n div 10))"
    and lo: "digit_char (m mod 10) = digit_char (n mod 10)"
    unfolding dec_string_step [of m] dec_string_step [of n] by simp_all
  from lo have lo': "m mod 10 = n mod 10" by (simp add: digit_char_inj)
  show ?case
  proof (cases "m < 10")
    case True
    with hi have "n < 10" by (cases "n < 10") simp_all
    with True lo' show ?thesis by simp
  next
    case False
    with hi have "\<not> n < 10" by (cases "n < 10") simp_all
    with False hi "1.IH" have "m div 10 = n div 10" by simp
    with lo' show ?thesis by (metis div_mult_mod_eq)
  qed
qed

section \<open>Lists\<close>

text \<open>\<open>Vec::insert\<close> at a position that the caller keeps within the length.\<close>

definition vec_insert :: "nat \<Rightarrow> 'a \<Rightarrow> 'a list \<Rightarrow> 'a list" where
  "vec_insert i x xs = take i xs @ x # drop i xs"

lemma mset_vec_insert [simp]: "mset (vec_insert i x xs) = add_mset x (mset xs)"
proof -
  have "mset (take i xs) + mset (drop i xs) = mset xs"
    by (metis append_take_drop_id mset_append)
  then show ?thesis by (simp add: vec_insert_def)
qed

lemma nth_vec_insert_same: "i \<le> length xs \<Longrightarrow> vec_insert i x xs ! i = x"
  by (simp add: vec_insert_def nth_append)

lemma find_Some_iff2: "find P xs = Some x \<Longrightarrow> x \<in> set xs \<and> P x"
  by (induction xs) (auto split: if_splits)

lemma find_None_all: "find P xs = None \<longleftrightarrow> (\<forall>x \<in> set xs. \<not> P x)"
  by (induction xs) auto

lemma find_Some_split:
  "find P xs = Some x \<Longrightarrow> \<exists>ys zs. xs = ys @ x # zs \<and> P x \<and> (\<forall>y \<in> set ys. \<not> P y)"
proof (induction xs)
  case (Cons a xs)
  show ?case
  proof (cases "P a")
    case True
    with Cons.prems show ?thesis by (intro exI [of _ "[]"] exI [of _ xs]) simp
  next
    case False
    with Cons obtain ys zs where "xs = ys @ x # zs" "P x" "\<forall>y \<in> set ys. \<not> P y" by auto
    with False show ?thesis by (intro exI [of _ "a # ys"] exI [of _ zs]) simp
  qed
qed simp

lemma sum_list_filter_le: "sum_list (map f (filter P xs)) \<le> (sum_list (map f xs) :: nat)"
  by (induction xs) auto

end
