(* ===== verification/Lease_Protocol.thy ===== *)
theory Lease_Protocol
  imports Bellows_Prelude
begin

text \<open>
  The messages of the lease daemon (\<open>crates/bellows-lease/src/protocol.rs\<close>) and the estimate
  parser of \<open>crates/bellows-lease/src/lib.rs\<close>. JSON framing is \<open>serde_json\<close>'s; a message is the
  value it decodes to.
\<close>

section \<open>Messages\<close>

record request =
  rq_machine :: string
  rq_label :: string
  rq_priority :: int
  rq_pr :: "nat option"
  rq_estimate_secs :: nat
  rq_session :: bool
  rq_token :: "string option"
  rq_client_pid :: nat

datatype admin_action =
    Reorder nat nat
  | Pause string
  | Resume string
  | Preempt nat
  | Reserve string string nat
  | Unreserve string
  | Cancel nat

datatype hello =
    Request_lease request
  | Status
  | CiStart string string
  | CiStop string string
  | Admin string admin_action
  | Unleased string string "nat option" string

datatype client_event = Spawned int | Done int

record holder_view =
  hv_id :: nat
  hv_label :: string
  hv_held_secs :: nat
  hv_estimate_secs :: nat
  hv_session :: bool
  hv_preempting :: bool

record queued_view =
  qv_id :: nat
  qv_label :: string
  qv_priority :: int
  qv_pr :: "nat option"
  qv_merge_queue_position :: "nat option"
  qv_waited_secs :: nat
  qv_estimate_secs :: nat

record machine_status =
  ms_machine :: string
  ms_paused :: bool
  ms_reserved_for :: "string option"
  ms_ci_jobs :: "string list"
  ms_jobs :: nat
  ms_holder :: "holder_view option"
  ms_queue :: "queued_view list"

text \<open>
  The text of a refusal is one of the daemon's fixed messages; those that carry data carry it here
  as arguments: admission names the known machines, a CI registration only the unknown one.
\<close>

datatype refusal =
    UnknownMachine string "string list"
  | UnknownCiMachine string
  | SessionPreempted
  | BadRequest
  | WrongAdminSecret
  | NoSuchRequestLeaseOrMachine
  | CancelledByAdministrator

datatype reply =
    Queued nat nat "string option"
  | Granted nat nat "string option" bool
  | Refused refusal
  | Revoked refusal
  | Preempting
  | Status_report "machine_status list"
  | Reply_ok

section \<open>Estimates\<close>

datatype duration_error = InvalidNumber | InvalidUnit

definition digit_value :: "char \<Rightarrow> nat" where
  "digit_value c = of_char c - 48"

text \<open>
  \<open>str::parse::<u64>\<close>: rejects the empty string and a value above \<open>u64::MAX\<close>. The caller has cut
  the text at its first non-digit, so a leading plus sign, which \<open>parse\<close> would accept, never
  reaches it.
\<close>

definition parse_u64 :: "string \<Rightarrow> nat option" where
  "parse_u64 s =
     (if s = [] \<or> \<not> list_all is_digit s then None
      else let v = foldl (\<lambda>a c. 10 * a + digit_value c) 0 s
           in if v \<le> u64_max then Some v else None)"

definition parse_duration_secs :: "string \<Rightarrow> duration_error + nat" where
  "parse_duration_secs text0 =
     (let text = trim text0;
          number = takeWhile is_digit text;
          rest = dropWhile is_digit text;
          unit = (if rest = [] then ''m'' else rest)
      in case parse_u64 number of
           None \<Rightarrow> Inl InvalidNumber
         | Some v \<Rightarrow>
             if unit = ''s'' then Inr (sat_mul64 v 1)
             else if unit = ''m'' then Inr (sat_mul64 v 60)
             else if unit = ''h'' then Inr (sat_mul64 v 3600)
             else Inl InvalidUnit)"

lemma digit_value_digit_char: "d < 10 \<Longrightarrow> digit_value (digit_char d) = d"
  by (simp add: digit_value_def of_char_digit_char)

lemma foldl_dec_string: "foldl (\<lambda>a c. 10 * a + digit_value c) 0 (dec_string n) = n"
proof (induction n rule: dec_string.induct)
  case (1 n)
  show ?case
  proof (cases "n < 10")
    case True
    then show ?thesis unfolding dec_string_step [of n] by (simp add: digit_value_digit_char)
  next
    case False
    with "1.IH" show ?thesis
      unfolding dec_string_step [of n] by (simp add: digit_value_digit_char)
  qed
qed

lemma parse_u64_dec_string: "n \<le> u64_max \<Longrightarrow> parse_u64 (dec_string n) = Some n"
  by (auto simp: parse_u64_def foldl_dec_string list_all_iff intro: dec_string_digits)

lemma takeWhile_dec_string: "takeWhile is_digit (dec_string n @ s) = dec_string n @ takeWhile is_digit s"
  and dropWhile_dec_string: "dropWhile is_digit (dec_string n @ s) = dropWhile is_digit s"
  using dec_string_digits by (auto intro!: takeWhile_append2 dropWhile_append2)

lemma takeWhile_dec_string_all: "takeWhile is_digit (dec_string n) = dec_string n"
  and dropWhile_dec_string_all: "dropWhile is_digit (dec_string n) = []"
  using dec_string_digits by (auto simp: takeWhile_eq_all_conv)

lemma is_digit_graph: "is_digit c \<Longrightarrow> is_graph c"
  by (auto simp: is_digit_def is_graph_def)

lemma trim_dec_string:
  assumes "s = [] \<or> is_graph (last s)"
  shows "trim (dec_string n @ s) = dec_string n @ s"
proof (rule trim_id)
  have "is_graph (hd (dec_string n))" and "is_graph (last (dec_string n))"
    using dec_string_digits [OF hd_in_set [OF dec_string_not_Nil]]
      dec_string_digits [OF last_in_set [OF dec_string_not_Nil]]
    by (simp_all add: is_digit_graph)
  then show "dec_string n @ s = [] \<or> is_graph (hd (dec_string n @ s)) \<and> is_graph (last (dec_string n @ s))"
    using assms by (cases "s = []") auto
qed

text \<open>
  An estimate written as a decimal number with one of the unit letters, or with none, parses
  back to that number of seconds, minutes or hours, saturating at \<open>u64::MAX\<close> seconds.
\<close>

theorem parse_duration_roundtrip:
  assumes "n \<le> u64_max"
  shows "parse_duration_secs (dec_string n @ ''s'') = Inr n
       \<and> parse_duration_secs (dec_string n @ ''m'') = Inr (sat_mul64 n 60)
       \<and> parse_duration_secs (dec_string n @ ''h'') = Inr (sat_mul64 n 3600)
       \<and> parse_duration_secs (dec_string n) = Inr (sat_mul64 n 60)"
proof -
  have t: "trim (dec_string n @ s) = dec_string n @ s" if "s \<in> {'''', ''s'', ''m'', ''h''}" for s
    using that by (intro trim_dec_string) (auto simp: is_graph_def)
  have d: "\<not> is_digit CHR ''s''" "\<not> is_digit CHR ''m''" "\<not> is_digit CHR ''h''"
    by (simp_all add: is_digit_def)
  show ?thesis
    using t [of "''''"] t [of "''s''"] t [of "''m''"] t [of "''h''"] d assms
    by (simp add: parse_duration_secs_def Let_def takeWhile_dec_string dropWhile_dec_string
        parse_u64_dec_string takeWhile_dec_string_all dropWhile_dec_string_all sat_mul64_def
        min_absorb1)
qed

theorem parse_duration_roundtrip_witness:
  "(20 :: nat) \<le> u64_max \<and> parse_duration_secs (dec_string 20 @ ''m'') = Inr 1200"
proof -
  have h: "(20 :: nat) \<le> u64_max" by (simp add: u64_max_def)
  show ?thesis using h parse_duration_roundtrip [OF h] by (simp add: sat_mul64_def u64_max_def)
qed

end
