(* ===== verification/Lease_Scheduler.thy ===== *)
theory Lease_Scheduler
  imports Lease_Protocol
begin

text \<open>
  The lease state machine of \<open>crates/bellows-lease/src/scheduler.rs\<close>: its state, one function per
  method of \<open>Scheduler\<close>, and the operations' functional lemmas. \<open>BTreeMap\<close>s whose iteration
  order the code uses are key-sorted association lists; \<open>HashMap\<close>s are maps. Times are
  milliseconds as \<open>u64\<close>, so \<open>saturating_sub\<close> is \<open>-\<close> on \<open>nat\<close>.
\<close>

section \<open>State\<close>

record config =
  cf_machines :: "string list"
  cf_jobs :: nat
  cf_ci_jobs :: nat
  cf_ci_expiry_ms :: nat

definition default_config :: config where
  "default_config = \<lparr>cf_machines = [''laptop'', ''desktop''], cf_jobs = 24, cf_ci_jobs = 12,
     cf_ci_expiry_ms = 3 * 60 * 60 * 1000\<rparr>"

record waiting =
  w_id :: nat
  w_request :: request
  w_since_ms :: nat
  w_manual_position :: "nat option"

record holder =
  h_id :: nat
  h_machine :: string
  h_label :: string
  h_since_ms :: nat
  h_estimate_secs :: nat
  h_session :: bool
  h_token :: "string option"
  h_preempting :: bool
  h_overrun_logged :: bool

record grant =
  g_id :: nat
  g_machine :: string
  g_jobs :: nat
  g_token :: "string option"
  g_nested :: bool

datatype admission = Admit_queued nat | Admit_nested grant | Admit_refused refusal

record scheduler =
  s_config :: config
  s_next_id :: nat
  s_waiting :: "waiting list"
  s_holders :: "(string \<times> holder) list"
  s_nested :: "nat \<rightharpoonup> string"
  s_paused :: "string set"
  s_reserved :: "string \<rightharpoonup> string \<times> nat"
  s_ci :: "(string \<times> (string \<times> nat) list) list"
  s_merge_queue :: "nat \<rightharpoonup> nat"
  s_unclaimed :: "nat \<rightharpoonup> grant"
  s_token_seed :: "64 word"

definition new_scheduler :: "config \<Rightarrow> 64 word \<Rightarrow> scheduler" where
  "new_scheduler c seed = \<lparr>s_config = c, s_next_id = 1, s_waiting = [], s_holders = [],
     s_nested = Map.empty, s_paused = {}, s_reserved = Map.empty, s_ci = [],
     s_merge_queue = Map.empty, s_unclaimed = Map.empty, s_token_seed = seed\<rparr>"

abbreviation holder_of :: "scheduler \<Rightarrow> string \<rightharpoonup> holder" where
  "holder_of s \<equiv> map_of (s_holders s)"

section \<open>Queries\<close>

definition knows :: "scheduler \<Rightarrow> string \<Rightarrow> bool" where
  "knows s machine \<longleftrightarrow> machine \<in> set (cf_machines (s_config s))"

definition ci_active :: "scheduler \<Rightarrow> string \<Rightarrow> nat \<Rightarrow> bool" where
  "ci_active s machine now =
     (case map_of (s_ci s) machine of
        None \<Rightarrow> False
      | Some jobs \<Rightarrow> list_ex (\<lambda>(job, started). now - started < cf_ci_expiry_ms (s_config s)) jobs)"

definition jobs :: "scheduler \<Rightarrow> string \<Rightarrow> nat \<Rightarrow> nat" where
  "jobs s machine now =
     (if ci_active s machine now then cf_ci_jobs (s_config s) else cf_jobs (s_config s))"

text \<open>
  The sort keys of \<open>order\<close>. \<open>Reverse(priority)\<close> orders as the negated priority does;
  a request without a merge-queue position ranks with \<open>usize::MAX\<close>.
\<close>

definition auto_key :: "scheduler \<Rightarrow> waiting \<Rightarrow> int \<times> nat \<times> nat \<times> nat" where
  "auto_key s w =
     (- rq_priority (w_request w),
      (case Option.bind (rq_pr (w_request w)) (s_merge_queue s) of None \<Rightarrow> usize_max | Some p \<Rightarrow> p),
      w_since_ms w,
      w_id w)"

definition manual_key :: "waiting \<Rightarrow> nat option \<times> nat" where
  "manual_key w = (w_manual_position w, w_id w)"

definition place_manual :: "waiting list \<Rightarrow> waiting \<Rightarrow> waiting list" where
  "place_manual automatic w =
     vec_insert (min (case w_manual_position w of None \<Rightarrow> 0 | Some p \<Rightarrow> p) (length automatic)) w automatic"

definition order :: "scheduler \<Rightarrow> string \<Rightarrow> waiting list" where
  "order s machine =
     (let automatic = sort_key (auto_key s)
            (filter (\<lambda>w. rq_machine (w_request w) = machine \<and> w_manual_position w = None) (s_waiting s));
          manual = sort_key manual_key
            (filter (\<lambda>w. rq_machine (w_request w) = machine \<and> w_manual_position w \<noteq> None) (s_waiting s))
      in foldl place_manual automatic manual)"

fun index_of :: "('a \<Rightarrow> bool) \<Rightarrow> 'a list \<Rightarrow> nat option" where
  "index_of P [] = None"
| "index_of P (x # xs) = (if P x then Some 0 else map_option Suc (index_of P xs))"

definition position :: "scheduler \<Rightarrow> nat \<Rightarrow> nat option" where
  "position s i =
     (case find (\<lambda>w. w_id w = i) (s_waiting s) of
        None \<Rightarrow> None
      | Some w \<Rightarrow> index_of (\<lambda>w. w_id w = i) (order s (rq_machine (w_request w))))"

definition holder_label :: "scheduler \<Rightarrow> string \<Rightarrow> string option" where
  "holder_label s machine = map_option h_label (holder_of s machine)"

definition machine_of :: "scheduler \<Rightarrow> nat \<Rightarrow> string option" where
  "machine_of s i =
     (case find (\<lambda>w. w_id w = i) (s_waiting s) of
        Some w \<Rightarrow> Some (rq_machine (w_request w))
      | None \<Rightarrow> map_option h_machine (find (\<lambda>h. h_id h = i) (map snd (s_holders s))))"

definition is_waiting :: "scheduler \<Rightarrow> nat \<Rightarrow> bool" where
  "is_waiting s i \<longleftrightarrow> list_ex (\<lambda>w. w_id w = i) (s_waiting s)"

definition holds :: "scheduler \<Rightarrow> nat \<Rightarrow> bool" where
  "holds s i \<longleftrightarrow> list_ex (\<lambda>h. h_id h = i) (map snd (s_holders s)) \<or> s_nested s i \<noteq> None"

section \<open>Admission\<close>

definition session_match :: "scheduler \<Rightarrow> request \<Rightarrow> holder option" where
  "session_match s r =
     (case rq_token r of
        None \<Rightarrow> None
      | Some token \<Rightarrow>
          (case holder_of s (rq_machine r) of
             None \<Rightarrow> None
           | Some h \<Rightarrow> (if h_token h = Some token then Some h else None)))"

definition admit :: "scheduler \<Rightarrow> request \<Rightarrow> nat \<Rightarrow> admission \<times> scheduler" where
  "admit s r now =
     (if \<not> knows s (rq_machine r) then
        (Admit_refused (UnknownMachine (rq_machine r) (cf_machines (s_config s))), s)
      else
        let i = s_next_id s;
            s1 = s\<lparr>s_next_id := wrap_add64 (s_next_id s) 1\<rparr>
        in case session_match s1 r of
             Some h \<Rightarrow>
               (if h_preempting h then (Admit_refused SessionPreempted, s1)
                else
                  (Admit_nested \<lparr>g_id = i, g_machine = rq_machine r,
                      g_jobs = jobs s1 (rq_machine r) now, g_token = rq_token r, g_nested = True\<rparr>,
                   s1\<lparr>s_nested := (s_nested s1)(i \<mapsto> rq_machine r)\<rparr>))
           | None \<Rightarrow>
               (Admit_queued i,
                s1\<lparr>s_waiting := s_waiting s1 @
                  [\<lparr>w_id = i, w_request = r, w_since_ms = now, w_manual_position = None\<rparr>]\<rparr>))"

section \<open>Granting\<close>

definition next_seed :: "64 word \<Rightarrow> 64 word" where
  "next_seed seed = seed * 6364136223846793005 + 1442695040888963407"

definition token_string :: "nat \<Rightarrow> 64 word \<Rightarrow> string" where
  "token_string i seed = dec_string i @ ''-'' @ hex16 (unat seed)"

definition token :: "scheduler \<Rightarrow> nat \<Rightarrow> string \<times> scheduler" where
  "token s i = (let seed = next_seed (s_token_seed s)
                in (token_string i seed, s\<lparr>s_token_seed := seed\<rparr>))"

definition reservation :: "scheduler \<Rightarrow> string \<Rightarrow> nat \<Rightarrow> string option" where
  "reservation s machine now =
     (case s_reserved s machine of
        None \<Rightarrow> None
      | Some (label, until) \<Rightarrow> (if until > now then Some label else None))"

definition eligible :: "string option \<Rightarrow> waiting \<Rightarrow> bool" where
  "eligible res w =
     (case res of None \<Rightarrow> True | Some label \<Rightarrow> str_contains (rq_label (w_request w)) label)"

definition candidate :: "scheduler \<Rightarrow> string \<Rightarrow> nat \<Rightarrow> waiting option" where
  "candidate s machine now = find (eligible (reservation s machine now)) (order s machine)"

fun remove_first :: "('a \<Rightarrow> bool) \<Rightarrow> 'a list \<Rightarrow> 'a list" where
  "remove_first P [] = []"
| "remove_first P (x # xs) = (if P x then xs else x # remove_first P xs)"

text \<open>
  The body of the loop once the request to grant is chosen. The code looks the chosen id up in
  the waiting list again and panics when it is missing; \<open>candidate_waiting\<close> below shows it
  never is, and the model uses the request the order gave.
\<close>

definition grant_to :: "scheduler \<Rightarrow> string \<Rightarrow> nat \<Rightarrow> waiting \<Rightarrow> grant \<times> scheduler" where
  "grant_to s machine now w =
     (let i = w_id w;
          s1 = s\<lparr>s_waiting := remove_first (\<lambda>w. w_id w = i) (s_waiting s)\<rparr>;
          (tok, s2) = (if rq_session (w_request w)
                       then (let (t, s') = token s1 i in (Some t, s')) else (None, s1));
          n = jobs s2 machine now;
          h = \<lparr>h_id = i, h_machine = machine, h_label = rq_label (w_request w), h_since_ms = now,
               h_estimate_secs = rq_estimate_secs (w_request w),
               h_session = rq_session (w_request w), h_token = tok,
               h_preempting = False, h_overrun_logged = False\<rparr>;
          g = \<lparr>g_id = i, g_machine = machine, g_jobs = n, g_token = tok, g_nested = False\<rparr>
      in (g, s2\<lparr>s_holders := bt_insert machine h (s_holders s2),
                s_unclaimed := (s_unclaimed s2)(i \<mapsto> g)\<rparr>))"

definition grant_machine :: "scheduler \<Rightarrow> nat \<Rightarrow> string \<Rightarrow> grant list \<times> scheduler" where
  "grant_machine s now machine =
     (if holder_of s machine \<noteq> None \<or> machine \<in> s_paused s then ([], s)
      else case candidate s machine now of
             None \<Rightarrow> ([], s)
           | Some w \<Rightarrow> (let (g, s') = grant_to s machine now w in ([g], s')))"

fun grant_loop :: "string list \<Rightarrow> nat \<Rightarrow> scheduler \<Rightarrow> grant list \<times> scheduler" where
  "grant_loop [] now s = ([], s)"
| "grant_loop (m # ms) now s =
     (let (g1, s1) = grant_machine s now m; (g2, s2) = grant_loop ms now s1 in (g1 @ g2, s2))"

definition grant :: "scheduler \<Rightarrow> nat \<Rightarrow> grant list \<times> scheduler" where
  "grant s now = grant_loop (cf_machines (s_config s)) now s"

definition claim :: "scheduler \<Rightarrow> nat \<Rightarrow> grant option \<times> scheduler" where
  "claim s i = (s_unclaimed s i, s\<lparr>s_unclaimed := (s_unclaimed s)(i := None)\<rparr>)"

section \<open>Release and administration\<close>

definition release :: "scheduler \<Rightarrow> nat \<Rightarrow> holder option \<times> scheduler" where
  "release s i =
     (let s1 = s\<lparr>s_waiting := filter (\<lambda>w. w_id w \<noteq> i) (s_waiting s),
                s_unclaimed := (s_unclaimed s)(i := None)\<rparr>
      in if s_nested s1 i \<noteq> None then (None, s1\<lparr>s_nested := (s_nested s1)(i := None)\<rparr>)
         else case find (\<lambda>(m, h). h_id h = i) (s_holders s1) of
                None \<Rightarrow> (None, s1)
              | Some (m, h) \<Rightarrow>
                  (holder_of s1 m, s1\<lparr>s_holders := bt_remove m (s_holders s1)\<rparr>))"

fun set_manual :: "nat \<Rightarrow> nat \<Rightarrow> waiting list \<Rightarrow> waiting list" where
  "set_manual i p [] = []"
| "set_manual i p (w # ws) =
     (if w_id w = i then w\<lparr>w_manual_position := Some p\<rparr> # ws else w # set_manual i p ws)"

definition reorder :: "scheduler \<Rightarrow> nat \<Rightarrow> nat \<Rightarrow> bool \<times> scheduler" where
  "reorder s i p =
     (if is_waiting s i then (True, s\<lparr>s_waiting := set_manual i p (s_waiting s)\<rparr>) else (False, s))"

definition set_paused :: "scheduler \<Rightarrow> string \<Rightarrow> bool \<Rightarrow> scheduler" where
  "set_paused s machine b =
     (if b then s\<lparr>s_paused := insert machine (s_paused s)\<rparr>
      else s\<lparr>s_paused := s_paused s - {machine}\<rparr>)"

definition reserve :: "scheduler \<Rightarrow> string \<Rightarrow> (string \<times> nat) option \<Rightarrow> scheduler" where
  "reserve s machine label = s\<lparr>s_reserved := (s_reserved s)(machine := label)\<rparr>"

fun mark_preempting :: "nat \<Rightarrow> (string \<times> holder) list \<Rightarrow> (string \<times> holder) list" where
  "mark_preempting i [] = []"
| "mark_preempting i ((m, h) # hs) =
     (if h_id h = i then (m, h\<lparr>h_preempting := True\<rparr>) # hs else (m, h) # mark_preempting i hs)"

definition preempt :: "scheduler \<Rightarrow> nat \<Rightarrow> bool \<times> scheduler" where
  "preempt s i =
     (if list_ex (\<lambda>h. h_id h = i) (map snd (s_holders s))
      then (True, s\<lparr>s_holders := mark_preempting i (s_holders s)\<rparr>) else (False, s))"

definition ci_start :: "scheduler \<Rightarrow> string \<Rightarrow> string \<Rightarrow> nat \<Rightarrow> scheduler" where
  "ci_start s machine job now =
     (let m = (case map_of (s_ci s) machine of None \<Rightarrow> [] | Some m \<Rightarrow> m)
      in s\<lparr>s_ci := bt_insert machine (bt_insert job now m) (s_ci s)\<rparr>)"

definition ci_stop :: "scheduler \<Rightarrow> string \<Rightarrow> string \<Rightarrow> scheduler" where
  "ci_stop s machine job =
     (case map_of (s_ci s) machine of
        None \<Rightarrow> s
      | Some m \<Rightarrow> s\<lparr>s_ci := bt_insert machine (bt_remove job m) (s_ci s)\<rparr>)"

definition set_merge_queue :: "scheduler \<Rightarrow> (nat \<rightharpoonup> nat) \<Rightarrow> scheduler" where
  "set_merge_queue s positions = s\<lparr>s_merge_queue := positions\<rparr>"

definition overdue :: "nat \<Rightarrow> holder \<Rightarrow> bool" where
  "overdue now h \<longleftrightarrow>
     \<not> h_overrun_logged h \<and> now - h_since_ms h > sat_mul64 (h_estimate_secs h) 1500"

definition log_overrun :: "nat \<Rightarrow> holder \<Rightarrow> holder" where
  "log_overrun now h = (if overdue now h then h\<lparr>h_overrun_logged := True\<rparr> else h)"

definition overruns :: "scheduler \<Rightarrow> nat \<Rightarrow> holder list \<times> scheduler" where
  "overruns s now =
     (map (log_overrun now) (filter (overdue now) (map snd (s_holders s))),
      s\<lparr>s_holders := map (\<lambda>(m, h). (m, log_overrun now h)) (s_holders s)\<rparr>)"

section \<open>Status\<close>

definition holder_status :: "nat \<Rightarrow> holder \<Rightarrow> holder_view" where
  "holder_status now h =
     \<lparr>hv_id = h_id h, hv_label = h_label h, hv_held_secs = (now - h_since_ms h) div 1000,
      hv_estimate_secs = h_estimate_secs h, hv_session = h_session h,
      hv_preempting = h_preempting h\<rparr>"

definition queued_status :: "scheduler \<Rightarrow> nat \<Rightarrow> waiting \<Rightarrow> queued_view" where
  "queued_status s now w =
     \<lparr>qv_id = w_id w, qv_label = rq_label (w_request w), qv_priority = rq_priority (w_request w),
      qv_pr = rq_pr (w_request w),
      qv_merge_queue_position = Option.bind (rq_pr (w_request w)) (s_merge_queue s),
      qv_waited_secs = (now - w_since_ms w) div 1000,
      qv_estimate_secs = rq_estimate_secs (w_request w)\<rparr>"

definition machine_status :: "scheduler \<Rightarrow> nat \<Rightarrow> string \<Rightarrow> machine_status" where
  "machine_status s now machine =
     \<lparr>ms_machine = machine, ms_paused = (machine \<in> s_paused s),
      ms_reserved_for = reservation s machine now,
      ms_ci_jobs =
        (case map_of (s_ci s) machine of
           None \<Rightarrow> []
         | Some js \<Rightarrow> map fst (filter (\<lambda>(job, started). now - started < cf_ci_expiry_ms (s_config s)) js)),
      ms_jobs = jobs s machine now,
      ms_holder = map_option (holder_status now) (holder_of s machine),
      ms_queue = map (queued_status s now) (order s machine)\<rparr>"

definition status :: "scheduler \<Rightarrow> nat \<Rightarrow> machine_status list" where
  "status s now = map (machine_status s now) (cf_machines (s_config s))"

end
