(* ===== verification/Lease_Scheduler_Props.thy ===== *)
theory Lease_Scheduler_Props
  imports Lease_Scheduler
begin

text \<open>
  What the lease scheduler guarantees: the grant order, the state invariant and that every
  operation keeps it, and the behaviour of granting, releasing and administration.
\<close>

section \<open>The grant order\<close>

lemma mset_foldl_place_manual: "mset (foldl place_manual a ms) = mset a + mset ms"
  by (induction ms arbitrary: a) (simp_all add: place_manual_def)

lemma mset_filter_split:
  "mset (filter (\<lambda>x. P x \<and> Q x) xs) + mset (filter (\<lambda>x. P x \<and> \<not> Q x) xs) = mset (filter P xs)"
  by (induction xs) auto

lemma mset_order:
  "mset (order s m) = mset (filter (\<lambda>w. rq_machine (w_request w) = m) (s_waiting s))"
  unfolding order_def Let_def mset_foldl_place_manual mset_sort
  by (rule mset_filter_split)

lemma set_order: "set (order s m) = {w \<in> set (s_waiting s). rq_machine (w_request w) = m}"
proof -
  have "set_mset (mset (order s m)) = set (filter (\<lambda>w. rq_machine (w_request w) = m) (s_waiting s))"
    by (simp add: mset_order del: set_mset_mset) simp
  then show ?thesis by auto
qed

lemma order_no_manual:
  assumes "\<forall>w \<in> set (s_waiting s). rq_machine (w_request w) = m \<longrightarrow> w_manual_position w = None"
  shows "order s m = sort_key (auto_key s) (filter (\<lambda>w. rq_machine (w_request w) = m) (s_waiting s))"
proof -
  have "filter (\<lambda>w. rq_machine (w_request w) = m \<and> w_manual_position w \<noteq> None) (s_waiting s) = []"
    using assms by (auto simp: filter_empty_conv)
  moreover have "filter (\<lambda>w. rq_machine (w_request w) = m \<and> w_manual_position w = None) (s_waiting s)
      = filter (\<lambda>w. rq_machine (w_request w) = m) (s_waiting s)"
    using assms by (auto intro: filter_cong)
  ultimately show ?thesis by (simp add: order_def)
qed

lemma find_sorted_least:
  assumes "find P xs = Some x" and "sorted (map k xs)" and "y \<in> set xs" and "P y"
  shows "k x \<le> (k y :: 'b :: linorder)"
proof -
  obtain ys zs where split: "xs = ys @ x # zs" "\<forall>y \<in> set ys. \<not> P y"
    using find_Some_split [OF assms(1)] by blast
  with assms(3,4) have "y = x \<or> y \<in> set zs" by auto
  with assms(2) split(1) show ?thesis by (auto simp: sorted_append)
qed

lemma candidate_waiting:
  "candidate s m now = Some w \<Longrightarrow>
     w \<in> set (s_waiting s) \<and> rq_machine (w_request w) = m \<and> eligible (reservation s m now) w"
  unfolding candidate_def using set_order [of s m] by (auto dest: find_Some_iff2)

lemma candidate_None:
  "candidate s m now = None \<longleftrightarrow>
     (\<forall>w \<in> set (s_waiting s). rq_machine (w_request w) = m \<longrightarrow> \<not> eligible (reservation s m now) w)"
  unfolding candidate_def find_None_all set_order by auto


definition ex_request :: "string \<Rightarrow> string \<Rightarrow> int \<Rightarrow> nat option \<Rightarrow> request" where
  "ex_request m l p pr = \<lparr>rq_machine = m, rq_label = l, rq_priority = p, rq_pr = pr,
     rq_estimate_secs = 600, rq_session = False, rq_token = None, rq_client_pid = 0\<rparr>"

definition ex_two :: scheduler where
  "ex_two = (let s0 = new_scheduler default_config 0;
                 s1 = snd (admit s0 (ex_request ''laptop'' ''first'' 0 None) 1)
             in snd (admit s1 (ex_request ''laptop'' ''urgent'' 5 None) 4))"

lemmas ex_two_simps = ex_two_def ex_request_def new_scheduler_def default_config_def admit_def
  knows_def session_match_def wrap_add64_def u64_max_def Let_def


section \<open>The state invariant\<close>

definition waiting_ids :: "scheduler \<Rightarrow> nat list" where
  "waiting_ids s = map w_id (s_waiting s)"

definition holder_ids :: "scheduler \<Rightarrow> nat list" where
  "holder_ids s = map (\<lambda>e. h_id (snd e)) (s_holders s)"

definition holder_ok :: "scheduler \<Rightarrow> string \<Rightarrow> holder \<Rightarrow> bool" where
  "holder_ok s m h \<longleftrightarrow> h_machine h = m \<and> knows s m \<and> (h_session h \<longleftrightarrow> h_token h \<noteq> None)
     \<and> (\<forall>t. h_token h = Some t \<longrightarrow> (\<exists>seed. t = token_string (h_id h) seed))"

definition grant_ok :: "scheduler \<Rightarrow> nat \<Rightarrow> grant \<Rightarrow> bool" where
  "grant_ok s i g \<longleftrightarrow> g_id g = i \<and> \<not> g_nested g
     \<and> (\<exists>h. holder_of s (g_machine g) = Some h \<and> h_id h = i \<and> h_token h = g_token g)"

text \<open>
  Ids are handed out once and in one place: an id is waiting, holding or nested, never two of
  them; a holder sits under its own machine, which the configuration names; a grant waiting to be
  claimed is some machine's holder.
\<close>

definition ids_ok :: "scheduler \<Rightarrow> bool" where
  "ids_ok s \<longleftrightarrow> distinct (waiting_ids s @ holder_ids s)
     \<and> (\<forall>i \<in> set (waiting_ids s @ holder_ids s). i < s_next_id s \<and> s_nested s i = None)
     \<and> (\<forall>i \<in> dom (s_nested s). i < s_next_id s)"

definition entries_ok :: "scheduler \<Rightarrow> bool" where
  "entries_ok s \<longleftrightarrow> bt_wf (s_holders s)
     \<and> (\<forall>m h. (m, h) \<in> set (s_holders s) \<longrightarrow> holder_ok s m h)
     \<and> (\<forall>w \<in> set (s_waiting s). knows s (rq_machine (w_request w)))
     \<and> (\<forall>i m. s_nested s i = Some m \<longrightarrow> knows s m)
     \<and> (\<forall>i g. s_unclaimed s i = Some g \<longrightarrow> grant_ok s i g)"

definition sched_inv :: "scheduler \<Rightarrow> bool" where
  "sched_inv s \<longleftrightarrow> ids_ok s \<and> entries_ok s"

lemmas inv_defs = sched_inv_def ids_ok_def entries_ok_def waiting_ids_def holder_ids_def
  holder_ok_def grant_ok_def knows_def

lemma knows_cong: "s_config t = s_config s \<Longrightarrow> knows t = knows s"
  by (simp add: knows_def fun_eq_iff)

lemma holder_ok_cong: "s_config t = s_config s \<Longrightarrow> holder_ok t = holder_ok s"
  by (simp add: holder_ok_def knows_def fun_eq_iff)

lemma grant_ok_cong: "s_holders t = s_holders s \<Longrightarrow> grant_ok t = grant_ok s"
  by (simp add: grant_ok_def fun_eq_iff)

lemma inv_new: "sched_inv (new_scheduler c seed)"
  by (simp add: inv_defs new_scheduler_def)

lemma inv_holder:
  "sched_inv s \<Longrightarrow> (m, h) \<in> set (s_holders s) \<longleftrightarrow> holder_of s m = Some h"
  by (simp add: sched_inv_def entries_ok_def bt_get_iff)

lemma inv_holder_ok: "sched_inv s \<Longrightarrow> holder_of s m = Some h \<Longrightarrow> holder_ok s m h"
  using inv_holder [of s m h] by (simp add: sched_inv_def entries_ok_def)

lemma inv_holder_unique:
  assumes "sched_inv s" and "holder_of s m = Some h" and "holder_of s n = Some k" and "h_id h = h_id k"
  shows "m = n \<and> h = k"
proof -
  have "(m, h) \<in> set (s_holders s)" "(n, k) \<in> set (s_holders s)"
    using assms by (simp_all add: inv_holder)
  moreover have "distinct (map (\<lambda>e. h_id (snd e)) (s_holders s))"
    using assms(1) by (simp add: sched_inv_def ids_ok_def holder_ids_def)
  ultimately have "(m, h) = (n, k)" using assms(4) by (simp add: distinct_map inj_on_def) fastforce
  then show ?thesis by simp
qed

subsection \<open>Operations that leave ids and holders alone\<close>

text \<open>A state that differs only outside ids, holders and unclaimed grants keeps the invariant.\<close>

lemma inv_same_core:
  assumes "sched_inv s" and "s_config t = s_config s" and "s_next_id t = s_next_id s"
    and "waiting_ids t = waiting_ids s"
    and "map (rq_machine \<circ> w_request) (s_waiting t) = map (rq_machine \<circ> w_request) (s_waiting s)"
    and "s_holders t = s_holders s" and "s_nested t = s_nested s"
    and "\<And>i g. s_unclaimed t i = Some g \<Longrightarrow> s_unclaimed s i = Some g"
  shows "sched_inv t"
proof -
  have "(rq_machine \<circ> w_request) ` set (s_waiting t) = (rq_machine \<circ> w_request) ` set (s_waiting s)"
    using assms(5) by (metis list.set_map)
  then have "\<forall>w \<in> set (s_waiting t). knows t (rq_machine (w_request w))"
    using assms(1) knows_cong [OF assms(2)]
    by (auto simp: sched_inv_def entries_ok_def dest!: equalityD1)
  then have "entries_ok t"
    using assms(1,6-8) knows_cong [OF assms(2)] holder_ok_cong [OF assms(2)] grant_ok_cong [OF assms(6)]
    by (simp add: sched_inv_def entries_ok_def)
  moreover have "ids_ok t"
    using assms(1,3,4,6,7) by (simp add: sched_inv_def ids_ok_def holder_ids_def)
  ultimately show ?thesis by (simp add: sched_inv_def)
qed

lemma inv_set_paused: "sched_inv s \<Longrightarrow> sched_inv (set_paused s m b)"
  by (erule inv_same_core) (simp_all add: set_paused_def waiting_ids_def split: if_splits)

lemma inv_reserve: "sched_inv s \<Longrightarrow> sched_inv (reserve s m l)"
  by (erule inv_same_core) (simp_all add: reserve_def waiting_ids_def)

lemma inv_ci_start: "sched_inv s \<Longrightarrow> sched_inv (ci_start s m j now)"
  by (erule inv_same_core) (simp_all add: ci_start_def waiting_ids_def)

lemma inv_ci_stop: "sched_inv s \<Longrightarrow> sched_inv (ci_stop s m j)"
  by (erule inv_same_core) (simp_all add: ci_stop_def waiting_ids_def split: option.splits)

lemma inv_set_merge_queue: "sched_inv s \<Longrightarrow> sched_inv (set_merge_queue s q)"
  by (erule inv_same_core) (simp_all add: set_merge_queue_def waiting_ids_def)

lemma inv_claim: "sched_inv s \<Longrightarrow> sched_inv (snd (claim s i))"
  by (erule inv_same_core) (simp_all add: claim_def waiting_ids_def split: if_splits)

lemma set_manual_ids: "map w_id (set_manual i p ws) = map w_id ws"
  and set_manual_machines:
    "map (rq_machine \<circ> w_request) (set_manual i p ws) = map (rq_machine \<circ> w_request) ws"
  by (induction ws) auto

lemma inv_reorder: "sched_inv s \<Longrightarrow> sched_inv (snd (reorder s i p))"
  by (erule inv_same_core)
     (simp_all add: reorder_def waiting_ids_def set_manual_ids set_manual_machines [unfolded comp_def] comp_def
       split: if_splits)

subsection \<open>Operations on holders\<close>

lemma inv_map_holders:
  assumes "sched_inv s"
    and f: "\<And>h. h_id (f h) = h_id h \<and> h_machine (f h) = h_machine h \<and> h_session (f h) = h_session h
      \<and> h_token (f h) = h_token h"
  shows "sched_inv (s\<lparr>s_holders := map (\<lambda>(m, h). (m, f h)) (s_holders s)\<rparr>)"
proof -
  let ?t = "s\<lparr>s_holders := map (\<lambda>(m, h). (m, f h)) (s_holders s)\<rparr>"
  have ids: "holder_ids ?t = holder_ids s"
    by (simp add: holder_ids_def case_prod_unfold f)
  have wf: "bt_wf (map (\<lambda>(m, h). (m, f h)) (s_holders s)) = bt_wf (s_holders s)"
    by (simp add: bt_wf_def comp_def case_prod_unfold)
  have g: "grant_ok ?t i g" if "grant_ok s i g" for i g
    using that by (auto simp: grant_ok_def map_of_map f)
  have h: "holder_ok ?t m (f h)" if "holder_ok s m h" for m h
    using that by (simp add: holder_ok_def f knows_def)
  have "ids_ok ?t"
    using assms(1) unfolding sched_inv_def ids_ok_def ids by (simp add: waiting_ids_def)
  moreover have "entries_ok ?t"
    using assms(1) g h unfolding sched_inv_def entries_ok_def
    by (simp add: wf knows_def) fastforce
  ultimately show ?thesis by (simp add: sched_inv_def)
qed

lemma mark_preempting_map:
  "distinct (map (\<lambda>e. h_id (snd e)) hs) \<Longrightarrow>
     mark_preempting i hs = map (\<lambda>(m, h). (m, if h_id h = i then h\<lparr>h_preempting := True\<rparr> else h)) hs"
proof (induction i hs rule: mark_preempting.induct)
  case (2 i m h hs)
  show ?case
  proof (cases "h_id h = i")
    case True
    with "2.prems" have "map (\<lambda>(m, h). (m, if h_id h = i then h\<lparr>h_preempting := True\<rparr> else h)) hs = hs"
      by (intro map_idI) (auto simp: image_iff)
    with True show ?thesis by simp
  next
    case False
    with 2 show ?thesis by simp
  qed
qed simp

lemma inv_preempt: "sched_inv s \<Longrightarrow> sched_inv (snd (preempt s i))"
proof (cases "list_ex (\<lambda>h. h_id h = i) (map snd (s_holders s))")
  case True
  assume inv: "sched_inv s"
  then have "distinct (map (\<lambda>e. h_id (snd e)) (s_holders s))"
    by (simp add: sched_inv_def ids_ok_def holder_ids_def)
  then have "snd (preempt s i) = s\<lparr>s_holders := map (\<lambda>(m, h). (m, if h_id h = i then h\<lparr>h_preempting := True\<rparr> else h)) (s_holders s)\<rparr>"
    using True by (simp add: preempt_def mark_preempting_map)
  also have "sched_inv \<dots>" by (rule inv_map_holders [OF inv]) simp
  finally show ?thesis .
qed (simp add: preempt_def)

lemma inv_overruns: "sched_inv s \<Longrightarrow> sched_inv (snd (overruns s now))"
  unfolding overruns_def snd_conv by (rule inv_map_holders) (simp_all add: log_overrun_def)

subsection \<open>Admission\<close>

lemma session_match_Some:
  "session_match s r = Some h \<Longrightarrow> holder_of s (rq_machine r) = Some h \<and> h_token h = rq_token r \<and> rq_token r \<noteq> None"
  by (auto simp: session_match_def split: option.splits if_splits)

lemma inv_admit:
  assumes "sched_inv s" and "s_next_id s < u64_max"
  shows "sched_inv (snd (admit s r now))"
proof -
  have nxt: "wrap_add64 (s_next_id s) (Suc 0) = Suc (s_next_id s)"
    using assms(2) by (simp add: wrap_add64_id)
  have fresh: "s_next_id s \<notin> set (waiting_ids s @ holder_ids s)" "s_nested s (s_next_id s) = None"
    using assms(1) by (auto simp: sched_inv_def ids_ok_def dom_def)
  have bump: "sched_inv (s\<lparr>s_next_id := Suc (s_next_id s)\<rparr>)"
  proof -
    let ?t = "s\<lparr>s_next_id := Suc (s_next_id s)\<rparr>"
    have "entries_ok ?t"
      using assms(1) by (simp add: sched_inv_def entries_ok_def knows_def holder_ok_def grant_ok_def)
    moreover have "ids_ok ?t"
      using assms(1) by (auto simp: sched_inv_def ids_ok_def waiting_ids_def holder_ids_def less_Suc_eq)
    ultimately show ?thesis by (simp add: sched_inv_def)
  qed
  let ?s1 = "s\<lparr>s_next_id := Suc (s_next_id s)\<rparr>"
  let ?w = "\<lparr>w_id = s_next_id s, w_request = r, w_since_ms = now, w_manual_position = None\<rparr>"
  have ids: "ids_ok (?s1\<lparr>s_nested := (s_nested ?s1)(s_next_id s \<mapsto> rq_machine r)\<rparr>)"
    "ids_ok (?s1\<lparr>s_waiting := s_waiting ?s1 @ [?w]\<rparr>)"
    using bump fresh by (auto simp: sched_inv_def ids_ok_def waiting_ids_def holder_ids_def)
  have entries: "entries_ok (?s1\<lparr>s_nested := (s_nested ?s1)(s_next_id s \<mapsto> rq_machine r)\<rparr>)"
    "entries_ok (?s1\<lparr>s_waiting := s_waiting ?s1 @ [?w]\<rparr>)" if "knows s (rq_machine r)"
    using bump that by (auto simp: sched_inv_def entries_ok_def knows_def holder_ok_def grant_ok_def)
  have nested: "sched_inv (?s1\<lparr>s_nested := (s_nested ?s1)(s_next_id s \<mapsto> rq_machine r)\<rparr>)"
    and queued: "sched_inv (?s1\<lparr>s_waiting := s_waiting ?s1 @ [?w]\<rparr>)" if "knows s (rq_machine r)"
    using ids entries [OF that] by (simp_all add: sched_inv_def)
  show ?thesis
    using assms(1) bump nested queued
    by (simp add: admit_def Let_def nxt split: option.split)
qed

subsection \<open>Granting\<close>

definition granted_token :: "scheduler \<Rightarrow> waiting \<Rightarrow> string option" where
  "granted_token s w =
     (if rq_session (w_request w) then Some (token_string (w_id w) (next_seed (s_token_seed s))) else None)"

definition granted_holder :: "scheduler \<Rightarrow> string \<Rightarrow> nat \<Rightarrow> waiting \<Rightarrow> holder" where
  "granted_holder s m now w =
     \<lparr>h_id = w_id w, h_machine = m, h_label = rq_label (w_request w), h_since_ms = now,
      h_estimate_secs = rq_estimate_secs (w_request w), h_session = rq_session (w_request w),
      h_token = granted_token s w, h_preempting = False, h_overrun_logged = False\<rparr>"

definition made_grant :: "scheduler \<Rightarrow> string \<Rightarrow> nat \<Rightarrow> waiting \<Rightarrow> grant" where
  "made_grant s m now w = \<lparr>g_id = w_id w, g_machine = m, g_jobs = jobs s m now,
     g_token = granted_token s w, g_nested = False\<rparr>"

lemma jobs_cong: "s_config t = s_config s \<Longrightarrow> s_ci t = s_ci s \<Longrightarrow> jobs t m now = jobs s m now"
  by (auto simp: jobs_def ci_active_def split: option.splits)

lemma jobs_update [simp]:
  "jobs (s\<lparr>s_waiting := ws\<rparr>) m now = jobs s m now"
  "jobs (s\<lparr>s_token_seed := x\<rparr>) m now = jobs s m now"
  by (rule jobs_cong; simp)+

lemma grant_to_eq:
  "grant_to s m now w =
     (made_grant s m now w,
      s\<lparr>s_waiting := remove_first (\<lambda>v. w_id v = w_id w) (s_waiting s),
        s_token_seed := (if rq_session (w_request w) then next_seed (s_token_seed s) else s_token_seed s),
        s_holders := bt_insert m (granted_holder s m now w) (s_holders s),
        s_unclaimed := (s_unclaimed s)(w_id w \<mapsto> made_grant s m now w)\<rparr>)"
  by (simp add: grant_to_def Let_def token_def made_grant_def granted_holder_def granted_token_def)

lemma remove_first_filter:
  "distinct (map f xs) \<Longrightarrow> remove_first (\<lambda>x. f x = k) xs = filter (\<lambda>x. f x \<noteq> k) xs"
proof (induction xs)
  case (Cons x xs)
  show ?case
  proof (cases "f x = k")
    case True
    with Cons.prems have "filter (\<lambda>x. f x \<noteq> k) xs = xs"
      by (intro filter_True) (auto simp: image_iff)
    with True show ?thesis by simp
  qed (use Cons in simp)
qed simp

lemma inv_grant_to:
  assumes inv: "sched_inv s" and w: "w \<in> set (s_waiting s)" "rq_machine (w_request w) = m"
    and free: "holder_of s m = None"
  shows "sched_inv (snd (grant_to s m now w))"
proof -
  let ?t = "snd (grant_to s m now w)" and ?h = "granted_holder s m now w"
  have dist: "distinct (map w_id (s_waiting s))" and bt: "bt_wf (s_holders s)"
    using inv by (simp_all add: sched_inv_def ids_ok_def entries_ok_def waiting_ids_def)
  have m_free: "m \<notin> fst ` set (s_holders s)" using free by (simp add: map_of_None_fst)
  have wt: "s_waiting ?t = filter (\<lambda>v. w_id v \<noteq> w_id w) (s_waiting s)"
    by (simp add: grant_to_eq remove_first_filter [OF dist])
  have ht: "set (s_holders ?t) = insert (m, ?h) (set (s_holders s))"
    by (simp add: grant_to_eq bt_insert_fresh_set [OF m_free])
  have hid: "mset (holder_ids ?t) = add_mset (w_id w) (mset (holder_ids s))"
    using bt_insert_fresh_values [OF m_free, of h_id ?h]
    by (simp add: holder_ids_def grant_to_eq granted_holder_def)
  have wid: "w_id w \<in> set (waiting_ids s)" using w(1) by (simp add: waiting_ids_def)
  have ids_t: "distinct (waiting_ids ?t @ holder_ids ?t)"
  proof -
    have "distinct (waiting_ids ?t)" using dist by (simp add: waiting_ids_def wt distinct_map_filter)
    moreover have "distinct (holder_ids ?t)"
    proof -
      have "distinct (w_id w # holder_ids s)"
        using inv wid by (auto simp: sched_inv_def ids_ok_def)
      moreover have "mset (holder_ids ?t) = mset (w_id w # holder_ids s)" using hid by simp
      ultimately show ?thesis using mset_eq_imp_distinct_iff by blast
    qed
    moreover have "set (holder_ids ?t) = insert (w_id w) (set (holder_ids s))"
      using arg_cong [OF hid, of set_mset] by simp
    moreover have "set (waiting_ids ?t) \<subseteq> set (waiting_ids s) - {w_id w}"
      by (auto simp: waiting_ids_def wt)
    ultimately show ?thesis using inv by (auto simp: sched_inv_def ids_ok_def)
  qed
  have "set (waiting_ids ?t @ holder_ids ?t) \<subseteq> set (waiting_ids s @ holder_ids s)"
    using arg_cong [OF hid, of set_mset] wid by (auto simp: waiting_ids_def wt)
  then have ids: "ids_ok ?t"
    using inv ids_t by (auto simp: sched_inv_def ids_ok_def grant_to_eq)
  have known: "knows s m" using inv w by (auto simp: sched_inv_def entries_ok_def)
  have h_ok: "holder_ok ?t m ?h"
    using known by (auto simp: holder_ok_def granted_holder_def granted_token_def knows_def grant_to_eq)
  have old_ok: "holder_ok ?t n k" if "(n, k) \<in> set (s_holders s)" for n k
    using inv that by (simp add: sched_inv_def entries_ok_def holder_ok_def knows_def grant_to_eq)
  have g_ok: "grant_ok ?t i g" if "s_unclaimed ?t i = Some g" for i g
  proof (cases "i = w_id w")
    case True
    with that show ?thesis
      by (auto simp: grant_to_eq grant_ok_def made_grant_def granted_holder_def)
  next
    case False
    with that inv have "grant_ok s i g" by (simp add: grant_to_eq sched_inv_def entries_ok_def)
    moreover from this have "g_machine g \<noteq> m" using free by (auto simp: grant_ok_def)
    ultimately show ?thesis by (simp add: grant_ok_def grant_to_eq)
  qed
  have "entries_ok ?t"
    unfolding entries_ok_def
  proof (intro conjI allI impI ballI)
    show "bt_wf (s_holders ?t)" using bt by (simp add: grant_to_eq bt_wf_insert)
    show "knows ?t (rq_machine (w_request v))" if "v \<in> set (s_waiting ?t)" for v
      using that inv by (simp add: wt) (simp add: sched_inv_def entries_ok_def knows_def grant_to_eq)
    show "knows ?t n" if "s_nested ?t i = Some n" for i n
      using that inv by (simp add: sched_inv_def entries_ok_def knows_def grant_to_eq)
  qed (use ht h_ok old_ok g_ok in auto)
  with ids show ?thesis by (simp add: sched_inv_def)
qed

lemma inv_grant_machine: "sched_inv s \<Longrightarrow> sched_inv (snd (grant_machine s now m))"
  using inv_grant_to [of s _ m now]
  by (auto simp: grant_machine_def Let_def case_prod_unfold dest!: candidate_waiting split: option.splits)

lemma inv_grant_loop: "sched_inv s \<Longrightarrow> sched_inv (snd (grant_loop ms now s))"
  by (induction ms arbitrary: s) (auto simp: Let_def case_prod_unfold intro: inv_grant_machine)

lemma inv_grant: "sched_inv s \<Longrightarrow> sched_inv (snd (grant s now))"
  by (simp add: grant_def inv_grant_loop)

subsection \<open>Release\<close>

text \<open>Under the invariant, \<open>release\<close> drops the id from wherever it is, and touches nothing else.\<close>

definition drop_id :: "scheduler \<Rightarrow> nat \<Rightarrow> scheduler" where
  "drop_id s i = s\<lparr>s_waiting := filter (\<lambda>w. w_id w \<noteq> i) (s_waiting s),
     s_unclaimed := (s_unclaimed s)(i := None), s_nested := (s_nested s)(i := None),
     s_holders := filter (\<lambda>(m, h). h_id h \<noteq> i) (s_holders s)\<rparr>"

lemma inv_bt_remove:
  assumes "sched_inv s" and "(m, h) \<in> set (s_holders s)"
  shows "bt_remove m (s_holders s) = filter (\<lambda>(n, k). h_id k \<noteq> h_id h) (s_holders s)"
  unfolding bt_remove_def
proof (rule filter_cong [OF refl])
  fix e assume e: "e \<in> set (s_holders s)"
  obtain n k where [simp]: "e = (n, k)" by (cases e)
  have h: "holder_of s m = Some h" and k: "holder_of s n = Some k"
    using assms e by (simp_all add: inv_holder)
  have "n = m \<longleftrightarrow> h_id k = h_id h"
    using inv_holder_unique [OF assms(1) k h] h k by auto
  then show "(case e of (k', v) \<Rightarrow> k' \<noteq> m) = (case e of (n, k) \<Rightarrow> h_id k \<noteq> h_id h)" by simp
qed

lemma inv_nested_apart:
  assumes "sched_inv s" and "s_nested s i = Some m"
  shows "i \<notin> set (waiting_ids s) \<and> i \<notin> set (holder_ids s)"
proof -
  have "\<forall>j \<in> set (waiting_ids s @ holder_ids s). s_nested s j = None"
    using assms(1) by (simp add: sched_inv_def ids_ok_def)
  with assms(2) show ?thesis by auto
qed

lemma release_eq:
  assumes "sched_inv s"
  shows "release s i = (map_option snd (find (\<lambda>(m, h). h_id h = i) (s_holders s)), drop_id s i)"
proof (cases "s_nested s i")
  case (Some m)
  then have no: "\<forall>e \<in> set (s_holders s). h_id (snd e) \<noteq> i"
    using inv_nested_apart [OF assms Some] by (auto simp: holder_ids_def)
  then have "find (\<lambda>(m, h). h_id h = i) (s_holders s) = None"
    and "filter (\<lambda>(m, h). h_id h \<noteq> i) (s_holders s) = s_holders s"
    by (auto simp: find_None_iff intro!: filter_True)
  with Some show ?thesis by (simp add: release_def drop_id_def)
next
  case None
  then have same: "(s_nested s)(i := None) = s_nested s" by (simp add: fun_upd_idem)
  show ?thesis
  proof (cases "find (\<lambda>(m, h). h_id h = i) (s_holders s)")
    case None': None
    then have "filter (\<lambda>(m, h). h_id h \<noteq> i) (s_holders s) = s_holders s"
      by (auto simp: find_None_iff intro!: filter_True)
    with None None' same show ?thesis by (simp add: release_def drop_id_def)
  next
    case (Some e)
    then obtain m h where e: "e = (m, h)" and mh: "(m, h) \<in> set (s_holders s)" "h_id h = i"
      by (cases e) (auto dest: find_Some_iff2)
    then have "holder_of s m = Some h" using assms by (simp add: inv_holder)
    with None Some e same inv_bt_remove [OF assms mh(1)] mh(2) show ?thesis
      by (simp add: release_def drop_id_def)
  qed
qed

lemma drop_id_holders:
  assumes "sched_inv s"
  shows "map_of (s_holders (drop_id s i)) m =
     (case holder_of s m of None \<Rightarrow> None | Some h \<Rightarrow> if h_id h = i then None else Some h)"
proof -
  have "bt_wf (s_holders (drop_id s i))"
    using assms by (simp add: drop_id_def sched_inv_def entries_ok_def bt_wf_def sorted_wrt_map sorted_wrt_filter)
  then have iff: "map_of (s_holders (drop_id s i)) m = Some h \<longleftrightarrow> holder_of s m = Some h \<and> h_id h \<noteq> i" for h
    using inv_holder [OF assms, of m h] by (auto simp: bt_get_iff drop_id_def)
  show ?thesis
  proof (cases "map_of (s_holders (drop_id s i)) m")
    case (Some h)
    with iff [of h] show ?thesis by simp
  next
    case None
    with iff [of "the (holder_of s m)"] show ?thesis by (cases "holder_of s m") simp_all
  qed
qed

lemma inv_release: 
  assumes "sched_inv s"
  shows "sched_inv (snd (release s i))"
proof -
  let ?t = "drop_id s i"
  have sub: "set (waiting_ids ?t @ holder_ids ?t) \<subseteq> set (waiting_ids s @ holder_ids s)"
    by (auto simp: drop_id_def waiting_ids_def holder_ids_def)
  have dist: "distinct (waiting_ids ?t @ holder_ids ?t)"
  proof -
    have "distinct (waiting_ids ?t)" and "distinct (holder_ids ?t)"
      using assms by (auto simp: sched_inv_def ids_ok_def drop_id_def waiting_ids_def holder_ids_def
          intro: distinct_map_filter)
    moreover have "set (waiting_ids ?t) \<subseteq> set (waiting_ids s)" "set (holder_ids ?t) \<subseteq> set (holder_ids s)"
      by (auto simp: drop_id_def waiting_ids_def holder_ids_def)
    ultimately show ?thesis using assms by (auto simp: sched_inv_def ids_ok_def)
  qed
  have "ids_ok ?t"
    using assms sub dist by (auto simp: sched_inv_def ids_ok_def drop_id_def)
  moreover have "entries_ok ?t"
    unfolding entries_ok_def
  proof (intro conjI allI impI ballI)
    show "bt_wf (s_holders ?t)"
      using assms by (simp add: drop_id_def sched_inv_def entries_ok_def bt_wf_def sorted_wrt_map sorted_wrt_filter)
    show "holder_ok ?t m h" if "(m, h) \<in> set (s_holders ?t)" for m h
      using assms that holder_ok_cong [of ?t s] by (simp add: sched_inv_def entries_ok_def drop_id_def)
    show "knows ?t (rq_machine (w_request v))" if "v \<in> set (s_waiting ?t)" for v
      using assms that by (simp add: sched_inv_def entries_ok_def drop_id_def knows_def)
    show "knows ?t n" if "s_nested ?t j = Some n" for j n
      using assms that by (simp add: sched_inv_def entries_ok_def drop_id_def knows_def split: if_splits)
    show "grant_ok ?t j g" if "s_unclaimed ?t j = Some g" for j g
    proof -
      from that have "j \<noteq> i" and "s_unclaimed s j = Some g" by (auto simp: drop_id_def split: if_splits)
      with assms have "grant_ok s j g" by (simp add: sched_inv_def entries_ok_def)
      with \<open>j \<noteq> i\<close> show ?thesis by (auto simp: grant_ok_def drop_id_holders [OF assms])
    qed
  qed
  ultimately show ?thesis by (simp add: release_eq [OF assms] sched_inv_def)
qed

section \<open>What granting does\<close>

lemma grant_machine_cases:
  assumes "grant_machine s now m = (gs, t)"
  obtains (blocked) "gs = []" "t = s"
      "holder_of s m \<noteq> None \<or> m \<in> s_paused s \<or> candidate s m now = None"
  | (made) w where "holder_of s m = None" "m \<notin> s_paused s" "candidate s m now = Some w"
      "gs = [made_grant s m now w]" "t = snd (grant_to s m now w)"
proof (cases "holder_of s m \<noteq> None \<or> m \<in> s_paused s \<or> candidate s m now = None")
  case True
  with assms have "gs = [] \<and> t = s" by (auto simp: grant_machine_def split: if_splits)
  with True show thesis using blocked by blast
next
  case False
  then obtain w where "candidate s m now = Some w" by blast
  with False assms show thesis
    using made [of w] by (simp add: grant_machine_def grant_to_eq)
qed

lemma grant_machine_frame:
  "s_config (snd (grant_machine s now m)) = s_config s"
  "s_paused (snd (grant_machine s now m)) = s_paused s"
  "s_reserved (snd (grant_machine s now m)) = s_reserved s"
  "s_merge_queue (snd (grant_machine s now m)) = s_merge_queue s"
  "s_nested (snd (grant_machine s now m)) = s_nested s"
  "s_next_id (snd (grant_machine s now m)) = s_next_id s"
  by (simp_all add: grant_machine_def grant_to_eq split: option.split)

lemma grant_loop_frame:
  "s_config (snd (grant_loop ms now s)) = s_config s"
  "s_paused (snd (grant_loop ms now s)) = s_paused s"
  "s_nested (snd (grant_loop ms now s)) = s_nested s"
  "s_next_id (snd (grant_loop ms now s)) = s_next_id s"
  by (induction ms arbitrary: s) (simp_all add: Let_def case_prod_unfold grant_machine_frame)

lemma grant_machine_keeps_holder:
  assumes "holder_of s m = Some h"
  shows "holder_of (snd (grant_machine s now n)) m = Some h"
proof (cases "grant_machine s now n")
  case (Pair gs t)
  then show ?thesis
    by (cases rule: grant_machine_cases) (use Pair assms in \<open>auto simp: grant_to_eq\<close>)
qed

lemma grant_loop_keeps_holder:
  "holder_of s m = Some h \<Longrightarrow> holder_of (snd (grant_loop ms now s)) m = Some h"
  by (induction ms arbitrary: s)
     (simp_all add: Let_def case_prod_unfold grant_machine_keeps_holder)

text \<open>Granting one machine leaves the queue of every other machine as it was.\<close>

lemma order_other_machine:
  assumes inv: "sched_inv s" and other: "m \<noteq> n"
  shows "order (snd (grant_machine s now n)) m = order s m"
proof (cases "grant_machine s now n")
  case (Pair gs t)
  then show ?thesis
  proof (cases rule: grant_machine_cases)
    case blocked
    with Pair show ?thesis by simp
  next
    case (made w)
    have w: "w \<in> set (s_waiting s)" "rq_machine (w_request w) = n"
      using candidate_waiting [OF made(3)] by simp_all
    have dist: "distinct (map w_id (s_waiting s))"
      using inv by (simp add: sched_inv_def ids_ok_def waiting_ids_def)
    have uniq: "v = w" if "v \<in> set (s_waiting s)" "w_id v = w_id w" for v
      using that w(1) dist by (auto simp: distinct_map inj_on_def)
    have "auto_key t = auto_key s" by (simp add: fun_eq_iff auto_key_def made(5) grant_to_eq)
    moreover have "filter (\<lambda>v. rq_machine (w_request v) = m \<and> P v) (s_waiting t)
        = filter (\<lambda>v. rq_machine (w_request v) = m \<and> P v) (s_waiting s)" for P
      using uniq w(2) other
      by (auto simp: made(5) grant_to_eq remove_first_filter [OF dist] intro!: filter_cong)
    ultimately show ?thesis using Pair by (simp add: order_def)
  qed
qed

definition stuck :: "scheduler \<Rightarrow> nat \<Rightarrow> string \<Rightarrow> bool" where
  "stuck s now m \<longleftrightarrow> holder_of s m \<noteq> None \<or> m \<in> s_paused s \<or> candidate s m now = None"

lemma grant_machine_stuck: "stuck s now m \<longleftrightarrow> grant_machine s now m = ([], s)"
proof (cases "grant_machine s now m")
  case (Pair gs t)
  then show ?thesis
    by (cases rule: grant_machine_cases) (use Pair in \<open>auto simp: stuck_def\<close>)
qed

lemma stuck_after_grant_machine: "stuck (snd (grant_machine s now m)) now m"
proof (cases "grant_machine s now m")
  case (Pair gs t)
  then show ?thesis
    by (cases rule: grant_machine_cases) (use Pair in \<open>auto simp: stuck_def grant_to_eq\<close>)
qed

lemma stuck_stays:
  assumes "sched_inv s" and "stuck s now m"
  shows "stuck (snd (grant_machine s now n)) now m"
proof (cases "m = n")
  case True
  then show ?thesis by (simp add: stuck_after_grant_machine)
next
  case False
  have "candidate (snd (grant_machine s now n)) m now = candidate s m now"
    unfolding candidate_def order_other_machine [OF assms(1) False]
    by (simp add: reservation_def grant_machine_frame)
  with assms(2) show ?thesis
    using grant_machine_keeps_holder [of s m _ now n] by (auto simp: stuck_def grant_machine_frame)
qed

lemma stuck_stays_loop:
  "sched_inv s \<Longrightarrow> stuck s now m \<Longrightarrow> stuck (snd (grant_loop ms now s)) now m"
  by (induction ms arbitrary: s)
     (simp_all add: Let_def case_prod_unfold stuck_stays inv_grant_machine)

lemma stuck_after_loop:
  "sched_inv s \<Longrightarrow> m \<in> set ms \<Longrightarrow> stuck (snd (grant_loop ms now s)) now m"
  by (induction ms arbitrary: s)
     (auto simp: Let_def case_prod_unfold inv_grant_machine stuck_after_grant_machine intro: stuck_stays_loop)

lemma grant_loop_stuck: "\<forall>m \<in> set ms. stuck s now m \<Longrightarrow> grant_loop ms now s = ([], s)"
  by (induction ms) (auto simp: grant_machine_stuck)

end
