(* ===== verification/Lease_Machine.thy ===== *)
theory Lease_Machine
  imports Lease_Scheduler_Props
begin

text \<open>
  The scheduler as a state machine: one step per public method of \<open>Scheduler\<close>, the states a daemon
  can reach from \<open>Scheduler::new\<close>, and what holds in all of them. Admission is a step while fewer
  than \<open>2^64 - 2\<close> requests have been admitted, so that \<open>next_id\<close> does not wrap.
\<close>

section \<open>Steps and reachable states\<close>

inductive sched_step :: "scheduler \<Rightarrow> scheduler \<Rightarrow> bool" where
  step_admit: "s_next_id s < u64_max \<Longrightarrow> sched_step s (snd (admit s r now))"
| step_grant: "sched_step s (snd (grant s now))"
| step_claim: "sched_step s (snd (claim s i))"
| step_release: "sched_step s (snd (release s i))"
| step_reorder: "sched_step s (snd (reorder s i p))"
| step_set_paused: "sched_step s (set_paused s m b)"
| step_reserve: "sched_step s (reserve s m l)"
| step_preempt: "sched_step s (snd (preempt s i))"
| step_ci_start: "sched_step s (ci_start s m j now)"
| step_ci_stop: "sched_step s (ci_stop s m j)"
| step_set_merge_queue: "sched_step s (set_merge_queue s q)"
| step_overruns: "sched_step s (snd (overruns s now))"

inductive reachable_sched :: "scheduler \<Rightarrow> bool" where
  reach_new: "reachable_sched (new_scheduler c seed)"
| reach_step: "reachable_sched s \<Longrightarrow> sched_step s t \<Longrightarrow> reachable_sched t"

lemmas step_invs = inv_admit inv_grant inv_claim inv_release inv_reorder inv_set_paused inv_reserve
  inv_preempt inv_ci_start inv_ci_stop inv_set_merge_queue inv_overruns

lemma step_inv: "sched_step s t \<Longrightarrow> sched_inv s \<Longrightarrow> sched_inv t"
  by (induction rule: sched_step.induct) (simp_all add: step_invs)

lemma reach_inv: "reachable_sched s \<Longrightarrow> sched_inv s"
  by (induction rule: reachable_sched.induct) (simp_all add: inv_new step_inv)

text \<open>
  C24. In every reachable state the scheduler's books agree: ids are handed out once and each is
  waiting, holding or nested but never two of these; a holder sits under its own, configured
  machine and has a token exactly when it is a session, made from its own id; every grant not yet
  claimed is the current holder of its machine.
\<close>

theorem reachable_sched_inv:
  assumes "reachable_sched s"
  shows "sched_inv s"
  using assms by (rule reach_inv)

text \<open>A daemon that admits a session on the desktop and grants it.\<close>

definition ex_session_request :: request where
  "ex_session_request = (ex_request ''desktop'' ''batch'' 0 None)\<lparr>rq_session := True\<rparr>"

definition ex_session :: scheduler where
  "ex_session = snd (grant (snd (admit (new_scheduler default_config 0) ex_session_request 1)) 2)"

lemmas reach_intros = reach_new reach_step [OF _ step_grant] reach_step [OF _ step_claim]
  reach_step [OF _ step_release] reach_step [OF _ step_admit]

lemma reach_ex_session: "reachable_sched ex_session"
  unfolding ex_session_def
  by (intro reach_intros) (simp add: new_scheduler_def u64_max_def)

lemmas ex_sched_simps = new_scheduler_def default_config_def admit_def knows_def session_match_def
  wrap_add64_def u64_max_def Let_def ex_request_def ex_session_request_def grant_def grant_machine_def
  candidate_def order_def reservation_def eligible_def grant_to_eq granted_holder_def made_grant_def
  granted_token_def

definition ex_session_holder :: holder where
  "ex_session_holder = \<lparr>h_id = 1, h_machine = ''desktop'', h_label = ''batch'', h_since_ms = 2,
     h_estimate_secs = 600, h_session = True,
     h_token = Some (token_string 1 1442695040888963407), h_preempting = False,
     h_overrun_logged = False\<rparr>"

lemma ex_session_eq:
  "ex_session = (new_scheduler default_config 0)\<lparr>s_next_id := 2,
     s_holders := [(''desktop'', ex_session_holder)],
     s_token_seed := 1442695040888963407,
     s_unclaimed := [1 \<mapsto> \<lparr>g_id = 1, g_machine = ''desktop'', g_jobs = 24,
        g_token = Some (token_string 1 1442695040888963407), g_nested = False\<rparr>]\<rparr>"
  by (simp add: ex_session_def ex_session_holder_def ex_sched_simps next_seed_def jobs_def ci_active_def)

theorem reachable_sched_inv_witness:
  "sched_inv ex_session \<and> holder_ids ex_session = [1]"
  using reachable_sched_inv [OF reach_ex_session] by (simp add: ex_session_eq ex_session_holder_def holder_ids_def)

section \<open>Session tokens\<close>

lemma token_string_inj:
  assumes "token_string i x = token_string j y"
  shows "i = j"
proof -
  have d: "takeWhile is_digit (dec_string k @ CHR ''-'' # rest) = dec_string k" for k rest
    by (simp add: takeWhile_dec_string is_digit_def)
  have "dec_string i = dec_string j"
    using arg_cong [OF assms, of "takeWhile is_digit"] by (simp add: token_string_def d)
  then show ?thesis by (rule dec_string_inj)
qed

text \<open>
  A session token names one session: in a reachable state no two machines' holders carry the
  same token, so a nested request that presents it runs inside exactly that session.
\<close>

theorem session_token_unique:
  assumes "reachable_sched s"
    and "holder_of s m = Some h" and "holder_of s n = Some k"
    and "h_token h = Some t" and "h_token k = Some t"
  shows "m = n \<and> h = k"
proof -
  have inv: "sched_inv s" using assms(1) by (rule reach_inv)
  have "\<exists>x. t = token_string (h_id h) x" and "\<exists>y. t = token_string (h_id k) y"
    using inv_holder_ok [OF inv assms(2)] inv_holder_ok [OF inv assms(3)] assms(4,5)
    by (simp_all add: holder_ok_def)
  then have "h_id h = h_id k" using token_string_inj by blast
  with inv_holder_unique [OF inv assms(2,3)] show ?thesis by blast
qed

theorem session_token_unique_witness:
  "{n. \<exists>k. holder_of ex_session n = Some k \<and> h_token k = Some (token_string 1 1442695040888963407)}
     = {''desktop''}"
proof -
  have h: "holder_of ex_session ''desktop'' = Some ex_session_holder"
    by (simp add: ex_session_eq)
  have t: "h_token ex_session_holder = Some (token_string 1 1442695040888963407)"
    by (simp add: ex_session_holder_def)
  from session_token_unique [OF reach_ex_session _ h _ t] h t show ?thesis by blast
qed

section \<open>Nested runs\<close>

text \<open>
  A nested run is admitted only into a live session: when \<open>admit\<close> answers \<open>Nested\<close>, the
  requested machine is held by a session that handed out exactly the presented token and has not
  been told to end, and the waiting queue and all holders are as before.
\<close>

theorem nested_needs_live_session:
  assumes "reachable_sched s" and "admit s r now = (Admit_nested g, t)"
  shows "\<exists>h. holder_of s (rq_machine r) = Some h \<and> h_session h \<and> h_token h = rq_token r
           \<and> \<not> h_preempting h \<and> g_machine g = rq_machine r \<and> g_token g = rq_token r
           \<and> s_waiting t = s_waiting s \<and> s_holders t = s_holders s
           \<and> s_nested t = (s_nested s)(g_id g \<mapsto> rq_machine r)"
proof -
  have inv: "sched_inv s" using assms(1) by (rule reach_inv)
  let ?s1 = "s\<lparr>s_next_id := wrap_add64 (s_next_id s) 1\<rparr>"
  from assms(2) obtain h where h: "session_match ?s1 r = Some h" "\<not> h_preempting h"
    and g: "g_machine g = rq_machine r" "g_token g = rq_token r" "g_id g = s_next_id s"
    and t: "t = ?s1\<lparr>s_nested := (s_nested ?s1)(s_next_id s \<mapsto> rq_machine r)\<rparr>"
    by (auto simp: admit_def Let_def split: option.splits if_splits)
  from session_match_Some [OF h(1)] have m: "holder_of s (rq_machine r) = Some h"
    "h_token h = rq_token r" "rq_token r \<noteq> None" by simp_all
  then have "h_session h" using inv_holder_ok [OF inv m(1)] by (simp add: holder_ok_def)
  with h m g t show ?thesis by auto
qed

definition ex_nested_request :: request where
  "ex_nested_request = (ex_request ''desktop'' ''step'' 0 None)
     \<lparr>rq_token := Some (token_string 1 1442695040888963407)\<rparr>"

lemma ex_nested_admit:
  "admit ex_session ex_nested_request 3 =
     (Admit_nested \<lparr>g_id = 2, g_machine = ''desktop'', g_jobs = 24,
        g_token = Some (token_string 1 1442695040888963407), g_nested = True\<rparr>,
      ex_session\<lparr>s_next_id := 3, s_nested := [2 \<mapsto> ''desktop'']\<rparr>)"
  by (simp add: ex_session_eq ex_session_holder_def ex_nested_request_def ex_sched_simps jobs_def ci_active_def)

theorem nested_needs_live_session_witness:
  "\<exists>h. holder_of ex_session ''desktop'' = Some h \<and> h_session h \<and> \<not> h_preempting h"
  using nested_needs_live_session [OF reach_ex_session ex_nested_admit]
  by (auto simp: ex_nested_request_def ex_request_def)

definition ex_outlived :: scheduler where
  "ex_outlived =
     (let s1 = snd (admit ex_session ex_nested_request 3);
          s2 = snd (release s1 1);
          s3 = snd (admit s2 (ex_request ''desktop'' ''other'' 0 None) 4)
      in snd (grant s3 5))"

text \<open>
  A nested run does not keep its session's machine: a state is reachable in which a nested run
  is still registered on a machine that a later, unrelated request already holds, because
  releasing the session frees the machine whatever runs inside it.
\<close>

theorem nested_outlives_session:
  "reachable_sched ex_outlived
     \<and> s_nested ex_outlived 2 = Some ''desktop''
     \<and> map_option h_label (holder_of ex_outlived ''desktop'') = Some ''other''
     \<and> map_option h_session (holder_of ex_outlived ''desktop'') = Some False"
proof -
  have "reachable_sched ex_outlived"
    unfolding ex_outlived_def Let_def
    by (intro reach_intros reach_ex_session)
       (simp_all add: ex_nested_admit, simp_all add: ex_session_eq ex_session_holder_def
          new_scheduler_def u64_max_def release_def)
  then show ?thesis
    by (simp add: ex_outlived_def ex_nested_admit Let_def)
       (simp add: ex_session_eq ex_session_holder_def release_def bt_remove_def ex_sched_simps jobs_def ci_active_def)
qed

end
