(* ===== verification/Lease_Admin.thy ===== *)
theory Lease_Admin
  imports Lease_Machine
begin

text \<open>
  Release and administration of leases: what \<open>release\<close>, \<open>claim\<close>, \<open>reorder\<close>, \<open>set_paused\<close>,
  \<open>reserve\<close>, \<open>overruns\<close> and the CI registrations do to the requests and leases.
\<close>

section \<open>Granting\<close>

text \<open>
  Granting never takes a machine away from its holder: a machine that is held stays held by the
  same lease, with the same fields, through any call of \<open>grant\<close>.
\<close>

theorem grant_keeps_holders:
  assumes "holder_of s m = Some h"
  shows "holder_of (snd (grant s now)) m = Some h"
  unfolding grant_def using assms by (rule grant_loop_keeps_holder)

theorem grant_keeps_holders_witness:
  "holder_of ex_session ''desktop'' = Some ex_session_holder
     \<and> holder_of (snd (grant ex_session 9)) ''desktop'' = Some ex_session_holder"
proof -
  have h: "holder_of ex_session ''desktop'' = Some ex_session_holder" by (simp add: ex_session_eq)
  from h grant_keeps_holders [OF h, of 9] show ?thesis by simp
qed

section \<open>Release and claim\<close>

text \<open>
  \<open>release\<close> ends a request or lease whatever its state and leaves every other one alone: the id
  is afterwards neither waiting, holding, nested nor unclaimed; holders, queue and nested runs with
  other ids are exactly as before; and the returned holder is the one that carried the id.
\<close>

theorem release_ends_one_lease:
  assumes "reachable_sched s"
  shows "\<not> is_waiting (snd (release s i)) i \<and> \<not> holds (snd (release s i)) i
       \<and> s_unclaimed (snd (release s i)) i = None
       \<and> (\<forall>m h. holder_of (snd (release s i)) m = Some h \<longleftrightarrow> holder_of s m = Some h \<and> h_id h \<noteq> i)
       \<and> (\<forall>w. w \<in> set (s_waiting (snd (release s i))) \<longleftrightarrow> w \<in> set (s_waiting s) \<and> w_id w \<noteq> i)
       \<and> (\<forall>j. j \<noteq> i \<longrightarrow> s_nested (snd (release s i)) j = s_nested s j)
       \<and> (\<forall>h. fst (release s i) = Some h \<longleftrightarrow> (\<exists>m. holder_of s m = Some h \<and> h_id h = i))"
proof -
  have inv: "sched_inv s" using assms by (rule reach_inv)
  have t: "snd (release s i) = drop_id s i"
    and f: "fst (release s i) = map_option snd (find (\<lambda>(m, h). h_id h = i) (s_holders s))"
    by (simp_all add: release_eq [OF inv])
  have held: "holder_of (drop_id s i) m = Some h \<longleftrightarrow> holder_of s m = Some h \<and> h_id h \<noteq> i" for m h
    by (auto simp: drop_id_holders [OF inv] split: option.splits if_splits)
  have ret: "fst (release s i) = Some h \<longleftrightarrow> (\<exists>m. holder_of s m = Some h \<and> h_id h = i)" for h
  proof
    assume "fst (release s i) = Some h"
    then obtain m where "find (\<lambda>(m, h). h_id h = i) (s_holders s) = Some (m, h)"
      by (auto simp: f)
    then have "(m, h) \<in> set (s_holders s) \<and> h_id h = i" by (auto dest: find_Some_iff2)
    then show "\<exists>m. holder_of s m = Some h \<and> h_id h = i" using inv_holder [OF inv] by blast
  next
    assume "\<exists>m. holder_of s m = Some h \<and> h_id h = i"
    then obtain m where m: "holder_of s m = Some h" "h_id h = i" by blast
    then have "(m, h) \<in> set (s_holders s)" using inv_holder [OF inv] by blast
    with m(2) have "find (\<lambda>(m, h). h_id h = i) (s_holders s) \<noteq> None" by (auto simp: find_None_iff)
    then obtain n k where nk: "find (\<lambda>(m, h). h_id h = i) (s_holders s) = Some (n, k)" by auto
    then have "(n, k) \<in> set (s_holders s) \<and> h_id k = i" by (auto dest: find_Some_iff2)
    then have "holder_of s n = Some k" "h_id k = h_id h" using inv_holder [OF inv] m(2) by auto
    then have "k = h" using inv_holder_unique [OF inv _ m(1)] by blast
    with nk show "fst (release s i) = Some h" by (simp add: f)
  qed
  have "\<not> is_waiting (drop_id s i) i" and "\<not> holds (drop_id s i) i"
    by (auto simp: is_waiting_def holds_def drop_id_def list_ex_iff)
  then show ?thesis
    using held ret by (auto simp: t drop_id_def)
qed

theorem release_ends_one_lease_witness:
  "holds ex_session 1 \<and> \<not> holds (snd (release ex_session 1)) 1"
  using release_ends_one_lease [OF reach_ex_session, of 1]
  by (simp add: holds_def ex_session_eq ex_session_holder_def)

lemma grant_machine_unclaimed:
  "g \<in> set (fst (grant_machine s now m)) \<Longrightarrow>
     s_unclaimed (snd (grant_machine s now m)) (g_id g) = Some g"
proof (cases "grant_machine s now m")
  case (Pair gs t)
  assume "g \<in> set (fst (grant_machine s now m))"
  from Pair show ?thesis
    by (cases rule: grant_machine_cases)
       (use Pair \<open>g \<in> _\<close> in \<open>auto simp: grant_to_eq made_grant_def\<close>)
qed

lemma grant_machine_unclaimed_stays:
  assumes "sched_inv s" and "s_unclaimed s i = Some g"
  shows "s_unclaimed (snd (grant_machine s now m)) i = Some g"
proof (cases "grant_machine s now m")
  case (Pair gs t)
  then show ?thesis
  proof (cases rule: grant_machine_cases)
    case blocked
    with Pair assms show ?thesis by simp
  next
    case (made w)
    have "grant_ok s i g" using assms by (simp add: sched_inv_def entries_ok_def)
    then obtain h n where h: "holder_of s n = Some h" "h_id h = i"
      unfolding grant_ok_def by blast
    then have "(n, h) \<in> set (s_holders s)" using inv_holder [OF assms(1)] by blast
    then have "i \<in> set (holder_ids s)" using h(2) by (force simp: holder_ids_def)
    moreover have "w_id w \<in> set (waiting_ids s)"
      using candidate_waiting [OF made(3)] by (simp add: waiting_ids_def)
    ultimately have "w_id w \<noteq> i" using assms(1) by (auto simp: sched_inv_def ids_ok_def)
    with Pair made assms(2) show ?thesis by (simp add: grant_to_eq)
  qed
qed

lemma grant_loop_unclaimed_stays:
  "sched_inv s \<Longrightarrow> s_unclaimed s i = Some g \<Longrightarrow> s_unclaimed (snd (grant_loop ms now s)) i = Some g"
  by (induction ms arbitrary: s)
     (simp_all add: Let_def case_prod_unfold inv_grant_machine grant_machine_unclaimed_stays)

lemma grant_loop_unclaimed:
  "sched_inv s \<Longrightarrow> g \<in> set (fst (grant_loop ms now s)) \<Longrightarrow>
     s_unclaimed (snd (grant_loop ms now s)) (g_id g) = Some g"
  by (induction ms arbitrary: s)
     (auto simp: Let_def case_prod_unfold inv_grant_machine
       intro: grant_loop_unclaimed_stays grant_machine_unclaimed)

text \<open>
  A grant is handed to its connection once, whichever connection's call of \<open>grant\<close> made it: the
  grants that \<open>grant\<close> returns are unclaimed afterwards, each for its machine's holder, and a second
  \<open>claim\<close> of the same id finds nothing.
\<close>

theorem grant_claimed_once:
  assumes "reachable_sched s" and "g \<in> set (fst (grant s now))"
  shows "fst (claim (snd (grant s now)) (g_id g)) = Some g
       \<and> fst (claim (snd (claim (snd (grant s now)) (g_id g))) (g_id g)) = None
       \<and> map_option h_id (holder_of (snd (grant s now)) (g_machine g)) = Some (g_id g)"
proof -
  have inv: "sched_inv s" using assms(1) by (rule reach_inv)
  have u: "s_unclaimed (snd (grant s now)) (g_id g) = Some g"
    using grant_loop_unclaimed [OF inv] assms(2) by (simp add: grant_def)
  moreover have "grant_ok (snd (grant s now)) (g_id g) g"
    using inv_grant [OF inv] u by (simp add: sched_inv_def entries_ok_def)
  ultimately show ?thesis by (auto simp: claim_def grant_ok_def)
qed

definition ex_admitted :: scheduler where
  "ex_admitted = snd (admit (new_scheduler default_config 0) ex_session_request 1)"

theorem grant_claimed_once_witness:
  "\<exists>g. fst (grant ex_admitted 2) = [g] \<and> fst (claim (snd (grant ex_admitted 2)) 1) = Some g"
proof -
  have r: "reachable_sched ex_admitted"
    unfolding ex_admitted_def by (intro reach_intros) (simp add: new_scheduler_def u64_max_def)
  obtain g where g: "fst (grant ex_admitted 2) = [g]" "g_id g = 1"
    by (simp add: ex_admitted_def ex_sched_simps)
  then show ?thesis using grant_claimed_once [OF r, of g 2] by auto
qed

section \<open>Reordering\<close>

lemma index_of_append:
  "\<forall>x \<in> set xs. \<not> P x \<Longrightarrow> P y \<Longrightarrow> index_of P (xs @ y # ys) = Some (length xs)"
  by (induction xs) auto

text \<open>Replacing one element of a queue, seen through \<open>filter\<close> and \<open>find\<close>.\<close>

lemma filter_replaced:
  "\<not> P w' \<Longrightarrow> filter P (map (\<lambda>v. if v = w then w' else v) xs) = filter (\<lambda>v. P v \<and> v \<noteq> w) xs"
  by (induction xs) auto

lemma filter_only_replaced:
  assumes "distinct xs" and "w \<in> set xs" and "P w'" and "\<forall>v \<in> set xs. v \<noteq> w \<longrightarrow> \<not> P v"
  shows "filter P (map (\<lambda>v. if v = w then w' else v) xs) = [w']"
proof -
  have none: "filter P (map (\<lambda>v. if v = w then w' else v) ys) = []"
    if "\<forall>v \<in> set ys. v \<noteq> w \<and> \<not> P v" for ys
    using that by (induction ys) auto
  from split_list [OF assms(2)] obtain ys zs where "xs = ys @ w # zs" by blast
  with assms none [of ys] none [of zs] show ?thesis by auto
qed

lemma find_replaced:
  "w \<in> set xs \<Longrightarrow> Q w' \<Longrightarrow> \<forall>v \<in> set xs. Q v \<longrightarrow> v = w \<Longrightarrow>
     find Q (map (\<lambda>v. if v = w then w' else v) xs) = Some w'"
  by (induction xs) auto

lemma set_manual_replaces:
  assumes "distinct (map w_id ws)" and "w \<in> set ws"
  shows "set_manual (w_id w) p ws = map (\<lambda>v. if v = w then w\<lparr>w_manual_position := Some p\<rparr> else v) ws"
  using assms
proof (induction ws)
  case (Cons v ws)
  show ?case
  proof (cases "w_id v = w_id w")
    case True
    with Cons.prems have "v = w" and "w \<notin> set ws" by auto
    moreover from this have "map (\<lambda>v. if v = w then w\<lparr>w_manual_position := Some p\<rparr> else v) ws = ws"
      by (intro map_idI) auto
    ultimately show ?thesis by simp
  qed (use Cons in auto)
qed simp

text \<open>
  \<open>reorder id p\<close> puts a waiting request at position \<open>p\<close> of its machine's queue (0 is next), or
  last when the queue is shorter, as long as no other request of that machine was moved by hand;
  the other requests keep their order.
\<close>

theorem reorder_moves_to_position:
  assumes "reachable_sched s" and "w \<in> set (s_waiting s)" and "w_id w = i"
    and "\<forall>v \<in> set (s_waiting s). rq_machine (w_request v) = rq_machine (w_request w) \<and> v \<noteq> w
           \<longrightarrow> w_manual_position v = None"
  defines "others \<equiv> sort_key (auto_key s)
      (filter (\<lambda>v. rq_machine (w_request v) = rq_machine (w_request w) \<and> w_id v \<noteq> i) (s_waiting s))"
  shows "fst (reorder s i p)
       \<and> order (snd (reorder s i p)) (rq_machine (w_request w))
           = vec_insert (min p (length others)) (w\<lparr>w_manual_position := Some p\<rparr>) others
       \<and> position (snd (reorder s i p)) i = Some (min p (length others))"
proof -
  let ?w = "w\<lparr>w_manual_position := Some p\<rparr>" and ?m = "rq_machine (w_request w)"
  let ?t = "s\<lparr>s_waiting := set_manual i p (s_waiting s)\<rparr>"
  have inv: "sched_inv s" using assms(1) by (rule reach_inv)
  then have dist: "distinct (map w_id (s_waiting s))"
    by (simp add: sched_inv_def ids_ok_def waiting_ids_def)
  have uniq: "v = w" if "v \<in> set (s_waiting s)" "w_id v = i" for v
    using that assms(2,3) dist by (auto simp: distinct_map inj_on_def)
  have wt: "s_waiting ?t = map (\<lambda>v. if v = w then ?w else v) (s_waiting s)"
    using set_manual_replaces [OF dist assms(2), of p] assms(3) by simp
  have auto_part: "filter (\<lambda>v. rq_machine (w_request v) = ?m \<and> w_manual_position v = None) (s_waiting ?t)
      = filter (\<lambda>v. rq_machine (w_request v) = ?m \<and> w_id v \<noteq> i) (s_waiting s)"
    unfolding wt by (subst filter_replaced, simp, rule filter_cong [OF refl])
      (use assms(3,4) uniq in blast)
  have manual_part: "filter (\<lambda>v. rq_machine (w_request v) = ?m \<and> w_manual_position v \<noteq> None) (s_waiting ?t) = [?w]"
    unfolding wt using assms(2,4) dist by (intro filter_only_replaced) (auto simp: distinct_map)
  have key: "auto_key ?t = auto_key s" by (simp add: fun_eq_iff auto_key_def)
  have o1: "order ?t ?m = vec_insert (min p (length others)) ?w others"
    unfolding order_def Let_def auto_part manual_part key
    by (simp add: place_manual_def others_def)
  have none: "\<forall>v \<in> set others. w_id v \<noteq> i" by (simp add: others_def)
  have f: "find (\<lambda>v. w_id v = i) (s_waiting ?t) = Some ?w"
    unfolding wt by (rule find_replaced [OF assms(2)]) (use assms(3) in simp, use uniq in blast)
  have "index_of (\<lambda>v. w_id v = i) (order ?t ?m) = Some (length (take (min p (length others)) others))"
    unfolding o1 vec_insert_def using none assms(3)
    by (intro index_of_append) (auto dest: in_set_takeD)
  then have "position ?t i = Some (min p (length others))"
    using f by (simp add: position_def)
  moreover have "is_waiting s i" using assms(2,3) by (auto simp: is_waiting_def list_ex_iff)
  ultimately show ?thesis using o1 by (simp add: reorder_def)
qed

definition ex_queue3 :: scheduler where
  "ex_queue3 =
     (let s1 = snd (admit (new_scheduler default_config 0) (ex_request ''laptop'' ''talos a'' 0 None) 1);
          s2 = snd (admit s1 (ex_request ''laptop'' ''enki b'' 0 None) 2)
      in snd (admit s2 (ex_request ''laptop'' ''talos c'' 0 None) 3))"

definition ex_waiting :: "nat \<Rightarrow> string \<Rightarrow> waiting" where
  "ex_waiting i l = \<lparr>w_id = i, w_request = ex_request ''laptop'' l 0 None, w_since_ms = i,
     w_manual_position = None\<rparr>"

lemma reach_ex_queue3: "reachable_sched ex_queue3"
  unfolding ex_queue3_def Let_def
  by (intro reach_intros) (simp_all add: ex_sched_simps)

lemma ex_queue3_waiting:
  "s_waiting ex_queue3 = [ex_waiting 1 ''talos a'', ex_waiting 2 ''enki b'', ex_waiting 3 ''talos c'']"
  by (simp add: ex_queue3_def ex_waiting_def ex_sched_simps)

theorem reorder_moves_to_position_witness:
  "position (snd (reorder ex_queue3 3 0)) 3 = Some 0"
proof -
  have w: "ex_waiting 3 ''talos c'' \<in> set (s_waiting ex_queue3)" "w_id (ex_waiting 3 ''talos c'') = 3"
    by (simp_all add: ex_queue3_waiting) (simp add: ex_waiting_def)
  have "\<forall>v \<in> set (s_waiting ex_queue3). rq_machine (w_request v) = rq_machine (w_request (ex_waiting 3 ''talos c''))
      \<and> v \<noteq> ex_waiting 3 ''talos c'' \<longrightarrow> w_manual_position v = None"
    by (simp add: ex_queue3_waiting) (simp add: ex_waiting_def)
  from reorder_moves_to_position [OF reach_ex_queue3 w this, of 0] show ?thesis by simp
qed



section \<open>Pausing, reserving, overruns and CI registrations\<close>

lemma remove_first_subset: "x \<in> set (remove_first P xs) \<Longrightarrow> x \<in> set xs"
  by (induction xs) (auto split: if_splits)

lemma grant_loop_grants:
  "g \<in> set (fst (grant_loop ms now s)) \<Longrightarrow>
     \<exists>u w. s_paused u = s_paused s \<and> s_reserved u = s_reserved s \<and> s_config u = s_config s \<and> s_ci u = s_ci s
       \<and> set (s_waiting u) \<subseteq> set (s_waiting s)
       \<and> g_machine g \<notin> s_paused s \<and> candidate u (g_machine g) now = Some w \<and> g = made_grant u (g_machine g) now w"
proof (induction ms arbitrary: s)
  case (Cons m ms)
  obtain gs t where step: "grant_machine s now m = (gs, t)" by (cases "grant_machine s now m")
  have ci: "s_ci t = s_ci s" "set (s_waiting t) \<subseteq> set (s_waiting s)"
    using step by (cases rule: grant_machine_cases; auto simp: grant_to_eq dest: remove_first_subset)+
  have frame: "s_paused t = s_paused s" "s_reserved t = s_reserved s" "s_config t = s_config s"
    using grant_machine_frame [of s now m] step by simp_all
  from Cons.prems step have "g \<in> set gs \<or> g \<in> set (fst (grant_loop ms now t))"
    by (auto simp: Let_def case_prod_unfold)
  then show ?case
  proof
    assume g: "g \<in> set gs"
    from step show ?thesis
    proof (cases rule: grant_machine_cases)
      case (made w)
      with g show ?thesis by (intro exI [of _ s] exI [of _ w]) (simp add: made_grant_def)
    qed (use g in simp)
  next
    assume "g \<in> set (fst (grant_loop ms now t))"
    from Cons.IH [OF this] obtain u w where
      "s_paused u = s_paused t" "s_reserved u = s_reserved t" "s_config u = s_config t" "s_ci u = s_ci t"
      "set (s_waiting u) \<subseteq> set (s_waiting t)" "g_machine g \<notin> s_paused t"
      "candidate u (g_machine g) now = Some w" "g = made_grant u (g_machine g) now w" by blast
    with frame ci show ?thesis by (intro exI [of _ u] exI [of _ w]) auto
  qed
qed simp

text \<open>
  What a grant respects: no machine is granted while paused; while a reservation for it has not
  expired only a request whose label contains the reserved text is granted; and the grant carries
  the CI job count exactly while a CI registration on that machine is younger than its expiry.
\<close>

theorem grant_respects_administration:
  assumes "g \<in> set (fst (grant s now))"
  shows "g_machine g \<notin> s_paused s
       \<and> (\<forall>l until. s_reserved s (g_machine g) = Some (l, until) \<and> now < until
            \<longrightarrow> (\<exists>w \<in> set (s_waiting s). w_id w = g_id g \<and> rq_machine (w_request w) = g_machine g
                   \<and> str_contains (rq_label (w_request w)) l))
       \<and> g_jobs g = (if ci_active s (g_machine g) now then cf_ci_jobs (s_config s) else cf_jobs (s_config s))"
proof -
  obtain u w where u: "s_paused u = s_paused s" "s_reserved u = s_reserved s" "s_config u = s_config s"
    "s_ci u = s_ci s" "set (s_waiting u) \<subseteq> set (s_waiting s)" "g_machine g \<notin> s_paused s" "candidate u (g_machine g) now = Some w"
    "g = made_grant u (g_machine g) now w"
    using grant_loop_grants [of g "cf_machines (s_config s)" now s] assms by (auto simp: grant_def)
  have el: "eligible (reservation s (g_machine g) now) w" "rq_machine (w_request w) = g_machine g"
    "w \<in> set (s_waiting s)"
    using candidate_waiting [OF u(7)] u(2,5) by (auto simp: reservation_def)
  have i: "w_id w = g_id g" and j: "g_jobs g = jobs u (g_machine g) now"
    by (subst u(8), simp add: made_grant_def)+
  have "g_jobs g = jobs s (g_machine g) now"
    unfolding j using u(3,4) by (intro jobs_cong)
  moreover have "\<exists>w \<in> set (s_waiting s). w_id w = g_id g \<and> rq_machine (w_request w) = g_machine g
      \<and> str_contains (rq_label (w_request w)) l"
    if "s_reserved s (g_machine g) = Some (l, until)" "now < until" for l until
    using el i that by (intro bexI [of _ w]) (simp_all add: reservation_def eligible_def)
  ultimately show ?thesis using u(6) unfolding jobs_def by blast
qed

theorem grant_respects_administration_witness:
  "\<exists>g. g \<in> set (fst (grant (reserve ex_queue3 ''laptop'' (Some (''enki'', 100))) 5))
     \<and> g_id g = 2 \<and> g_jobs g = 24"
proof -
  let ?s = "reserve ex_queue3 ''laptop'' (Some (''enki'', 100))"
  have base: "ex_queue3 = (new_scheduler default_config 0)\<lparr>s_next_id := 4, s_waiting := [ex_waiting 1 ''talos a'',
      ex_waiting 2 ''enki b'', ex_waiting 3 ''talos c'']\<rparr>"
    by (simp add: ex_queue3_def ex_waiting_def ex_sched_simps)
  have ord: "order ?s ''laptop'' = s_waiting ex_queue3"
    by (simp add: order_def reserve_def base ex_waiting_def ex_request_def new_scheduler_def sort_key_def auto_key_def)
  have cand: "candidate ?s ''laptop'' 5 = Some (ex_waiting 2 ''enki b'')"
    by (simp add: candidate_def ord, simp add: base reservation_def reserve_def eligible_def
        ex_waiting_def ex_request_def sublist_code)
  have free: "holder_of ?s ''laptop'' = None" "''laptop'' \<notin> s_paused ?s"
    "cf_machines (s_config ?s) = [''laptop'', ''desktop'']"
    by (simp_all add: base reserve_def new_scheduler_def default_config_def)
  let ?g = "made_grant ?s ''laptop'' 5 (ex_waiting 2 ''enki b'')"
  have g: "?g \<in> set (fst (grant ?s 5))"
    using cand free by (simp add: grant_def grant_machine_def grant_to_eq Let_def case_prod_unfold)
  have i: "g_id ?g = 2" and m: "g_machine ?g = ''laptop''" by (simp_all add: made_grant_def ex_waiting_def)
  have ci: "\<not> ci_active ?s ''laptop'' 5" "cf_jobs (s_config ?s) = 24"
    by (simp_all add: ci_active_def base reserve_def new_scheduler_def default_config_def)
  have "g_jobs ?g = 24"
    using conjunct2 [OF conjunct2 [OF grant_respects_administration [OF g]]] m ci by simp
  with g i show ?thesis by blast
qed

text \<open>
  An overrun is reported once per lease: a holder is reported only when it has held for more
  than one and a half times its estimate and was not reported before, and whatever the time of the
  next check, no holder reported now is reported again.
\<close>

theorem overruns_reported_once:
  assumes "reachable_sched s" and "h \<in> set (fst (overruns s now))"
  shows "now - h_since_ms h > sat_mul64 (h_estimate_secs h) 1500
       \<and> (\<forall>later. \<forall>k \<in> set (fst (overruns (snd (overruns s now)) later)). h_id k \<noteq> h_id h)"
proof -
  have inv: "sched_inv s" using assms(1) by (rule reach_inv)
  obtain m h0 where h0: "(m, h0) \<in> set (s_holders s)" "overdue now h0" "h = log_overrun now h0"
    using assms(2) by (auto simp: overruns_def)
  have "h_id k \<noteq> h_id h" if k: "k \<in> set (fst (overruns (snd (overruns s now)) later))" for k later
  proof
    assume eq: "h_id k = h_id h"
    from k obtain n k0 where k0: "(n, k0) \<in> set (s_holders s)" "overdue later (log_overrun now k0)"
      "k = log_overrun later (log_overrun now k0)"
      by (auto simp: overruns_def)
    have "h_id k0 = h_id h0" using eq k0(3) h0(3) by (simp add: log_overrun_def split: if_splits)
    then have "k0 = h0"
      using inv_holder_unique [OF inv] k0(1) h0(1) inv_holder [OF inv] by metis
    with k0(2) h0(2) show False by (simp add: log_overrun_def overdue_def split: if_splits)
  qed
  moreover have "now - h_since_ms h > sat_mul64 (h_estimate_secs h) 1500"
    using h0(2,3) by (simp add: overdue_def log_overrun_def)
  ultimately show ?thesis by blast
qed

theorem overruns_reported_once_witness:
  "\<exists>h. h \<in> set (fst (overruns ex_session 900003)) \<and> h_id h = 1
     \<and> 1 \<notin> h_id ` set (fst (overruns (snd (overruns ex_session 900003)) 2000000))"
proof -
  let ?h = "ex_session_holder\<lparr>h_overrun_logged := True\<rparr>"
  have h: "?h \<in> set (fst (overruns ex_session 900003))"
    by (simp add: overruns_def ex_session_eq overdue_def log_overrun_def ex_session_holder_def
        sat_mul64_def u64_max_def)
  have i: "h_id ?h = 1" by (simp add: ex_session_holder_def)
  have "\<forall>k \<in> set (fst (overruns (snd (overruns ex_session 900003)) 2000000)). h_id k \<noteq> h_id ?h"
    using overruns_reported_once [OF reach_ex_session h] by blast
  then have "1 \<notin> h_id ` set (fst (overruns (snd (overruns ex_session 900003)) 2000000))"
    unfolding i image_iff by (simp add: eq_commute)
  with h i show ?thesis by blast
qed

end
