(* ===== verification/Lease_Server.thy ===== *)
theory Lease_Server
  imports Lease_Admin
begin

text \<open>
  The lease daemon of \<open>crates/bellows-lease/src/server.rs\<close>: the state its connections share and the
  handlers of a connection. Each handler is the code between two points where the connection waits
  for the network or a notification; the scheduler lock is held throughout such a piece, so pieces
  of different connections interleave but do not overlap. Writing a reply may fail: the steps at
  the end say what the code does then.
\<close>

section \<open>Shared state\<close>

datatype log_event =
    Log_start | Log_request nat | Log_abandon nat | Log_grant nat bool nat
  | Log_killed_orphan nat int | Log_release nat bool "int option"
  | Log_ci_start string string | Log_ci_stop string string | Log_admin admin_action
  | Log_unleased string string "nat option" string | Log_overrun nat nat

record daemon =
  d_sched :: scheduler
  d_mailboxes :: "nat \<rightharpoonup> reply list"
  d_log :: "log_event list"
  d_killed :: "int list"
  d_secret :: string

text \<open>
  A connection that asked for a machine: waiting for its grant (with the queue report it last
  sent), claimed but not yet told, or holding (with the process group its job reported).
\<close>

datatype conn =
    Conn_waiting string "(nat \<times> string option) option"
  | Conn_granted grant
  | Conn_holding grant "int option"

definition write_log :: "daemon \<Rightarrow> log_event \<Rightarrow> daemon" where
  "write_log d e = d\<lparr>d_log := d_log d @ [e]\<rparr>"

definition deliver :: "daemon \<Rightarrow> nat \<Rightarrow> reply \<Rightarrow> daemon" where
  "deliver d i r =
     (case d_mailboxes d i of
        None \<Rightarrow> d
      | Some q \<Rightarrow> d\<lparr>d_mailboxes := (d_mailboxes d)(i \<mapsto> q @ [r])\<rparr>)"

definition new_daemon :: "config \<Rightarrow> 64 word \<Rightarrow> string \<Rightarrow> daemon" where
  "new_daemon c seed secret =
     \<lparr>d_sched = new_scheduler c seed, d_mailboxes = Map.empty, d_log = [Log_start], d_killed = [],
      d_secret = secret\<rparr>"

section \<open>Short requests\<close>

definition admin :: "daemon \<Rightarrow> admin_action \<Rightarrow> reply \<times> daemon" where
  "admin d a =
     (let s = d_sched d;
          (ok, d1) =
            (case a of
               Reorder i p \<Rightarrow> (let (b, s') = reorder s i p in (b, d\<lparr>d_sched := s'\<rparr>))
             | Pause m \<Rightarrow> (knows s m, d\<lparr>d_sched := set_paused s m True\<rparr>)
             | Resume m \<Rightarrow> (knows s m, d\<lparr>d_sched := set_paused s m False\<rparr>)
             | Preempt i \<Rightarrow>
                 (let (b, s') = preempt s i; d' = d\<lparr>d_sched := s'\<rparr>
                  in (b, if b then deliver d' i Preempting else d'))
             | Reserve m l until \<Rightarrow> (knows s m, d\<lparr>d_sched := reserve s m (Some (l, until))\<rparr>)
             | Unreserve m \<Rightarrow> (True, d\<lparr>d_sched := reserve s m None\<rparr>)
             | Cancel i \<Rightarrow>
                 (if holds s i then (True, deliver d i (Revoked CancelledByAdministrator))
                  else (is_waiting s i, d\<lparr>d_sched := snd (release s i)\<rparr>)));
          d2 = write_log d1 (Log_admin a)
      in (if ok then Reply_ok else Refused NoSuchRequestLeaseOrMachine, d2))"

fun short_request :: "daemon \<Rightarrow> hello \<Rightarrow> nat \<Rightarrow> (reply \<times> daemon) option" where
  "short_request d Status now = Some (Status_report (status (d_sched d) now), d)"
| "short_request d (CiStart m j) now =
     Some (if \<not> knows (d_sched d) m
           then (Refused (UnknownCiMachine m), d)
           else (Reply_ok, write_log (d\<lparr>d_sched := ci_start (d_sched d) m j now\<rparr>) (Log_ci_start m j)))"
| "short_request d (CiStop m j) now =
     Some (Reply_ok, write_log (d\<lparr>d_sched := ci_stop (d_sched d) m j\<rparr>) (Log_ci_stop m j))"
| "short_request d (Admin secret a) now =
     Some (if secret \<noteq> d_secret d then (Refused WrongAdminSecret, d) else admin d a)"
| "short_request d (Unleased m l i reason) now = Some (Reply_ok, write_log d (Log_unleased m l i reason))"
| "short_request d (Request_lease r) now = None"

section \<open>Leases\<close>

definition regrant :: "daemon \<Rightarrow> nat \<Rightarrow> daemon" where
  "regrant d now = d\<lparr>d_sched := snd (grant (d_sched d) now)\<rparr>"

text \<open>The start of \<open>lease\<close>: admission, up to the first reply or the first wait.\<close>

definition open_lease :: "daemon \<Rightarrow> request \<Rightarrow> nat \<Rightarrow> reply option \<times> (nat \<times> conn) option \<times> daemon" where
  "open_lease d r now =
     (case admit (d_sched d) r now of
        (Admit_refused reason, s') \<Rightarrow> (Some (Refused reason), None, d\<lparr>d_sched := s'\<rparr>)
      | (Admit_nested g, s') \<Rightarrow> (None, Some (g_id g, Conn_granted g), d\<lparr>d_sched := s'\<rparr>)
      | (Admit_queued i, s') \<Rightarrow>
          (None, Some (i, Conn_waiting (rq_machine r) None),
           write_log (d\<lparr>d_sched := s'\<rparr>) (Log_request i)))"

text \<open>One pass of the loop in \<open>wait_for_grant\<close> under the scheduler lock.\<close>

datatype poll_result = Poll_granted grant | Poll_cancelled | Poll_queued nat "string option"

definition poll :: "daemon \<Rightarrow> nat \<Rightarrow> string \<Rightarrow> nat \<Rightarrow> poll_result \<times> daemon" where
  "poll d i machine now =
     (let s1 = snd (grant (d_sched d) now);
          (g, s2) = claim s1 i
      in case g of
           Some g \<Rightarrow> (Poll_granted g, d\<lparr>d_sched := s2\<rparr>)
         | None \<Rightarrow>
             if \<not> is_waiting s2 i then (Poll_cancelled, d\<lparr>d_sched := s2\<rparr>)
             else (Poll_queued (case position s2 i of None \<Rightarrow> 0 | Some p \<Rightarrow> p) (holder_label s2 machine),
                   d\<lparr>d_sched := s2\<rparr>))"

definition abandon :: "daemon \<Rightarrow> nat \<Rightarrow> nat \<Rightarrow> daemon" where
  "abandon d i now =
     regrant (write_log (d\<lparr>d_sched := snd (release (d_sched d) i)\<rparr>) (Log_abandon i)) now"

text \<open>After the claim: the grant is logged and the mailbox registered, then the reply is sent.\<close>

definition register :: "daemon \<Rightarrow> grant \<Rightarrow> daemon" where
  "register d g =
     (let d1 = write_log d (Log_grant (g_id g) (g_nested g) (g_jobs g))
      in d1\<lparr>d_mailboxes := (d_mailboxes d1)(g_id g \<mapsto> [])\<rparr>)"

definition granted_reply :: "grant \<Rightarrow> reply" where
  "granted_reply g = Granted (g_id g) (g_jobs g) (g_token g) (g_nested g)"

definition kill_group :: "daemon \<Rightarrow> int \<Rightarrow> daemon" where
  "kill_group d pgid = (if pgid > 1 then d\<lparr>d_killed := d_killed d @ [pgid]\<rparr> else d)"

text \<open>The end of \<open>lease\<close>, once the client reported \<open>Done\<close> or its connection ended.\<close>

definition finish :: "daemon \<Rightarrow> grant \<Rightarrow> int option \<Rightarrow> int option \<Rightarrow> nat \<Rightarrow> daemon" where
  "finish d g pgid code now =
     (let i = g_id g;
          d1 = d\<lparr>d_mailboxes := (d_mailboxes d)(i := None)\<rparr>;
          d2 = (case (code, pgid) of
                  (None, Some pg) \<Rightarrow> write_log (kill_group d1 pg) (Log_killed_orphan i pg)
                | _ \<Rightarrow> d1);
          d3 = d2\<lparr>d_sched := snd (release (d_sched d2) i)\<rparr>;
          d4 = write_log d3 (Log_release i (g_nested g) code)
      in regrant d4 now)"

definition watch_overruns :: "daemon \<Rightarrow> nat \<Rightarrow> daemon" where
  "watch_overruns d now =
     (let (over, s') = overruns (d_sched d) now
      in foldl (\<lambda>d h. write_log d (Log_overrun (h_id h) (h_estimate_secs h))) (d\<lparr>d_sched := s'\<rparr>) over)"

definition watch_merge_queue :: "daemon \<Rightarrow> (nat \<rightharpoonup> nat) \<Rightarrow> daemon" where
  "watch_merge_queue d positions = d\<lparr>d_sched := set_merge_queue (d_sched d) positions\<rparr>"

section \<open>The daemon and its connections\<close>

text \<open>
  A lease connection is named by the id of its request. \<open>send \<dots> ?\<close> leaves \<open>lease\<close> at once when
  the client is gone: the steps with \<open>reliable = False\<close> are those early returns, and they neither
  release the id nor remove its mailbox. Replies drained from a mailbox ignore the outcome.
\<close>

record sys =
  y_daemon :: daemon
  y_conns :: "nat \<rightharpoonup> conn"

definition close_conn :: "sys \<Rightarrow> nat \<Rightarrow> daemon \<Rightarrow> sys" where
  "close_conn y i d = \<lparr>y_daemon = d, y_conns = (y_conns y)(i := None)\<rparr>"

definition set_conn :: "sys \<Rightarrow> nat \<Rightarrow> conn \<Rightarrow> daemon \<Rightarrow> sys" where
  "set_conn y i c d = \<lparr>y_daemon = d, y_conns = (y_conns y)(i \<mapsto> c)\<rparr>"

inductive daemon_step :: "bool \<Rightarrow> sys \<Rightarrow> sys \<Rightarrow> bool" for reliable where
  short: "short_request (y_daemon y) h now = Some (r, d) \<Longrightarrow>
    daemon_step reliable y (y\<lparr>y_daemon := d\<rparr>)"
| open_refused: "open_lease (y_daemon y) r now = (reply, None, d) \<Longrightarrow>
    s_next_id (d_sched (y_daemon y)) < u64_max \<Longrightarrow>
    daemon_step reliable y (y\<lparr>y_daemon := d\<rparr>)"
| open_conn: "open_lease (y_daemon y) r now = (reply, Some (i, c), d) \<Longrightarrow>
    s_next_id (d_sched (y_daemon y)) < u64_max \<Longrightarrow>
    daemon_step reliable y (set_conn y i c d)"
| poll_granted: "y_conns y i = Some (Conn_waiting m told) \<Longrightarrow>
    poll (y_daemon y) i m now = (Poll_granted g, d) \<Longrightarrow>
    daemon_step reliable y (set_conn y i (Conn_granted g) d)"
| poll_cancelled: "y_conns y i = Some (Conn_waiting m told) \<Longrightarrow>
    poll (y_daemon y) i m now = (Poll_cancelled, d) \<Longrightarrow>
    daemon_step reliable y (close_conn y i (abandon d i now'))"
| poll_cancelled_lost: "y_conns y i = Some (Conn_waiting m told) \<Longrightarrow>
    poll (y_daemon y) i m now = (Poll_cancelled, d) \<Longrightarrow> \<not> reliable \<Longrightarrow>
    daemon_step reliable y (close_conn y i d)"
| poll_queued: "y_conns y i = Some (Conn_waiting m told) \<Longrightarrow>
    poll (y_daemon y) i m now = (Poll_queued p h, d) \<Longrightarrow>
    daemon_step reliable y (set_conn y i (Conn_waiting m (Some (p, h))) d)"
| poll_queued_lost: "y_conns y i = Some (Conn_waiting m told) \<Longrightarrow>
    poll (y_daemon y) i m now = (Poll_queued p h, d) \<Longrightarrow> told \<noteq> Some (p, h) \<Longrightarrow> \<not> reliable \<Longrightarrow>
    daemon_step reliable y (close_conn y i d)"
| hang_up: "y_conns y i = Some (Conn_waiting m told) \<Longrightarrow>
    daemon_step reliable y (close_conn y i (abandon (y_daemon y) i now))"
| tell_grant: "y_conns y i = Some (Conn_granted g) \<Longrightarrow>
    daemon_step reliable y (set_conn y i (Conn_holding g None) (register (y_daemon y) g))"
| tell_grant_lost: "y_conns y i = Some (Conn_granted g) \<Longrightarrow> \<not> reliable \<Longrightarrow>
    daemon_step reliable y (close_conn y i (register (y_daemon y) g))"
| spawned: "y_conns y i = Some (Conn_holding g pgid) \<Longrightarrow>
    daemon_step reliable y (set_conn y i (Conn_holding g (Some pg)) (y_daemon y))"
| receive: "y_conns y i = Some (Conn_holding g pgid) \<Longrightarrow> d_mailboxes (y_daemon y) i = Some (r # q) \<Longrightarrow>
    daemon_step reliable y (y\<lparr>y_daemon := (y_daemon y)\<lparr>d_mailboxes := (d_mailboxes (y_daemon y))(i \<mapsto> q)\<rparr>\<rparr>)"
| end_lease: "y_conns y i = Some (Conn_holding g pgid) \<Longrightarrow>
    daemon_step reliable y (close_conn y i (finish (y_daemon y) g pgid code now))"
| overrun_tick: "daemon_step reliable y (y\<lparr>y_daemon := watch_overruns (y_daemon y) now\<rparr>)"
| merge_queue_tick: "daemon_step reliable y (y\<lparr>y_daemon := watch_merge_queue (y_daemon y) q\<rparr>)"

definition start_sys :: "config \<Rightarrow> 64 word \<Rightarrow> string \<Rightarrow> sys" where
  "start_sys c seed secret = \<lparr>y_daemon = new_daemon c seed secret, y_conns = Map.empty\<rparr>"

inductive reachable_sys :: "bool \<Rightarrow> sys \<Rightarrow> bool" for reliable where
  sys_start: "reachable_sys reliable (start_sys c seed secret)"
| sys_step: "reachable_sys reliable y \<Longrightarrow> daemon_step reliable y z \<Longrightarrow> reachable_sys reliable z"

end
