(* ===== verification/Lease_Connections.thy ===== *)
theory Lease_Connections
  imports Lease_Server
begin

text \<open>
  Leases and the connections they live on: what the handlers of \<open>Lease_Server\<close> keep true of the
  scheduler and the open connections, for every interleaving of the connections' steps, and what a
  reply that cannot be written does to it.
\<close>

section \<open>What a connection may rely on\<close>

definition live :: "scheduler \<Rightarrow> nat set" where
  "live s = {i. is_waiting s i \<or> holds s i}"

definition lease_of :: "scheduler \<Rightarrow> nat \<Rightarrow> grant \<Rightarrow> bool" where
  "lease_of s i g \<longleftrightarrow> g_id g = i
     \<and> (if g_nested g then s_nested s i = Some (g_machine g)
        else \<exists>h. holder_of s (g_machine g) = Some h \<and> h_id h = i)"

text \<open>
  A waiting connection's id has been handed out, is not nested, and when it holds a machine its
  grant is still there to be claimed; the other connections hold what their grant says.
\<close>

fun owns :: "scheduler \<Rightarrow> nat \<Rightarrow> conn \<Rightarrow> bool" where
  "owns s i (Conn_waiting m sent) \<longleftrightarrow>
     i < s_next_id s \<and> s_nested s i = None \<and> (i \<in> set (holder_ids s) \<longrightarrow> s_unclaimed s i \<noteq> None)"
| "owns s i (Conn_granted g) \<longleftrightarrow> i < s_next_id s \<and> lease_of s i g"
| "owns s i (Conn_holding g pgid) \<longleftrightarrow> i < s_next_id s \<and> lease_of s i g"

fun ident :: "admission \<Rightarrow> nat option" where
  "ident (Admit_queued i) = Some i"
| "ident (Admit_nested g) = Some (g_id g)"
| "ident (Admit_refused reason) = None"

fun first_conn :: "string \<Rightarrow> admission \<Rightarrow> conn" where
  "first_conn m (Admit_nested g) = Conn_granted g"
| "first_conn m a = Conn_waiting m None"

lemma is_waiting_ids: "is_waiting s i \<longleftrightarrow> i \<in> set (waiting_ids s)"
  by (auto simp: is_waiting_def waiting_ids_def list_ex_iff)

lemma holds_ids: "holds s i \<longleftrightarrow> i \<in> set (holder_ids s) \<or> s_nested s i \<noteq> None"
  by (auto simp: holds_def holder_ids_def list_ex_iff)

lemma live_ids: "live s = set (waiting_ids s) \<union> set (holder_ids s) \<union> dom (s_nested s)"
  by (auto simp: live_def is_waiting_ids holds_ids)

lemma holder_of_id: "sched_inv s \<Longrightarrow> holder_of s m = Some h \<Longrightarrow> h_id h \<in> set (holder_ids s)"
  using inv_holder [of s m h] by (force simp: holder_ids_def)

lemma holds_live: "holds s i \<Longrightarrow> i \<in> live s"
  by (simp add: live_def)

lemma lease_of_holds: "sched_inv s \<Longrightarrow> lease_of s i g \<Longrightarrow> holds s i"
  using holder_of_id [of s "g_machine g"] by (auto simp: lease_of_def holds_ids split: if_splits)

text \<open>States that agree on holders, queue ids, nested runs and unclaimed grants.\<close>

definition same_leases :: "scheduler \<Rightarrow> scheduler \<Rightarrow> bool" where
  "same_leases s t \<longleftrightarrow> waiting_ids t = waiting_ids s \<and> holder_ids t = holder_ids s
     \<and> (\<forall>m. map_option h_id (holder_of t m) = map_option h_id (holder_of s m))
     \<and> s_nested t = s_nested s \<and> s_next_id t = s_next_id s \<and> s_unclaimed t = s_unclaimed s"

lemma same_leases_live: "same_leases s t \<Longrightarrow> live t = live s"
  by (simp add: same_leases_def live_ids)

lemma same_leases_lease_of:
  assumes "same_leases s t"
  shows "lease_of t i g = lease_of s i g"
proof -
  have "map_option h_id (holder_of t (g_machine g)) = map_option h_id (holder_of s (g_machine g))"
    using assms by (simp add: same_leases_def)
  then have "(\<exists>h. holder_of t (g_machine g) = Some h \<and> h_id h = i)
      \<longleftrightarrow> (\<exists>h. holder_of s (g_machine g) = Some h \<and> h_id h = i)"
    by (cases "holder_of t (g_machine g)"; cases "holder_of s (g_machine g)") auto
  with assms show ?thesis by (simp add: lease_of_def same_leases_def)
qed

lemma same_leases_owns: "same_leases s t \<Longrightarrow> owns t i c = owns s i c"
  by (cases c) (simp_all add: same_leases_lease_of, simp_all add: same_leases_def)

lemma same_leases_map_holders:
  assumes "\<And>h. h_id (f h) = h_id h"
  shows "same_leases s (s\<lparr>s_holders := map (\<lambda>(m, h). (m, f h)) (s_holders s)\<rparr>)"
proof -
  have "map_option h_id (map_of (map (\<lambda>(m, h). (m, f h)) hs) m) = map_option h_id (map_of hs m)"
    for hs :: "(string \<times> holder) list" and m
    by (induction hs) (auto simp: assms)
  moreover have "map (\<lambda>e. h_id (snd e)) (map (\<lambda>(m, h). (m, f h)) hs) = map (\<lambda>e. h_id (snd e)) hs"
    for hs :: "(string \<times> holder) list"
    by (induction hs) (auto simp: assms)
  ultimately show ?thesis by (simp add: same_leases_def waiting_ids_def holder_ids_def)
qed

text \<open>The administrative methods that neither start nor end a lease.\<close>

inductive quiet :: "scheduler \<Rightarrow> scheduler \<Rightarrow> bool" where
  quiet_refl: "quiet s s"
| quiet_reorder: "quiet s (snd (reorder s i p))"
| quiet_pause: "quiet s (set_paused s m b)"
| quiet_reserve: "quiet s (reserve s m l)"
| quiet_preempt: "quiet s (snd (preempt s i))"
| quiet_ci_start: "quiet s (ci_start s m j now)"
| quiet_ci_stop: "quiet s (ci_stop s m j)"
| quiet_merge_queue: "quiet s (set_merge_queue s q)"
| quiet_overruns: "quiet s (snd (overruns s now))"

lemma quiet_inv: "quiet s t \<Longrightarrow> sched_inv s \<Longrightarrow> sched_inv t"
  by (induction rule: quiet.induct) (simp_all add: step_invs)

lemma preempt_same_leases: "same_leases s (snd (preempt s i))"
proof -
  have "map (\<lambda>e. h_id (snd e)) (mark_preempting i hs) = map (\<lambda>e. h_id (snd e)) hs" for hs
    by (induction i hs rule: mark_preempting.induct) auto
  moreover have "map_option h_id (map_of (mark_preempting i hs) m) = map_option h_id (map_of hs m)" for hs m
    by (induction i hs rule: mark_preempting.induct) auto
  ultimately show ?thesis by (simp add: preempt_def same_leases_def waiting_ids_def holder_ids_def)
qed

lemma quiet_same_leases: "quiet s t \<Longrightarrow> same_leases s t"
proof (induction rule: quiet.induct)
  case (quiet_overruns s now)
  show ?case unfolding overruns_def snd_conv
    by (rule same_leases_map_holders) (simp add: log_overrun_def)
qed (simp_all add: preempt_same_leases, simp_all add: same_leases_def waiting_ids_def holder_ids_def
    reorder_def set_manual_ids set_paused_def reserve_def ci_start_def ci_stop_def set_merge_queue_def Let_def
    split: option.split)

section \<open>The methods that start and end leases\<close>

lemma admit_ident:
  assumes "sched_inv s" and "s_next_id s < u64_max" and "admit s r now = (a, t)"
  shows "sched_inv t" and "live t = live s \<union> set_option (ident a)"
    and "ident a = Some i \<Longrightarrow> i = s_next_id s \<and> owns t i (first_conn (rq_machine r) a)"
    and "owns s j c \<Longrightarrow> owns t j c"
    and "s_next_id s \<le> s_next_id t"
proof -
  have new: "s_next_id s \<notin> set (waiting_ids s)" "s_next_id s \<notin> set (holder_ids s)"
    "s_nested s (s_next_id s) = None"
    using assms(1) by (auto simp: sched_inv_def ids_ok_def)
  have w: "wrap_add64 (s_next_id s) 1 = Suc (s_next_id s)"
    using assms(2) by (simp add: wrap_add64_def u64_max_def)
  show "sched_inv t" using inv_admit [OF assms(1,2), of r now] assms(3) by simp
  show "live t = live s \<union> set_option (ident a)"
    using assms(3) by (auto simp: admit_def Let_def live_ids waiting_ids_def holder_ids_def split: if_splits option.splits)
  show "ident a = Some i \<Longrightarrow> i = s_next_id s \<and> owns t i (first_conn (rq_machine r) a)"
    using assms(3) new w
    by (auto simp: admit_def Let_def lease_of_def holder_ids_def split: if_splits option.splits)
  show "owns s j c \<Longrightarrow> owns t j c"
    using assms(3) w
    by (cases c) (auto simp: admit_def Let_def lease_of_def holder_ids_def split: if_splits option.splits)
  show "s_next_id s \<le> s_next_id t"
    using assms(3) w by (auto simp: admit_def Let_def split: if_splits option.splits)
qed

lemma owns_known: "owns s i c \<Longrightarrow> i < s_next_id s"
  by (cases c) simp_all

lemma grant_machine_live:
  assumes "sched_inv s"
  shows "live (snd (grant_machine s now m)) = live s"
proof (cases "grant_machine s now m")
  case (Pair gs t)
  then show ?thesis
  proof (cases rule: grant_machine_cases)
    case blocked
    with Pair show ?thesis by simp
  next
    case (made w)
    have w: "w_id w \<in> set (waiting_ids s)"
      using candidate_waiting [OF made(3)] by (simp add: waiting_ids_def)
    have dist: "distinct (map w_id (s_waiting s))"
      using assms by (simp add: sched_inv_def ids_ok_def waiting_ids_def)
    have m_free: "m \<notin> fst ` set (s_holders s)" using made(1) by (simp add: map_of_None_fst)
    have "set (holder_ids t) = insert (w_id w) (set (holder_ids s))"
      by (simp add: made(5) holder_ids_def grant_to_eq bt_insert_fresh_set [OF m_free] granted_holder_def
          flip: image_image [of h_id snd])
    moreover have "set (waiting_ids t) = set (waiting_ids s) - {w_id w}"
      by (auto simp: made(5) waiting_ids_def grant_to_eq remove_first_filter [OF dist])
    moreover have "s_nested t = s_nested s" by (simp add: made(5) grant_to_eq)
    ultimately show ?thesis using Pair w by (auto simp: live_ids)
  qed
qed

lemma grant_loop_live: "sched_inv s \<Longrightarrow> live (snd (grant_loop ms now s)) = live s"
  by (induction ms arbitrary: s) (simp_all add: Let_def case_prod_unfold grant_machine_live inv_grant_machine)

lemma grant_machine_lease_of: "lease_of s i g \<Longrightarrow> lease_of (snd (grant_machine s now m)) i g"
  by (auto simp: lease_of_def grant_machine_frame grant_machine_keeps_holder split: if_splits)

lemma grant_machine_owns:
  assumes "sched_inv s" and "owns s i c"
  shows "owns (snd (grant_machine s now m)) i c"
proof (cases c)
  case (Conn_waiting q sent)
  show ?thesis
  proof (cases "i \<in> set (holder_ids s)")
    case True
    with Conn_waiting assms(2) have "s_unclaimed s i \<noteq> None" by simp
    then have "s_unclaimed (snd (grant_machine s now m)) i \<noteq> None"
      using grant_machine_unclaimed_stays [OF assms(1)] by blast
    with Conn_waiting assms(2) show ?thesis by (simp add: grant_machine_frame)
  next
    case False
    have "s_unclaimed (snd (grant_machine s now m)) i \<noteq> None"
      if "i \<in> set (holder_ids (snd (grant_machine s now m)))"
    proof (cases "grant_machine s now m")
      case (Pair gs t)
      then show ?thesis
      proof (cases rule: grant_machine_cases)
        case blocked
        with Pair that False show ?thesis by simp
      next
        case (made w)
        have m_free: "m \<notin> fst ` set (s_holders s)" using made(1) by (simp add: map_of_None_fst)
        have "set (holder_ids t) = insert (w_id w) (set (holder_ids s))"
          by (simp add: made(5) holder_ids_def grant_to_eq bt_insert_fresh_set [OF m_free] granted_holder_def
              flip: image_image [of h_id snd])
        with that False Pair have "i = w_id w" by simp
        with Pair made(5) show ?thesis by (simp add: grant_to_eq)
      qed
    qed
    with Conn_waiting assms(2) show ?thesis by (simp add: grant_machine_frame)
  qed
qed (use assms in \<open>simp_all add: grant_machine_lease_of grant_machine_frame\<close>)

lemma grant_loop_owns: "sched_inv s \<Longrightarrow> owns s i c \<Longrightarrow> owns (snd (grant_loop ms now s)) i c"
  by (induction ms arbitrary: s)
     (simp_all add: Let_def case_prod_unfold grant_machine_owns inv_grant_machine)

lemma claim_live: "live (snd (claim s i)) = live s"
  by (simp add: claim_def live_ids waiting_ids_def holder_ids_def)

lemma claim_owns: "owns s j c \<Longrightarrow> j \<noteq> i \<Longrightarrow> owns (snd (claim s i)) j c"
  by (cases c) (simp_all add: claim_def lease_of_def holder_ids_def)

lemma claim_granted:
  assumes "sched_inv s" and "fst (claim s i) = Some g"
  shows "i \<in> set (holder_ids s) \<and> lease_of (snd (claim s i)) i g"
proof -
  have "grant_ok s i g" using assms by (simp add: claim_def sched_inv_def entries_ok_def)
  then show ?thesis
    using holder_of_id [OF assms(1), of "g_machine g"] by (auto simp: claim_def lease_of_def grant_ok_def)
qed

lemma claim_none: "fst (claim s i) = None \<Longrightarrow> s_unclaimed (snd (claim s i)) = s_unclaimed s"
  by (auto simp: claim_def fun_eq_iff)

lemma holder_ids_below: "sched_inv s \<Longrightarrow> i \<in> set (holder_ids s) \<Longrightarrow> i < s_next_id s"
  by (simp add: sched_inv_def ids_ok_def)

lemma release_live: "sched_inv s \<Longrightarrow> live (snd (release s i)) = live s - {i}"
  by (auto simp: release_eq drop_id_def live_ids waiting_ids_def holder_ids_def image_iff split: if_splits)

lemma release_owns:
  assumes "sched_inv s" and "owns s j c" and "j \<noteq> i \<or> \<not> holds s i"
  shows "owns (snd (release s i)) j c"
proof (cases "j = i")
  case True
  with assms have "\<not> holds s j" by simp
  moreover from this assms(1) have "\<not> lease_of s j g" for g by (blast dest: lease_of_holds)
  ultimately show ?thesis using assms(1,2) True
    by (cases c) (auto simp: release_eq drop_id_def holder_ids_def holds_ids)
next
  case False
  have "lease_of (drop_id s i) j g" if "lease_of s j g" for g
    using that False
    by (auto simp: lease_of_def drop_id_holders [OF assms(1)] split: if_splits)
       (simp_all add: drop_id_def)
  with False assms(1,2) show ?thesis
    by (cases c) (auto simp: release_eq drop_id_def holder_ids_def)
qed

section \<open>The lease table as an interface\<close>

text \<open>
  What the connection handlers need from the scheduler: \<open>live\<close> ids, what each connection
  \<open>owns\<close>, and four operations with their laws. Against it, \<open>tracked\<close> says every open connection
  owns its lease and \<open>covered\<close> that every live id has an open connection.
\<close>

definition tracked :: "('s \<Rightarrow> nat \<Rightarrow> 'c \<Rightarrow> bool) \<Rightarrow> 's \<Rightarrow> (nat \<rightharpoonup> 'c) \<Rightarrow> bool" where
  "tracked own s C \<longleftrightarrow> (\<forall>i c. C i = Some c \<longrightarrow> own s i c)"

definition covered :: "('s \<Rightarrow> nat set) \<Rightarrow> 's \<Rightarrow> (nat \<rightharpoonup> 'c) \<Rightarrow> bool" where
  "covered ids s C \<longleftrightarrow> ids s \<subseteq> dom C"

locale lease_table =
  fixes ok :: "'s \<Rightarrow> bool" and ids :: "'s \<Rightarrow> nat set" and own :: "'s \<Rightarrow> nat \<Rightarrow> 'c \<Rightarrow> bool"
    and held :: "'s \<Rightarrow> nat \<Rightarrow> bool" and room :: "'s \<Rightarrow> bool"
    and enter :: "'s \<Rightarrow> 'r \<Rightarrow> nat \<Rightarrow> (nat \<times> 'c) option \<times> 's"
    and serve :: "'s \<Rightarrow> nat \<Rightarrow> 's" and leave :: "'s \<Rightarrow> nat \<Rightarrow> 's" and still :: "'s \<Rightarrow> 's \<Rightarrow> bool"
  assumes enter_ok: "ok s \<Longrightarrow> room s \<Longrightarrow> enter s r now = (e, t) \<Longrightarrow> ok t"
    and enter_ids: "ok s \<Longrightarrow> room s \<Longrightarrow> enter s r now = (e, t) \<Longrightarrow> ids t = ids s \<union> fst ` set_option e"
    and enter_own: "ok s \<Longrightarrow> room s \<Longrightarrow> enter s r now = (Some (i, c), t) \<Longrightarrow> own t i c"
    and enter_fresh: "ok s \<Longrightarrow> room s \<Longrightarrow> enter s r now = (Some (i, c), t) \<Longrightarrow> own s j d \<Longrightarrow> i \<noteq> j"
    and enter_keeps: "ok s \<Longrightarrow> room s \<Longrightarrow> enter s r now = (e, t) \<Longrightarrow> own s j d \<Longrightarrow> own t j d"
    and serve_ok: "ok s \<Longrightarrow> ok (serve s now)"
    and serve_ids: "ok s \<Longrightarrow> ids (serve s now) = ids s"
    and serve_keeps: "ok s \<Longrightarrow> own s j d \<Longrightarrow> own (serve s now) j d"
    and leave_ok: "ok s \<Longrightarrow> ok (leave s i)"
    and leave_ids: "ok s \<Longrightarrow> ids (leave s i) = ids s - {i}"
    and leave_keeps: "ok s \<Longrightarrow> own s j d \<Longrightarrow> j \<noteq> i \<or> \<not> held s i \<Longrightarrow> own (leave s i) j d"
    and still_ok: "ok s \<Longrightarrow> still s t \<Longrightarrow> ok t"
    and still_ids: "still s t \<Longrightarrow> ids t = ids s"
    and still_keeps: "still s t \<Longrightarrow> own s j d \<Longrightarrow> own t j d"
    and held_ids: "held s i \<Longrightarrow> i \<in> ids s"
begin

lemma tracked_serve: "ok s \<Longrightarrow> tracked own s C \<Longrightarrow> tracked own (serve s now) C"
  by (simp add: tracked_def serve_keeps)

lemma covered_serve: "ok s \<Longrightarrow> covered ids s C \<Longrightarrow> covered ids (serve s now) C"
  by (simp add: covered_def serve_ids)

lemma tracked_still: "still s t \<Longrightarrow> tracked own s C \<Longrightarrow> tracked own t C"
  by (simp add: tracked_def still_keeps)

lemma covered_still: "still s t \<Longrightarrow> covered ids s C \<Longrightarrow> covered ids t C"
  by (simp add: covered_def still_ids)

lemma tracked_close: "ok s \<Longrightarrow> tracked own s C \<Longrightarrow> tracked own (leave s i) (C(i := None))"
  by (simp add: tracked_def leave_keeps)

lemma covered_close: "ok s \<Longrightarrow> covered ids s C \<Longrightarrow> covered ids (leave s i) (C(i := None))"
  by (auto simp: covered_def leave_ids)

text \<open>An id that is not held may be dropped while its connection is still open.\<close>

lemma tracked_cancel: "ok s \<Longrightarrow> \<not> held s i \<Longrightarrow> tracked own s C \<Longrightarrow> tracked own (leave s i) C"
  by (simp add: tracked_def leave_keeps)

lemma covered_cancel: "ok s \<Longrightarrow> covered ids s C \<Longrightarrow> covered ids (leave s i) C"
  by (auto simp: covered_def leave_ids)

lemma tracked_forget: "tracked own s C \<Longrightarrow> tracked own s (C(i := None))"
  by (simp add: tracked_def)

lemma tracked_enter:
  "ok s \<Longrightarrow> room s \<Longrightarrow> enter s r now = (Some (i, c), t) \<Longrightarrow> tracked own s C \<Longrightarrow> tracked own t (C(i \<mapsto> c))"
  by (simp add: tracked_def enter_own enter_keeps)

lemma covered_enter:
  "ok s \<Longrightarrow> room s \<Longrightarrow> enter s r now = (Some (i, c), t) \<Longrightarrow> covered ids s C \<Longrightarrow> covered ids t (C(i \<mapsto> c))"
  by (auto simp: covered_def enter_ids)

lemma enter_unused:
  "ok s \<Longrightarrow> room s \<Longrightarrow> enter s r now = (Some (i, c), t) \<Longrightarrow> tracked own s C \<Longrightarrow> C i = None"
  using enter_fresh [of s r now i c t i] by (cases "C i") (auto simp: tracked_def)

lemma refused_enter:
  assumes "ok s" and "room s" and "enter s r now = (None, t)"
  shows "tracked own s C \<Longrightarrow> tracked own t C" and "covered ids s C \<Longrightarrow> covered ids t C"
  using enter_keeps [OF assms] enter_ids [OF assms] by (simp_all add: tracked_def covered_def)

end

definition open_request :: "scheduler \<Rightarrow> request \<Rightarrow> nat \<Rightarrow> (nat \<times> conn) option \<times> scheduler" where
  "open_request s r now =
     (let (a, t) = admit s r now in (map_option (\<lambda>i. (i, first_conn (rq_machine r) a)) (ident a), t))"

interpretation lt: lease_table sched_inv live owns holds "\<lambda>s. s_next_id s < u64_max"
  open_request "\<lambda>s now. snd (grant s now)" "\<lambda>s i. snd (release s i)" quiet
proof unfold_locales
  fix s r now e t j d i c
  assume ok: "sched_inv s" "s_next_id s < u64_max"
  {
    assume "open_request s r now = (e, t)"
    then obtain a where a: "admit s r now = (a, t)" and
      e: "e = map_option (\<lambda>i. (i, first_conn (rq_machine r) a)) (ident a)"
      by (cases "admit s r now") (auto simp: open_request_def)
    note adm = admit_ident [OF ok a]
    show "sched_inv t" by (rule adm(1))
    show "live t = live s \<union> fst ` set_option e" by (cases "ident a") (simp_all add: adm(2) e)
    show "owns s j d \<Longrightarrow> owns t j d" by (rule adm(4))
  }
  assume "open_request s r now = (Some (i, c), t)"
  then obtain a where a: "admit s r now = (a, t)" and
    e: "ident a = Some i" "c = first_conn (rq_machine r) a"
    by (cases "admit s r now") (auto simp: open_request_def)
  note adm = admit_ident [OF ok a]
  show "owns t i c" using adm(3) e by blast
  show "owns s j d \<Longrightarrow> i \<noteq> j" using adm(3) e(1) owns_known [of s j d] by fastforce
qed (simp_all add: inv_grant inv_release release_live release_owns grant_def grant_loop_live grant_loop_owns
    quiet_inv quiet_same_leases [THEN same_leases_live] quiet_same_leases [THEN same_leases_owns]
    holds_live inv_grant_loop)

section \<open>The handlers' effect on the scheduler\<close>

definition mail_kept :: "daemon \<Rightarrow> daemon \<Rightarrow> bool" where
  "mail_kept d e \<longleftrightarrow> dom (d_mailboxes e) = dom (d_mailboxes d)"

lemma deliver_simps [simp]: "d_sched (deliver d i r) = d_sched d" "mail_kept d (deliver d i r)"
  by (auto simp: deliver_def mail_kept_def split: option.splits)

lemma write_log_simps [simp]:
  "d_sched (write_log d e) = d_sched d" "d_mailboxes (write_log d e) = d_mailboxes d"
  by (simp_all add: write_log_def)

lemma mail_kept_sched [simp]: "mail_kept d (d\<lparr>d_sched := s\<rparr>)" "mail_kept d d"
  "mail_kept d (write_log e ev) = mail_kept d e"
  by (simp_all add: mail_kept_def)

lemma admin_sched:
  "quiet (d_sched d) (d_sched (snd (admin d a)))
   \<or> (\<exists>i. \<not> holds (d_sched d) i \<and> d_sched (snd (admin d a)) = snd (release (d_sched d) i))"
proof (cases a)
  case (Reorder i p)
  then show ?thesis using quiet_reorder [of "d_sched d" i p]
    by (simp add: admin_def Let_def case_prod_unfold)
next
  case (Preempt i)
  then show ?thesis using quiet_preempt [of "d_sched d" i]
    by (simp add: admin_def Let_def case_prod_unfold)
next
  case (Cancel i)
  then show ?thesis by (auto simp: admin_def Let_def quiet_refl)
qed (simp_all add: admin_def Let_def quiet_pause quiet_reserve)

lemma admin_mail: "mail_kept d (snd (admin d a))"
proof (cases a)
  case (Preempt i)
  have "mail_kept d (deliver (d\<lparr>d_sched := s\<rparr>) i r)" for s r
    using deliver_simps(2) [of "d\<lparr>d_sched := s\<rparr>" i r] by (simp add: mail_kept_def)
  with Preempt show ?thesis by (simp add: admin_def Let_def case_prod_unfold)
qed (auto simp: admin_def Let_def case_prod_unfold)

lemma short_sched:
  assumes "short_request d h now = Some (r, e)"
  shows "quiet (d_sched d) (d_sched e)
   \<or> (\<exists>i. \<not> holds (d_sched d) i \<and> d_sched e = snd (release (d_sched d) i))"
proof (cases h)
  case (Admin secret a)
  with assms admin_sched [of d a] show ?thesis
    by (cases "secret = d_secret d") (auto simp: quiet_refl dest!: arg_cong [of _ _ snd])
qed (use assms in \<open>auto simp: quiet_refl quiet_ci_start quiet_ci_stop split: if_splits\<close>)

lemma short_mail: "short_request d h now = Some (r, e) \<Longrightarrow> mail_kept d e"
  using admin_mail [of d]
  by (cases h) (auto split: if_splits dest!: arg_cong [of _ _ snd])

lemma open_lease_sched:
  "open_lease d r now = (reply, c, e) \<Longrightarrow>
     open_request (d_sched d) r now = (c, d_sched e) \<and> d_mailboxes e = d_mailboxes d"
  by (auto simp: open_lease_def open_request_def split: prod.splits admission.splits)

lemma regrant_simps [simp]:
  "d_sched (regrant d now) = snd (grant (d_sched d) now)" "d_mailboxes (regrant d now) = d_mailboxes d"
  by (simp_all add: regrant_def)

lemma poll_sched:
  assumes "poll d i m now = (p, e)"
  shows "d_sched e = snd (claim (snd (grant (d_sched d) now)) i)"
    and "d_mailboxes e = d_mailboxes d"
    and "case p of Poll_granted g \<Rightarrow> fst (claim (snd (grant (d_sched d) now)) i) = Some g
         | _ \<Rightarrow> fst (claim (snd (grant (d_sched d) now)) i) = None"
  using assms by (auto simp: poll_def Let_def case_prod_unfold split: option.splits if_splits)

lemma abandon_simps [simp]:
  "d_sched (abandon d i now) = snd (grant (snd (release (d_sched d) i)) now)"
  "d_mailboxes (abandon d i now) = d_mailboxes d"
  by (simp_all add: abandon_def)

lemma kill_group_simps [simp]: "d_sched (kill_group d p) = d_sched d" "d_mailboxes (kill_group d p) = d_mailboxes d"
  by (simp_all add: kill_group_def)

lemma finish_simps [simp]:
  "d_sched (finish d g p code now) = snd (grant (snd (release (d_sched d) (g_id g))) now)"
  "d_mailboxes (finish d g p code now) = (d_mailboxes d)(g_id g := None)"
  by (simp_all add: finish_def Let_def split: option.split)

lemma register_simps [simp]:
  "d_sched (register d g) = d_sched d"
  "d_mailboxes (register d g) = (d_mailboxes d)(g_id g \<mapsto> [])"
  by (simp_all add: register_def)

lemma foldl_write_log [simp]:
  "d_sched (foldl (\<lambda>d h. write_log d (f h)) d hs) = d_sched d"
  "d_mailboxes (foldl (\<lambda>d h. write_log d (f h)) d hs) = d_mailboxes d"
  by (induction hs arbitrary: d) simp_all

lemma watch_simps [simp]:
  "d_sched (watch_overruns d now) = snd (overruns (d_sched d) now)"
  "d_mailboxes (watch_overruns d now) = d_mailboxes d"
  "d_sched (watch_merge_queue d q) = set_merge_queue (d_sched d) q"
  "d_mailboxes (watch_merge_queue d q) = d_mailboxes d"
  by (simp_all add: watch_overruns_def watch_merge_queue_def case_prod_unfold Let_def)

section \<open>The invariant of the daemon and its connections\<close>

definition sys_inv :: "bool \<Rightarrow> sys \<Rightarrow> bool" where
  "sys_inv reliable y \<longleftrightarrow>
     sched_inv (d_sched (y_daemon y))
     \<and> tracked owns (d_sched (y_daemon y)) (y_conns y)
     \<and> (reliable \<longrightarrow> covered live (d_sched (y_daemon y)) (y_conns y))
     \<and> (\<forall>i g p. y_conns y i = Some (Conn_holding g p) \<longrightarrow> d_mailboxes (y_daemon y) i \<noteq> None)"

lemma live_new: "live (new_scheduler c seed) = {}"
  by (simp add: live_def is_waiting_def holds_def new_scheduler_def)

lemma sys_inv_start: "sys_inv reliable (start_sys c seed secret)"
  by (simp add: sys_inv_def start_sys_def new_daemon_def inv_new tracked_def covered_def live_new)

text \<open>A connection's pass under the scheduler lock.\<close>

lemma sys_inv_poll:
  assumes inv: "sys_inv reliable y" and i: "y_conns y i = Some (Conn_waiting m told)"
    and p: "poll (y_daemon y) i m now = (p, d)"
  shows "sched_inv (d_sched d)" and "reliable \<Longrightarrow> covered live (d_sched d) (y_conns y)"
    and "j \<noteq> i \<Longrightarrow> y_conns y j = Some c \<Longrightarrow> owns (d_sched d) j c"
    and "p = Poll_granted g \<Longrightarrow> owns (d_sched d) i (Conn_granted g)"
    and "\<forall>g. p \<noteq> Poll_granted g \<Longrightarrow> owns (d_sched d) i (Conn_waiting m r)"
proof -
  let ?s = "d_sched (y_daemon y)"
  let ?u = "snd (grant ?s now)"
  have ok: "sched_inv ?s" and tr: "tracked owns ?s (y_conns y)"
    using inv by (simp_all add: sys_inv_def)
  note p = poll_sched [OF p]
  have u: "sched_inv ?u" and tru: "tracked owns ?u (y_conns y)"
    using ok lt.tracked_serve [OF ok tr] by (simp_all add: inv_grant)
  then have iu: "owns ?u i (Conn_waiting m told)" using i unfolding tracked_def by blast
  show "sched_inv (d_sched d)" by (simp add: p inv_claim u)
  show "covered live (d_sched d) (y_conns y)" if reliable
    using that lt.covered_serve [OF ok, of "y_conns y" now] inv
    by (simp only: p(1) covered_def claim_live sys_inv_def)
  show "owns (d_sched d) j c" if "j \<noteq> i" "y_conns y j = Some c"
    using tru that by (simp add: p tracked_def claim_owns)
  show "owns (d_sched d) i (Conn_granted g)" if "p = Poll_granted g"
    using claim_granted [OF u, of i g] p(3) iu that by (simp add: p(1)) (simp add: claim_def)
  show "owns (d_sched d) i (Conn_waiting m r)" if "\<forall>g. p \<noteq> Poll_granted g"
    using claim_none [of ?u i] p(3) iu that
    by (cases p) (simp_all add: p(1), simp_all add: claim_def holder_ids_def)
qed

lemma sys_inv_quiet:
  assumes "sys_inv reliable y" and "quiet (d_sched (y_daemon y)) (d_sched d)" and "mail_kept (y_daemon y) d"
  shows "sys_inv reliable (y\<lparr>y_daemon := d\<rparr>)"
  using assms quiet_inv [OF assms(2)] lt.tracked_still [OF assms(2)] lt.covered_still [OF assms(2)]
  by (auto simp: sys_inv_def mail_kept_def dom_def set_eq_iff)

lemma sys_inv_cancel:
  assumes "sys_inv reliable y" and "\<not> holds (d_sched (y_daemon y)) i"
    and "d_sched d = snd (release (d_sched (y_daemon y)) i)" and "mail_kept (y_daemon y) d"
  shows "sys_inv reliable (y\<lparr>y_daemon := d\<rparr>)"
  using assms lt.tracked_cancel [of "d_sched (y_daemon y)" i] lt.covered_cancel [of "d_sched (y_daemon y)"]
  by (auto simp: sys_inv_def mail_kept_def dom_def set_eq_iff inv_release)

lemma sys_inv_close:
  assumes inv: "sys_inv reliable y"
    and d: "d_sched d = snd (grant (snd (release (d_sched e) i)) now)" "dom (d_mailboxes (y_daemon y)) - {i} \<subseteq> dom (d_mailboxes d)"
    and e: "sched_inv (d_sched e)" "reliable \<Longrightarrow> covered live (d_sched e) (y_conns y)"
      "tracked owns (d_sched e) (y_conns y)"
  shows "sys_inv reliable (close_conn y i d)"
proof -
  have r: "sched_inv (snd (release (d_sched e) i))" using e(1) by (rule inv_release)
  have "tracked owns (d_sched d) ((y_conns y)(i := None))"
    unfolding d(1) by (intro lt.tracked_serve r lt.tracked_close e)
  moreover have "covered live (d_sched d) ((y_conns y)(i := None))" if reliable
    unfolding d(1) by (intro lt.covered_serve r lt.covered_close e that)
  moreover have "sched_inv (d_sched d)" unfolding d(1) using r by (rule inv_grant)
  moreover have "d_mailboxes d j \<noteq> None" if "j \<noteq> i" "y_conns y j = Some (Conn_holding g p)" for j g p
  proof -
    have "d_mailboxes (y_daemon y) j \<noteq> None" using inv that by (simp add: sys_inv_def)
    with that(1) d(2) show ?thesis by (auto simp: dom_def subset_iff)
  qed
  ultimately show ?thesis unfolding sys_inv_def close_conn_def by auto
qed

lemma sys_inv_set_conn:
  assumes inv: "sys_inv reliable y" and ok: "sched_inv (d_sched d)"
    and cov: "reliable \<Longrightarrow> covered live (d_sched d) ((y_conns y)(i \<mapsto> c))"
    and own: "\<And>j c. j \<noteq> i \<Longrightarrow> y_conns y j = Some c \<Longrightarrow> owns (d_sched d) j c" "owns (d_sched d) i c"
    and mail: "dom (d_mailboxes (y_daemon y)) \<subseteq> dom (d_mailboxes d)"
      "\<And>g p. c = Conn_holding g p \<Longrightarrow> d_mailboxes d i \<noteq> None"
  shows "sys_inv reliable (set_conn y i c d)"
proof -
  have "d_mailboxes d j \<noteq> None" if "((y_conns y)(i \<mapsto> c)) j = Some (Conn_holding g p)" for j g p
  proof (cases "j = i")
    case True
    with that mail(2) show ?thesis by simp
  next
    case False
    with that inv have "d_mailboxes (y_daemon y) j \<noteq> None" by (simp add: sys_inv_def)
    with mail(1) show ?thesis by (auto simp: dom_def subset_iff)
  qed
  then show ?thesis using ok cov own by (simp add: sys_inv_def set_conn_def tracked_def)
qed

lemma sys_inv_forget:
  assumes "sys_inv False y" and "sched_inv (d_sched d)"
    and "\<And>j c. j \<noteq> i \<Longrightarrow> y_conns y j = Some c \<Longrightarrow> owns (d_sched d) j c"
    and "dom (d_mailboxes (y_daemon y)) \<subseteq> dom (d_mailboxes d)"
  shows "sys_inv False (close_conn y i d)"
proof -
  have "d_mailboxes d j \<noteq> None" if "y_conns y j = Some (Conn_holding g p)" for j g p
  proof -
    from that assms(1) have "d_mailboxes (y_daemon y) j \<noteq> None" by (simp add: sys_inv_def)
    with assms(4) show ?thesis by (auto simp: dom_def subset_iff)
  qed
  with assms(2,3) show ?thesis unfolding sys_inv_def close_conn_def tracked_def by auto
qed

lemma covered_more: "covered live s C \<Longrightarrow> covered live s (C(i \<mapsto> c))"
  by (auto simp: covered_def)

lemma sys_inv_owns: "sys_inv reliable y \<Longrightarrow> y_conns y i = Some c \<Longrightarrow> owns (d_sched (y_daemon y)) i c"
  by (simp add: sys_inv_def tracked_def)

lemma sys_inv_step:
  assumes "daemon_step reliable y z" and "sys_inv reliable y"
  shows "sys_inv reliable z"
  using assms
proof (induction rule: daemon_step.induct)
  case (short y h now r d)
  from short_sched [OF short(1)] show ?case
    using sys_inv_quiet [OF short(2) _ short_mail [OF short(1)]]
      sys_inv_cancel [OF short(2) _ _ short_mail [OF short(1)]] by blast
next
  case (open_refused y r now reply d)
  from open_lease_sched [OF open_refused(1)] have e: "open_request (d_sched (y_daemon y)) r now = (None, d_sched d)"
    and m: "d_mailboxes d = d_mailboxes (y_daemon y)" by simp_all
  have ok: "sched_inv (d_sched (y_daemon y))" using open_refused(3) by (simp add: sys_inv_def)
  show ?case
    using open_refused(3) lt.refused_enter [OF ok open_refused(2) e] lt.enter_ok [OF ok open_refused(2) e]
    by (simp add: sys_inv_def m)
next
  case (open_conn y r now reply i c d)
  from open_lease_sched [OF open_conn(1)] have e: "open_request (d_sched (y_daemon y)) r now = (Some (i, c), d_sched d)"
    and m: "d_mailboxes d = d_mailboxes (y_daemon y)" by simp_all
  have ok: "sched_inv (d_sched (y_daemon y))" and tr: "tracked owns (d_sched (y_daemon y)) (y_conns y)"
    using open_conn(3) by (simp_all add: sys_inv_def)
  have "c \<noteq> Conn_holding g p" for g p
    using e by (auto simp: open_request_def split: prod.splits) (metis conn.distinct(3,5) first_conn.elims)
  then show ?case
    using lt.tracked_enter [OF ok open_conn(2) e tr] lt.covered_enter [OF ok open_conn(2) e] open_conn(3)
    by (intro sys_inv_set_conn) (auto simp: sys_inv_def m tracked_def lt.enter_ok [OF ok open_conn(2) e])
next
  case (poll_granted y i m told now g d)
  note p = sys_inv_poll [OF poll_granted(3,1,2)]
  show ?case
    by (rule sys_inv_set_conn [OF poll_granted(3)])
       (use p poll_sched(2) [OF poll_granted(2)] in \<open>auto intro: covered_more\<close>)
next
  case (poll_cancelled y i m told now d now')
  note p = sys_inv_poll [OF poll_cancelled(3,1,2)]
  have "tracked owns (d_sched d) (y_conns y)"
    unfolding tracked_def
  proof (intro allI impI)
    fix j c assume "y_conns y j = Some c"
    then show "owns (d_sched d) j c" using p(3) p(5) poll_cancelled(1) by (cases "j = i") auto
  qed
  then show ?case
    by (intro sys_inv_close [OF poll_cancelled(3) abandon_simps(1)])
       (use p poll_sched(2) [OF poll_cancelled(2)] in auto)
next
  case (poll_cancelled_lost y i m told now d)
  then show ?case
    using sys_inv_poll [OF poll_cancelled_lost(4,1,2)] poll_sched(2) [OF poll_cancelled_lost(2)]
    by (auto intro!: sys_inv_forget)
next
  case (poll_queued y i m told now p h d)
  note p = sys_inv_poll [OF poll_queued(3,1,2)]
  show ?case
    by (rule sys_inv_set_conn [OF poll_queued(3)])
       (use p poll_sched(2) [OF poll_queued(2)] in \<open>auto intro: covered_more simp del: owns.simps\<close>)
next
  case (poll_queued_lost y i m told now p h d)
  then show ?case
    using sys_inv_poll [OF poll_queued_lost(5,1,2)] poll_sched(2) [OF poll_queued_lost(2)]
    by (auto intro!: sys_inv_forget)
next
  case (hang_up y i m told now)
  then show ?case
    by (intro sys_inv_close [OF hang_up(2) abandon_simps(1)]) (auto simp: sys_inv_def)
next
  case (tell_grant y i g)
  note o = sys_inv_owns [OF tell_grant(2)]
  have "g_id g = i" and "owns (d_sched (y_daemon y)) i (Conn_holding g None)"
    using o [OF tell_grant(1)] by (simp_all add: lease_of_def)
  then show ?case
    using tell_grant(2) o
    by (intro sys_inv_set_conn) (auto simp: sys_inv_def intro: covered_more simp del: owns.simps)
next
  case (tell_grant_lost y i g)
  then have inv: "sys_inv False y" by simp
  have "sys_inv False (close_conn y i (register (y_daemon y) g))"
    by (rule sys_inv_forget [OF inv])
       (use inv sys_inv_owns [OF inv] in \<open>auto simp: sys_inv_def simp del: owns.simps\<close>)
  then show ?case using tell_grant_lost(2) by simp
next
  case (spawned y i g pgid pg)
  note o = sys_inv_owns [OF spawned(2)]
  have "owns (d_sched (y_daemon y)) i (Conn_holding g (Some pg))"
    using o [OF spawned(1)] by simp
  then show ?case
    using spawned o
    by (intro sys_inv_set_conn) (auto simp: sys_inv_def intro: covered_more simp del: owns.simps)
next
  case (receive y i g pgid r q)
  then show ?case by (auto simp: sys_inv_def)
next
  case (end_lease y i g pgid code now)
  then have "g_id g = i" using sys_inv_owns [OF end_lease(2,1)] by (simp add: lease_of_def)
  then show ?case
    by (intro sys_inv_close [OF end_lease(2)]) (use end_lease in \<open>auto simp: sys_inv_def\<close>)
next
  case (overrun_tick y now)
  then show ?case by (intro sys_inv_quiet) (simp_all add: quiet_overruns mail_kept_def)
next
  case (merge_queue_tick y q)
  then show ?case by (intro sys_inv_quiet) (simp_all add: quiet_merge_queue mail_kept_def)
qed

lemma sys_inv_reachable: "reachable_sys reliable y \<Longrightarrow> sys_inv reliable y"
  by (induction rule: reachable_sys.induct) (auto intro: sys_inv_start sys_inv_step)

end
