(* ===== verification/Lease_Lifetime.thy ===== *)
theory Lease_Lifetime
  imports Lease_Connections
begin

text \<open>
  What the daemon guarantees about leases and connections over every interleaving, and the two
  cases it does not handle: a reply that cannot be written before the lease's loop runs, and a
  cancellation between the claim of a grant and the registration of its mailbox.
\<close>

section \<open>Leases live on connections\<close>

text \<open>
  C9. While replies reach their clients, a lease lives exactly as long as its connection: every id
  that waits for or holds a machine has an open connection, a connection that was granted its
  lease holds it, and once no connection is open nothing waits and nothing is held.
\<close>

theorem lease_lives_with_connection:
  assumes "reachable_sys True y"
  shows "{i. is_waiting (d_sched (y_daemon y)) i \<or> holds (d_sched (y_daemon y)) i} \<subseteq> dom (y_conns y)
       \<and> {i. \<exists>g p. y_conns y i = Some (Conn_granted g) \<or> y_conns y i = Some (Conn_holding g p)}
           \<subseteq> {i. holds (d_sched (y_daemon y)) i}"
proof -
  have inv: "sys_inv True y" using assms by (rule sys_inv_reachable)
  then have "holds (d_sched (y_daemon y)) i"
    if "y_conns y i = Some (Conn_granted g) \<or> y_conns y i = Some (Conn_holding g p)" for i g p
    using that sys_inv_owns [OF inv, of i] lease_of_holds [of "d_sched (y_daemon y)" i g]
    by (auto simp: sys_inv_def)
  with inv show ?thesis by (auto simp: sys_inv_def covered_def live_def)
qed

text \<open>A daemon with one request for the laptop, waiting, granted but not told, and told.\<close>

definition ex_start :: sys where
  "ex_start = start_sys default_config 0 ''secret''"

definition ex_build :: request where
  "ex_build = ex_request ''laptop'' ''build'' 0 None"

definition ex_queued :: sys where
  "ex_queued = (let (reply, c, d) = open_lease (y_daemon ex_start) ex_build 5
                 in set_conn ex_start 1 (Conn_waiting ''laptop'' None) d)"

definition ex_build_grant :: grant where
  "ex_build_grant = \<lparr>g_id = 1, g_machine = ''laptop'', g_jobs = 24, g_token = None, g_nested = False\<rparr>"

definition ex_granted :: sys where
  "ex_granted = set_conn ex_queued 1 (Conn_granted ex_build_grant) (snd (poll (y_daemon ex_queued) 1 ''laptop'' 6))"

lemmas ex_sys_defs = ex_granted_def ex_queued_def ex_start_def ex_build_def ex_build_grant_def
  start_sys_def new_daemon_def set_conn_def close_conn_def open_lease_def write_log_def

definition ex_build_holder :: holder where
  "ex_build_holder = \<lparr>h_id = 1, h_machine = ''laptop'', h_label = ''build'', h_since_ms = 6,
     h_estimate_secs = 600, h_session = False, h_token = None, h_preempting = False,
     h_overrun_logged = False\<rparr>"

lemma ex_admit:
  "admit (new_scheduler default_config 0) ex_build 5 =
     (Admit_queued 1, (new_scheduler default_config 0)\<lparr>s_next_id := 2,
        s_waiting := [\<lparr>w_id = 1, w_request = ex_build, w_since_ms = 5, w_manual_position = None\<rparr>]\<rparr>)"
  by (simp add: ex_build_def ex_sched_simps)

lemma ex_open:
  "open_lease (y_daemon ex_start) ex_build 5 =
     (None, Some (1, Conn_waiting ''laptop'' None), y_daemon ex_queued)"
  by (simp add: ex_queued_def set_conn_def ex_start_def start_sys_def new_daemon_def open_lease_def ex_admit)
     (simp add: ex_build_def ex_request_def)

lemma ex_poll:
  "poll (y_daemon ex_queued) 1 ''laptop'' 6 = (Poll_granted ex_build_grant, y_daemon ex_granted)"
  "d_sched (y_daemon ex_granted) = (new_scheduler default_config 0)\<lparr>s_next_id := 2,
     s_holders := [(''laptop'', ex_build_holder)]\<rparr>"
  "d_mailboxes (y_daemon ex_granted) = Map.empty"
  by (simp_all add: ex_sys_defs ex_admit [unfolded ex_build_def] poll_def Let_def)
     (simp_all add: ex_sched_simps claim_def jobs_def ci_active_def ex_build_holder_def)

lemma ex_granted_steps: "reachable_sys reliable ex_granted" "y_conns ex_granted = [1 \<mapsto> Conn_granted ex_build_grant]"
proof -
  have d: "d_sched (y_daemon ex_start) = new_scheduler default_config 0"
    by (simp add: ex_start_def start_sys_def new_daemon_def)
  have w: "ex_queued = set_conn ex_start 1 (Conn_waiting ''laptop'' None) (y_daemon ex_queued)"
    by (simp add: ex_queued_def set_conn_def Let_def case_prod_unfold)
  have "reachable_sys reliable ex_start" unfolding ex_start_def by (rule sys_start)
  moreover have "daemon_step reliable ex_start ex_queued"
    by (subst w, rule open_conn [OF ex_open]) (simp add: d new_scheduler_def u64_max_def)
  ultimately have r: "reachable_sys reliable ex_queued" by (rule sys_step)
  have c: "y_conns ex_queued 1 = Some (Conn_waiting ''laptop'' None)"
    by (subst w) (simp add: set_conn_def)
  have "daemon_step reliable ex_queued ex_granted"
    using poll_granted [OF c ex_poll(1)] by (simp add: ex_granted_def ex_poll(1) [symmetric] set_conn_def)
  with r show "reachable_sys reliable ex_granted" by (rule sys_step)
  show "y_conns ex_granted = [1 \<mapsto> Conn_granted ex_build_grant]"
    by (simp add: ex_granted_def ex_queued_def set_conn_def Let_def case_prod_unfold ex_start_def start_sys_def)
qed

theorem lease_lives_with_connection_witness:
  "dom (y_conns ex_granted) = {1} \<and> holds (d_sched (y_daemon ex_granted)) 1"
proof -
  have "1 \<in> {i. \<exists>g p. y_conns ex_granted i = Some (Conn_granted g) \<or> y_conns ex_granted i = Some (Conn_holding g p)}"
    by (simp add: ex_granted_steps(2))
  then show ?thesis
    using lease_lives_with_connection [OF ex_granted_steps(1)] by (auto simp: ex_granted_steps(2))
qed

text \<open>
  C8. At most one leased job runs on a machine, whatever the interleaving and whatever replies are
  lost: two open connections that were granted the same machine outside a session are the same
  connection.
\<close>

theorem one_job_per_machine:
  assumes "reachable_sys reliable y"
    and "y_conns y i = Some (Conn_holding g p)" and "y_conns y j = Some (Conn_holding k q)"
    and "\<not> g_nested g" and "\<not> g_nested k" and "g_machine g = g_machine k"
  shows "i = j"
proof -
  have inv: "sys_inv reliable y" using assms(1) by (rule sys_inv_reachable)
  from sys_inv_owns [OF inv assms(2)] sys_inv_owns [OF inv assms(3)] assms(4-6)
  show ?thesis by (auto simp: lease_of_def)
qed

definition ex_holding :: sys where
  "ex_holding = set_conn ex_granted 1 (Conn_holding ex_build_grant None)
     (register (y_daemon ex_granted) ex_build_grant)"

lemma ex_holding_steps: "reachable_sys reliable ex_holding" "y_conns ex_holding = [1 \<mapsto> Conn_holding ex_build_grant None]"
proof -
  have "daemon_step reliable ex_granted ex_holding"
    unfolding ex_holding_def by (rule tell_grant) (simp add: ex_granted_steps(2))
  then show "reachable_sys reliable ex_holding" by (rule sys_step [OF ex_granted_steps(1)])
  show "y_conns ex_holding = [1 \<mapsto> Conn_holding ex_build_grant None]"
    by (simp add: ex_holding_def set_conn_def ex_granted_steps(2))
qed

theorem one_job_per_machine_witness:
  "{j. \<exists>k q. y_conns ex_holding j = Some (Conn_holding k q) \<and> \<not> g_nested k \<and> g_machine k = ''laptop''} = {1}"
proof -
  have c: "y_conns ex_holding 1 = Some (Conn_holding ex_build_grant None)" by (simp add: ex_holding_steps(2))
  have g: "\<not> g_nested ex_build_grant" "g_machine ex_build_grant = ''laptop''"
    by (simp_all add: ex_build_grant_def)
  show ?thesis
    using one_job_per_machine [OF ex_holding_steps(1) c _ g(1)] c g by fastforce
qed

section \<open>Cancelling\<close>

text \<open>
  Cancelling a lease whose client has been told of its grant does not take the machine away: it
  answers \<open>Ok\<close>, leaves the scheduler as it was, and queues \<open>Revoked\<close> as the last message the
  holder's connection will write.
\<close>

theorem cancel_reaches_holder:
  assumes "reachable_sys reliable y" and "y_conns y i = Some (Conn_holding g p)"
  shows "fst (admin (y_daemon y) (Cancel i)) = Reply_ok
       \<and> d_sched (snd (admin (y_daemon y) (Cancel i))) = d_sched (y_daemon y)
       \<and> (\<exists>q. d_mailboxes (y_daemon y) i = Some q
            \<and> d_mailboxes (snd (admin (y_daemon y) (Cancel i))) i = Some (q @ [Revoked CancelledByAdministrator]))"
proof -
  have inv: "sys_inv reliable y" using assms(1) by (rule sys_inv_reachable)
  have "holds (d_sched (y_daemon y)) i"
    using sys_inv_owns [OF inv assms(2)] inv by (auto simp: sys_inv_def dest: lease_of_holds)
  moreover obtain q where "d_mailboxes (y_daemon y) i = Some q"
    using inv assms(2) by (auto simp: sys_inv_def)
  ultimately show ?thesis by (simp add: admin_def Let_def deliver_def)
qed

theorem cancel_reaches_holder_witness:
  "d_mailboxes (snd (admin (y_daemon ex_holding) (Cancel 1))) 1 = Some [Revoked CancelledByAdministrator]"
proof -
  have "y_conns ex_holding 1 = Some (Conn_holding ex_build_grant None)" by (simp add: ex_holding_steps(2))
  moreover have "d_mailboxes (y_daemon ex_holding) 1 = Some []"
    by (simp add: ex_holding_def set_conn_def ex_build_grant_def)
  ultimately show ?thesis
    using cancel_reaches_holder [OF ex_holding_steps(1), of 1 ex_build_grant None] by simp
qed

text \<open>
  Between the claim of a grant and the registration of its mailbox a cancellation is lost: it
  answers \<open>Ok\<close>, but the scheduler, the mailboxes and the connection are as before, so the job
  starts.
\<close>

theorem cancel_before_registration_is_lost:
  "\<exists>y i g. reachable_sys True y \<and> y_conns y i = Some (Conn_granted g)
     \<and> fst (admin (y_daemon y) (Cancel i)) = Reply_ok
     \<and> d_sched (snd (admin (y_daemon y) (Cancel i))) = d_sched (y_daemon y)
     \<and> d_mailboxes (snd (admin (y_daemon y) (Cancel i))) = d_mailboxes (y_daemon y)"
proof -
  have "holds (d_sched (y_daemon ex_granted)) 1"
    by (simp add: ex_poll(2) holds_def ex_build_holder_def)
  then have "fst (admin (y_daemon ex_granted) (Cancel 1)) = Reply_ok
     \<and> d_sched (snd (admin (y_daemon ex_granted) (Cancel 1))) = d_sched (y_daemon ex_granted)
     \<and> d_mailboxes (snd (admin (y_daemon ex_granted) (Cancel 1))) = d_mailboxes (y_daemon ex_granted)"
    by (simp add: admin_def Let_def deliver_def ex_poll(3))
  with ex_granted_steps(1) [of True] ex_granted_steps(2) show ?thesis
    by (intro exI [of _ ex_granted] exI [of _ 1] exI [of _ ex_build_grant]) simp
qed

section \<open>Lost replies\<close>

text \<open>A lease without a connection is only released by its connection, so it stays.\<close>

lemma orphan_step:
  assumes "daemon_step reliable y z" and "sys_inv False y"
    and "lease_of (d_sched (y_daemon y)) i g" and "y_conns y i = None"
  shows "lease_of (d_sched (y_daemon z)) i g \<and> y_conns z i = None"
proof -
  have ok: "sched_inv (d_sched (y_daemon y))" using assms(2) by (simp add: sys_inv_def)
  have h: "holds (d_sched (y_daemon y)) i" using ok assms(3) by (rule lease_of_holds)
  have below: "i < s_next_id (d_sched (y_daemon y))"
  proof -
    have "\<forall>i \<in> set (holder_ids (d_sched (y_daemon y))) \<union> dom (s_nested (d_sched (y_daemon y))).
        i < s_next_id (d_sched (y_daemon y))"
      using ok by (auto simp: sched_inv_def ids_ok_def)
    with h show ?thesis by (auto simp: holds_ids)
  qed
  then have own: "owns (d_sched (y_daemon y)) i (Conn_granted g)" using assms(3) by simp
  note grant_keeps = lt.serve_keeps [OF ok own]
  have leave_keeps: "owns (snd (grant (snd (release (d_sched (y_daemon y)) j)) now)) i (Conn_granted g)"
    if "j \<noteq> i" for j now
    using that by (intro lt.serve_keeps lt.leave_ok ok lt.leave_keeps own) simp
  have poll_keeps: "sched_inv (d_sched d) \<and> owns (d_sched d) i (Conn_granted g)"
    if "poll (y_daemon y) j m now = (p, d)" "j \<noteq> i" for j m now p d
    using poll_sched(1) [OF that(1)] claim_owns [OF grant_keeps] that(2) inv_claim [OF inv_grant [OF ok]]
    by simp
  have "owns (d_sched (y_daemon z)) i (Conn_granted g) \<and> y_conns z i = None"
    using assms(1)
  proof (cases rule: daemon_step.cases)
    case (short h now r d)
    from short_sched [OF short(2)] show ?thesis
    proof (elim disjE exE conjE)
      assume "quiet (d_sched (y_daemon y)) (d_sched d)"
      then show ?thesis using short lt.still_keeps [OF _ own] assms(4) by simp
    next
      fix j assume j: "\<not> holds (d_sched (y_daemon y)) j" "d_sched d = snd (release (d_sched (y_daemon y)) j)"
      then show ?thesis using short lt.leave_keeps [OF ok own, of j] assms(4) by simp
    qed
  next
    case (open_refused r now reply d)
    then show ?thesis
      using lt.enter_keeps [OF ok] open_lease_sched [OF open_refused(2)] own assms(4) by fastforce
  next
    case (open_conn r now reply j c d)
    then have e: "open_request (d_sched (y_daemon y)) r now = (Some (j, c), d_sched d)"
      using open_lease_sched [OF open_conn(2)] by simp
    show ?thesis
      using lt.enter_keeps [OF ok open_conn(3) e own] lt.enter_fresh [OF ok open_conn(3) e own] open_conn(1) assms(4)
      by (simp add: set_conn_def)
  next
    case (poll_cancelled j m told now d now')
    have "j \<noteq> i" using poll_cancelled(2) assms(4) by auto
    note d = poll_keeps [OF poll_cancelled(3) this]
    then show ?thesis
      using lt.serve_keeps [OF lt.leave_ok [of "d_sched d" j] lt.leave_keeps [of "d_sched d" i "Conn_granted g" j]]
        \<open>j \<noteq> i\<close> poll_cancelled(1) assms(4)
      by (simp add: close_conn_def)
  next
    case (end_lease j k pgid code now)
    then have "g_id k = j" and "j \<noteq> i"
      using sys_inv_owns [OF assms(2), of j] assms(4) by (auto simp: lease_of_def)
    then show ?thesis using leave_keeps end_lease assms(4) by (simp add: close_conn_def)
  next
    case (hang_up j m told now)
    then have "j \<noteq> i" using assms(4) by auto
    then show ?thesis using leave_keeps hang_up assms(4) by (simp add: close_conn_def)
  next
    case (overrun_tick now)
    then show ?thesis using lt.still_keeps [OF quiet_overruns own] assms(4) by simp
  next
    case (merge_queue_tick q)
    then show ?thesis using lt.still_keeps [OF quiet_merge_queue own] assms(4) by simp
  qed (use own assms(4) poll_keeps in \<open>force simp: set_conn_def close_conn_def\<close>)+
  then show ?thesis by simp
qed

lemma orphan_stays:
  assumes "(daemon_step False)\<^sup>*\<^sup>* y z" and "sys_inv False y"
    and "lease_of (d_sched (y_daemon y)) i g" and "y_conns y i = None"
  shows "sys_inv False z \<and> lease_of (d_sched (y_daemon z)) i g \<and> y_conns z i = None"
  using assms
proof (induction rule: rtranclp_induct)
  case (step z w)
  then show ?case using orphan_step [of False z w i g] sys_inv_step by blast
qed simp

text \<open>
  A \<open>Granted\<close> reply that cannot be written leaks its lease: from a reachable state in which no
  connection is open, the machine stays held by the lost request through every further sequence of
  steps, administrator requests included.
\<close>

theorem lost_grant_reply_blocks_machine:
  "\<exists>y. reachable_sys False y \<and> y_conns y = Map.empty
     \<and> {z. (daemon_step False)\<^sup>*\<^sup>* y z}
         \<subseteq> {z. map_option h_id (holder_of (d_sched (y_daemon z)) ''laptop'') = Some 1 \<and> y_conns z 1 = None}"
proof -
  let ?y = "close_conn ex_granted 1 (register (y_daemon ex_granted) ex_build_grant)"
  have "daemon_step False ex_granted ?y"
    by (rule tell_grant_lost) (simp_all add: ex_granted_steps(2))
  then have r: "reachable_sys False ?y" by (rule sys_step [OF ex_granted_steps(1)])
  have c: "y_conns ?y = Map.empty" by (simp add: close_conn_def ex_granted_steps(2) fun_eq_iff)
  have l: "lease_of (d_sched (y_daemon ?y)) 1 ex_build_grant"
    by (simp add: close_conn_def ex_poll(2) lease_of_def ex_build_grant_def ex_build_holder_def)
  have "map_option h_id (holder_of (d_sched (y_daemon z)) ''laptop'') = Some 1 \<and> y_conns z 1 = None"
    if "(daemon_step False)\<^sup>*\<^sup>* ?y z" for z
    using orphan_stays [OF that sys_inv_reachable [OF r] l] c
    by (auto simp: lease_of_def ex_build_grant_def)
  with r c show ?thesis by blast
qed

end
