(* ===== verification/Core_Types.thy ===== *)
theory Core_Types
  imports Bellows_Prelude
begin

text \<open>
  The data of \<open>crates/bellows-core/src/lib.rs\<close>: the records the store keeps and the server
  exchanges, the messages a check can fail with, and the functions of other crates the code calls
  (BLAKE3 and the JSON encoder) as the fields of a record that every definition using them takes.
\<close>

section \<open>Constants\<close>

definition protocol_version :: nat where "protocol_version = 6"
definition content_key_len :: nat where "content_key_len = 64"
definition max_candidate_files :: nat where "max_candidate_files = 100000"
definition max_candidate_env :: nat where "max_candidate_env = 4096"
definition max_candidate_artifacts :: nat where "max_candidate_artifacts = 16"
definition max_record_artifacts :: nat where "max_record_artifacts = 100000"
definition max_record_env :: nat where "max_record_env = 4096"
definition unpublished_blob_grace_ms :: nat where "unpublished_blob_grace_ms = 60 * 60 * 1000"
definition pin_prefix :: string where "pin_prefix = ''@bellows:root:''"

section \<open>Records\<close>

record file_input =
  fi_path :: string
  fi_digest :: string

record env_input =
  ei_name :: string
  ei_value_digest :: "string option"
  ei_normalized :: bool

record artifact =
  ar_file_name :: string
  ar_digest :: string
  ar_executable :: bool

record stream_artifact =
  sa_digest :: string
  sa_len :: nat

record action_candidate =
  ac_protocol :: nat
  ac_static_key :: string
  ac_action_key :: string
  ac_crate_name :: string
  ac_created_ms :: nat
  ac_files :: "file_input list"
  ac_host_files :: "file_input list"
  ac_env :: "env_input list"
  ac_artifacts :: "artifact list"
  ac_stdout :: stream_artifact
  ac_stderr :: stream_artifact
  ac_proc_macros :: "string list"

text \<open>\<open>CandidateIndex\<close> is its only field.\<close>

type_synonym candidate_index = "action_candidate list"

record platform_identity =
  pi_rustc :: string
  pi_cargo :: string
  pi_os :: string
  pi_arch :: string
  pi_path_digest :: string
  pi_rustup_home_digest :: string
  pi_rustup_toolchain :: "string option"
  pi_host_cc :: "string option"
  pi_host_ld :: "string option"
  pi_host_ar :: "string option"

text \<open>\<open>BTreeMap\<close>s are key-sorted association lists.\<close>

record declared_record =
  dr_protocol :: nat
  dr_key :: string
  dr_name :: string
  dr_created_ms :: nat
  dr_platform :: platform_identity
  dr_command :: "string list"
  dr_environment :: "(string \<times> string) list"
  dr_inputs :: "artifact list"
  dr_output_paths :: "string list"
  dr_outputs :: "artifact list"
  dr_stdout :: stream_artifact
  dr_stderr :: stream_artifact
  dr_duration_ms :: nat
  dr_executor :: string

record archive_manifest =
  am_protocol :: nat
  am_name :: string
  am_tree_digest :: string
  am_created_ms :: nat
  am_producer_action :: "string option"
  am_files :: "artifact list"

record execute_request =
  xr_key :: string
  xr_name :: string
  xr_platform :: platform_identity
  xr_command :: "string list"
  xr_environment :: "(string \<times> string) list"
  xr_inputs :: "artifact list"
  xr_outputs :: "string list"

record gc_options =
  go_max_bytes :: nat
  go_dry_run :: bool
  go_min_protocol :: "nat option"
  go_max_executable_bytes :: "nat option"

record gc_bucket =
  gb_group :: string
  gb_label :: string
  gb_records :: nat
  gb_exclusive_bytes :: nat
  gb_evicted_records :: nat
  gb_evicted_bytes :: nat

record gc_report =
  gr_bytes_before :: nat
  gr_bytes_after :: nat
  gr_records_evicted :: nat
  gr_blobs_evicted :: nat
  gr_dry_run :: bool
  gr_max_bytes :: nat
  gr_min_protocol :: "nat option"
  gr_max_executable_bytes :: "nat option"
  gr_records :: nat
  gr_candidates :: nat
  gr_blobs :: nat
  gr_evicted_bytes :: nat
  gr_unreferenced_blobs :: nat
  gr_unreferenced_bytes :: nat
  gr_protected_blobs :: nat
  gr_skipped_blobs :: nat
  gr_journal_entries :: nat
  gr_oldest_kept_ms :: "nat option"
  gr_newest_evicted_ms :: "nat option"
  gr_duration_ms :: nat
  gr_breakdown :: "gc_bucket list"

section \<open>Failed checks\<close>

text \<open>One constructor per \<open>bail!\<close>; a path or name in the message is its argument.\<close>

datatype check_error =
    BadContentKey | InputPathTooLong | InputPathNoRoot string | InputPathSegment string
  | HostPathTooLong | HostPathNotAbsolute string | HostPathSegment string
  | NotRelative string | ForbiddenSegment string | ForbiddenComponent string
  | InvalidArchiveName
  | UnsupportedCandidate nat | InvalidCrateName | CandidateTooBig | DuplicateInput string
  | InvalidProcMacro | InvalidEnvName | DuplicateEnvName string | ArtifactNotFileName string
  | DuplicateArtifact string | ActionKeyMismatch
  | OutputOverlapsState string | InputOutputOverlap string string
  | UnsupportedDeclared nat | InvalidDeclaredName | RecordTooBig | InvalidDeclaredEnv
  | DuplicateOutputPath string | OutputOutsideRoots string | InvalidExecutor | DeclaredKeyMismatch
  | InvalidPlatform | DuplicatePath string
  | UnsupportedArchive nat | ArchiveTooBig | TreeDigestMismatch
  | CommandTooLong | CommandEmpty | CommandNotCargoOrRustc | CargoNotLocked | ArgumentEscapes string

section \<open>Functions of other crates\<close>

text \<open>
  \<open>l_hash\<close> is BLAKE3 rendered as hexadecimal; the \<open>_json\<close> fields are \<open>serde_json::to_vec\<close> at
  the types the keys are computed from. \<open>'b\<close> is the type of a record file's bytes, with
  \<open>to_vec_pretty\<close> and \<open>from_slice\<close> at the three record types.
\<close>

record 'b lib =
  l_hash :: "string \<Rightarrow> string"
  l_files_json :: "file_input list \<Rightarrow> string"
  l_env_json :: "env_input list \<Rightarrow> string"
  l_artifacts_json :: "artifact list \<Rightarrow> string"
  l_declared_json :: "nat \<times> string \<times> platform_identity \<times> string list \<times> (string \<times> string) list
      \<times> artifact list \<times> string list \<Rightarrow> string"
  l_enc_index :: "candidate_index \<Rightarrow> 'b"
  l_dec_index :: "'b \<Rightarrow> candidate_index option"
  l_enc_declared :: "declared_record \<Rightarrow> 'b"
  l_dec_declared :: "'b \<Rightarrow> declared_record option"
  l_enc_archive :: "archive_manifest \<Rightarrow> 'b"
  l_dec_archive :: "'b \<Rightarrow> archive_manifest option"

text \<open>
  What the code relies on of the record encoders: each is read back by its decoder, as serde
  documents for types that derive both.
\<close>

definition codec_ok :: "'b lib \<Rightarrow> bool" where
  "codec_ok L \<longleftrightarrow> (\<forall>i. l_dec_index L (l_enc_index L i) = Some i)
     \<and> (\<forall>r. l_dec_declared L (l_enc_declared L r) = Some r)
     \<and> (\<forall>m. l_dec_archive L (l_enc_archive L m) = Some m)"

lemma codec_okD [simp]:
  assumes "codec_ok L"
  shows "l_dec_index L (l_enc_index L i) = Some i" "l_dec_declared L (l_enc_declared L r) = Some r"
    "l_dec_archive L (l_enc_archive L m) = Some m"
  using assms by (simp_all add: codec_ok_def)

end
