(* ===== verification/Core_Paths.thy ===== *)
theory Core_Paths
  imports Core_Types
begin

text \<open>
  Validation of keys, paths and names (\<open>validate_content_key\<close>, \<open>validate_normalized_input_path\<close>,
  \<open>validate_host_input_path\<close>, \<open>validate_relative_path\<close>, \<open>validate_archive_name\<close>,
  \<open>relative_path_is_within\<close>, \<open>validate_output_roots\<close>, \<open>validate_declared_command\<close>), with the Unix
  reading of a path as components, and what a validated path can name.
\<close>

section \<open>Content keys\<close>

definition is_lower_hex :: "char \<Rightarrow> bool" where
  "is_lower_hex c \<longleftrightarrow> is_digit c \<or> (97 \<le> (of_char c :: nat) \<and> (of_char c :: nat) \<le> 102)"

definition validate_content_key :: "string \<Rightarrow> check_error + unit" where
  "validate_content_key key =
     ensure (length key = content_key_len \<and> list_all is_lower_hex key) BadContentKey"

section \<open>Unix paths\<close>

datatype path_component = RootDir | CurDir | ParentDir | Normal string

definition segment_component :: "string \<Rightarrow> path_component list" where
  "segment_component w =
     (if w = [] \<or> w = ''.'' then [] else if w = ''..'' then [ParentDir] else [Normal w])"

text \<open>
  \<open>Path::components\<close>: repeated slashes and inner \<open>.\<close> segments vanish, a leading \<open>/\<close> is the root and
  a leading \<open>.\<close> stays.
\<close>

definition components :: "string \<Rightarrow> path_component list" where
  "components p =
     (if prefix ''/'' p then [RootDir]
      else if hd (split_on (\<lambda>c. c = CHR ''/'') p) = ''.'' then [CurDir] else [])
     @ concat (map segment_component (split_on (\<lambda>c. c = CHR ''/'') p))"

definition path_starts_with :: "string \<Rightarrow> string \<Rightarrow> bool" where
  "path_starts_with p base \<longleftrightarrow> prefix (components base) (components p)"

definition is_absolute :: "string \<Rightarrow> bool" where
  "is_absolute p \<longleftrightarrow> prefix ''/'' p"

section \<open>Path checks\<close>

definition dotted :: "string \<Rightarrow> bool" where
  "dotted w \<longleftrightarrow> w = ''.'' \<or> w = ''..''"

definition normalized_roots :: "string list" where
  "normalized_roots = [''$CHECKOUT'', ''$WORKSPACE'', ''$PROFILE'', ''$TARGET'', ''$CARGO_HOME'',
     ''$RUSTUP_HOME'', ''$HOME'']"

definition matches_root :: "string \<Rightarrow> string \<Rightarrow> bool" where
  "matches_root value root \<longleftrightarrow> value = root
     \<or> (case strip_prefix root value of None \<Rightarrow> False | Some suf \<Rightarrow> suf \<noteq> [] \<and> is_sep (hd suf))"

definition validate_normalized_input_path :: "string \<Rightarrow> check_error + unit" where
  "validate_normalized_input_path value =
     (if length value > 4096 \<or> CHR 0x00 \<in> set value then Inl InputPathTooLong
      else case find (matches_root value) normalized_roots of
        None \<Rightarrow> Inl (InputPathNoRoot value)
      | Some root \<Rightarrow>
          let suf = dropWhile is_sep (case strip_prefix root value of None \<Rightarrow> [] | Some suf \<Rightarrow> suf)
          in ensure (\<not> (suf = [] \<or> list_ex (\<lambda>w. w = [] \<or> dotted w) (split_on is_sep suf)))
               (InputPathSegment value))"

definition windows_drive :: "string \<Rightarrow> bool" where
  "windows_drive v \<longleftrightarrow> length v > 2 \<and> v ! 1 = CHR '':'' \<and> is_alpha (v ! 0) \<and> is_sep (v ! 2)"

definition validate_host_input_path :: "string \<Rightarrow> check_error + unit" where
  "validate_host_input_path value =
     (if value = [] \<or> length value > 4096 \<or> CHR 0x00 \<in> set value then Inl HostPathTooLong
      else if \<not> (prefix ''/'' value \<or> windows_drive value \<or> prefix [CHR 0x5C, CHR 0x5C] value)
        then Inl (HostPathNotAbsolute value)
      else ensure (\<not> list_ex dotted (drop 1 (split_on is_sep value))) (HostPathSegment value))"

fun is_normal :: "path_component \<Rightarrow> bool" where
  "is_normal (Normal w) = True"
| "is_normal c = False"

definition validate_relative_path :: "string \<Rightarrow> check_error + string" where
  "validate_relative_path value =
     (if value = [] \<or> is_absolute value then Inl (NotRelative value)
      else if list_ex (\<lambda>w. w = [] \<or> dotted w) (split_on is_sep value) then Inl (ForbiddenSegment value)
      else if \<not> list_all is_normal (components value) then Inl (ForbiddenComponent value)
      else Inr value)"

fun all_parts :: "string list \<Rightarrow> string list \<Rightarrow> bool" where
  "all_parts [] comps = True"
| "all_parts (part # parts) [] = False"
| "all_parts (part # parts) (c # comps) = (c = part \<and> all_parts parts comps)"

definition relative_path_is_within :: "string \<Rightarrow> string \<Rightarrow> bool" where
  "relative_path_is_within path root = all_parts (split_on is_sep root) (split_on is_sep path)"

definition validate_archive_name :: "string \<Rightarrow> check_error + unit" where
  "validate_archive_name name =
     ensure (\<not> (name = [] \<or> length name > 128
       \<or> \<not> list_all (\<lambda>c. is_digit c \<or> is_alpha c \<or> c \<in> set ''-_.'') name)) InvalidArchiveName"

text \<open>Output replacement must not delete a declared source input.\<close>

definition check_output_input :: "string \<Rightarrow> artifact \<Rightarrow> check_error + unit" where
  "check_output_input output input =
     r_bind (validate_relative_path (ar_file_name input)) (\<lambda>input.
       ensure (\<not> (path_starts_with input output \<or> path_starts_with output input))
         (InputOutputOverlap input output))"

definition validate_output_roots :: "artifact list \<Rightarrow> string list \<Rightarrow> check_error + unit" where
  "validate_output_roots inputs outputs =
     check_all (\<lambda>output.
       r_bind (validate_relative_path output) (\<lambda>output.
         r_then (ensure (\<not> path_starts_with output ''.bellows'') (OutputOverlapsState output))
           (check_all (check_output_input output) inputs))) outputs"

section \<open>Declared commands\<close>

definition split_once :: "char \<Rightarrow> string \<Rightarrow> (string \<times> string) option" where
  "split_once c s = (if c \<in> set s then Some (takeWhile (\<lambda>x. x \<noteq> c) s, tl (dropWhile (\<lambda>x. x \<noteq> c) s)) else None)"

definition argument_payload :: "string \<Rightarrow> string" where
  "argument_payload a = (case split_once (CHR ''='') a of None \<Rightarrow> a | Some (_, value) \<Rightarrow> value)"

definition argument_escapes :: "string \<Rightarrow> bool" where
  "argument_escapes a \<longleftrightarrow>
     (let payload = argument_payload a;
          windows_absolute = ((length payload > 1 \<and> payload ! 1 = CHR '':'')
             \<or> prefix [CHR 0x5C, CHR 0x5C] payload)
      in is_absolute payload \<or> (payload \<noteq> [] \<and> is_sep (hd payload)) \<or> windows_absolute
         \<or> list_ex (\<lambda>w. w = ''..'') (split_on is_sep payload))"

definition validate_declared_command :: "string list \<Rightarrow> check_error + unit" where
  "validate_declared_command command =
     (if length command > 4096 \<or> list_ex (\<lambda>a. length a > 64 * 1024) command then Inl CommandTooLong
      else case command of
        [] \<Rightarrow> Inl CommandEmpty
      | program # arguments \<Rightarrow>
          if program \<noteq> ''cargo'' \<and> program \<noteq> ''rustc'' then Inl CommandNotCargoOrRustc
          else if program = ''cargo'' \<and> (''--locked'' \<notin> set command \<or> ''--offline'' \<notin> set command)
            then Inl CargoNotLocked
          else check_all (\<lambda>a. ensure (\<not> argument_escapes a) (ArgumentEscapes a)) arguments)"

section \<open>Segments\<close>

abbreviation slash :: "char \<Rightarrow> bool" where
  "slash c \<equiv> c = CHR ''/''"

lemma all_parts_prefix: "all_parts parts comps = prefix parts comps"
  by (induction parts comps rule: all_parts.induct) auto

lemma within_prefix: "relative_path_is_within p r = prefix (split_on is_sep r) (split_on is_sep p)"
  by (simp add: relative_path_is_within_def all_parts_prefix)

text \<open>Splitting on fewer separators first and on all of them then is splitting on all of them.\<close>

lemma split_on_coarser:
  assumes "\<And>c. q c \<Longrightarrow> p c"
  shows "concat (map (split_on p) (split_on q v)) = split_on p v"
proof (induction v)
  case (Cons c v)
  obtain w ws where w: "split_on q v = w # ws" by (cases "split_on q v") auto
  obtain x xs where x: "split_on p w = x # xs" by (cases "split_on p w") auto
  have "split_on p v = x # xs @ concat (map (split_on p) ws)" using Cons.IH by (simp add: w x)
  then show ?case using assms [of c] by (simp add: w x)
qed simp

lemma slash_is_sep: "slash c \<Longrightarrow> is_sep c"
  by (simp add: is_sep_def)

lemma split_slash_segment:
  assumes "w \<in> set (split_on slash v)" and "w = [] \<or> dotted w"
  shows "w \<in> set (split_on is_sep v)"
proof -
  have "split_on is_sep w = [w]" using assms(2) by (auto simp: dotted_def is_sep_def)
  moreover have "set (split_on is_sep w) \<subseteq> set (split_on is_sep v)"
    using assms(1) split_on_coarser [of slash is_sep v, OF slash_is_sep]
    by (metis (no_types) UN_upper list.set_map set_concat image_image)
  ultimately show ?thesis by simp
qed

text \<open>Where a path leads from a directory, given as the names on the way to it.\<close>

fun resolve :: "string list \<Rightarrow> path_component list \<Rightarrow> string list" where
  "resolve dir [] = dir"
| "resolve dir (RootDir # cs) = resolve [] cs"
| "resolve dir (CurDir # cs) = resolve dir cs"
| "resolve dir (ParentDir # cs) = resolve (butlast dir) cs"
| "resolve dir (Normal w # cs) = resolve (dir @ [w]) cs"

lemma resolve_normal: "resolve dir (map Normal ws) = dir @ ws"
  by (induction ws arbitrary: dir) simp_all

definition clean :: "string \<Rightarrow> bool" where
  "clean v \<longleftrightarrow> (\<forall>w \<in> set (split_on is_sep v). w \<noteq> [] \<and> \<not> dotted w)"

lemma validated_clean: "validate_relative_path v = Inr p \<Longrightarrow> p = v \<and> clean v"
  by (auto simp: validate_relative_path_def clean_def list_ex_iff split: if_splits)

lemma clean_slash: "clean v \<Longrightarrow> w \<in> set (split_on slash v) \<Longrightarrow> w \<noteq> [] \<and> \<not> dotted w"
  using split_slash_segment [of w v] unfolding clean_def by blast

lemma clean_not_absolute:
  assumes "clean v"
  shows "v \<noteq> [] \<and> \<not> is_absolute v"
proof -
  have "[] \<notin> set (split_on is_sep v)" using assms by (auto simp: clean_def)
  then show ?thesis by (cases v) (auto simp: is_absolute_def is_sep_def)
qed

lemma components_clean:
  assumes "clean v"
  shows "components v = map Normal (split_on slash v)"
proof -
  have seg: "map segment_component (split_on slash v) = map (\<lambda>w. [Normal w]) (split_on slash v)"
    using clean_slash [OF assms] by (auto simp: segment_component_def dotted_def)
  have "concat (map (\<lambda>w. [Normal w]) ws) = map Normal ws" for ws by (induction ws) simp_all
  moreover have "hd (split_on slash v) \<noteq> ''.''"
    using clean_slash [OF assms, of "hd (split_on slash v)"] by (auto simp: dotted_def)
  ultimately show ?thesis
    using clean_not_absolute [OF assms] by (simp add: components_def seg is_absolute_def)
qed

lemma validate_relative_path_ok: "validate_relative_path v = Inr p \<longleftrightarrow> p = v \<and> clean v"
proof
  assume "p = v \<and> clean v"
  then show "validate_relative_path v = Inr p"
    using clean_not_absolute [of v] components_clean [of v]
    by (auto simp: validate_relative_path_def list_ex_iff list_all_iff clean_def)
qed (rule validated_clean)

lemma starts_with_clean:
  "clean v \<Longrightarrow> clean w \<Longrightarrow> path_starts_with v w \<longleftrightarrow> prefix (split_on slash w) (split_on slash v)"
proof -
  have "prefix (map Normal a) (map Normal b) \<longleftrightarrow> prefix a b" for a b
  proof (induction a arbitrary: b)
    case (Cons x a)
    then show ?case by (cases b) auto
  qed simp
  then show "clean v \<Longrightarrow> clean w \<Longrightarrow> ?thesis" by (simp add: path_starts_with_def components_clean)
qed

section \<open>What the checks guarantee\<close>

text \<open>
  A validated relative path stays below the directory it is joined to: it resolves to the
  directory followed by its segments, none of which is empty or a dot name, and the same holds for
  a reader that also takes backslashes as separators.
\<close>

theorem relative_path_stays_inside:
  assumes "validate_relative_path v = Inr p"
  shows "p = v \<and> resolve dir (components p) = dir @ split_on slash v
       \<and> {w. dotted w \<or> w = []} \<inter> (set (split_on slash v) \<union> set (split_on is_sep v)) = {}"
proof -
  have v: "p = v" "clean v" using validated_clean [OF assms] by simp_all
  have "{w. dotted w \<or> w = []} \<inter> set (split_on slash v) = {}"
    using clean_slash [OF v(2)] by blast
  moreover have "{w. dotted w \<or> w = []} \<inter> set (split_on is_sep v) = {}"
    using v(2) unfolding clean_def by blast
  ultimately show ?thesis by (simp add: v(1) components_clean [OF v(2)] resolve_normal Int_Un_distrib)
qed

lemma ex_relative_path: "validate_relative_path ''src/a.rs'' = Inr ''src/a.rs''"
  by (simp add: validate_relative_path_ok clean_def is_sep_def dotted_def)

theorem relative_path_stays_inside_witness:
  "resolve [''w''] (components ''src/a.rs'') = [''w'', ''src'', ''a.rs'']"
  using relative_path_stays_inside [OF ex_relative_path, of "[''w'']"] by simp

text \<open>The files that replacing the tree at a declared output removes.\<close>

definition under :: "string \<Rightarrow> string \<Rightarrow> bool" where
  "under root p \<longleftrightarrow> prefix (split_on slash root) (split_on slash p)"

text \<open>
  Output replacement never deletes a declared input: when the roots pass the check, no input
  lies in the tree at an output, no output lies below an input, and no output lies in the Bellows
  state directory.
\<close>

theorem output_roots_keep_inputs:
  assumes "validate_output_roots inputs outputs = Inr ()"
    and "output \<in> set outputs" and "input \<in> set inputs"
  shows "\<not> under output (ar_file_name input) \<and> \<not> under (ar_file_name input) output
       \<and> hd (split_on slash output) \<noteq> ''.bellows''"
proof -
  have out: "clean output" and state: "\<not> path_starts_with output ''.bellows''"
    and inp: "check_output_input output input = Inr ()"
    using assms by (auto simp: validate_output_roots_def validate_relative_path_ok)
  have b: "clean ''.bellows''" by (simp add: clean_def dotted_def is_sep_def)
  have "hd (split_on slash output) \<noteq> ''.bellows''"
    using state starts_with_clean [OF out b] by (cases "split_on slash output") auto
  with inp show ?thesis
    by (auto simp: check_output_input_def validate_relative_path_ok starts_with_clean out under_def)
qed

definition ex_artifact :: "string \<Rightarrow> artifact" where
  "ex_artifact name = \<lparr>ar_file_name = name, ar_digest = replicate 64 CHR ''0'', ar_executable = False\<rparr>"

lemma ex_output_roots: "validate_output_roots [ex_artifact ''src/a.rs''] [''out''] = Inr ()"
  by (simp add: validate_output_roots_def check_output_input_def ex_artifact_def validate_relative_path_ok
      clean_def dotted_def is_sep_def path_starts_with_def components_def segment_component_def)

theorem output_roots_keep_inputs_witness:
  "\<not> under ''out'' ''src/a.rs''"
  using output_roots_keep_inputs [OF ex_output_roots, of "''out''" "ex_artifact ''src/a.rs''"]
  by (simp add: ex_artifact_def)

text \<open>
  On Unix that check does not see backslashes, while the coverage check does: an input
  \<open>src\a.rs\<close> is accepted beside the output \<open>src\<close>, although \<open>relative_path_is_within\<close>, and a Windows
  client that replaces the output, place the input inside it.
\<close>

theorem output_roots_miss_backslash:
  "validate_output_roots [ex_artifact (''src'' @ [CHR 0x5C] @ ''a.rs'')] [''src''] = Inr ()
     \<and> relative_path_is_within (''src'' @ [CHR 0x5C] @ ''a.rs'') ''src''"
  by (simp add: validate_output_roots_def check_output_input_def ex_artifact_def validate_relative_path_ok
      clean_def dotted_def is_sep_def path_starts_with_def components_def segment_component_def within_prefix)


definition ex_command :: "string list" where
  "ex_command = [''rustc'', ''--crate-type=lib'', ''src/a.rs'']"

lemma ex_command_ok: "validate_declared_command ex_command = Inr ()"
  by (simp add: ex_command_def validate_declared_command_def argument_escapes_def argument_payload_def
      split_once_def is_absolute_def is_sep_def Let_def)


text \<open>
  The check reads the whole argument, so a path glued to a short flag or behind a second \<open>=\<close>
  passes it: \<open>rustc -o../x a.rs\<close> and \<open>cargo --config=build.rustc=/bin/sh\<close> are accepted.
\<close>

theorem declared_command_glued_paths:
  "validate_declared_command [''rustc'', ''-o../x'', ''a.rs''] = Inr ()
     \<and> validate_declared_command [''cargo'', ''build'', ''--locked'', ''--offline'', ''--config=build.rustc=/bin/sh'']
         = Inr ()"
  by (simp add: validate_declared_command_def argument_escapes_def argument_payload_def
      split_once_def is_absolute_def is_sep_def Let_def)

text \<open>
  A recorded compiler input lies below a recognised root: an accepted path is one of the root
  tokens, a separator, and segments none of which is empty or a dot name.
\<close>

theorem normalized_path_below_root:
  assumes "validate_normalized_input_path v = Inr ()"
  shows "\<exists>root \<in> set normalized_roots. \<exists>seps rest. v = root @ seps @ rest \<and> seps \<noteq> []
       \<and> set seps \<subseteq> Collect is_sep \<and> clean rest"
proof -
  obtain root where root: "find (matches_root v) normalized_roots = Some root"
    using assms by (auto simp: validate_normalized_input_path_def split: if_splits option.splits)
  then have m: "root \<in> set normalized_roots" "matches_root v root" by (auto dest: find_Some_iff2)
  let ?suf = "case strip_prefix root v of None \<Rightarrow> [] | Some suf \<Rightarrow> suf"
  let ?rest = "dropWhile is_sep ?suf"
  have ok: "?rest \<noteq> []" "\<not> list_ex (\<lambda>w. w = [] \<or> dotted w) (split_on is_sep ?rest)"
    using assms root by (auto simp: validate_normalized_input_path_def Let_def split: if_splits)
  have "v \<noteq> root" using ok(1) by (auto simp: strip_prefix_def)
  with m(2) have suf: "v = root @ ?suf" "?suf \<noteq> []" "is_sep (hd ?suf)"
    by (auto simp: matches_root_def strip_prefix_def prefix_def split: if_splits)
  have "clean ?rest" using ok(2) by (auto simp: clean_def list_ex_iff)
  moreover have "set (takeWhile is_sep ?suf) \<subseteq> Collect is_sep" by (auto dest: set_takeWhileD)
  moreover have "takeWhile is_sep ?suf \<noteq> []" using suf(2,3) by (cases ?suf) auto
  moreover have "v = root @ takeWhile is_sep ?suf @ ?rest" using suf(1) by simp
  ultimately show ?thesis using m(1) by blast
qed

lemma ex_normalized: "validate_normalized_input_path ''$WORKSPACE/src/a.rs'' = Inr ()"
  by (simp add: validate_normalized_input_path_def normalized_roots_def matches_root_def strip_prefix_def
      is_sep_def dotted_def Let_def)

theorem normalized_path_below_root_witness:
  "\<exists>root \<in> set normalized_roots. prefix root ''$WORKSPACE/src/a.rs''"
  using normalized_path_below_root [OF ex_normalized] by (metis prefixI)

end
