(* ===== verification/Core_Records.thy ===== *)
theory Core_Records
  imports Core_Paths
begin

text \<open>
  Content addresses and record validation: \<open>hash_key_field\<close>, \<open>compiler_action_key\<close>,
  \<open>tree_digest\<close>, \<open>declared_action_key\<close>, and \<open>validate_candidate_manifest\<close>,
  \<open>validate_declared_record\<close>, \<open>validate_archive_manifest\<close> with the loops they run, each with a
  declarative specification it implements.
\<close>

section \<open>Keys\<close>

definition le64 :: "nat \<Rightarrow> string" where
  "le64 n = map (\<lambda>i. char_of (n div 256 ^ i mod 256)) [0..<8]"

definition hash_key_field :: "string \<Rightarrow> string \<Rightarrow> string" where
  "hash_key_field name bytes = le64 (length name) @ name @ le64 (length bytes) @ bytes"

text \<open>The bytes the hasher has seen when \<open>finalize\<close> is called.\<close>

definition action_preimage :: "'b lib \<Rightarrow> string \<Rightarrow> file_input list \<Rightarrow> file_input list \<Rightarrow> env_input list \<Rightarrow> string" where
  "action_preimage L static_key files host_files env =
     hash_key_field ''static'' static_key
     @ hash_key_field ''files'' (l_files_json L files)
     @ hash_key_field ''host-files'' (l_files_json L host_files)
     @ hash_key_field ''env'' (l_env_json L env)"

definition compiler_action_key :: "'b lib \<Rightarrow> string \<Rightarrow> file_input list \<Rightarrow> file_input list \<Rightarrow> env_input list \<Rightarrow> string" where
  "compiler_action_key L static_key files host_files env =
     l_hash L (action_preimage L static_key files host_files env)"

definition tree_digest :: "'b lib \<Rightarrow> artifact list \<Rightarrow> string" where
  "tree_digest L files = l_hash L (l_artifacts_json L (sort_key ar_file_name files))"

definition declared_action_key :: "'b lib \<Rightarrow> string \<Rightarrow> platform_identity \<Rightarrow> string list \<Rightarrow>
    (string \<times> string) list \<Rightarrow> artifact list \<Rightarrow> string list \<Rightarrow> string" where
  "declared_action_key L name platform command environment inputs outputs =
     l_hash L (l_declared_json L (protocol_version, name, platform, command, environment,
       sort_key ar_file_name inputs, sort outputs))"

definition env_capture :: "'b lib \<Rightarrow> string \<Rightarrow> string option \<Rightarrow> env_input" where
  "env_capture L name value =
     \<lparr>ei_name = name, ei_value_digest = map_option (l_hash L) value, ei_normalized = False\<rparr>"

definition env_capture_normalized :: "'b lib \<Rightarrow> string \<Rightarrow> string \<Rightarrow> env_input" where
  "env_capture_normalized L name value =
     \<lparr>ei_name = name, ei_value_digest = Some (l_hash L value), ei_normalized = True\<rparr>"

section \<open>Compiler candidates\<close>

fun check_files :: "(string \<Rightarrow> check_error + unit) \<Rightarrow> string set \<Rightarrow> file_input list \<Rightarrow> check_error + string set" where
  "check_files check_path seen [] = Inr seen"
| "check_files check_path seen (f # fs) =
     r_then (check_path (fi_path f)) (r_then (validate_content_key (fi_digest f))
       (if fi_path f \<in> seen then Inl (DuplicateInput (fi_path f))
        else check_files check_path (insert (fi_path f) seen) fs))"

fun check_env :: "string set \<Rightarrow> env_input list \<Rightarrow> check_error + unit" where
  "check_env seen [] = Inr ()"
| "check_env seen (i # is) =
     (if ei_name i = [] \<or> length (ei_name i) > 256 \<or> CHR ''='' \<in> set (ei_name i) then Inl InvalidEnvName
      else if ei_name i \<in> seen then Inl (DuplicateEnvName (ei_name i))
      else r_then (case ei_value_digest i of None \<Rightarrow> Inr () | Some d \<Rightarrow> validate_content_key d)
        (check_env (insert (ei_name i) seen) is))"

fun check_file_names :: "string set \<Rightarrow> artifact list \<Rightarrow> check_error + unit" where
  "check_file_names seen [] = Inr ()"
| "check_file_names seen (a # as) =
     r_bind (validate_relative_path (ar_file_name a)) (\<lambda>path.
       if length (components path) \<noteq> 1 then Inl (ArtifactNotFileName (ar_file_name a))
       else r_then (validate_content_key (ar_digest a))
         (if ar_file_name a \<in> seen then Inl (DuplicateArtifact (ar_file_name a))
          else check_file_names (insert (ar_file_name a) seen) as))"

definition validate_candidate_manifest :: "'b lib \<Rightarrow> action_candidate \<Rightarrow> check_error + unit" where
  "validate_candidate_manifest L c =
     r_then (ensure (ac_protocol c = protocol_version) (UnsupportedCandidate (ac_protocol c)))
    (r_then (validate_content_key (ac_static_key c))
    (r_then (validate_content_key (ac_action_key c))
    (r_then (ensure (ac_crate_name c \<noteq> [] \<and> length (ac_crate_name c) \<le> 256) InvalidCrateName)
    (r_then (ensure (length (ac_files c) \<le> max_candidate_files \<and> length (ac_env c) \<le> max_candidate_env
        \<and> length (ac_artifacts c) \<le> max_candidate_artifacts) CandidateTooBig)
    (r_bind (check_files validate_normalized_input_path {} (ac_files c)) (\<lambda>seen.
     r_then (ensure (length (ac_host_files c) \<le> max_candidate_files
        \<and> length (ac_proc_macros c) \<le> max_candidate_env) CandidateTooBig)
    (r_bind (check_files validate_host_input_path seen (ac_host_files c)) (\<lambda>_.
     r_then (check_all (\<lambda>n. ensure (n \<noteq> [] \<and> length n \<le> 256) InvalidProcMacro) (ac_proc_macros c))
    (r_then (check_env {} (ac_env c))
    (r_then (check_file_names {} (ac_artifacts c))
    (r_then (validate_content_key (sa_digest (ac_stdout c)))
    (r_then (validate_content_key (sa_digest (ac_stderr c)))
    (ensure (compiler_action_key L (ac_static_key c) (ac_files c) (ac_host_files c) (ac_env c)
        = ac_action_key c) ActionKeyMismatch)))))))))))))"

section \<open>Declared actions and archives\<close>

fun check_artifacts :: "string set \<Rightarrow> artifact list \<Rightarrow> check_error + unit" where
  "check_artifacts seen [] = Inr ()"
| "check_artifacts seen (a # as) =
     r_bind (validate_relative_path (ar_file_name a)) (\<lambda>_.
       r_then (validate_content_key (ar_digest a))
         (if ar_file_name a \<in> seen then Inl (DuplicatePath (ar_file_name a))
          else check_artifacts (insert (ar_file_name a) seen) as))"

definition validate_artifacts :: "artifact list \<Rightarrow> check_error + unit" where
  "validate_artifacts as = check_artifacts {} as"

definition platform_fields :: "platform_identity \<Rightarrow> string list" where
  "platform_fields p = [pi_rustc p, pi_cargo p, pi_os p, pi_arch p]
     @ concat (map (\<lambda>v. case v of None \<Rightarrow> [] | Some s \<Rightarrow> [s])
         [pi_rustup_toolchain p, pi_host_cc p, pi_host_ld p, pi_host_ar p])"

definition validate_platform_identity :: "platform_identity \<Rightarrow> check_error + unit" where
  "validate_platform_identity p =
     r_then (check_all (\<lambda>v. ensure (v \<noteq> [] \<and> length v \<le> 64 * 1024 \<and> CHR 0x00 \<notin> set v) InvalidPlatform)
       (platform_fields p))
    (r_then (validate_content_key (pi_path_digest p)) (validate_content_key (pi_rustup_home_digest p)))"

fun check_output_paths :: "string set \<Rightarrow> string list \<Rightarrow> check_error + unit" where
  "check_output_paths seen [] = Inr ()"
| "check_output_paths seen (o1 # os) =
     r_bind (validate_relative_path o1) (\<lambda>_.
       if o1 \<in> seen then Inl (DuplicateOutputPath o1) else check_output_paths (insert o1 seen) os)"

definition output_covered :: "string list \<Rightarrow> artifact \<Rightarrow> bool" where
  "output_covered output_paths a = list_ex (relative_path_is_within (ar_file_name a)) output_paths"

definition validate_declared_record :: "'b lib \<Rightarrow> declared_record \<Rightarrow> check_error + unit" where
  "validate_declared_record L r =
     r_then (validate_output_roots (dr_inputs r) (dr_output_paths r))
    (r_then (ensure (dr_protocol r = protocol_version) (UnsupportedDeclared (dr_protocol r)))
    (r_then (validate_content_key (dr_key r))
    (r_then (ensure (dr_name r \<noteq> [] \<and> length (dr_name r) \<le> 256) InvalidDeclaredName)
    (r_then (validate_platform_identity (dr_platform r))
    (r_then (validate_declared_command (dr_command r))
    (r_then (ensure (length (dr_environment r) \<le> max_record_env \<and> length (dr_inputs r) \<le> max_record_artifacts
        \<and> length (dr_output_paths r) \<le> max_record_artifacts \<and> length (dr_outputs r) \<le> max_record_artifacts)
        RecordTooBig)
    (r_then (check_all (\<lambda>(n, v). ensure (n \<noteq> [] \<and> length n \<le> 256 \<and> CHR ''='' \<notin> set n
        \<and> length v \<le> 1024 * 1024) InvalidDeclaredEnv) (dr_environment r))
    (r_then (validate_artifacts (dr_inputs r))
    (r_then (validate_artifacts (dr_outputs r))
    (r_then (check_output_paths {} (dr_output_paths r))
    (r_then (check_all (\<lambda>a. ensure (output_covered (dr_output_paths r) a) (OutputOutsideRoots (ar_file_name a)))
        (dr_outputs r))
    (r_then (validate_content_key (sa_digest (dr_stdout r)))
    (r_then (validate_content_key (sa_digest (dr_stderr r)))
    (r_then (ensure (dr_executor r \<noteq> [] \<and> length (dr_executor r) \<le> 1024) InvalidExecutor)
    (ensure (declared_action_key L (dr_name r) (dr_platform r) (dr_command r) (dr_environment r)
        (dr_inputs r) (dr_output_paths r) = dr_key r) DeclaredKeyMismatch)))))))))))))))"

definition validate_archive_manifest :: "'b lib \<Rightarrow> archive_manifest \<Rightarrow> check_error + unit" where
  "validate_archive_manifest L m =
     r_then (ensure (am_protocol m = protocol_version) (UnsupportedArchive (am_protocol m)))
    (r_then (validate_archive_name (am_name m))
    (r_then (validate_content_key (am_tree_digest m))
    (r_then (case am_producer_action m of None \<Rightarrow> Inr () | Some k \<Rightarrow> validate_content_key k)
    (r_then (ensure (length (am_files m) \<le> max_record_artifacts) ArchiveTooBig)
    (r_then (validate_artifacts (am_files m))
    (ensure (tree_digest L (am_files m) = am_tree_digest m) TreeDigestMismatch))))))"

end
