(* ===== verification/Core_Records_Props.thy ===== *)
theory Core_Records_Props
  imports Core_Records
begin

text \<open>
  What content addresses commit to, and the declarative form of the record checks.
\<close>

section \<open>Framing\<close>

lemma le64_length [simp]: "length (le64 n) = 8"
  by (simp add: le64_def)

lemma digits_inj:
  "m < 256 ^ k \<Longrightarrow> n < 256 ^ k \<Longrightarrow> (\<forall>i < k. m div 256 ^ i mod 256 = n div 256 ^ i mod 256) \<Longrightarrow> m = (n :: nat)"
proof (induction k arbitrary: m n)
  case (Suc k)
  have "m div 256 div 256 ^ i mod 256 = n div 256 div 256 ^ i mod 256" if "i < k" for i
    using Suc.prems(3) [rule_format, of "Suc i"] that by (simp add: div_mult2_eq)
  moreover have "m div 256 < 256 ^ k" "n div 256 < 256 ^ k"
    using Suc.prems(1,2) by (simp_all add: less_mult_imp_div_less mult.commute)
  ultimately have "m div 256 = n div 256" using Suc.IH by blast
  moreover have "m mod 256 = n mod 256" using Suc.prems(3) [rule_format, of 0] by simp
  ultimately show ?case by (metis div_mult_mod_eq)
qed simp

lemma le64_inj:
  assumes "le64 m = le64 n" and "m \<le> u64_max" and "n \<le> u64_max"
  shows "m = n"
proof (rule digits_inj [of m 8 n])
  show "\<forall>i < 8. m div 256 ^ i mod 256 = n div 256 ^ i mod 256"
  proof (intro allI impI)
    fix i :: nat assume "i < 8"
    have "le64 m ! i = le64 n ! i" using assms(1) by simp
    with \<open>i < 8\<close> have "(char_of (m div 256 ^ i mod 256) :: char) = char_of (n div 256 ^ i mod 256)"
      by (simp add: le64_def)
    then have "of_char (char_of (m div 256 ^ i mod 256) :: char) = (of_char (char_of (n div 256 ^ i mod 256) :: char) :: nat)"
      by simp
    then show "m div 256 ^ i mod 256 = n div 256 ^ i mod 256" by simp
  qed
qed (use assms(2,3) in \<open>simp_all add: u64_max_def\<close>)

lemma hash_key_field_inj:
  assumes "hash_key_field name a @ x = hash_key_field name b @ y"
    and "length a \<le> u64_max" and "length b \<le> u64_max"
  shows "a = b \<and> x = y"
proof -
  have "le64 (length a) @ a @ x = le64 (length b) @ b @ y"
    using assms(1) by (simp add: hash_key_field_def)
  then have "le64 (length a) = le64 (length b)" and rest: "a @ x = b @ y"
    by (simp_all add: append_eq_append_conv)
  then have "length a = length b" using le64_inj assms(2,3) by blast
  with rest show ?thesis by (simp add: append_eq_append_conv)
qed

lemma action_preimage_inj:
  assumes "action_preimage L s f h e = action_preimage L s' f' h' e'"
    and "{s, s', l_files_json L f, l_files_json L f', l_files_json L h, l_files_json L h', l_env_json L e,
        l_env_json L e'} \<subseteq> {b. length b \<le> u64_max}"
  shows "s = s' \<and> l_files_json L f = l_files_json L f' \<and> l_files_json L h = l_files_json L h'
     \<and> l_env_json L e = l_env_json L e'"
proof -
  have len: "length s \<le> u64_max" "length s' \<le> u64_max" "length (l_files_json L f) \<le> u64_max"
    "length (l_files_json L f') \<le> u64_max" "length (l_files_json L h) \<le> u64_max"
    "length (l_files_json L h') \<le> u64_max" "length (l_env_json L e) \<le> u64_max" "length (l_env_json L e') \<le> u64_max"
    using assms(2) by auto
  note eq = assms(1) [unfolded action_preimage_def]
  note 1 = hash_key_field_inj [OF eq len(1,2)]
  note 2 = hash_key_field_inj [OF conjunct2 [OF 1] len(3,4)]
  note 3 = hash_key_field_inj [OF conjunct2 [OF 2] len(5,6)]
  have "hash_key_field ''env'' (l_env_json L e) @ [] = hash_key_field ''env'' (l_env_json L e') @ []"
    using 3 by simp
  note 4 = hash_key_field_inj [OF this len(7,8)]
  from 1 2 3 4 show ?thesis by blast
qed

text \<open>
  C28. An action key commits to the static key, the inputs and the environment: two manifests with
  the same key have the same static key and the same encoded inputs, host inputs and environment,
  or the two (different) byte strings fed to BLAKE3 for them collide. The length prefixes leave no
  other way for fields to run into one another.
\<close>

theorem action_key_commits:
  assumes "compiler_action_key L s f h e = compiler_action_key L s' f' h' e'"
    and "{s, s', l_files_json L f, l_files_json L f', l_files_json L h, l_files_json L h', l_env_json L e,
        l_env_json L e'} \<subseteq> {b. length b \<le> u64_max}"
  shows "(s = s' \<and> l_files_json L f = l_files_json L f' \<and> l_files_json L h = l_files_json L h'
           \<and> l_env_json L e = l_env_json L e')
     \<or> (action_preimage L s f h e \<noteq> action_preimage L s' f' h' e'
        \<and> l_hash L (action_preimage L s f h e) = l_hash L (action_preimage L s' f' h' e'))"
proof (cases "action_preimage L s f h e = action_preimage L s' f' h' e'")
  case True
  from action_preimage_inj [OF True assms(2)] show ?thesis by blast
next
  case False
  with assms(1) show ?thesis by (simp add: compiler_action_key_def)
qed

text \<open>A library whose hash is the identity and whose encodings name the number of entries.\<close>

definition ex_lib :: "string lib" where
  "ex_lib = \<lparr>l_hash = \<lambda>b. b, l_files_json = \<lambda>fs. concat (map fi_path fs), l_env_json = \<lambda>es. concat (map ei_name es),
     l_artifacts_json = \<lambda>as. concat (map ar_file_name as), l_declared_json = \<lambda>(v, n, r). n,
     l_enc_index = \<lambda>i. [], l_dec_index = \<lambda>b. None, l_enc_declared = \<lambda>r. [], l_dec_declared = \<lambda>b. None,
     l_enc_archive = \<lambda>m. [], l_dec_archive = \<lambda>b. None\<rparr>"

theorem action_key_commits_witness:
  "compiler_action_key ex_lib ''ab'' [] [] [] \<noteq> compiler_action_key ex_lib ''a'' [\<lparr>fi_path = ''b'', fi_digest = []\<rparr>] [] []"
  using action_key_commits [of ex_lib "''ab''" "[]" "[]" "[]" "''a''" "[\<lparr>fi_path = ''b'', fi_digest = []\<rparr>]" "[]" "[]"]
  by (auto simp: ex_lib_def u64_max_def compiler_action_key_def)

section \<open>Order of declarations\<close>

lemma sort_key_mset_eq:
  assumes "mset xs = mset ys" and "distinct (map f xs)"
  shows "sort_key f xs = sort_key f ys"
proof (rule properties_for_sort_key)
  have "distinct (map f ys)"
    using assms by (metis mset_map mset_eq_imp_distinct_iff)
  show "filter (\<lambda>x. f k = f x) (sort_key f ys) = filter (\<lambda>x. f k = f x) xs"
    if "k \<in> set (sort_key f ys)" for k
  proof -
    have "k \<in> set xs" using that mset_eq_setD [OF assms(1)] by simp
    have one: "filter (\<lambda>x. f k = f x) zs = [k]" if "distinct (map f zs)" "k \<in> set zs" for zs
      using that
    proof (induction zs)
      case (Cons z zs)
      then show ?case
      proof (cases "z = k")
        case True
        with Cons.prems have "filter (\<lambda>x. f k = f x) zs = []" by (auto simp: filter_empty_conv image_iff)
        with True show ?thesis by simp
      next
        case False
        with Cons.prems have "k \<in> set zs" "f z \<noteq> f k" by (auto simp: image_iff)
        with Cons show ?thesis by simp
      qed
    qed simp
    have "distinct (map f (sort_key f ys))" using \<open>distinct (map f ys)\<close>
      by (metis mset_map mset_sort mset_eq_imp_distinct_iff)
    then show ?thesis using one [of "sort_key f ys"] one [OF assms(2) \<open>k \<in> set xs\<close>] that by simp
  qed
qed (simp_all add: assms(1))

text \<open>
  Addresses do not depend on declaration order: permuting the inputs (with distinct paths) and
  the outputs of a declared action keeps its key, and permuting an archive's files keeps its tree
  digest.
\<close>

theorem keys_ignore_order:
  assumes "mset inputs' = mset inputs" and "distinct (map ar_file_name inputs)" and "mset outputs' = mset outputs"
  shows "declared_action_key L name platform command environment inputs' outputs'
           = declared_action_key L name platform command environment inputs outputs
       \<and> tree_digest L inputs' = tree_digest L inputs"
proof -
  have "sort_key ar_file_name inputs' = sort_key ar_file_name inputs"
    using sort_key_mset_eq [of inputs inputs' ar_file_name] assms by simp
  moreover have "sort outputs' = sort outputs" using assms(3) by (intro properties_for_sort) simp_all
  ultimately show ?thesis by (simp add: declared_action_key_def tree_digest_def)
qed

theorem keys_ignore_order_witness:
  "tree_digest ex_lib [ex_artifact ''b'', ex_artifact ''a''] = tree_digest ex_lib [ex_artifact ''a'', ex_artifact ''b'']"
proof -
  have "mset [ex_artifact ''b'', ex_artifact ''a''] = mset [ex_artifact ''a'', ex_artifact ''b'']"
    by (simp add: add_mset_commute)
  moreover have "distinct (map ar_file_name [ex_artifact ''a'', ex_artifact ''b''])" by (simp add: ex_artifact_def)
  ultimately show ?thesis using keys_ignore_order [of _ _ "[]" "[]"] by blast
qed

section \<open>What a record that passes its checks is\<close>

definition key_ok :: "string \<Rightarrow> bool" where
  "key_ok k \<longleftrightarrow> length k = 64 \<and> set k \<subseteq> Collect is_lower_hex"

lemma validate_content_key_ok [simp]: "validate_content_key k = Inr u \<longleftrightarrow> key_ok k"
  by (auto simp: validate_content_key_def key_ok_def content_key_len_def list_all_iff)

lemma ensure_Inr_iff: "ensure c e = Inr u \<longleftrightarrow> c"
  by simp

definition inputs_ok :: "(string \<Rightarrow> check_error + unit) \<Rightarrow> file_input list \<Rightarrow> bool" where
  "inputs_ok check_path fs \<longleftrightarrow> (\<forall>f \<in> set fs. check_path (fi_path f) = Inr () \<and> key_ok (fi_digest f))"

definition env_ok :: "env_input list \<Rightarrow> bool" where
  "env_ok es \<longleftrightarrow>
     (\<forall>i \<in> set es. ei_name i \<noteq> [] \<and> length (ei_name i) \<le> 256 \<and> CHR ''='' \<notin> set (ei_name i)
        \<and> (\<forall>d. ei_value_digest i = Some d \<longrightarrow> key_ok d)) \<and> distinct (map ei_name es)"

definition artifacts_ok :: "artifact list \<Rightarrow> bool" where
  "artifacts_ok as \<longleftrightarrow> (\<forall>a \<in> set as. clean (ar_file_name a) \<and> key_ok (ar_digest a)) \<and> distinct (map ar_file_name as)"

lemma check_files_ok:
  "check_files vp seen fs = Inr t \<longleftrightarrow>
     t = seen \<union> fi_path ` set fs \<and> inputs_ok vp fs \<and> distinct (map fi_path fs) \<and> fi_path ` set fs \<inter> seen = {}"
  by (induction fs arbitrary: seen) (auto simp: inputs_ok_def)

lemma check_env_ok: "check_env seen es = Inr () \<longleftrightarrow> env_ok es \<and> ei_name ` set es \<inter> seen = {}"
  by (induction es arbitrary: seen) (auto simp: env_ok_def split: option.splits)

lemma one_component: "clean v \<Longrightarrow> length (components v) = 1 \<longleftrightarrow> CHR ''/'' \<notin> set v"
proof -
  have "length (split_on slash v) = Suc (count_list v CHR ''/'')" for v
    by (induction v) (auto split: list.splits)
  then show "clean v \<Longrightarrow> ?thesis" by (simp add: components_clean count_list_0_iff)
qed

lemma check_file_names_ok:
  "check_file_names seen as = Inr () \<longleftrightarrow>
     artifacts_ok as \<and> (\<forall>a \<in> set as. CHR ''/'' \<notin> set (ar_file_name a)) \<and> ar_file_name ` set as \<inter> seen = {}"
proof (induction as arbitrary: seen)
  case (Cons a as)
  have "check_file_names seen (a # as) = Inr () \<longleftrightarrow> clean (ar_file_name a) \<and> CHR ''/'' \<notin> set (ar_file_name a)
      \<and> key_ok (ar_digest a) \<and> ar_file_name a \<notin> seen \<and> check_file_names (insert (ar_file_name a) seen) as = Inr ()"
    using one_component [of "ar_file_name a"] by (auto simp: validate_relative_path_ok)
  then show ?case by (auto simp: Cons.IH artifacts_ok_def)
qed (simp add: artifacts_ok_def)

lemma check_artifacts_ok:
  "check_artifacts seen as = Inr () \<longleftrightarrow> artifacts_ok as \<and> ar_file_name ` set as \<inter> seen = {}"
  by (induction as arbitrary: seen) (auto simp: validate_relative_path_ok artifacts_ok_def)

lemma check_output_paths_ok:
  "check_output_paths seen ps = Inr () \<longleftrightarrow> (\<forall>p \<in> set ps. clean p) \<and> distinct ps \<and> set ps \<inter> seen = {}"
  by (induction ps arbitrary: seen) (auto simp: validate_relative_path_ok)

text \<open>
  A compiler candidate that is fit to be stored: current protocol, well-formed keys, bounded
  sizes, every input named once (as a normalized path or a host path), every artifact a single
  file name, and an action key that is the hash of exactly this dependency manifest.
\<close>

definition candidate_ok :: "'b lib \<Rightarrow> action_candidate \<Rightarrow> bool" where
  "candidate_ok L c \<longleftrightarrow>
     ac_protocol c = protocol_version \<and> key_ok (ac_static_key c) \<and> key_ok (ac_action_key c)
     \<and> length (ac_crate_name c) \<in> {1..256}
     \<and> length (ac_files c) \<le> max_candidate_files \<and> length (ac_host_files c) \<le> max_candidate_files
     \<and> length (ac_env c) \<le> max_candidate_env \<and> length (ac_proc_macros c) \<le> max_candidate_env
     \<and> length (ac_artifacts c) \<le> max_candidate_artifacts
     \<and> inputs_ok validate_normalized_input_path (ac_files c)
     \<and> inputs_ok validate_host_input_path (ac_host_files c)
     \<and> distinct (map fi_path (ac_files c @ ac_host_files c))
     \<and> (\<forall>n \<in> set (ac_proc_macros c). length n \<in> {1..256})
     \<and> env_ok (ac_env c)
     \<and> artifacts_ok (ac_artifacts c) \<and> (\<forall>a \<in> set (ac_artifacts c). CHR ''/'' \<notin> set (ar_file_name a))
     \<and> key_ok (sa_digest (ac_stdout c)) \<and> key_ok (sa_digest (ac_stderr c))
     \<and> ac_action_key c = compiler_action_key L (ac_static_key c) (ac_files c) (ac_host_files c) (ac_env c)"

lemma length_1_256: "length s \<in> {1..256} \<longleftrightarrow> s \<noteq> [] \<and> length s \<le> 256"
  by (cases s) auto

lemma candidate_manifest_ok: "validate_candidate_manifest L c = Inr () \<longleftrightarrow> candidate_ok L c"
proof -
  have "validate_candidate_manifest L c = Inr () \<longleftrightarrow>
     ac_protocol c = protocol_version \<and> key_ok (ac_static_key c) \<and> key_ok (ac_action_key c)
     \<and> (ac_crate_name c \<noteq> [] \<and> length (ac_crate_name c) \<le> 256)
     \<and> (length (ac_files c) \<le> max_candidate_files \<and> length (ac_env c) \<le> max_candidate_env
       \<and> length (ac_artifacts c) \<le> max_candidate_artifacts)
     \<and> (\<exists>seen. check_files validate_normalized_input_path {} (ac_files c) = Inr seen
       \<and> (length (ac_host_files c) \<le> max_candidate_files \<and> length (ac_proc_macros c) \<le> max_candidate_env)
       \<and> (\<exists>t. check_files validate_host_input_path seen (ac_host_files c) = Inr t
         \<and> (\<forall>n \<in> set (ac_proc_macros c). n \<noteq> [] \<and> length n \<le> 256)
         \<and> check_env {} (ac_env c) = Inr () \<and> check_file_names {} (ac_artifacts c) = Inr ()
         \<and> key_ok (sa_digest (ac_stdout c)) \<and> key_ok (sa_digest (ac_stderr c))
         \<and> compiler_action_key L (ac_static_key c) (ac_files c) (ac_host_files c) (ac_env c) = ac_action_key c))"
    unfolding validate_candidate_manifest_def
    by (simp only: r_then_ok r_bind_ok ensure_Inr_iff validate_content_key_ok check_all_ok)
  also have "\<dots> \<longleftrightarrow> candidate_ok L c"
    unfolding candidate_ok_def length_1_256 map_append distinct_append set_map
      check_files_ok check_env_ok check_file_names_ok
    by (simp only: Un_empty_left Int_empty_right simp_thms ex_simps conj_assoc Int_commute
        [of "fi_path ` set (ac_host_files c)"] eq_commute [of "ac_action_key c"]) (simp only: conj_ac)
  finally show ?thesis .
qed

text \<open>
  \<open>validate_candidate_manifest\<close> accepts exactly the well-formed candidates; in particular the
  action key of an accepted one is recomputed from its own dependency manifest.
\<close>

theorem candidate_manifest_spec: "validate_candidate_manifest L c = Inr () \<longleftrightarrow> candidate_ok L c"
  by (rule candidate_manifest_ok)

text \<open>
  A declared record that is fit to be stored: its outputs lie under declared roots, which do not
  overlap its inputs or Bellows' own state; the command is a checked one; the key is the hash of
  the declaration.
\<close>

definition platform_ok :: "platform_identity \<Rightarrow> bool" where
  "platform_ok p \<longleftrightarrow> (\<forall>v \<in> set (platform_fields p). v \<noteq> [] \<and> length v \<le> 64 * 1024 \<and> CHR 0x00 \<notin> set v)
     \<and> key_ok (pi_path_digest p) \<and> key_ok (pi_rustup_home_digest p)"

lemma validate_platform_identity_ok: "validate_platform_identity p = Inr () \<longleftrightarrow> platform_ok p"
  by (simp add: validate_platform_identity_def platform_ok_def)

definition declared_ok :: "'b lib \<Rightarrow> declared_record \<Rightarrow> bool" where
  "declared_ok L r \<longleftrightarrow>
     dr_protocol r = protocol_version \<and> key_ok (dr_key r)
     \<and> dr_name r \<noteq> [] \<and> length (dr_name r) \<le> 256
     \<and> platform_ok (dr_platform r) \<and> validate_declared_command (dr_command r) = Inr ()
     \<and> length (dr_environment r) \<le> max_record_env \<and> length (dr_inputs r) \<le> max_record_artifacts
     \<and> length (dr_output_paths r) \<le> max_record_artifacts \<and> length (dr_outputs r) \<le> max_record_artifacts
     \<and> (\<forall>(n, v) \<in> set (dr_environment r). n \<noteq> [] \<and> length n \<le> 256 \<and> CHR ''='' \<notin> set n \<and> length v \<le> 1024 * 1024)
     \<and> artifacts_ok (dr_inputs r) \<and> artifacts_ok (dr_outputs r)
     \<and> (\<forall>p \<in> set (dr_output_paths r). clean p) \<and> distinct (dr_output_paths r)
     \<and> validate_output_roots (dr_inputs r) (dr_output_paths r) = Inr ()
     \<and> (\<forall>a \<in> set (dr_outputs r). output_covered (dr_output_paths r) a)
     \<and> key_ok (sa_digest (dr_stdout r)) \<and> key_ok (sa_digest (dr_stderr r))
     \<and> dr_executor r \<noteq> [] \<and> length (dr_executor r) \<le> 1024
     \<and> dr_key r = declared_action_key L (dr_name r) (dr_platform r) (dr_command r) (dr_environment r)
         (dr_inputs r) (dr_output_paths r)"

lemma declared_record_ok: "validate_declared_record L r = Inr () \<longleftrightarrow> declared_ok L r"
proof -
  have env: "(case e of (n, v) \<Rightarrow> ensure (P n v) x) = Inr () \<longleftrightarrow> (case e of (n, v) \<Rightarrow> P n v)"
    for e :: "string \<times> string" and P and x :: check_error by (cases e) simp
  show ?thesis
    unfolding validate_declared_record_def declared_ok_def validate_artifacts_def
    by (simp only: r_then_ok ensure_Inr_iff validate_content_key_ok check_all_ok env check_artifacts_ok
        check_output_paths_ok validate_platform_identity_ok Int_empty_right simp_thms conj_assoc
        eq_commute [of "dr_key r"]) (simp only: conj_ac)
qed

text \<open>
  \<open>validate_declared_record\<close> accepts exactly the well-formed declared records: in particular every
  output lies under a declared root and the key is recomputed from the declaration.
\<close>

theorem declared_record_spec: "validate_declared_record L r = Inr () \<longleftrightarrow> declared_ok L r"
  by (rule declared_record_ok)

definition archive_ok :: "'b lib \<Rightarrow> archive_manifest \<Rightarrow> bool" where
  "archive_ok L m \<longleftrightarrow>
     am_protocol m = protocol_version \<and> validate_archive_name (am_name m) = Inr ()
     \<and> key_ok (am_tree_digest m) \<and> (\<forall>k. am_producer_action m = Some k \<longrightarrow> key_ok k)
     \<and> length (am_files m) \<le> max_record_artifacts \<and> artifacts_ok (am_files m)
     \<and> am_tree_digest m = tree_digest L (am_files m)"

lemma archive_manifest_ok: "validate_archive_manifest L m = Inr () \<longleftrightarrow> archive_ok L m"
proof -
  have k: "(case x of None \<Rightarrow> Inr () | Some k \<Rightarrow> validate_content_key k) = Inr () \<longleftrightarrow> (\<forall>k. x = Some k \<longrightarrow> key_ok k)"
    for x by (cases x) simp_all
  show ?thesis
    unfolding validate_archive_manifest_def archive_ok_def validate_artifacts_def
    by (simp only: r_then_ok ensure_Inr_iff validate_content_key_ok k check_artifacts_ok
        Int_empty_right simp_thms conj_assoc eq_commute [of "am_tree_digest m"])
qed

end
