(* ===== verification/GC_Plan.thy ===== *)
theory GC_Plan
  imports Core_Records_Props
begin

text \<open>
  The collector's snapshot and plan (\<open>crates/bellows-core/src/gc.rs\<close>: \<open>Snapshot\<close>, \<open>Plan::new\<close>).
  Units and blobs are indexed from 0 as in the code; \<open>u32\<close> counts are naturals whose decrement
  wraps at 0, and \<open>saturating_sub\<close> is subtraction on naturals.
\<close>

section \<open>Units, blobs and snapshots\<close>

datatype kind = Library | Executable | Linked | BuildScript | Declared | Archive

definition kind_label :: "kind \<Rightarrow> string" where
  "kind_label k = (case k of Library \<Rightarrow> ''library'' | Executable \<Rightarrow> ''executable'' | Linked \<Rightarrow> ''linked output''
     | BuildScript \<Rightarrow> ''build-script run'' | Declared \<Rightarrow> ''declared action'' | Archive \<Rightarrow> ''archive'')"

text \<open>The record file a unit lives in; \<open>Path\<close> orders by directory, then by file name.\<close>

datatype record_path = Action_file string | Declared_file string | Archive_file string

fun path_rank :: "record_path \<Rightarrow> nat \<times> string" where
  "path_rank (Action_file k) = (0, k @ ''.json'')"
| "path_rank (Archive_file k) = (1, k @ ''.json'')"
| "path_rank (Declared_file k) = (2, k @ ''.json'')"

lemma path_rank_inj: "path_rank p = path_rank q \<Longrightarrow> p = q"
  by (cases p; cases q) simp_all

instantiation record_path :: linorder
begin

definition less_eq_record_path :: "record_path \<Rightarrow> record_path \<Rightarrow> bool" where
  "less_eq_record_path p q \<longleftrightarrow> path_rank p \<le> path_rank q"

definition less_record_path :: "record_path \<Rightarrow> record_path \<Rightarrow> bool" where
  "less_record_path p q \<longleftrightarrow> path_rank p < path_rank q"

instance
  by standard (auto simp: less_eq_record_path_def less_record_path_def dest: path_rank_inj)

end

record gc_unit =
  u_path :: record_path
  u_candidate :: "(string \<times> nat) option"
  u_static_key :: "string option"
  u_protocol :: "nat option"
  u_crate_name :: string
  u_kind :: kind
  u_pinned :: bool
  u_last_used_ms :: nat
  u_blobs :: "nat list"

record gc_blob =
  b_digest :: string
  b_bytes :: nat
  b_modified_ms :: nat

record snapshot =
  sn_units :: "gc_unit list"
  sn_blobs :: "gc_blob list"
  sn_referrers :: "nat list list"
  sn_journal_entries :: nat
  sn_total_bytes :: nat
  sn_started_ms :: nat

definition ends_with :: "string \<Rightarrow> string \<Rightarrow> bool" where
  "ends_with suf s \<longleftrightarrow> suffix suf s"

definition candidate_kind :: "string \<Rightarrow> artifact list \<Rightarrow> kind" where
  "candidate_kind crate_name artifacts =
     (if prefix ''build-script:'' crate_name \<or> list_ex (\<lambda>a. ar_file_name a = ''out-dir.tree'') artifacts
      then BuildScript
      else if list_ex (\<lambda>a. \<not> (ends_with ''.rlib'' (ar_file_name a) \<or> ends_with ''.rmeta'' (ar_file_name a)
             \<or> ends_with ''.d'' (ar_file_name a))) artifacts
      then (if list_ex (\<lambda>a. ends_with ''.so'' (ar_file_name a) \<or> ends_with ''.dylib'' (ar_file_name a)
                \<or> ends_with ''.dll'' (ar_file_name a)) artifacts
              \<or> prefix ''build_script_'' crate_name
            then Linked else Executable)
      else Library)"

text \<open>\<open>add\<close>: a unit's digests become the distinct indices of the blobs present, linked both ways.\<close>

fun add_digests :: "(string \<rightharpoonup> nat) \<Rightarrow> nat \<Rightarrow> string list \<Rightarrow> nat list \<times> nat list list \<Rightarrow> nat list \<times> nat list list" where
  "add_digests by_digest i [] acc = acc"
| "add_digests by_digest i (d # ds) (blobs, referrers) =
     add_digests by_digest i ds
       (case by_digest d of
          None \<Rightarrow> (blobs, referrers)
        | Some b \<Rightarrow> if b \<in> set blobs then (blobs, referrers)
                    else (blobs @ [b], referrers[b := referrers ! b @ [i]]))"

definition add_unit :: "(string \<rightharpoonup> nat) \<Rightarrow> gc_unit list \<times> nat list list \<Rightarrow> gc_unit \<times> string list \<Rightarrow>
    gc_unit list \<times> nat list list" where
  "add_unit by_digest acc entry =
     (let (units, referrers) = acc; (u, digests) = entry;
          (blobs, referrers') = add_digests by_digest (length units) digests ([], referrers)
      in (units @ [u\<lparr>u_blobs := blobs\<rparr>], referrers'))"

section \<open>The plan\<close>

definition obsolete :: "gc_options \<Rightarrow> gc_unit \<Rightarrow> bool" where
  "obsolete opts u \<longleftrightarrow> u_candidate u \<noteq> None
     \<and> (case (go_min_protocol opts, u_protocol u) of (Some minimum, Some p) \<Rightarrow> p < minimum | _ \<Rightarrow> False)"

definition evict_key :: "snapshot \<Rightarrow> gc_options \<Rightarrow> nat \<Rightarrow> bool \<times> nat \<times> nat" where
  "evict_key sn opts i = (let u = sn_units sn ! i in (\<not> obsolete opts u, u_last_used_ms u, i))"

definition evict_order :: "snapshot \<Rightarrow> gc_options \<Rightarrow> nat list" where
  "evict_order sn opts = sort_key (evict_key sn opts) [0..<length (sn_units sn)]"

definition stale_unreferenced :: "snapshot \<Rightarrow> nat \<Rightarrow> nat \<Rightarrow> bool" where
  "stale_unreferenced sn now b \<longleftrightarrow> sn_referrers sn ! b = []
     \<and> \<not> now - b_modified_ms (sn_blobs sn ! b) < unpublished_blob_grace_ms"

definition unreferenced :: "snapshot \<Rightarrow> nat \<Rightarrow> nat list" where
  "unreferenced sn now = filter (stale_unreferenced sn now) [0..<length (sn_blobs sn)]"

definition protected_unreferenced :: "snapshot \<Rightarrow> nat \<Rightarrow> nat" where
  "protected_unreferenced sn now =
     length (filter (\<lambda>b. sn_referrers sn ! b = [] \<and> now - b_modified_ms (sn_blobs sn ! b) < unpublished_blob_grace_ms)
       [0..<length (sn_blobs sn)])"

definition blob_bytes :: "snapshot \<Rightarrow> nat \<Rightarrow> nat" where
  "blob_bytes sn b = b_bytes (sn_blobs sn ! b)"

record eviction =
  ev_remaining :: "nat list"
  ev_evicted :: "bool list"
  ev_freed :: "(nat \<times> nat) list"
  ev_bytes_after :: nat
  ev_executable_bytes :: nat

definition dec32 :: "nat \<Rightarrow> nat" where
  "dec32 n = (if n = 0 then 4294967295 else n - 1)"

definition release_blob :: "snapshot \<Rightarrow> nat \<Rightarrow> eviction \<Rightarrow> nat \<Rightarrow> eviction" where
  "release_blob sn i st b =
     (let st1 = st\<lparr>ev_remaining := (ev_remaining st)[b := dec32 (ev_remaining st ! b)]\<rparr>
      in if ev_remaining st1 ! b = 0
         then st1\<lparr>ev_freed := ev_freed st1 @ [(b, i)],
                  ev_bytes_after := ev_bytes_after st1 - blob_bytes sn b,
                  ev_executable_bytes := (if u_kind (sn_units sn ! i) = Executable
                     then ev_executable_bytes st1 - blob_bytes sn b else ev_executable_bytes st1)\<rparr>
         else st1)"

definition evict :: "snapshot \<Rightarrow> nat \<Rightarrow> eviction \<Rightarrow> eviction" where
  "evict sn i st =
     (if ev_evicted st ! i then st
      else foldl (release_blob sn i) (st\<lparr>ev_evicted := (ev_evicted st)[i := True]\<rparr>) (u_blobs (sn_units sn ! i)))"

definition executable_only :: "snapshot \<Rightarrow> nat \<Rightarrow> bool" where
  "executable_only sn b \<longleftrightarrow> sn_referrers sn ! b \<noteq> []
     \<and> list_all (\<lambda>u. u_kind (sn_units sn ! u) = Executable) (sn_referrers sn ! b)"

definition start_eviction :: "snapshot \<Rightarrow> nat \<Rightarrow> eviction" where
  "start_eviction sn now =
     \<lparr>ev_remaining = map length (sn_referrers sn),
      ev_evicted = replicate (length (sn_units sn)) False,
      ev_freed = [],
      ev_bytes_after = foldl (\<lambda>bytes b. bytes - blob_bytes sn b) (sn_total_bytes sn) (unreferenced sn now),
      ev_executable_bytes = sum_list (map (blob_bytes sn)
        (filter (executable_only sn) [0..<length (sn_referrers sn)]))\<rparr>"

fun executable_loop :: "snapshot \<Rightarrow> nat \<Rightarrow> nat list \<Rightarrow> eviction \<Rightarrow> eviction" where
  "executable_loop sn budget [] st = st"
| "executable_loop sn budget (i # is) st =
     (if ev_executable_bytes st \<le> budget then st
      else executable_loop sn budget is
        (if u_kind (sn_units sn ! i) = Executable then evict sn i st else st))"

fun evict_loop :: "snapshot \<Rightarrow> gc_options \<Rightarrow> nat list \<Rightarrow> eviction \<Rightarrow> eviction" where
  "evict_loop sn opts [] st = st"
| "evict_loop sn opts (i # is) st =
     (if ev_bytes_after st \<le> go_max_bytes opts \<and> \<not> obsolete opts (sn_units sn ! i) then st
      else evict_loop sn opts is (evict sn i st))"

definition executables_evicted :: "snapshot \<Rightarrow> gc_options \<Rightarrow> nat \<Rightarrow> eviction" where
  "executables_evicted sn opts now =
     (case go_max_executable_bytes opts of
        None \<Rightarrow> start_eviction sn now
      | Some budget \<Rightarrow> executable_loop sn budget (evict_order sn opts) (start_eviction sn now))"

definition evictions :: "snapshot \<Rightarrow> gc_options \<Rightarrow> nat \<Rightarrow> eviction" where
  "evictions sn opts now = evict_loop sn opts (evict_order sn opts) (executables_evicted sn opts now)"

record plan =
  pl_evicted :: "bool list"
  pl_freed :: "(nat \<times> nat) list"
  pl_unreferenced :: "nat list"
  pl_protected_unreferenced :: nat
  pl_bytes_after :: nat

definition new_plan :: "snapshot \<Rightarrow> gc_options \<Rightarrow> nat \<Rightarrow> plan" where
  "new_plan sn opts now =
     (let st = evictions sn opts now
      in \<lparr>pl_evicted = ev_evicted st, pl_freed = ev_freed st, pl_unreferenced = unreferenced sn now,
          pl_protected_unreferenced = protected_unreferenced sn now, pl_bytes_after = ev_bytes_after st\<rparr>)"

end
