(* ===== verification/GC_Plan_Props.thy ===== *)
theory GC_Plan_Props
  imports GC_Plan
begin

text \<open>
  What the collector plans: which blobs it frees, what remains, and in which order units go. The
  reference counts the loop keeps are shown to be the numbers of surviving referrers at every
  step, so they never go below zero.
\<close>

section \<open>Consistent snapshots\<close>

abbreviation unit_count :: "snapshot \<Rightarrow> nat" where "unit_count sn \<equiv> length (sn_units sn)"
abbreviation blob_count :: "snapshot \<Rightarrow> nat" where "blob_count sn \<equiv> length (sn_blobs sn)"

text \<open>Units and blobs link both ways, each link once.\<close>

definition linked :: "gc_unit list \<Rightarrow> nat list list \<Rightarrow> bool" where
  "linked units referrers \<longleftrightarrow>
     (\<forall>b < length referrers. distinct (referrers ! b)
        \<and> (\<forall>u \<in> set (referrers ! b). u < length units \<and> b \<in> set (u_blobs (units ! u))))
     \<and> (\<forall>u < length units. distinct (u_blobs (units ! u))
        \<and> (\<forall>b \<in> set (u_blobs (units ! u)). b < length referrers \<and> u \<in> set (referrers ! b)))"

definition snapshot_ok :: "snapshot \<Rightarrow> bool" where
  "snapshot_ok sn \<longleftrightarrow> length (sn_referrers sn) = blob_count sn \<and> linked (sn_units sn) (sn_referrers sn)
     \<and> sn_total_bytes sn = sum (blob_bytes sn) {..<blob_count sn}"

lemma snapshot_okD:
  assumes "snapshot_ok sn"
  shows "b < blob_count sn \<Longrightarrow> distinct (sn_referrers sn ! b)"
    and "b < blob_count sn \<Longrightarrow> u \<in> set (sn_referrers sn ! b) \<Longrightarrow> u < unit_count sn \<and> b \<in> set (u_blobs (sn_units sn ! u))"
    and "u < unit_count sn \<Longrightarrow> distinct (u_blobs (sn_units sn ! u))"
    and "u < unit_count sn \<Longrightarrow> b \<in> set (u_blobs (sn_units sn ! u)) \<Longrightarrow> b < blob_count sn \<and> u \<in> set (sn_referrers sn ! b)"
proof -
  have l: "length (sn_referrers sn) = blob_count sn" "linked (sn_units sn) (sn_referrers sn)"
    using assms by (simp_all add: snapshot_ok_def)
  note l2 = l(2) [unfolded linked_def l(1)]
  show "b < blob_count sn \<Longrightarrow> distinct (sn_referrers sn ! b)" using l2 by blast
  show "b < blob_count sn \<Longrightarrow> u \<in> set (sn_referrers sn ! b) \<Longrightarrow> u < unit_count sn \<and> b \<in> set (u_blobs (sn_units sn ! u))"
    using l2 by blast
  show "u < unit_count sn \<Longrightarrow> distinct (u_blobs (sn_units sn ! u))" using l2 by blast
  show "u < unit_count sn \<Longrightarrow> b \<in> set (u_blobs (sn_units sn ! u)) \<Longrightarrow> b < blob_count sn \<and> u \<in> set (sn_referrers sn ! b)"
    using l2 by blast
qed

lemma add_digests_spec:
  assumes "add_digests by_digest i ds (blobs, referrers) = (blobs', referrers')"
    and "\<And>d b. by_digest d = Some b \<Longrightarrow> b < length referrers" and "distinct blobs"
  shows "distinct blobs' \<and> length referrers' = length referrers
     \<and> set blobs' = set blobs \<union> {b. \<exists>d \<in> set ds. by_digest d = Some b}
     \<and> (\<forall>b < length referrers. referrers' ! b = referrers ! b @ (if b \<in> set blobs' \<and> b \<notin> set blobs then [i] else []))"
  using assms
proof (induction ds arbitrary: blobs referrers)
  case (Cons d ds)
  show ?case
  proof (cases "\<exists>b. by_digest d = Some b \<and> b \<notin> set blobs")
    case False
    have "add_digests by_digest i ds (blobs, referrers) = (blobs', referrers')"
      using False Cons.prems(1) by (cases "by_digest d") (simp_all split: if_splits)
    from Cons.IH [OF this Cons.prems(2,3)] have IH: "distinct blobs' \<and> length referrers' = length referrers
       \<and> set blobs' = set blobs \<union> {b. \<exists>d \<in> set ds. by_digest d = Some b}
       \<and> (\<forall>b < length referrers. referrers' ! b = referrers ! b @ (if b \<in> set blobs' \<and> b \<notin> set blobs then [i] else []))" .
    moreover have "set blobs \<union> {b. \<exists>d \<in> set ds. by_digest d = Some b}
        = set blobs \<union> {b. \<exists>d \<in> set (d # ds). by_digest d = Some b}"
      using False by auto
    ultimately show ?thesis by presburger
  next
    case True
    then obtain b where b: "by_digest d = Some b" "b \<notin> set blobs" by blast
    then have lt: "b < length referrers" using Cons.prems(2) by blast
    let ?r = "referrers[b := referrers ! b @ [i]]"
    have step: "add_digests by_digest i ds (blobs @ [b], ?r) = (blobs', referrers')"
      using Cons.prems(1) b by simp
    have "\<And>d b. by_digest d = Some b \<Longrightarrow> b < length ?r" using Cons.prems(2) by simp
    moreover have "distinct (blobs @ [b])" using Cons.prems(3) b by simp
    ultimately have IH: "distinct blobs' \<and> length referrers' = length ?r
       \<and> set blobs' = set (blobs @ [b]) \<union> {b. \<exists>d \<in> set ds. by_digest d = Some b}
       \<and> (\<forall>x < length ?r. referrers' ! x = ?r ! x @ (if x \<in> set blobs' \<and> x \<notin> set (blobs @ [b]) then [i] else []))"
      by (rule Cons.IH [OF step])
    have all: "set blobs' = set blobs \<union> {b. \<exists>d \<in> set (d # ds). by_digest d = Some b}"
      using IH b(1) by auto
    have "referrers' ! x = referrers ! x @ (if x \<in> set blobs' \<and> x \<notin> set blobs then [i] else [])"
      if "x < length referrers" for x
    proof (cases "x = b")
      case True
      have "b \<in> set blobs'" using IH by simp
      then show ?thesis using IH that True b(2) lt by simp
    next
      case False
      then show ?thesis using IH that by simp
    qed
    moreover have "distinct blobs'" "length referrers' = length referrers" using IH by simp_all
    ultimately show ?thesis using all by blast
  qed
qed simp

lemma linked_add_unit:
  assumes "linked units referrers" and "\<And>d b. by_digest d = Some b \<Longrightarrow> b < length referrers"
    and "add_unit by_digest (units, referrers) (u, ds) = (units', referrers')"
  shows "linked units' referrers' \<and> length referrers' = length referrers
     \<and> (\<exists>blobs. units' = units @ [u\<lparr>u_blobs := blobs\<rparr>] \<and> set blobs = {b. \<exists>d \<in> set ds. by_digest d = Some b})"
proof -
  obtain blobs where a: "add_digests by_digest (length units) ds ([], referrers) = (blobs, referrers')"
    and u: "units' = units @ [u\<lparr>u_blobs := blobs\<rparr>]"
    using assms(3) by (auto simp: add_unit_def Let_def case_prod_unfold prod_eq_iff)
  have s: "distinct blobs" "length referrers' = length referrers" "set blobs = {b. \<exists>d \<in> set ds. by_digest d = Some b}"
    "\<And>b. b < length referrers \<Longrightarrow> referrers' ! b = referrers ! b @ (if b \<in> set blobs then [length units] else [])"
    using add_digests_spec [OF a assms(2)] by auto
  let ?n = "length units"
  have old: "u_blobs (units' ! v) = u_blobs (units ! v)" if "v < ?n" for v using that by (simp add: u nth_append)
  have new: "u_blobs (units' ! ?n) = blobs" by (simp add: u)
  have n: "length units' = Suc ?n" by (simp add: u)
  note l = assms(1) [unfolded linked_def]
  have "distinct (referrers' ! b) \<and> (\<forall>v \<in> set (referrers' ! b). v < length units' \<and> b \<in> set (u_blobs (units' ! v)))"
    if b: "b < length referrers'" for b
  proof -
    have b': "b < length referrers" using b s(2) by simp
    have r: "distinct (referrers ! b)" "\<forall>v \<in> set (referrers ! b). v < ?n \<and> b \<in> set (u_blobs (units ! v))"
      using l b' by blast+
    show ?thesis using r old new n by (auto simp: s(4) [OF b'])
  qed
  moreover have "distinct (u_blobs (units' ! v))
      \<and> (\<forall>b \<in> set (u_blobs (units' ! v)). b < length referrers' \<and> v \<in> set (referrers' ! b))"
    if v: "v < length units'" for v
  proof (cases "v = ?n")
    case True
    have "b < length referrers" if "b \<in> set blobs" for b using that s(3) assms(2) by blast
    with True new s show ?thesis by simp
  next
    case False
    then have v': "v < ?n" using v n by simp
    have "distinct (u_blobs (units ! v))" "\<forall>b \<in> set (u_blobs (units ! v)). b < length referrers \<and> v \<in> set (referrers ! b)"
      using l v' by blast+
    then show ?thesis using old [OF v'] s(2,4) by simp
  qed
  ultimately have "linked units' referrers'" unfolding linked_def by blast
  with s u show ?thesis by blast
qed

section \<open>Reference counts\<close>

definition left :: "snapshot \<Rightarrow> bool list \<Rightarrow> nat \<Rightarrow> nat" where
  "left sn evicted b = length (filter (\<lambda>u. \<not> evicted ! u) (sn_referrers sn ! b))"

definition gone :: "snapshot \<Rightarrow> bool list \<Rightarrow> nat set" where
  "gone sn evicted = {b. b < blob_count sn \<and> sn_referrers sn ! b \<noteq> [] \<and> left sn evicted b = 0}"

text \<open>
  The books in the middle of an eviction: \<open>rest\<close> are the blobs of the unit being evicted whose
  count is still to be decremented, \<open>base\<close> the bytes before any unit went.
\<close>

definition books :: "snapshot \<Rightarrow> nat \<Rightarrow> nat list \<Rightarrow> eviction \<Rightarrow> bool" where
  "books sn base rest st \<longleftrightarrow>
     length (ev_evicted st) = unit_count sn \<and> length (ev_remaining st) = blob_count sn
     \<and> (\<forall>b < blob_count sn. ev_remaining st ! b = left sn (ev_evicted st) b + (if b \<in> set rest then 1 else 0))
     \<and> distinct (map fst (ev_freed st)) \<and> fst ` set (ev_freed st) = gone sn (ev_evicted st) - set rest
     \<and> (\<forall>(b, u) \<in> set (ev_freed st). u \<in> set (sn_referrers sn ! b))
     \<and> ev_bytes_after st + sum (blob_bytes sn) (fst ` set (ev_freed st)) = base"

definition referenced :: "snapshot \<Rightarrow> nat set" where
  "referenced sn = {b. b < blob_count sn \<and> sn_referrers sn ! b \<noteq> []}"

lemma gone_referenced: "gone sn ev \<subseteq> referenced sn"
  by (auto simp: gone_def referenced_def)

lemma finite_referenced [simp]: "finite (referenced sn)"
  by (simp add: referenced_def)

lemma books_release_blob:
  assumes ok: "snapshot_ok sn" and b: "books sn base (b # rest) st" and lt: "b < blob_count sn"
    and d: "distinct (b # rest)" and i: "i \<in> set (sn_referrers sn ! b)"
    and base: "sum (blob_bytes sn) (referenced sn) \<le> base"
  shows "books sn base rest (release_blob sn i st b)"
    and "ev_evicted (release_blob sn i st b) = ev_evicted st"
    and "ev_freed (release_blob sn i st b) = (if left sn (ev_evicted st) b = 0 then ev_freed st @ [(b, i)] else ev_freed st)"
    and "ev_executable_bytes (release_blob sn i st b) =
      (if left sn (ev_evicted st) b = 0 \<and> u_kind (sn_units sn ! i) = Executable
       then ev_executable_bytes st - blob_bytes sn b else ev_executable_bytes st)"
proof -
  let ?ev = "ev_evicted st"
  have rem: "ev_remaining st ! b = Suc (left sn ?ev b)" using b lt by (simp add: books_def)
  have len: "b < length (ev_remaining st)" using b lt by (simp add: books_def)
  have zero: "(ev_remaining st)[b := dec32 (ev_remaining st ! b)] ! b = left sn ?ev b"
    using rem len by (simp add: dec32_def)
  show ev: "ev_evicted (release_blob sn i st b) = ?ev" by (simp add: release_blob_def Let_def)
  show fr: "ev_freed (release_blob sn i st b) = (if left sn ?ev b = 0 then ev_freed st @ [(b, i)] else ev_freed st)"
    and "ev_executable_bytes (release_blob sn i st b) =
      (if left sn ?ev b = 0 \<and> u_kind (sn_units sn ! i) = Executable
       then ev_executable_bytes st - blob_bytes sn b else ev_executable_bytes st)"
    using zero by (simp_all add: release_blob_def Let_def)
  have rem': "ev_remaining (release_blob sn i st b) = (ev_remaining st)[b := left sn ?ev b]"
    using rem by (simp add: release_blob_def Let_def dec32_def)
  have byt: "ev_bytes_after (release_blob sn i st b)
      = (if left sn ?ev b = 0 then ev_bytes_after st - blob_bytes sn b else ev_bytes_after st)"
    using zero by (simp add: release_blob_def Let_def)
  have freed: "fst ` set (ev_freed st) = gone sn ?ev - set (b # rest)" "distinct (map fst (ev_freed st))"
    using b unfolding books_def by blast+
  have ne: "sn_referrers sn ! b \<noteq> []" using i by auto
  show "books sn base rest (release_blob sn i st b)"
  proof (cases "left sn ?ev b = 0")
    case True
    have g: "b \<in> gone sn ?ev" using True lt ne by (simp add: gone_def)
    have new: "insert b (fst ` set (ev_freed st)) = gone sn ?ev - set rest" "b \<notin> fst ` set (ev_freed st)"
      using freed(1) g d by auto
    have "sum (blob_bytes sn) (insert b (fst ` set (ev_freed st))) \<le> sum (blob_bytes sn) (referenced sn)"
      using new gone_referenced [of sn ?ev] by (intro sum_mono2) auto
    then have "blob_bytes sn b + sum (blob_bytes sn) (fst ` set (ev_freed st)) \<le> base"
      using base new(2) by simp
    moreover have "ev_bytes_after st + sum (blob_bytes sn) (fst ` set (ev_freed st)) = base"
      using b unfolding books_def by blast
    ultimately have "ev_bytes_after st - blob_bytes sn b
        + sum (blob_bytes sn) (insert b (fst ` set (ev_freed st))) = base"
      using new(2) by simp
    then show ?thesis
      using b d lt i new True unfolding books_def ev fr rem' byt
      by (auto simp: nth_list_update)
  next
    case False
    then have "gone sn ?ev - set (b # rest) = gone sn ?ev - set rest" by (auto simp: gone_def)
    then show ?thesis
      using b d lt False unfolding books_def ev fr rem' byt
      by (auto simp: nth_list_update)
  qed
qed

text \<open>The executables' budget book: exact as long as only executables have gone.\<close>

definition executable_set :: "snapshot \<Rightarrow> nat set" where
  "executable_set sn = {b. b < blob_count sn \<and> executable_only sn b}"

definition only_executables :: "snapshot \<Rightarrow> bool list \<Rightarrow> bool" where
  "only_executables sn ev \<longleftrightarrow> (\<forall>u < unit_count sn. ev ! u \<longrightarrow> u_kind (sn_units sn ! u) = Executable)"

definition exec_books :: "snapshot \<Rightarrow> eviction \<Rightarrow> bool" where
  "exec_books sn st \<longleftrightarrow> only_executables sn (ev_evicted st) \<and> fst ` set (ev_freed st) \<subseteq> executable_set sn
     \<and> ev_executable_bytes st + sum (blob_bytes sn) (fst ` set (ev_freed st)) = sum (blob_bytes sn) (executable_set sn)"

lemma gone_executable:
  assumes "snapshot_ok sn" and "only_executables sn ev" and "b \<in> gone sn ev"
  shows "b \<in> executable_set sn"
proof -
  have b: "b < blob_count sn" "sn_referrers sn ! b \<noteq> []" "left sn ev b = 0" using assms(3) by (simp_all add: gone_def)
  have "u_kind (sn_units sn ! u) = Executable" if "u \<in> set (sn_referrers sn ! b)" for u
  proof -
    have "ev ! u" using b(3) that by (auto simp: left_def filter_empty_conv)
    moreover have "u < unit_count sn" using snapshot_okD(2) [OF assms(1) b(1) that] by simp
    ultimately show ?thesis using assms(2) by (simp add: only_executables_def)
  qed
  with b show ?thesis by (simp add: executable_set_def executable_only_def list_all_iff)
qed

lemma books_release_blobs:
  assumes ok: "snapshot_ok sn" and base: "sum (blob_bytes sn) (referenced sn) \<le> base"
  shows "books sn base rest st \<Longrightarrow> distinct rest \<Longrightarrow> (\<forall>b \<in> set rest. b < blob_count sn \<and> i \<in> set (sn_referrers sn ! b)) \<Longrightarrow>
    books sn base [] (foldl (release_blob sn i) st rest)
    \<and> ev_evicted (foldl (release_blob sn i) st rest) = ev_evicted st
    \<and> (exec_books sn st \<and> u_kind (sn_units sn ! i) = Executable \<longrightarrow> exec_books sn (foldl (release_blob sn i) st rest))"
proof (induction rest arbitrary: st)
  case (Cons b rest)
  note r = books_release_blob [OF ok Cons.prems(1) _ Cons.prems(2) _ base]
  have lt: "b < blob_count sn" and i: "i \<in> set (sn_referrers sn ! b)" using Cons.prems(3) by simp_all
  let ?st = "release_blob sn i st b"
  have ex: "exec_books sn ?st" if e: "exec_books sn st" "u_kind (sn_units sn ! i) = Executable"
  proof (cases "left sn (ev_evicted st) b = 0")
    case False
    then show ?thesis using e r(2,3,4) [OF lt i] by (simp add: exec_books_def)
  next
    case True
    have ne: "sn_referrers sn ! b \<noteq> []" using i by auto
    have "b \<in> executable_set sn"
      using gone_executable [OF ok, of "ev_evicted st" b] e(1) True lt ne by (simp add: exec_books_def gone_def)
    moreover have "fst ` set (ev_freed st) = gone sn (ev_evicted st) - set (b # rest)"
      using Cons.prems(1) unfolding books_def by blast
    then have "b \<notin> fst ` set (ev_freed st)" by simp
    moreover have "sum (blob_bytes sn) (insert b (fst ` set (ev_freed st))) \<le> sum (blob_bytes sn) (executable_set sn)"
      using calculation e(1) by (intro sum_mono2) (auto simp: exec_books_def executable_set_def)
    ultimately show ?thesis
      using e r(2,3,4) [OF lt i] True by (simp add: exec_books_def)
  qed
  have "books sn base rest ?st" by (rule r(1) [OF lt i])
  from Cons.IH [OF this] Cons.prems(2,3) ex r(2) [OF lt i] show ?case by simp
qed simp

lemma left_evict:
  assumes "distinct (sn_referrers sn ! b)" and "i < length ev" and "\<not> ev ! i"
    and "\<forall>u \<in> set (sn_referrers sn ! b). u < length ev"
  shows "left sn ev b = left sn (ev[i := True]) b + (if i \<in> set (sn_referrers sn ! b) then 1 else 0)"
proof -
  have "length (filter (\<lambda>u. \<not> ev ! u) us) = length (filter (\<lambda>u. \<not> ev[i := True] ! u) us) + (if i \<in> set us then 1 else 0)"
    if "distinct us" "\<forall>u \<in> set us. u < length ev" for us
    using that
  proof (induction us)
    case (Cons u us)
    then show ?case using assms(2,3) by (cases "u = i") (auto simp: nth_list_update)
  qed simp
  from this [OF assms(1,4)] show ?thesis by (simp add: left_def)
qed

lemma books_evict:
  assumes ok: "snapshot_ok sn" and base: "sum (blob_bytes sn) (referenced sn) \<le> base"
    and b: "books sn base [] st" and i: "i < unit_count sn"
  shows "books sn base [] (evict sn i st)" and "ev_evicted (evict sn i st) = (ev_evicted st)[i := True]"
    and "exec_books sn st \<Longrightarrow> u_kind (sn_units sn ! i) = Executable \<Longrightarrow> exec_books sn (evict sn i st)"
proof -
  have len: "length (ev_evicted st) = unit_count sn" using b unfolding books_def by blast
  let ?ev = "ev_evicted st" and ?bs = "u_blobs (sn_units sn ! i)"
  let ?st = "st\<lparr>ev_evicted := ?ev[i := True]\<rparr>"
  have "books sn base [] (evict sn i st) \<and> ev_evicted (evict sn i st) = ?ev[i := True]
     \<and> (exec_books sn st \<and> u_kind (sn_units sn ! i) = Executable \<longrightarrow> exec_books sn (evict sn i st))"
  proof (cases "?ev ! i")
    case True
    then have "?ev[i := True] = ?ev" by (metis list_update_id)
    with True b show ?thesis by (simp add: evict_def)
  next
    case False
    have links: "b < blob_count sn \<and> i \<in> set (sn_referrers sn ! b)" if "b \<in> set ?bs" for b
      using snapshot_okD(4) [OF ok i that] .
    have conv: "b \<in> set ?bs \<longleftrightarrow> i \<in> set (sn_referrers sn ! b)" if "b < blob_count sn" for b
      using links snapshot_okD(2) [OF ok that] by blast
    have cnt: "left sn ?ev b = left sn (?ev[i := True]) b + (if b \<in> set ?bs then 1 else 0)" if "b < blob_count sn" for b
      using left_evict [OF snapshot_okD(1) [OF ok that], of i ?ev] i len False conv [OF that]
        snapshot_okD(2) [OF ok that] by simp
    have g: "gone sn (?ev[i := True]) - set ?bs = gone sn ?ev"
    proof (rule set_eqI)
      fix x
      show "x \<in> gone sn (?ev[i := True]) - set ?bs \<longleftrightarrow> x \<in> gone sn ?ev"
        using cnt [of x] by (auto simp: gone_def)
    qed
    have "\<forall>x < blob_count sn. ev_remaining st ! x = left sn ?ev x"
      using b by (simp add: books_def)
    then have rem: "\<forall>x < blob_count sn. ev_remaining st ! x = left sn (?ev[i := True]) x + (if x \<in> set ?bs then 1 else 0)"
      using cnt by simp
    have total: "ev_bytes_after st + sum (blob_bytes sn) (fst ` set (ev_freed st)) = base"
      using b unfolding books_def by blast
    have start: "books sn base ?bs ?st"
      unfolding books_def
    proof (intro conjI)
      show "fst ` set (ev_freed ?st) = gone sn (ev_evicted ?st) - set ?bs"
        using b unfolding books_def by (simp add: g)
      show "ev_bytes_after ?st + sum (blob_bytes sn) (fst ` set (ev_freed ?st)) = base"
        using total by simp
    qed (use b rem in \<open>simp_all add: books_def\<close>)
    have oe: "exec_books sn st \<and> u_kind (sn_units sn ! i) = Executable \<longrightarrow> exec_books sn ?st"
      using len i by (auto simp: exec_books_def only_executables_def nth_list_update)
    from books_release_blobs [OF ok base start snapshot_okD(3) [OF ok i], of i] links oe
    show ?thesis using False by (simp add: evict_def)
  qed
  then show "books sn base [] (evict sn i st)" "ev_evicted (evict sn i st) = ?ev[i := True]"
    "exec_books sn st \<Longrightarrow> u_kind (sn_units sn ! i) = Executable \<Longrightarrow> exec_books sn (evict sn i st)" by blast+
qed

section \<open>The loops\<close>

abbreviation evict_all :: "snapshot \<Rightarrow> nat list \<Rightarrow> eviction \<Rightarrow> eviction" where
  "evict_all sn is st \<equiv> foldl (\<lambda>st i. evict sn i st) st is"

lemma books_evict_all:
  assumes ok: "snapshot_ok sn" and base: "sum (blob_bytes sn) (referenced sn) \<le> base"
  shows "books sn base [] st \<Longrightarrow> set is \<subseteq> {..<unit_count sn} \<Longrightarrow>
    books sn base [] (evict_all sn is st)
    \<and> (\<forall>u < unit_count sn. ev_evicted (evict_all sn is st) ! u \<longleftrightarrow> ev_evicted st ! u \<or> u \<in> set is)
    \<and> (exec_books sn st \<and> (\<forall>i \<in> set is. u_kind (sn_units sn ! i) = Executable) \<longrightarrow> exec_books sn (evict_all sn is st))"
proof (induction "is" arbitrary: st)
  case (Cons i "is")
  have i: "i < unit_count sn" using Cons.prems(2) by simp
  note e = books_evict [OF ok base Cons.prems(1) i]
  have len: "length (ev_evicted st) = unit_count sn" using Cons.prems(1) unfolding books_def by blast
  have "\<forall>u < unit_count sn. (ev_evicted st)[i := True] ! u \<longleftrightarrow> ev_evicted st ! u \<or> u = i"
    using len i by (auto simp: nth_list_update)
  then show ?case using Cons.IH [OF e(1)] Cons.prems(2) e(2,3) by auto
qed simp

lemma evict_loop_take:
  "\<exists>k \<le> length is. evict_loop sn opts is st = evict_all sn (take k is) st
     \<and> (k < length is \<longrightarrow> ev_bytes_after (evict_loop sn opts is st) \<le> go_max_bytes opts
          \<and> \<not> obsolete opts (sn_units sn ! (is ! k)))"
proof (induction "is" arbitrary: st)
  case (Cons i "is")
  show ?case
  proof (cases "ev_bytes_after st \<le> go_max_bytes opts \<and> \<not> obsolete opts (sn_units sn ! i)")
    case True
    then show ?thesis by (intro exI [of _ 0]) simp
  next
    case False
    from Cons.IH [of "evict sn i st"] obtain k where "k \<le> length is"
      "evict_loop sn opts is (evict sn i st) = evict_all sn (take k is) (evict sn i st)"
      "k < length is \<longrightarrow> ev_bytes_after (evict_loop sn opts is (evict sn i st)) \<le> go_max_bytes opts
        \<and> \<not> obsolete opts (sn_units sn ! (is ! k))" by blast
    moreover have "evict_loop sn opts (i # is) st = evict_loop sn opts is (evict sn i st)"
      by (simp only: evict_loop.simps if_not_P [OF False])
    ultimately show ?thesis by (intro exI [of _ "Suc k"]) simp
  qed
qed simp

lemma executable_loop_take:
  "\<exists>k \<le> length is. executable_loop sn budget is st
        = evict_all sn (filter (\<lambda>i. u_kind (sn_units sn ! i) = Executable) (take k is)) st
     \<and> (k < length is \<longrightarrow> ev_executable_bytes (executable_loop sn budget is st) \<le> budget)"
proof (induction "is" arbitrary: st)
  case (Cons i "is")
  let ?st = "if u_kind (sn_units sn ! i) = Executable then evict sn i st else st"
  show ?case
  proof (cases "ev_executable_bytes st \<le> budget")
    case True
    then show ?thesis by (intro exI [of _ 0]) simp
  next
    case False
    from Cons.IH [of ?st] obtain k where "k \<le> length is"
      "executable_loop sn budget is ?st = evict_all sn (filter (\<lambda>i. u_kind (sn_units sn ! i) = Executable) (take k is)) ?st"
      "k < length is \<longrightarrow> ev_executable_bytes (executable_loop sn budget is ?st) \<le> budget" by blast
    with False show ?thesis by (intro exI [of _ "Suc k"]) simp
  qed
qed simp

lemma foldl_minus: "foldl (\<lambda>bytes b. bytes - f b) t bs = t - sum_list (map f bs)" for t :: nat
  by (induction bs arbitrary: t) (simp_all add: diff_diff_left)

lemma set_unreferenced: "set (unreferenced sn now) = {b. b < blob_count sn \<and> stale_unreferenced sn now b}"
  by (auto simp: unreferenced_def)

lemma sum_unreferenced: "sum_list (map (blob_bytes sn) (unreferenced sn now)) = sum (blob_bytes sn) (set (unreferenced sn now))"
  by (simp add: sum_list_distinct_conv_sum_set unreferenced_def)

abbreviation start_bytes :: "snapshot \<Rightarrow> nat \<Rightarrow> nat" where
  "start_bytes sn now \<equiv> ev_bytes_after (start_eviction sn now)"

lemma start_bytes_eq:
  assumes "snapshot_ok sn"
  shows "start_bytes sn now + sum (blob_bytes sn) (set (unreferenced sn now)) = sum (blob_bytes sn) {..<blob_count sn}"
    and "start_bytes sn now = sum (blob_bytes sn) ({..<blob_count sn} - set (unreferenced sn now))"
    and "sum (blob_bytes sn) (referenced sn) \<le> start_bytes sn now"
proof -
  have sub: "set (unreferenced sn now) \<subseteq> {..<blob_count sn}" by (auto simp: set_unreferenced)
  have t: "sn_total_bytes sn = sum (blob_bytes sn) {..<blob_count sn}" using assms by (simp add: snapshot_ok_def)
  have s: "start_bytes sn now = sum (blob_bytes sn) {..<blob_count sn} - sum (blob_bytes sn) (set (unreferenced sn now))"
    by (simp add: start_eviction_def foldl_minus t sum_unreferenced)
  then show eq: "start_bytes sn now = sum (blob_bytes sn) ({..<blob_count sn} - set (unreferenced sn now))"
    using sum_diff_nat [OF _ sub] by simp
  have "sum (blob_bytes sn) (set (unreferenced sn now)) \<le> sum (blob_bytes sn) {..<blob_count sn}"
    using sub by (intro sum_mono2) auto
  with s show "start_bytes sn now + sum (blob_bytes sn) (set (unreferenced sn now)) = sum (blob_bytes sn) {..<blob_count sn}"
    by simp
  have "referenced sn \<subseteq> {..<blob_count sn} - set (unreferenced sn now)"
    by (auto simp: referenced_def set_unreferenced stale_unreferenced_def)
  then show "sum (blob_bytes sn) (referenced sn) \<le> start_bytes sn now"
    unfolding eq by (intro sum_mono2) auto
qed

lemma books_start:
  assumes "snapshot_ok sn"
  shows "books sn (start_bytes sn now) [] (start_eviction sn now)" and "exec_books sn (start_eviction sn now)"
proof -
  have len: "length (sn_referrers sn) = blob_count sn" using assms by (simp add: snapshot_ok_def)
  have l: "left sn (replicate (unit_count sn) False) b = length (sn_referrers sn ! b)" if "b < blob_count sn" for b
  proof -
    have "filter (\<lambda>u. \<not> replicate (unit_count sn) False ! u) (sn_referrers sn ! b) = sn_referrers sn ! b"
      using snapshot_okD(2) [OF assms that] by (intro filter_True) auto
    then show ?thesis by (simp add: left_def)
  qed
  then have "gone sn (replicate (unit_count sn) False) = {}" by (auto simp: gone_def)
  with l len show "books sn (start_bytes sn now) [] (start_eviction sn now)"
    by (simp add: books_def start_eviction_def)
  have "set (filter (executable_only sn) [0..<length (sn_referrers sn)]) = executable_set sn"
    by (auto simp: executable_set_def len)
  then have "sum_list (map (blob_bytes sn) (filter (executable_only sn) [0..<length (sn_referrers sn)]))
      = sum (blob_bytes sn) (executable_set sn)"
    by (subst sum_list_distinct_conv_sum_set) simp_all
  then show "exec_books sn (start_eviction sn now)"
    by (simp add: exec_books_def start_eviction_def only_executables_def)
qed

lemma set_evict_order [simp]: "set (evict_order sn opts) = {..<unit_count sn}"
  by (auto simp: evict_order_def)

lemma length_evict_order [simp]: "length (evict_order sn opts) = unit_count sn"
  by (simp add: evict_order_def)

lemma evict_order_sorted: "sorted (map (evict_key sn opts) (evict_order sn opts))"
  by (simp add: evict_order_def)

lemma evict_key_inj: "evict_key sn opts i = evict_key sn opts j \<Longrightarrow> i = j"
  by (simp add: evict_key_def Let_def)

lemma evict_order_distinct: "distinct (evict_order sn opts)"
  by (simp add: evict_order_def)

text \<open>Both stages together: what has been evicted, with the books kept.\<close>

lemma executables_evicted_books:
  assumes ok: "snapshot_ok sn"
  shows "books sn (start_bytes sn now) [] (executables_evicted sn opts now)
    \<and> exec_books sn (executables_evicted sn opts now)"
proof (cases "go_max_executable_bytes opts")
  case None
  then show ?thesis using books_start [OF ok] by (simp add: executables_evicted_def)
next
  case (Some budget)
  obtain k where k: "executable_loop sn budget (evict_order sn opts) (start_eviction sn now)
      = evict_all sn (filter (\<lambda>i. u_kind (sn_units sn ! i) = Executable) (take k (evict_order sn opts))) (start_eviction sn now)"
    using executable_loop_take by blast
  have "set (filter (\<lambda>i. u_kind (sn_units sn ! i) = Executable) (take k (evict_order sn opts))) \<subseteq> {..<unit_count sn}"
    using set_evict_order [of sn opts] by (auto dest: in_set_takeD)
  from books_evict_all [OF ok start_bytes_eq(3) [OF ok] books_start(1) [OF ok] this] books_start(2) [OF ok] k Some
  show ?thesis by (simp add: executables_evicted_def)
qed

lemma evictions_books:
  assumes ok: "snapshot_ok sn"
  shows "books sn (start_bytes sn now) [] (evictions sn opts now)"
proof -
  obtain k where "evictions sn opts now = evict_all sn (take k (evict_order sn opts)) (executables_evicted sn opts now)"
    unfolding evictions_def using evict_loop_take by blast
  moreover have "set (take k (evict_order sn opts)) \<subseteq> {..<unit_count sn}"
    using set_evict_order [of sn opts] by (auto dest: in_set_takeD)
  ultimately show ?thesis
    using books_evict_all [OF ok start_bytes_eq(3) [OF ok]] executables_evicted_books [OF ok] by metis
qed

end
