(* ===== verification/GC_Bounds.thy ===== *)
theory GC_Bounds
  imports GC_Plan_Props
begin

text \<open>
  The guarantees of a collection plan: it deletes exactly the blobs no surviving record
  references, its byte count is exact, it meets the budget or evicts everything, it evicts in
  order of last use with obsolete candidates first, and executables have a budget of their own.
\<close>

section \<open>What a plan deletes\<close>

abbreviation planned :: "plan \<Rightarrow> nat set" where
  "planned p \<equiv> fst ` set (pl_freed p) \<union> set (pl_unreferenced p)"

abbreviation evicted_units :: "plan \<Rightarrow> nat set" where
  "evicted_units p \<equiv> {u. u < length (pl_evicted p) \<and> pl_evicted p ! u}"

lemma new_plan_sel [simp]:
  "pl_evicted (new_plan sn opts now) = ev_evicted (evictions sn opts now)"
  "pl_freed (new_plan sn opts now) = ev_freed (evictions sn opts now)"
  "pl_unreferenced (new_plan sn opts now) = unreferenced sn now"
  "pl_bytes_after (new_plan sn opts now) = ev_bytes_after (evictions sn opts now)"
  by (simp_all add: new_plan_def Let_def)

lemma evictions_facts:
  assumes "snapshot_ok sn"
  shows "length (ev_evicted (evictions sn opts now)) = unit_count sn"
    and "distinct (map fst (ev_freed (evictions sn opts now)))"
    and "fst ` set (ev_freed (evictions sn opts now)) = gone sn (ev_evicted (evictions sn opts now))"
    and "\<forall>(b, u) \<in> set (ev_freed (evictions sn opts now)). u \<in> set (sn_referrers sn ! b)"
    and "ev_bytes_after (evictions sn opts now) + sum (blob_bytes sn) (gone sn (ev_evicted (evictions sn opts now)))
      = start_bytes sn now"
    and "\<forall>b < blob_count sn. ev_remaining (evictions sn opts now) ! b = left sn (ev_evicted (evictions sn opts now)) b"
proof -
  note b = evictions_books [OF assms, of now opts, unfolded books_def]
  show freed: "fst ` set (ev_freed (evictions sn opts now)) = gone sn (ev_evicted (evictions sn opts now))"
    using b by simp
  show "ev_bytes_after (evictions sn opts now) + sum (blob_bytes sn) (gone sn (ev_evicted (evictions sn opts now)))
      = start_bytes sn now"
    using b unfolding freed [symmetric] by blast
qed (use evictions_books [OF assms, of now opts] in \<open>simp_all add: books_def\<close>)

lemma gone_iff:
  "b \<in> gone sn ev \<longleftrightarrow> b < blob_count sn \<and> sn_referrers sn ! b \<noteq> [] \<and> (\<forall>u \<in> set (sn_referrers sn ! b). ev ! u)"
  by (auto simp: gone_def left_def filter_empty_conv)

lemma unreferenced_disjoint: "gone sn ev \<inter> set (unreferenced sn now) = {}"
  by (auto simp: gone_def set_unreferenced stale_unreferenced_def)

text \<open>
  C6. A plan is safe: it never deletes a blob that a record it keeps references. The blobs it frees
  are exactly those all of whose (one or more) referring records it evicts, each attributed to one
  of these records, and no blob is planned twice.
\<close>

theorem plan_deletes_only_garbage:
  assumes "snapshot_ok sn" and "p = new_plan sn opts now" and "u < unit_count sn" and "\<not> pl_evicted p ! u"
  shows "set (u_blobs (sn_units sn ! u)) \<inter> planned p = {}
       \<and> fst ` set (pl_freed p) = {b. b < blob_count sn \<and> sn_referrers sn ! b \<noteq> []
            \<and> set (sn_referrers sn ! b) \<subseteq> evicted_units p}
       \<and> {(b, v). (b, v) \<in> set (pl_freed p) \<and> v \<notin> set (sn_referrers sn ! b)} = {}
       \<and> distinct (map fst (pl_freed p) @ pl_unreferenced p)"
proof -
  note f = evictions_facts [OF assms(1), of opts now]
  let ?ev = "ev_evicted (evictions sn opts now)"
  have "fst ` set (pl_freed p) = {b. b < blob_count sn \<and> sn_referrers sn ! b \<noteq> []
      \<and> set (sn_referrers sn ! b) \<subseteq> evicted_units p}"
    using snapshot_okD(2) [OF assms(1)] by (auto simp: assms(2) f(1,3) gone_iff)
  moreover have "{(b, v). (b, v) \<in> set (pl_freed p) \<and> v \<notin> set (sn_referrers sn ! b)} = {}"
    using f(4) by (auto simp: assms(2))
  moreover have "distinct (map fst (pl_freed p) @ pl_unreferenced p)"
    using f(2,3) unreferenced_disjoint [of sn ?ev now] by (simp add: assms(2) unreferenced_def)
  moreover have "b \<notin> planned p" if "b \<in> set (u_blobs (sn_units sn ! u))" for b
  proof -
    have "u \<in> set (sn_referrers sn ! b)" using snapshot_okD(4) [OF assms(1,3) that] by simp
    then show ?thesis using assms(4)
      by (auto simp: assms(2) f(3) gone_iff set_unreferenced stale_unreferenced_def)
  qed
  ultimately show ?thesis by blast
qed

text \<open>
  Two records that share a blob, 21 bytes in all, with room for 16; the library was used first.
\<close>

definition ex_unit :: "string \<Rightarrow> kind \<Rightarrow> nat \<Rightarrow> nat list \<Rightarrow> gc_unit" where
  "ex_unit name k used blobs = \<lparr>u_path = Action_file name, u_candidate = Some (name, used), u_static_key = Some name,
     u_protocol = Some 6, u_crate_name = name, u_kind = k, u_pinned = False, u_last_used_ms = used, u_blobs = blobs\<rparr>"

definition ex_snapshot :: snapshot where
  "ex_snapshot = \<lparr>sn_units = [ex_unit ''a'' Library 10 [0, 1], ex_unit ''b'' Executable 20 [1, 2]],
     sn_blobs = [\<lparr>b_digest = ''x'', b_bytes = 5, b_modified_ms = 1\<rparr>, \<lparr>b_digest = ''y'', b_bytes = 7, b_modified_ms = 1\<rparr>,
       \<lparr>b_digest = ''z'', b_bytes = 9, b_modified_ms = 1\<rparr>],
     sn_referrers = [[0], [0, 1], [1]], sn_journal_entries = 0, sn_total_bytes = 21, sn_started_ms = 30\<rparr>"

definition ex_gc_options :: gc_options where
  "ex_gc_options = \<lparr>go_max_bytes = 16, go_dry_run = False, go_min_protocol = None, go_max_executable_bytes = None\<rparr>"

lemma ex_blob_count: "blob_count ex_snapshot = 3"
  by (simp add: ex_snapshot_def)

lemma ex_unit_count: "unit_count ex_snapshot = 2"
  by (simp add: ex_snapshot_def)

lemma ex_executable: "u_kind (sn_units ex_snapshot ! 1) = Executable"
  by (simp add: ex_snapshot_def ex_unit_def)

lemma less_two: "u < Suc (Suc 0) \<longleftrightarrow> u = 0 \<or> u = 1"
  by auto

lemma less_three: "u < Suc (Suc (Suc 0)) \<longleftrightarrow> u = 0 \<or> u = 1 \<or> u = 2"
  by auto

lemma ex_snapshot_ok: "snapshot_ok ex_snapshot"
  by (auto simp: snapshot_ok_def linked_def ex_snapshot_def ex_unit_def blob_bytes_def lessThan_Suc numeral_3_eq_3
      less_two less_three)

lemma ex_plan: "new_plan ex_snapshot ex_gc_options 40 =
  \<lparr>pl_evicted = [True, False], pl_freed = [(0, 0)], pl_unreferenced = [], pl_protected_unreferenced = 0,
   pl_bytes_after = 16\<rparr>"
proof -
  have o: "evict_order ex_snapshot ex_gc_options = [0, 1]"
    by (simp add: evict_order_def evict_key_def ex_snapshot_def ex_unit_def Let_def obsolete_def ex_gc_options_def
        upt_rec numeral_2_eq_2)
  have u: "unreferenced ex_snapshot 40 = []"
    by (simp add: unreferenced_def stale_unreferenced_def ex_snapshot_def upt_rec numeral_3_eq_3)
  have st: "start_eviction ex_snapshot 40 = \<lparr>ev_remaining = [1, 2, 1], ev_evicted = [False, False], ev_freed = [],
      ev_bytes_after = 21, ev_executable_bytes = 9\<rparr>"
    by (simp add: start_eviction_def u)
      (simp add: ex_snapshot_def ex_unit_def executable_only_def blob_bytes_def upt_rec numeral_3_eq_3)
  have ev: "evict ex_snapshot 0 \<lparr>ev_remaining = [1, 2, 1], ev_evicted = [False, False], ev_freed = [],
      ev_bytes_after = 21, ev_executable_bytes = 9\<rparr> = \<lparr>ev_remaining = [0, 1, 1], ev_evicted = [True, False],
      ev_freed = [(0, 0)], ev_bytes_after = 16, ev_executable_bytes = 9\<rparr>"
    by (simp add: evict_def release_blob_def ex_snapshot_def ex_unit_def dec32_def blob_bytes_def Let_def)
  have "evictions ex_snapshot ex_gc_options 40 = \<lparr>ev_remaining = [0, 1, 1], ev_evicted = [True, False],
      ev_freed = [(0, 0)], ev_bytes_after = 16, ev_executable_bytes = 9\<rparr>"
  proof -
    have g: "go_max_executable_bytes ex_gc_options = None" "go_max_bytes ex_gc_options = 16"
      "obsolete ex_gc_options u = False" for u
      by (simp_all add: ex_gc_options_def obsolete_def)
    show ?thesis using ev by (simp add: evictions_def executables_evicted_def o st g)
  qed
  then show ?thesis
    by (simp add: new_plan_def u)
      (simp add: protected_unreferenced_def ex_snapshot_def upt_rec numeral_3_eq_3)
qed

theorem plan_deletes_only_garbage_witness:
  "{1, 2} \<inter> planned (new_plan ex_snapshot ex_gc_options 40) = {}"
  using plan_deletes_only_garbage [OF ex_snapshot_ok refl, of 1 ex_gc_options 40]
  by (simp add: ex_plan)


text \<open>
  The byte count a plan reports is exact: it is the size of the blobs the plan keeps, with no
  saturation on the way.
\<close>

theorem plan_bytes_exact:
  assumes "snapshot_ok sn" and "p = new_plan sn opts now"
  shows "pl_bytes_after p = sum (blob_bytes sn) ({..<blob_count sn} - planned p)"
proof -
  let ?g = "gone sn (ev_evicted (evictions sn opts now))" and ?u = "set (unreferenced sn now)"
  have "?g \<subseteq> {..<blob_count sn} - ?u" using unreferenced_disjoint [of sn _ now] by (auto simp: gone_def)
  then have "sum (blob_bytes sn) ({..<blob_count sn} - ?u - ?g) = start_bytes sn now - sum (blob_bytes sn) ?g"
    using start_bytes_eq(2) [OF assms(1), of now] by (subst sum_diff_nat) (auto intro: finite_subset)
  then have "ev_bytes_after (evictions sn opts now) = sum (blob_bytes sn) ({..<blob_count sn} - (?g \<union> ?u))"
    using evictions_facts(5) [OF assms(1), of opts now] by (simp add: Diff_Diff_Int Diff_eq Int_ac)
  then show ?thesis by (simp add: assms(2) evictions_facts(3) [OF assms(1)])
qed

theorem plan_bytes_exact_witness:
  "pl_bytes_after (new_plan ex_snapshot ex_gc_options 40)
    = sum (blob_bytes ex_snapshot) ({..<3} - planned (new_plan ex_snapshot ex_gc_options 40))"
  using plan_bytes_exact [OF ex_snapshot_ok refl, of ex_gc_options 40] by (simp only: ex_blob_count)

section \<open>How far and in which order\<close>

text \<open>What has been evicted: the executables in a prefix of the order, then everything in a prefix.\<close>

lemma evicted_prefixes:
  assumes ok: "snapshot_ok sn"
  obtains k l where "k \<le> unit_count sn" and "l \<le> unit_count sn"
    and "evicted_units (new_plan sn opts now)
      = {i \<in> set (take k (evict_order sn opts)). u_kind (sn_units sn ! i) = Executable} \<union> set (take l (evict_order sn opts))"
    and "{u. u < unit_count sn \<and> ev_evicted (executables_evicted sn opts now) ! u}
      = {i \<in> set (take k (evict_order sn opts)). u_kind (sn_units sn ! i) = Executable}"
    and "l < unit_count sn \<longrightarrow> pl_bytes_after (new_plan sn opts now) \<le> go_max_bytes opts
      \<and> \<not> obsolete opts (sn_units sn ! (evict_order sn opts ! l))"
    and "go_max_executable_bytes opts = None \<longrightarrow> k = 0"
    and "k < unit_count sn \<longrightarrow> (\<forall>budget. go_max_executable_bytes opts = Some budget \<longrightarrow>
      ev_executable_bytes (executables_evicted sn opts now) \<le> budget)"
proof -
  let ?o = "evict_order sn opts" and ?s = "start_eviction sn now" and ?x = "executables_evicted sn opts now"
  let ?f = "filter (\<lambda>i. u_kind (sn_units sn ! i) = Executable)"
  note all = books_evict_all [OF ok start_bytes_eq(3) [OF ok]]
  have sub: "set (take k ?o) \<subseteq> {..<unit_count sn}" for k
    using set_evict_order [of sn opts] by (auto dest: in_set_takeD)
  obtain k where k: "k \<le> unit_count sn" "?x = evict_all sn (?f (take k ?o)) ?s"
    "go_max_executable_bytes opts = None \<longrightarrow> k = 0"
    "k < unit_count sn \<longrightarrow> (\<forall>budget. go_max_executable_bytes opts = Some budget \<longrightarrow> ev_executable_bytes ?x \<le> budget)"
  proof (cases "go_max_executable_bytes opts")
    case None
    then show ?thesis by (intro that [of 0]) (simp_all add: executables_evicted_def)
  next
    case (Some budget)
    obtain k where "k \<le> unit_count sn" "executable_loop sn budget ?o ?s = evict_all sn (?f (take k ?o)) ?s"
      "k < unit_count sn \<longrightarrow> ev_executable_bytes (executable_loop sn budget ?o ?s) \<le> budget"
      using executable_loop_take [of ?o sn budget ?s] by auto
    then show ?thesis using Some by (intro that [of k]) (simp_all add: executables_evicted_def)
  qed
  obtain l where l: "l \<le> unit_count sn" "evictions sn opts now = evict_all sn (take l ?o) ?x"
    "l < unit_count sn \<longrightarrow> ev_bytes_after (evictions sn opts now) \<le> go_max_bytes opts
      \<and> \<not> obsolete opts (sn_units sn ! (?o ! l))"
    using evict_loop_take [of ?o sn opts ?x] by (auto simp: evictions_def)
  have "set (?f (take k ?o)) \<subseteq> {..<unit_count sn}" using sub [of k] by auto
  then have x: "ev_evicted ?x ! u \<longleftrightarrow> u \<in> set (?f (take k ?o))" if "u < unit_count sn" for u
    using all [OF books_start(1) [OF ok], of "?f (take k ?o)" now] that k(2) by (simp add: start_eviction_def)
  have "books sn (start_bytes sn now) [] ?x" using executables_evicted_books [OF ok, of now opts] by blast
  then have e: "ev_evicted (evictions sn opts now) ! u \<longleftrightarrow> ev_evicted ?x ! u \<or> u \<in> set (take l ?o)"
    if "u < unit_count sn" for u
    using all [OF _ sub [of l]] that l(2) by simp
  show ?thesis
  proof (rule that [of k l])
    show "evicted_units (new_plan sn opts now)
      = {i \<in> set (take k ?o). u_kind (sn_units sn ! i) = Executable} \<union> set (take l ?o)"
      using x e sub [of k] sub [of l] by (auto simp: evictions_facts(1) [OF ok])
    show "{u. u < unit_count sn \<and> ev_evicted ?x ! u} = {i \<in> set (take k ?o). u_kind (sn_units sn ! i) = Executable}"
      using x sub [of k] by auto
  qed (use k l in simp_all)
qed

lemma sorted_take_less:
  assumes "sorted (map f xs)" and "inj f" and "x \<in> set (take k xs)" and "y \<in> set xs" and "y \<notin> set (take k xs)"
  shows "f x < f y"
proof -
  have "y \<in> set (drop k xs)" using assms(4,5) by (metis Un_iff append_take_drop_id set_append)
  moreover have "sorted (map f (take k xs) @ map f (drop k xs))"
    using assms(1) by (simp flip: map_append)
  ultimately have "f x \<le> f y" using assms(3) by (auto simp: sorted_append)
  moreover have "f x \<noteq> f y" using assms(2,3,5) by (auto dest: injD)
  ultimately show ?thesis by simp
qed

lemma evict_key_less:
  assumes "i \<in> set (take k (evict_order sn opts))" and "j < unit_count sn" and "j \<notin> set (take k (evict_order sn opts))"
  shows "evict_key sn opts i < evict_key sn opts j"
proof (rule sorted_take_less [OF evict_order_sorted _ assms(1) _ assms(3)])
  show "inj (evict_key sn opts)" by (rule injI) (rule evict_key_inj)
qed (use assms(2) in simp)



text \<open>
  The executables' budget is met or every executable is evicted: the bytes that only executables
  reference and that survive the plan are within the budget, and the first stage evicts nothing
  but executables to get there.
\<close>

theorem plan_meets_executable_budget:
  assumes "snapshot_ok sn" and "p = new_plan sn opts now" and "go_max_executable_bytes opts = Some budget"
  shows "(sum (blob_bytes sn) (executable_set sn - planned p) \<le> budget
          \<or> {u. u < unit_count sn \<and> u_kind (sn_units sn ! u) = Executable} \<subseteq> evicted_units p)
       \<and> only_executables sn (ev_evicted (executables_evicted sn opts now))"
proof -
  let ?o = "evict_order sn opts" and ?x = "executables_evicted sn opts now"
  obtain k l where k: "k \<le> unit_count sn" and
    ev: "evicted_units p = {i \<in> set (take k ?o). u_kind (sn_units sn ! i) = Executable} \<union> set (take l ?o)" and
    x: "{u. u < unit_count sn \<and> ev_evicted ?x ! u} = {i \<in> set (take k ?o). u_kind (sn_units sn ! i) = Executable}" and
    stop: "k < unit_count sn \<longrightarrow> (\<forall>budget. go_max_executable_bytes opts = Some budget \<longrightarrow> ev_executable_bytes ?x \<le> budget)"
    unfolding assms(2) by (rule evicted_prefixes [OF assms(1)])
  have only: "only_executables sn (ev_evicted ?x)" using x by (auto simp: only_executables_def)
  show ?thesis
  proof (cases "k < unit_count sn")
    case False
    then show ?thesis using k ev only by auto
  next
    case True
    have b: "books sn (start_bytes sn now) [] ?x" "exec_books sn ?x"
      using executables_evicted_books [OF assms(1), of now opts] by blast+
    have f: "fst ` set (ev_freed ?x) = gone sn (ev_evicted ?x)" using b(1) by (simp add: books_def)
    have fin: "finite (executable_set sn)" by (simp add: executable_set_def)
    have "u \<in> evicted_units p" if "u < unit_count sn" "ev_evicted ?x ! u" for u
      using that x ev by blast
    then have "gone sn (ev_evicted ?x) \<subseteq> gone sn (pl_evicted p)"
      using snapshot_okD(2) [OF assms(1)] by (fastforce simp: gone_iff)
    then have "executable_set sn - planned p \<subseteq> executable_set sn - fst ` set (ev_freed ?x)"
      using evictions_facts(3) [OF assms(1), of opts now] by (auto simp: f assms(2))
    then have "sum (blob_bytes sn) (executable_set sn - planned p) \<le> sum (blob_bytes sn) (executable_set sn - fst ` set (ev_freed ?x))"
      using fin by (intro sum_mono2) auto
    also have "\<dots> = ev_executable_bytes ?x"
    proof -
      let ?f = "fst ` set (ev_freed ?x)"
      have e: "?f \<subseteq> executable_set sn"
        "ev_executable_bytes ?x + sum (blob_bytes sn) ?f = sum (blob_bytes sn) (executable_set sn)"
        using b(2) unfolding exec_books_def by blast+
      have "sum (blob_bytes sn) (executable_set sn - ?f) = sum (blob_bytes sn) (executable_set sn) - sum (blob_bytes sn) ?f"
        using e(1) by (intro sum_diff_nat) simp_all
      with e(2) show ?thesis by linarith
    qed
    finally show ?thesis using stop True assms(3) only by fastforce
  qed
qed

theorem plan_meets_executable_budget_witness:
  "\<exists>p. p = new_plan ex_snapshot (ex_gc_options\<lparr>go_max_executable_bytes := Some 9\<rparr>) 40
    \<and> (sum (blob_bytes ex_snapshot) (executable_set ex_snapshot - planned p) \<le> 9
      \<or> {u. u < 2 \<and> u_kind (sn_units ex_snapshot ! u) = Executable} \<subseteq> evicted_units p)"
proof -
  let ?o = "ex_gc_options\<lparr>go_max_executable_bytes := Some 9\<rparr>"
  have "go_max_executable_bytes ?o = Some 9" by simp
  from plan_meets_executable_budget [OF ex_snapshot_ok refl this, of 40, unfolded ex_unit_count]
  show ?thesis by blast
qed

end
