(* ===== verification/Store.thy ===== *)
theory Store
  imports Core_Records_Props
begin

text \<open>
  The store of \<open>crates/bellows-core/src/lib.rs\<close> (\<open>impl Store\<close>) and the two access operations of
  \<open>gc.rs\<close>: a directory of blobs named by their digest and three directories of JSON records, with
  a quarantine for records that fail their checks and an access journal. Each operation is a
  function from the store to a result and the store afterwards; what it does inside
  \<open>with_mutation_lock\<close> is one such function. The file-system calls succeed; files may be missing,
  corrupt or undecodable.
\<close>

section \<open>State\<close>

record blob_file =
  bf_bytes :: string
  bf_modified :: nat

record 'b doc_file =
  df_doc :: 'b
  df_modified :: nat

text \<open>
  A blob's file is \<open>blobs/<2 chars>/<digest>\<close>, a candidate index \<open>actions/<2 chars>/<key>.json\<close>, a
  declared record \<open>declared/<2 chars>/<key>.json\<close> and an archive \<open>archives/<name>.json\<close>, so each
  directory is a map from digests, keys or names. \<open>st_journal\<close> is \<open>access/journal.log\<close>,
  \<open>st_rotated\<close> the other journal files by name.
\<close>

record 'b store =
  st_blobs :: "string \<rightharpoonup> blob_file"
  st_actions :: "string \<rightharpoonup> 'b doc_file"
  st_declared :: "string \<rightharpoonup> 'b doc_file"
  st_archives :: "string \<rightharpoonup> 'b doc_file"
  st_quarantine :: "'b doc_file list"
  st_journal :: "string option"
  st_rotated :: "(string \<times> string) list"

definition empty_store :: "'b store" where
  "empty_store = \<lparr>st_blobs = Map.empty, st_actions = Map.empty, st_declared = Map.empty,
     st_archives = Map.empty, st_quarantine = [], st_journal = None, st_rotated = []\<rparr>"

datatype store_error =
    Check check_error
  | BlobDigestMismatch string string
  | BlobMissing string
  | CorruptBlob string string
  | RecordUndecodable
  | IndexTooLarge
  | KeyNotPath
  | DeclaredConflict
  | ArchiveConflict

type_synonym ('b, 'a) store_op = "'b store \<Rightarrow> (store_error + 'a) \<times> 'b store"

text \<open>\<open>?\<close> after a call that takes the store.\<close>

definition s_bind :: "('b, 'a) store_op \<Rightarrow> ('a \<Rightarrow> ('b, 'c) store_op) \<Rightarrow> ('b, 'c) store_op" where
  "s_bind f g s = (case f s of (Inl e, t) \<Rightarrow> (Inl e, t) | (Inr a, t) \<Rightarrow> g a t)"

definition s_lift :: "store_error + 'a \<Rightarrow> ('b, 'a) store_op" where
  "s_lift r s = (r, s)"

definition checked_key :: "string \<Rightarrow> store_error + unit" where
  "checked_key key = map_err Check (validate_content_key key)"

section \<open>Paths\<close>

definition blob_path :: "string \<Rightarrow> store_error + string list" where
  "blob_path digest = r_bind (checked_key digest) (\<lambda>_. Inr [''blobs'', take 2 digest, digest])"

definition action_path :: "string \<Rightarrow> store_error + string list" where
  "action_path key = r_bind (checked_key key) (\<lambda>_. Inr [''actions'', take 2 key, key @ ''.json''])"

definition declared_path :: "string \<Rightarrow> store_error + string list" where
  "declared_path key = r_bind (checked_key key) (\<lambda>_. Inr [''declared'', take 2 key, key @ ''.json''])"

definition archive_path :: "string \<Rightarrow> store_error + string list" where
  "archive_path name = r_bind (map_err Check (validate_archive_name name)) (\<lambda>_. Inr [''archives'', name @ ''.json''])"

text \<open>The file names \<open>cleanup_orphan_temps\<close> removes after an hour and \<open>collect_paths\<close> skips.\<close>

definition is_temp_name :: "string \<Rightarrow> bool" where
  "is_temp_name name \<longleftrightarrow> prefix ''.tmp-'' name"

definition orphan_temp :: "nat \<Rightarrow> nat \<Rightarrow> string \<Rightarrow> nat \<Rightarrow> bool" where
  "orphan_temp minimum_age now name modified \<longleftrightarrow>
     is_temp_name name \<and> modified \<le> now \<and> now - modified \<ge> minimum_age"

section \<open>Blobs\<close>

definition read_blob :: "'b lib \<Rightarrow> string \<Rightarrow> 'b store \<Rightarrow> store_error + string" where
  "read_blob L digest s =
     r_bind (blob_path digest) (\<lambda>_.
       case st_blobs s digest of
         None \<Rightarrow> Inl (BlobMissing digest)
       | Some f \<Rightarrow>
           let actual = l_hash L (bf_bytes f)
           in if actual \<noteq> digest then Inl (CorruptBlob digest actual) else Inr (bf_bytes f))"

definition touch_blob :: "string \<Rightarrow> nat \<Rightarrow> ('b, unit) store_op" where
  "touch_blob digest now s =
     (case blob_path digest of
        Inl e \<Rightarrow> (Inl e, s)
      | Inr _ \<Rightarrow>
          (case st_blobs s digest of
             None \<Rightarrow> (Inl (BlobMissing digest), s)
           | Some f \<Rightarrow> (Inr (), s\<lparr>st_blobs := (st_blobs s)(digest \<mapsto> f\<lparr>bf_modified := now\<rparr>)\<rparr>)))"

text \<open>\<open>temp\<close> holds the bytes of the synced temporary file.\<close>

definition commit_blob :: "'b lib \<Rightarrow> string \<Rightarrow> string \<Rightarrow> nat \<Rightarrow> ('b, bool) store_op" where
  "commit_blob L expected temp now s =
     (case blob_path expected of
        Inl e \<Rightarrow> (Inl e, s)
      | Inr _ \<Rightarrow>
          if st_blobs s expected \<noteq> None \<and> (case read_blob L expected s of Inr _ \<Rightarrow> True | Inl _ \<Rightarrow> False)
          then s_bind (touch_blob expected now) (\<lambda>_. s_lift (Inr False)) s
          else (Inr True, s\<lparr>st_blobs := (st_blobs s)(expected \<mapsto> \<lparr>bf_bytes = temp, bf_modified = now\<rparr>)\<rparr>))"

definition put_blob :: "'b lib \<Rightarrow> string \<Rightarrow> string \<Rightarrow> nat \<Rightarrow> ('b, bool) store_op" where
  "put_blob L expected bytes now s =
     (let actual = l_hash L bytes
      in if actual \<noteq> expected then (Inl (BlobDigestMismatch expected actual), s)
         else (case blob_path expected of Inl e \<Rightarrow> (Inl e, s) | Inr _ \<Rightarrow> commit_blob L expected bytes now s))"

section \<open>The access journal\<close>

definition journal_line :: "string \<Rightarrow> string \<Rightarrow> nat \<Rightarrow> string" where
  "journal_line static_key action_key now = static_key @ '' '' @ action_key @ '' '' @ dec_string now @ [CHR 0x0A]"

definition record_use :: "string \<Rightarrow> string \<Rightarrow> nat \<Rightarrow> ('b, unit) store_op" where
  "record_use static_key action_key now s =
     (case r_then (checked_key static_key) (checked_key action_key) of
        Inl e \<Rightarrow> (Inl e, s)
      | Inr _ \<Rightarrow>
          (Inr (), s\<lparr>st_journal := Some ((case st_journal s of None \<Rightarrow> [] | Some j \<Rightarrow> j)
             @ journal_line static_key action_key now)\<rparr>))"

section \<open>Candidate indexes\<close>

definition validate_index :: "'b lib \<Rightarrow> string \<Rightarrow> candidate_index \<Rightarrow> store_error + unit" where
  "validate_index L static_key index =
     r_then (ensure (length index \<le> 1024) IndexTooLarge)
       (check_all (\<lambda>c. r_then (map_err Check (validate_candidate_manifest L c))
          (ensure (ac_static_key c = static_key) KeyNotPath)) index)"

text \<open>\<open>quarantine_error\<close>: the file leaves its directory for the quarantine.\<close>

definition quarantine_action :: "string \<Rightarrow> 'b doc_file \<Rightarrow> 'b store \<Rightarrow> 'b store" where
  "quarantine_action key f s =
     s\<lparr>st_actions := (st_actions s)(key := None), st_quarantine := st_quarantine s @ [f]\<rparr>"

definition read_candidates :: "'b lib \<Rightarrow> string \<Rightarrow> ('b, candidate_index) store_op" where
  "read_candidates L static_key s =
     (case action_path static_key of
        Inl e \<Rightarrow> (Inl e, s)
      | Inr _ \<Rightarrow>
          (case st_actions s static_key of
             None \<Rightarrow> (Inr [], s)
           | Some f \<Rightarrow>
               (case l_dec_index L (df_doc f) of
                  None \<Rightarrow> (Inl RecordUndecodable, quarantine_action static_key f s)
                | Some index \<Rightarrow>
                    (case validate_index L static_key index of
                       Inl e \<Rightarrow> (Inl e, quarantine_action static_key f s)
                     | Inr _ \<Rightarrow> (Inr index, s)))))"

definition updated_index :: "action_candidate \<Rightarrow> nat \<Rightarrow> candidate_index \<Rightarrow> candidate_index" where
  "updated_index c max_candidates index =
     take (max max_candidates 1) (c # filter (\<lambda>x. ac_action_key x \<noteq> ac_action_key c) index)"

definition put_candidate_unlocked :: "'b lib \<Rightarrow> action_candidate \<Rightarrow> nat \<Rightarrow> nat \<Rightarrow> ('b, unit) store_op" where
  "put_candidate_unlocked L c max_candidates now =
     s_bind (s_lift (action_path (ac_static_key c))) (\<lambda>_.
     s_bind (read_candidates L (ac_static_key c)) (\<lambda>index s.
       record_use (ac_static_key c) (ac_action_key c) now
         (s\<lparr>st_actions := (st_actions s)(ac_static_key c \<mapsto>
              \<lparr>df_doc = l_enc_index L (updated_index c max_candidates index), df_modified = now\<rparr>)\<rparr>)))"

definition put_candidate :: "'b lib \<Rightarrow> action_candidate \<Rightarrow> nat \<Rightarrow> nat \<Rightarrow> ('b, unit) store_op" where
  "put_candidate L c max_candidates now =
     s_bind (s_lift (map_err Check (validate_candidate_manifest L c)))
       (\<lambda>_. put_candidate_unlocked L c max_candidates now)"

section \<open>Declared records\<close>

definition quarantine_declared :: "string \<Rightarrow> 'b doc_file \<Rightarrow> 'b store \<Rightarrow> 'b store" where
  "quarantine_declared key f s =
     s\<lparr>st_declared := (st_declared s)(key := None), st_quarantine := st_quarantine s @ [f]\<rparr>"

definition read_declared :: "'b lib \<Rightarrow> string \<Rightarrow> ('b, declared_record option) store_op" where
  "read_declared L key s =
     (case declared_path key of
        Inl e \<Rightarrow> (Inl e, s)
      | Inr _ \<Rightarrow>
          (case st_declared s key of
             None \<Rightarrow> (Inr None, s)
           | Some f \<Rightarrow>
               (case l_dec_declared L (df_doc f) of
                  None \<Rightarrow> (Inl RecordUndecodable, quarantine_declared key f s)
                | Some r \<Rightarrow>
                    (case r_then (map_err Check (validate_declared_record L r)) (ensure (dr_key r = key) KeyNotPath) of
                       Inl e \<Rightarrow> (Inl e, quarantine_declared key f s)
                     | Inr _ \<Rightarrow> (Inr (Some r), s)))))"

definition put_declared_unlocked :: "'b lib \<Rightarrow> declared_record \<Rightarrow> nat \<Rightarrow> ('b, bool) store_op" where
  "put_declared_unlocked L r now =
     s_bind (s_lift (declared_path (dr_key r))) (\<lambda>_.
     s_bind (read_declared L (dr_key r)) (\<lambda>existing s.
       case existing of
         Some x \<Rightarrow> if x = r then (Inr False, s) else (Inl DeclaredConflict, s)
       | None \<Rightarrow> (Inr True, s\<lparr>st_declared := (st_declared s)(dr_key r \<mapsto>
           \<lparr>df_doc = l_enc_declared L r, df_modified = now\<rparr>)\<rparr>)))"

definition put_declared :: "'b lib \<Rightarrow> declared_record \<Rightarrow> nat \<Rightarrow> ('b, bool) store_op" where
  "put_declared L r now =
     s_bind (s_lift (map_err Check (validate_declared_record L r))) (\<lambda>_. put_declared_unlocked L r now)"

definition remove_declared :: "string \<Rightarrow> ('b, bool) store_op" where
  "remove_declared key s =
     (case declared_path key of
        Inl e \<Rightarrow> (Inl e, s)
      | Inr _ \<Rightarrow>
          if st_declared s key = None then (Inr False, s)
          else (Inr True, s\<lparr>st_declared := (st_declared s)(key := None)\<rparr>))"

section \<open>Archives\<close>

definition quarantine_archive :: "string \<Rightarrow> 'b doc_file \<Rightarrow> 'b store \<Rightarrow> 'b store" where
  "quarantine_archive name f s =
     s\<lparr>st_archives := (st_archives s)(name := None), st_quarantine := st_quarantine s @ [f]\<rparr>"

definition read_archive :: "'b lib \<Rightarrow> string \<Rightarrow> ('b, archive_manifest option) store_op" where
  "read_archive L name s =
     (case archive_path name of
        Inl e \<Rightarrow> (Inl e, s)
      | Inr _ \<Rightarrow>
          (case st_archives s name of
             None \<Rightarrow> (Inr None, s)
           | Some f \<Rightarrow>
               (case l_dec_archive L (df_doc f) of
                  None \<Rightarrow> (Inl RecordUndecodable, quarantine_archive name f s)
                | Some m \<Rightarrow>
                    (case r_then (map_err Check (validate_archive_manifest L m)) (ensure (am_name m = name) KeyNotPath) of
                       Inl e \<Rightarrow> (Inl e, quarantine_archive name f s)
                     | Inr _ \<Rightarrow> (Inr (Some m), s)))))"

definition put_archive_unlocked :: "'b lib \<Rightarrow> archive_manifest \<Rightarrow> nat \<Rightarrow> ('b, bool) store_op" where
  "put_archive_unlocked L m now =
     s_bind (s_lift (archive_path (am_name m))) (\<lambda>_.
     s_bind (read_archive L (am_name m)) (\<lambda>existing s.
       case existing of
         Some x \<Rightarrow> if am_tree_digest x = am_tree_digest m then (Inr False, s) else (Inl ArchiveConflict, s)
       | None \<Rightarrow> (Inr True, s\<lparr>st_archives := (st_archives s)(am_name m \<mapsto>
           \<lparr>df_doc = l_enc_archive L m, df_modified = now\<rparr>)\<rparr>)))"

definition put_archive :: "'b lib \<Rightarrow> archive_manifest \<Rightarrow> nat \<Rightarrow> ('b, bool) store_op" where
  "put_archive L m now =
     s_bind (s_lift (map_err Check (validate_archive_manifest L m))) (\<lambda>_. put_archive_unlocked L m now)"

end
