(* ===== verification/Store_Props.thy ===== *)
theory Store_Props
  imports Store
begin

text \<open>
  What the store's operations guarantee: blobs are what their names say, candidate indexes are
  ordered and bounded, declared records and archives are written once, and records that fail
  their checks leave the store.
\<close>

section \<open>Paths\<close>

lemma checked_key_ok [simp]: "checked_key k = Inr u \<longleftrightarrow> key_ok k"
  by (simp add: checked_key_def)

lemma checked_key_Inr [simp]: "key_ok k \<Longrightarrow> checked_key k = Inr ()"
  by simp

lemma paths_ok [simp]:
  "blob_path k = Inr p \<longleftrightarrow> key_ok k \<and> p = [''blobs'', take 2 k, k]"
  "action_path k = Inr p \<longleftrightarrow> key_ok k \<and> p = [''actions'', take 2 k, k @ ''.json'']"
  "declared_path k = Inr p \<longleftrightarrow> key_ok k \<and> p = [''declared'', take 2 k, k @ ''.json'']"
  "archive_path k = Inr p \<longleftrightarrow> validate_archive_name k = Inr () \<and> p = [''archives'', k @ ''.json'']"
  by (auto simp: blob_path_def action_path_def declared_path_def archive_path_def)

lemma path_values [simp]:
  "key_ok k \<Longrightarrow> blob_path k = Inr [''blobs'', take 2 k, k]"
  "key_ok k \<Longrightarrow> action_path k = Inr [''actions'', take 2 k, k @ ''.json'']"
  "key_ok k \<Longrightarrow> declared_path k = Inr [''declared'', take 2 k, k @ ''.json'']"
  "validate_archive_name k = Inr () \<Longrightarrow> archive_path k = Inr [''archives'', k @ ''.json'']"
  by simp_all

text \<open>
  No archive name leads out of the archive directory, but one may hide its file from it: names
  starting with \<open>.tmp-\<close> are accepted, and their files carry the prefix of temporary files, which
  \<open>cleanup_orphan_temps\<close> removes after an hour and the collector does not see.
\<close>

theorem archive_name_may_be_temporary:
  "archive_path ''.tmp-release'' = Inr [''archives'', ''.tmp-release.json'']
     \<and> orphan_temp (60 * 60 * 1000) 3600000 ''.tmp-release.json'' 0"
  by (simp add: validate_archive_name_def is_digit_def is_alpha_def orphan_temp_def is_temp_name_def)

section \<open>Blobs\<close>

lemma read_blob_ok:
  "read_blob L d s = Inr b \<longleftrightarrow> key_ok d \<and> (\<exists>f. st_blobs s d = Some f \<and> bf_bytes f = b \<and> l_hash L b = d)"
  by (auto simp: read_blob_def Let_def split: option.splits if_splits)

lemma commit_blob_cases:
  assumes "key_ok d"
  shows "commit_blob L d temp now s =
    (case read_blob L d s of
       Inr b \<Rightarrow> (Inr False, s\<lparr>st_blobs := (st_blobs s)(d \<mapsto> \<lparr>bf_bytes = b, bf_modified = now\<rparr>)\<rparr>)
     | Inl e \<Rightarrow> (Inr True, s\<lparr>st_blobs := (st_blobs s)(d \<mapsto> \<lparr>bf_bytes = temp, bf_modified = now\<rparr>)\<rparr>))"
proof (cases "read_blob L d s")
  case (Inl e)
  with assms show ?thesis by (simp add: commit_blob_def)
next
  case (Inr b)
  then obtain f where f: "st_blobs s d = Some f" "bf_bytes f = b" by (auto simp: read_blob_ok)
  then have g: "f\<lparr>bf_modified := now\<rparr> = \<lparr>bf_bytes = b, bf_modified = now\<rparr>" by (cases f) simp
  from assms Inr f(1) show ?thesis
    by (simp add: commit_blob_def s_bind_def touch_blob_def s_lift_def g)
qed

lemma put_blob_cases:
  "key_ok d \<Longrightarrow> put_blob L d bytes now s =
     (if l_hash L bytes = d then commit_blob L d bytes now s else (Inl (BlobDigestMismatch d (l_hash L bytes)), s))"
  by (simp add: put_blob_def Let_def)

text \<open>
  C29. Blobs are what their names say: \<open>put_blob\<close> stores bytes only under their own digest; it creates
  the blob exactly when no intact copy is there, replacing a corrupt one, and otherwise keeps and
  refreshes that copy; every other blob is left alone.
\<close>

theorem put_blob_then_read:
  assumes "key_ok d" and "put_blob L d bytes now s = (Inr created, t)"
  shows "l_hash L bytes = d
       \<and> (if created then \<not> (\<exists>b. read_blob L d s = Inr b) \<and> read_blob L d t = Inr bytes
          else \<exists>b. read_blob L d s = Inr b \<and> read_blob L d t = Inr b)
       \<and> (st_blobs t)(d := None) = (st_blobs s)(d := None)
       \<and> map_option bf_modified (st_blobs t d) = Some now"
proof -
  have h: "l_hash L bytes = d" and c: "commit_blob L d bytes now s = (Inr created, t)"
    using assms by (auto simp: put_blob_cases split: if_splits)
  show ?thesis
  proof (cases "read_blob L d s")
    case (Inl e)
    with c assms(1) have t: "created" "t = s\<lparr>st_blobs := (st_blobs s)(d \<mapsto> \<lparr>bf_bytes = bytes, bf_modified = now\<rparr>)\<rparr>"
      by (auto simp: commit_blob_cases)
    then have "read_blob L d t = Inr bytes" using assms(1) h by (simp add: read_blob_ok)
    with h t Inl show ?thesis by auto
  next
    case (Inr b)
    with c assms(1) have t: "\<not> created" "t = s\<lparr>st_blobs := (st_blobs s)(d \<mapsto> \<lparr>bf_bytes = b, bf_modified = now\<rparr>)\<rparr>"
      by (auto simp: commit_blob_cases)
    moreover have "l_hash L b = d" using Inr unfolding read_blob_ok by blast
    moreover from this have "read_blob L d t = Inr b" using assms(1) t by (simp add: read_blob_ok)
    ultimately show ?thesis using h Inr by auto
  qed
qed

definition ex_key :: string where "ex_key = replicate 64 CHR ''0''"

definition ex_const_lib :: "string lib" where
  "ex_const_lib = ex_lib\<lparr>l_hash := \<lambda>b. ex_key\<rparr>"

lemma ex_key_ok [simp]: "key_ok ex_key"
  by (simp add: key_ok_def ex_key_def is_lower_hex_def is_digit_def)

lemma empty_store_simps [simp]:
  "st_blobs empty_store = Map.empty" "st_actions empty_store = Map.empty"
  "st_declared empty_store = Map.empty" "st_archives empty_store = Map.empty"
  "st_journal empty_store = None" "st_rotated empty_store = []"
  by (simp_all add: empty_store_def)

lemma ex_put_blob:
  "put_blob ex_const_lib ex_key ''data'' 7 empty_store
     = (Inr True, empty_store\<lparr>st_blobs := [ex_key \<mapsto> \<lparr>bf_bytes = ''data'', bf_modified = 7\<rparr>]\<rparr>)"
  by (simp add: put_blob_cases commit_blob_cases ex_const_lib_def read_blob_def
      split: sum.split)

theorem put_blob_then_read_witness:
  "read_blob ex_const_lib ex_key (snd (put_blob ex_const_lib ex_key ''data'' 7 empty_store)) = Inr ''data''"
  using put_blob_then_read [OF ex_key_ok ex_put_blob] unfolding ex_put_blob by simp

section \<open>Records that are written once\<close>

text \<open>
  The contract declared records and archives share. \<open>found s k\<close> is the valid record under a name,
  \<open>broken s k\<close> that a file is there which is none; \<open>same x r\<close> when publishing \<open>r\<close> over \<open>x\<close> is a
  repetition; \<open>reread r\<close> is what reading back the encoding of \<open>r\<close> gives.
\<close>

locale write_once =
  fixes fit :: "'r \<Rightarrow> bool" and name_of :: "'r \<Rightarrow> 'k" and same :: "'r \<Rightarrow> 'r \<Rightarrow> bool"
    and reread :: "'r \<Rightarrow> 'r option" and found :: "'s \<Rightarrow> 'k \<Rightarrow> 'r option" and broken :: "'s \<Rightarrow> 'k \<Rightarrow> bool"
    and publish :: "'r \<Rightarrow> nat \<Rightarrow> 's \<Rightarrow> ('e + bool) \<times> 's"
  assumes publish_new: "fit r \<Longrightarrow> found s (name_of r) = None \<Longrightarrow> \<not> broken s (name_of r) \<Longrightarrow>
      \<exists>t. publish r now s = (Inr True, t) \<and> found t (name_of r) = reread r"
    and publish_again: "fit r \<Longrightarrow> found s (name_of r) = Some x \<Longrightarrow> same x r \<Longrightarrow> publish r now s = (Inr False, s)"
    and publish_conflict: "fit r \<Longrightarrow> found s (name_of r) = Some x \<Longrightarrow> \<not> same x r \<Longrightarrow>
      \<exists>e. publish r now s = (Inl e, s)"
    and publish_broken: "fit r \<Longrightarrow> broken s (name_of r) \<Longrightarrow>
      \<exists>e t. publish r now s = (Inl e, t) \<and> found t (name_of r) = None \<and> \<not> broken t (name_of r)"
    and publish_unfit: "\<not> fit r \<Longrightarrow> \<exists>e. publish r now s = (Inl e, s)"
    and publish_other: "k \<noteq> name_of r \<Longrightarrow> found (snd (publish r now s)) k = found s k"
    and found_whole: "found s k = Some x \<Longrightarrow> \<not> broken s k"
    and same_refl: "same r r"
begin

lemma publish_keeps:
  assumes "found s k = Some x"
  shows "found (snd (publish r now s)) k = Some x"
proof (cases "k = name_of r \<and> fit r")
  case True
  then have f: "fit r" "found s (name_of r) = Some x" using assms by simp_all
  have "snd (publish r now s) = s"
  proof (cases "same x r")
    case True
    with publish_again [OF f] show ?thesis by simp
  next
    case False
    from publish_conflict [OF f False, of now] show ?thesis by auto
  qed
  with assms show ?thesis by simp
next
  case False
  show ?thesis
  proof (cases "fit r")
    case True
    with False assms publish_other [of k r now s] show ?thesis by simp
  next
    case False
    obtain e where "publish r now s = (Inl e, s)" using publish_unfit [OF False] by blast
    with assms show ?thesis by simp
  qed
qed

text \<open>The first record published under a name stays, whatever is published later.\<close>

lemma first_writer_wins:
  "found s k = Some x \<Longrightarrow> found (foldl (\<lambda>s (r, now). snd (publish r now s)) s rs) k = Some x"
  by (induction rs arbitrary: s) (auto simp: publish_keeps)

lemma publish_twice:
  assumes "publish r now s = (Inr True, t)" and "reread r = Some r"
  shows "publish r now' t = (Inr False, t)"
proof -
  have fit: "fit r" using publish_unfit [of r now s] assms(1) by fastforce
  have "\<not> broken s (name_of r)" using publish_broken [OF fit, of s now] assms(1) by fastforce
  moreover have "found s (name_of r) = None"
  proof (cases "found s (name_of r)")
    case (Some x)
    with publish_again [OF fit Some, of now] publish_conflict [OF fit Some, of now] assms(1) show ?thesis
      by (cases "same x r") auto
  qed
  ultimately have "found t (name_of r) = Some r"
    using publish_new [OF fit, of s now] assms by auto
  from publish_again [OF fit this same_refl] show ?thesis .
qed

text \<open>A broken file costs one failed publication and is gone for the next.\<close>

lemma broken_then_published:
  assumes "fit r" and "broken s (name_of r)" and "reread r = Some r"
  shows "\<exists>e t u. publish r now s = (Inl e, t) \<and> publish r now' t = (Inr True, u) \<and> found u (name_of r) = Some r"
  using publish_broken [OF assms(1,2), of now] publish_new [OF assms(1), of _ now'] assms(3) by metis

end

subsection \<open>Declared records\<close>

definition declared_here :: "'b lib \<Rightarrow> string \<Rightarrow> 'b \<Rightarrow> declared_record option" where
  "declared_here L key doc =
     (case l_dec_declared L doc of
        None \<Rightarrow> None
      | Some r \<Rightarrow> if declared_ok L r \<and> dr_key r = key then Some r else None)"

definition declared_found :: "'b lib \<Rightarrow> 'b store \<Rightarrow> string \<Rightarrow> declared_record option" where
  "declared_found L s key = Option.bind (st_declared s key) (\<lambda>f. declared_here L key (df_doc f))"

definition declared_broken :: "'b lib \<Rightarrow> 'b store \<Rightarrow> string \<Rightarrow> bool" where
  "declared_broken L s key \<longleftrightarrow> st_declared s key \<noteq> None \<and> declared_found L s key = None"

lemma declared_check:
  "r_then (map_err Check (validate_declared_record L r)) (ensure (dr_key r = key) KeyNotPath) = Inr u
     \<longleftrightarrow> declared_ok L r \<and> dr_key r = key"
  by (simp add: declared_record_ok)

lemma declared_here_Some:
  "declared_here L key doc = Some r \<longleftrightarrow> l_dec_declared L doc = Some r \<and> declared_ok L r \<and> dr_key r = key"
  by (auto simp: declared_here_def split: option.splits)

lemma declared_found_Some:
  "declared_found L s key = Some r \<longleftrightarrow> (\<exists>f. st_declared s key = Some f \<and> declared_here L key (df_doc f) = Some r)"
  by (auto simp: declared_found_def split: bind_splits)

lemma declared_ok_key: "declared_ok L r \<Longrightarrow> key_ok (dr_key r)"
  unfolding declared_ok_def by blast

lemma read_declared_found: 
  assumes "declared_found L s key = Some r"
  shows "read_declared L key s = (Inr (Some r), s)"
proof -
  obtain f where f: "st_declared s key = Some f" "l_dec_declared L (df_doc f) = Some r"
    and ok: "declared_ok L r \<and> dr_key r = key"
    using assms by (auto simp: declared_found_Some declared_here_Some)
  from ok have "key_ok key" using declared_ok_key by blast
  moreover have "r_then (map_err Check (validate_declared_record L r)) (ensure (dr_key r = key) KeyNotPath) = Inr ()"
    using ok unfolding declared_check .
  ultimately show ?thesis using f by (simp add: read_declared_def ensure_def)
qed

lemma read_declared_none:
  "key_ok key \<Longrightarrow> st_declared s key = None \<Longrightarrow> read_declared L key s = (Inr None, s)"
  by (simp add: read_declared_def)

lemma read_declared_broken:
  assumes "key_ok key" and "st_declared s key = Some f" and "declared_here L key (df_doc f) = None"
  shows "\<exists>e. read_declared L key s = (Inl e, quarantine_declared key f s)"
proof (cases "l_dec_declared L (df_doc f)")
  case None
  with assms show ?thesis by (simp add: read_declared_def)
next
  case (Some r)
  with assms(3) have "\<not> (declared_ok L r \<and> dr_key r = key)" by (auto simp: declared_here_def)
  then have "\<And>u. r_then (map_err Check (validate_declared_record L r)) (ensure (dr_key r = key) KeyNotPath) \<noteq> Inr u"
    by (simp only: declared_check) simp
  then obtain e where "r_then (map_err Check (validate_declared_record L r)) (ensure (dr_key r = key) KeyNotPath) = Inl e"
    by (metis old.sum.exhaust)
  with Some assms show ?thesis by (simp add: read_declared_def)
qed

definition declared_reread :: "'b lib \<Rightarrow> declared_record \<Rightarrow> declared_record option" where
  "declared_reread L r = declared_here L (dr_key r) (l_enc_declared L r)"

lemma put_declared_unfit: "\<not> declared_ok L r \<Longrightarrow> \<exists>e. put_declared L r now s = (Inl e, s)"
  using declared_record_ok [of L r]
  by (cases "validate_declared_record L r") (auto simp: put_declared_def s_bind_def s_lift_def)

lemma put_declared_fit:
  assumes "declared_ok L r"
  shows "put_declared L r now s = put_declared_unlocked L r now s"
proof -
  have "validate_declared_record L r = Inr ()" using assms by (simp add: declared_record_ok)
  then show ?thesis by (simp add: put_declared_def s_bind_def s_lift_def)
qed

lemmas put_unfold = s_bind_def s_lift_def

lemma put_declared_found:
  assumes "declared_ok L r" and "declared_found L s (dr_key r) = Some x"
  shows "put_declared L r now s = (if x = r then Inr False else Inl DeclaredConflict, s)"
  using assms(1) read_declared_found [OF assms(2)] declared_ok_key [OF assms(1)]
  by (simp add: put_declared_fit put_declared_unlocked_def put_unfold)

lemma put_declared_fresh:
  assumes "declared_ok L r" and "st_declared s (dr_key r) = None"
  shows "put_declared L r now s = (Inr True, s\<lparr>st_declared := (st_declared s)(dr_key r \<mapsto>
           \<lparr>df_doc = l_enc_declared L r, df_modified = now\<rparr>)\<rparr>)"
  using assms(1) read_declared_none [OF declared_ok_key [OF assms(1)] assms(2)] declared_ok_key [OF assms(1)]
  by (simp add: put_declared_fit put_declared_unlocked_def put_unfold)

lemma put_declared_broken:
  assumes "declared_ok L r" and "declared_broken L s (dr_key r)"
  shows "\<exists>e f. put_declared L r now s = (Inl e, quarantine_declared (dr_key r) f s)"
proof -
  obtain f where "st_declared s (dr_key r) = Some f" "declared_here L (dr_key r) (df_doc f) = None"
    using assms(2) by (auto simp: declared_broken_def declared_found_def)
  from read_declared_broken [OF declared_ok_key [OF assms(1)] this]
  obtain e where "read_declared L (dr_key r) s = (Inl e, quarantine_declared (dr_key r) f s)" by blast
  then have "put_declared L r now s = (Inl e, quarantine_declared (dr_key r) f s)"
    using assms(1) declared_ok_key [OF assms(1)]
    by (simp add: put_declared_fit put_declared_unlocked_def put_unfold)
  then show ?thesis by blast
qed

lemma put_declared_where:
  "st_declared (snd (put_declared L r now s)) = st_declared s
   \<or> (\<exists>v. st_declared (snd (put_declared L r now s)) = (st_declared s)(dr_key r := v))"
proof (cases "declared_ok L r")
  case False
  with put_declared_unfit [OF False, of now s] show ?thesis by auto
next
  case True
  consider "st_declared s (dr_key r) = None" | x where "declared_found L s (dr_key r) = Some x"
    | "declared_broken L s (dr_key r)"
    by (cases "declared_found L s (dr_key r)"; cases "st_declared s (dr_key r)") (auto simp: declared_broken_def)
  then show ?thesis
  proof cases
    case 1
    with put_declared_fresh [OF True 1, of now] show ?thesis by auto
  next
    case 2
    with put_declared_found [OF True 2, of now] show ?thesis by auto
  next
    case 3
    with put_declared_broken [OF True 3, of now] show ?thesis by (auto simp: quarantine_declared_def)
  qed
qed

lemma not_broken_none: "declared_found L s k = None \<Longrightarrow> \<not> declared_broken L s k \<Longrightarrow> st_declared s k = None"
  by (simp add: declared_broken_def)

interpretation decl: write_once "declared_ok L" dr_key "(=)" "declared_reread L" "declared_found L"
  "declared_broken L" "put_declared L" for L :: "'b lib"
proof unfold_locales
  fix r s now k x
  show "declared_ok L r \<Longrightarrow> declared_found L s (dr_key r) = None \<Longrightarrow> \<not> declared_broken L s (dr_key r) \<Longrightarrow>
    \<exists>t. put_declared L r now s = (Inr True, t) \<and> declared_found L t (dr_key r) = declared_reread L r"
    using put_declared_fresh [of L r s now] not_broken_none [of L s "dr_key r"]
    by (simp add: declared_found_def declared_reread_def)
  show "declared_ok L r \<Longrightarrow> declared_found L s (dr_key r) = Some x \<Longrightarrow> x = r \<Longrightarrow> put_declared L r now s = (Inr False, s)"
    by (simp add: put_declared_found)
  show "declared_ok L r \<Longrightarrow> declared_found L s (dr_key r) = Some x \<Longrightarrow> x \<noteq> r \<Longrightarrow> \<exists>e. put_declared L r now s = (Inl e, s)"
    by (simp add: put_declared_found)
  show "declared_ok L r \<Longrightarrow> declared_broken L s (dr_key r) \<Longrightarrow>
    \<exists>e t. put_declared L r now s = (Inl e, t) \<and> declared_found L t (dr_key r) = None \<and> \<not> declared_broken L t (dr_key r)"
    using put_declared_broken [of L r s now]
    by (auto simp: quarantine_declared_def declared_found_def declared_broken_def)
  show "\<not> declared_ok L r \<Longrightarrow> \<exists>e. put_declared L r now s = (Inl e, s)" by (rule put_declared_unfit)
  show "k \<noteq> dr_key r \<Longrightarrow> declared_found L (snd (put_declared L r now s)) k = declared_found L s k"
    using put_declared_where [of L r now s] by (auto simp: declared_found_def)
  show "declared_found L s k = Some x \<Longrightarrow> \<not> declared_broken L s k" by (simp add: declared_broken_def)
qed simp

subsection \<open>Archives\<close>

definition archive_here :: "'b lib \<Rightarrow> string \<Rightarrow> 'b \<Rightarrow> archive_manifest option" where
  "archive_here L key doc =
     (case l_dec_archive L doc of
        None \<Rightarrow> None
      | Some r \<Rightarrow> if archive_ok L r \<and> am_name r = key then Some r else None)"

definition archive_found :: "'b lib \<Rightarrow> 'b store \<Rightarrow> string \<Rightarrow> archive_manifest option" where
  "archive_found L s key = Option.bind (st_archives s key) (\<lambda>f. archive_here L key (df_doc f))"

definition archive_broken :: "'b lib \<Rightarrow> 'b store \<Rightarrow> string \<Rightarrow> bool" where
  "archive_broken L s key \<longleftrightarrow> st_archives s key \<noteq> None \<and> archive_found L s key = None"

lemma archive_check:
  "r_then (map_err Check (validate_archive_manifest L r)) (ensure (am_name r = key) KeyNotPath) = Inr u
     \<longleftrightarrow> archive_ok L r \<and> am_name r = key"
  by (simp add: archive_manifest_ok)

lemma archive_here_Some:
  "archive_here L key doc = Some r \<longleftrightarrow> l_dec_archive L doc = Some r \<and> archive_ok L r \<and> am_name r = key"
  by (auto simp: archive_here_def split: option.splits)

lemma archive_found_Some:
  "archive_found L s key = Some r \<longleftrightarrow> (\<exists>f. st_archives s key = Some f \<and> archive_here L key (df_doc f) = Some r)"
  by (auto simp: archive_found_def split: bind_splits)

lemma archive_ok_name: "archive_ok L r \<Longrightarrow> validate_archive_name (am_name r) = Inr ()"
  unfolding archive_ok_def by blast

lemma read_archive_found: 
  assumes "archive_found L s key = Some r"
  shows "read_archive L key s = (Inr (Some r), s)"
proof -
  obtain f where f: "st_archives s key = Some f" "l_dec_archive L (df_doc f) = Some r"
    and ok: "archive_ok L r \<and> am_name r = key"
    using assms by (auto simp: archive_found_Some archive_here_Some)
  from ok have "validate_archive_name key = Inr ()" using archive_ok_name by blast
  moreover have "r_then (map_err Check (validate_archive_manifest L r)) (ensure (am_name r = key) KeyNotPath) = Inr ()"
    using ok unfolding archive_check .
  ultimately show ?thesis using f by (simp add: read_archive_def ensure_def)
qed

lemma read_archive_none:
  "validate_archive_name key = Inr () \<Longrightarrow> st_archives s key = None \<Longrightarrow> read_archive L key s = (Inr None, s)"
  by (simp add: read_archive_def)

lemma read_archive_broken:
  assumes "validate_archive_name key = Inr ()" and "st_archives s key = Some f" and "archive_here L key (df_doc f) = None"
  shows "\<exists>e. read_archive L key s = (Inl e, quarantine_archive key f s)"
proof (cases "l_dec_archive L (df_doc f)")
  case None
  with assms show ?thesis by (simp add: read_archive_def)
next
  case (Some r)
  with assms(3) have "\<not> (archive_ok L r \<and> am_name r = key)" by (auto simp: archive_here_def)
  then have "\<And>u. r_then (map_err Check (validate_archive_manifest L r)) (ensure (am_name r = key) KeyNotPath) \<noteq> Inr u"
    by (simp only: archive_check) simp
  then obtain e where "r_then (map_err Check (validate_archive_manifest L r)) (ensure (am_name r = key) KeyNotPath) = Inl e"
    by (metis old.sum.exhaust)
  with Some assms show ?thesis by (simp add: read_archive_def)
qed

definition archive_reread :: "'b lib \<Rightarrow> archive_manifest \<Rightarrow> archive_manifest option" where
  "archive_reread L r = archive_here L (am_name r) (l_enc_archive L r)"

lemma put_archive_unfit: "\<not> archive_ok L r \<Longrightarrow> \<exists>e. put_archive L r now s = (Inl e, s)"
  using archive_manifest_ok [of L r]
  by (cases "validate_archive_manifest L r") (auto simp: put_archive_def s_bind_def s_lift_def)

lemma put_archive_fit:
  assumes "archive_ok L r"
  shows "put_archive L r now s = put_archive_unlocked L r now s"
proof -
  have "validate_archive_manifest L r = Inr ()" using assms by (simp add: archive_manifest_ok)
  then show ?thesis by (simp add: put_archive_def s_bind_def s_lift_def)
qed

lemma put_archive_found:
  assumes "archive_ok L r" and "archive_found L s (am_name r) = Some x"
  shows "put_archive L r now s = (if am_tree_digest x = am_tree_digest r then Inr False else Inl ArchiveConflict, s)"
  using assms(1) read_archive_found [OF assms(2)] archive_ok_name [OF assms(1)]
  by (simp add: put_archive_fit put_archive_unlocked_def put_unfold)

lemma put_archive_fresh:
  assumes "archive_ok L r" and "st_archives s (am_name r) = None"
  shows "put_archive L r now s = (Inr True, s\<lparr>st_archives := (st_archives s)(am_name r \<mapsto>
           \<lparr>df_doc = l_enc_archive L r, df_modified = now\<rparr>)\<rparr>)"
  using assms(1) read_archive_none [OF archive_ok_name [OF assms(1)] assms(2)] archive_ok_name [OF assms(1)]
  by (simp add: put_archive_fit put_archive_unlocked_def put_unfold)

lemma put_archive_broken:
  assumes "archive_ok L r" and "archive_broken L s (am_name r)"
  shows "\<exists>e f. put_archive L r now s = (Inl e, quarantine_archive (am_name r) f s)"
proof -
  obtain f where "st_archives s (am_name r) = Some f" "archive_here L (am_name r) (df_doc f) = None"
    using assms(2) by (auto simp: archive_broken_def archive_found_def)
  from read_archive_broken [OF archive_ok_name [OF assms(1)] this]
  obtain e where "read_archive L (am_name r) s = (Inl e, quarantine_archive (am_name r) f s)" by blast
  then have "put_archive L r now s = (Inl e, quarantine_archive (am_name r) f s)"
    using assms(1) archive_ok_name [OF assms(1)]
    by (simp add: put_archive_fit put_archive_unlocked_def put_unfold)
  then show ?thesis by blast
qed

lemma put_archive_where:
  "st_archives (snd (put_archive L r now s)) = st_archives s
   \<or> (\<exists>v. st_archives (snd (put_archive L r now s)) = (st_archives s)(am_name r := v))"
proof (cases "archive_ok L r")
  case False
  with put_archive_unfit [OF False, of now s] show ?thesis by auto
next
  case True
  consider "st_archives s (am_name r) = None" | x where "archive_found L s (am_name r) = Some x"
    | "archive_broken L s (am_name r)"
    by (cases "archive_found L s (am_name r)"; cases "st_archives s (am_name r)") (auto simp: archive_broken_def)
  then show ?thesis
  proof cases
    case 1
    with put_archive_fresh [OF True 1, of now] show ?thesis by auto
  next
    case 2
    with put_archive_found [OF True 2, of now] show ?thesis by auto
  next
    case 3
    with put_archive_broken [OF True 3, of now] show ?thesis by (auto simp: quarantine_archive_def)
  qed
qed

lemma archive_not_broken_none: "archive_found L s k = None \<Longrightarrow> \<not> archive_broken L s k \<Longrightarrow> st_archives s k = None"
  by (simp add: archive_broken_def)

interpretation arch: write_once "archive_ok L" am_name "\<lambda>x r. am_tree_digest x = am_tree_digest r" "archive_reread L" "archive_found L"
  "archive_broken L" "put_archive L" for L :: "'b lib"
proof unfold_locales
  fix r s now k x
  show "archive_ok L r \<Longrightarrow> archive_found L s (am_name r) = None \<Longrightarrow> \<not> archive_broken L s (am_name r) \<Longrightarrow>
    \<exists>t. put_archive L r now s = (Inr True, t) \<and> archive_found L t (am_name r) = archive_reread L r"
    using put_archive_fresh [of L r s now] archive_not_broken_none [of L s "am_name r"]
    by (simp add: archive_found_def archive_reread_def)
  show "archive_ok L r \<Longrightarrow> archive_found L s (am_name r) = Some x \<Longrightarrow> am_tree_digest x = am_tree_digest r \<Longrightarrow> put_archive L r now s = (Inr False, s)"
    by (simp add: put_archive_found)
  show "archive_ok L r \<Longrightarrow> archive_found L s (am_name r) = Some x \<Longrightarrow> am_tree_digest x \<noteq> am_tree_digest r \<Longrightarrow> \<exists>e. put_archive L r now s = (Inl e, s)"
    by (simp add: put_archive_found)
  show "archive_ok L r \<Longrightarrow> archive_broken L s (am_name r) \<Longrightarrow>
    \<exists>e t. put_archive L r now s = (Inl e, t) \<and> archive_found L t (am_name r) = None \<and> \<not> archive_broken L t (am_name r)"
    using put_archive_broken [of L r s now]
    by (auto simp: quarantine_archive_def archive_found_def archive_broken_def)
  show "\<not> archive_ok L r \<Longrightarrow> \<exists>e. put_archive L r now s = (Inl e, s)" by (rule put_archive_unfit)
  show "k \<noteq> am_name r \<Longrightarrow> archive_found L (snd (put_archive L r now s)) k = archive_found L s k"
    using put_archive_where [of L r now s] by (auto simp: archive_found_def)
  show "archive_found L s k = Some x \<Longrightarrow> \<not> archive_broken L s k" by (simp add: archive_broken_def)
qed simp

section \<open>Candidate indexes\<close>

definition index_ok :: "'b lib \<Rightarrow> string \<Rightarrow> candidate_index \<Rightarrow> bool" where
  "index_ok L key index \<longleftrightarrow>
     length index \<le> 1024 \<and> (\<forall>c \<in> set index. candidate_ok L c \<and> ac_static_key c = key)"

text \<open>The candidates a read finds: none when there is no file, \<open>None\<close> when the file is broken.\<close>

definition index_found :: "'b lib \<Rightarrow> 'b store \<Rightarrow> string \<Rightarrow> candidate_index option" where
  "index_found L s key =
     (case st_actions s key of
        None \<Rightarrow> Some []
      | Some f \<Rightarrow>
          (case l_dec_index L (df_doc f) of
             None \<Rightarrow> None
           | Some index \<Rightarrow> if index_ok L key index then Some index else None))"

lemma validate_index_ok: "validate_index L key index = Inr u \<longleftrightarrow> index_ok L key index"
  by (simp add: validate_index_def index_ok_def candidate_manifest_ok)

lemma read_candidates_found:
  "key_ok key \<Longrightarrow> index_found L s key = Some index \<Longrightarrow> read_candidates L key s = (Inr index, s)"
  using validate_index_ok [of L key index, THEN iffD2]
  by (auto simp: index_found_def read_candidates_def split: option.splits if_splits)

lemma read_candidates_broken:
  assumes "key_ok key" and "index_found L s key = None"
  shows "\<exists>e f. st_actions s key = Some f \<and> read_candidates L key s = (Inl e, quarantine_action key f s)"
proof -
  obtain f where f: "st_actions s key = Some f" using assms(2) by (auto simp: index_found_def split: option.splits)
  have "\<exists>e. read_candidates L key s = (Inl e, quarantine_action key f s)"
  proof (cases "l_dec_index L (df_doc f)")
    case None
    with assms(1) f show ?thesis by (simp add: read_candidates_def)
  next
    case (Some index)
    with assms(2) f have "\<not> index_ok L key index" by (auto simp: index_found_def split: if_splits)
    then obtain e where "validate_index L key index = Inl e"
      using validate_index_ok [of L key index] by (cases "validate_index L key index") auto
    with Some assms(1) f show ?thesis by (simp add: read_candidates_def)
  qed
  with f show ?thesis by blast
qed

lemma candidate_ok_keys: "candidate_ok L c \<Longrightarrow> key_ok (ac_static_key c) \<and> key_ok (ac_action_key c)"
  unfolding candidate_ok_def by blast

definition index_written :: "'b lib \<Rightarrow> action_candidate \<Rightarrow> nat \<Rightarrow> nat \<Rightarrow> candidate_index \<Rightarrow> 'b store \<Rightarrow> 'b store" where
  "index_written L c max_candidates now index s =
     s\<lparr>st_actions := (st_actions s)(ac_static_key c \<mapsto>
          \<lparr>df_doc = l_enc_index L (updated_index c max_candidates index), df_modified = now\<rparr>),
       st_journal := Some ((case st_journal s of None \<Rightarrow> [] | Some j \<Rightarrow> j)
          @ journal_line (ac_static_key c) (ac_action_key c) now)\<rparr>"

lemma put_candidate_found:
  assumes "candidate_ok L c" and "index_found L s (ac_static_key c) = Some index"
  shows "put_candidate L c max_candidates now s = (Inr (), index_written L c max_candidates now index s)"
proof -
  have "validate_candidate_manifest L c = Inr ()" using assms(1) by (simp add: candidate_manifest_ok)
  moreover have k: "key_ok (ac_static_key c)" "key_ok (ac_action_key c)"
    using candidate_ok_keys [OF assms(1)] by simp_all
  ultimately show ?thesis using read_candidates_found [OF k(1) assms(2)]
    by (simp add: put_candidate_def put_candidate_unlocked_def put_unfold record_use_def index_written_def)
qed

lemma updated_index_ok:
  assumes "candidate_ok L c" and "index_ok L (ac_static_key c) index" and "n \<le> 1024"
  shows "index_ok L (ac_static_key c) (updated_index c n index)"
proof -
  have "set (updated_index c n index) \<subseteq> insert c (set index)"
    by (auto simp: updated_index_def dest: in_set_takeD)
  moreover have "length (updated_index c n index) \<le> 1024" using assms(3) by (simp add: updated_index_def)
  ultimately show ?thesis using assms(1,2) by (auto simp: index_ok_def)
qed

lemma index_found_ok: "index_found L s key = Some index \<Longrightarrow> index_ok L key index"
  by (auto simp: index_found_def index_ok_def split: option.splits if_splits)

text \<open>
  A published candidate is the first of its index: when at most 1024 are kept, \<open>put_candidate\<close>
  succeeds on any readable index, after which a read returns the new candidate followed by the
  others in their order, without the old version of its action and without the oldest beyond the
  limit; other indexes are untouched and the use is in the journal.
\<close>

theorem put_candidate_then_read:
  assumes "codec_ok L" and "candidate_ok L c" and "max_candidates \<le> 1024"
    and "read_candidates L (ac_static_key c) s = (Inr index, s)"
  shows "\<exists>t. put_candidate L c max_candidates now s = (Inr (), t)
       \<and> read_candidates L (ac_static_key c) t
           = (Inr (c # take (max_candidates - 1) (filter (\<lambda>x. ac_action_key x \<noteq> ac_action_key c) index)), t)
       \<and> (st_actions t)(ac_static_key c := None) = (st_actions s)(ac_static_key c := None)
       \<and> (\<exists>j. st_journal t = Some (j @ journal_line (ac_static_key c) (ac_action_key c) now))"
proof -
  have k: "key_ok (ac_static_key c)" using candidate_ok_keys [OF assms(2)] by simp
  have found: "index_found L s (ac_static_key c) = Some index"
  proof (cases "index_found L s (ac_static_key c)")
    case None
    with read_candidates_broken [OF k None] assms(4) show ?thesis by auto
  next
    case (Some i)
    with read_candidates_found [OF k Some] assms(4) show ?thesis by simp
  qed
  let ?t = "index_written L c max_candidates now index s"
  have "index_ok L (ac_static_key c) (updated_index c max_candidates index)"
    using updated_index_ok [OF assms(2) index_found_ok [OF found] assms(3)] .
  then have "index_found L ?t (ac_static_key c) = Some (updated_index c max_candidates index)"
    using assms(1) by (simp add: index_found_def index_written_def)
  then have "read_candidates L (ac_static_key c) ?t = (Inr (updated_index c max_candidates index), ?t)"
    by (rule read_candidates_found [OF k])
  moreover have "updated_index c max_candidates index
      = c # take (max_candidates - 1) (filter (\<lambda>x. ac_action_key x \<noteq> ac_action_key c) index)"
    by (cases max_candidates) (simp_all add: updated_index_def max_def)
  ultimately show ?thesis
    using put_candidate_found [OF assms(2) found] by (auto simp: index_written_def)
qed

text \<open>A library whose record files are the records themselves and whose hash tells two inputs apart.\<close>

datatype ex_doc = Doc_index candidate_index | Doc_declared declared_record | Doc_archive archive_manifest | Doc_junk

definition ex_ones :: string where "ex_ones = replicate 64 CHR ''1''"

definition ex_codec :: "ex_doc lib" where
  "ex_codec = \<lparr>l_hash = \<lambda>b. if CHR ''~'' \<in> set b then ex_ones else ex_key,
     l_files_json = \<lambda>fs. concat (map fi_path fs), l_env_json = \<lambda>es. concat (map ei_name es),
     l_artifacts_json = \<lambda>as. concat (map ar_file_name as), l_declared_json = \<lambda>(v, n, r). n,
     l_enc_index = Doc_index, l_dec_index = \<lambda>d. (case d of Doc_index i \<Rightarrow> Some i | _ \<Rightarrow> None),
     l_enc_declared = Doc_declared, l_dec_declared = \<lambda>d. (case d of Doc_declared r \<Rightarrow> Some r | _ \<Rightarrow> None),
     l_enc_archive = Doc_archive, l_dec_archive = \<lambda>d. (case d of Doc_archive m \<Rightarrow> Some m | _ \<Rightarrow> None)\<rparr>"

lemma ex_codec_ok: "codec_ok ex_codec"
  by (simp add: codec_ok_def ex_codec_def)

definition ex_candidate :: "env_input list \<Rightarrow> string \<Rightarrow> action_candidate" where
  "ex_candidate env action_key = \<lparr>ac_protocol = 6, ac_static_key = ex_key, ac_action_key = action_key,
     ac_crate_name = ''a'', ac_created_ms = 5, ac_files = [], ac_host_files = [], ac_env = env,
     ac_artifacts = [ex_artifact ''a.rlib''], ac_stdout = \<lparr>sa_digest = ex_key, sa_len = 4\<rparr>,
     ac_stderr = \<lparr>sa_digest = ex_key, sa_len = 4\<rparr>, ac_proc_macros = []\<rparr>"

definition ex_tilde :: env_input where
  "ex_tilde = \<lparr>ei_name = ''~'', ei_value_digest = None, ei_normalized = False\<rparr>"

definition ex_plain :: action_candidate where "ex_plain = ex_candidate [] ex_key"
definition ex_other :: action_candidate where "ex_other = ex_candidate [ex_tilde] ex_ones"

lemma ex_ones_ok [simp]: "key_ok ex_ones"
  by (simp add: key_ok_def ex_ones_def is_lower_hex_def is_digit_def)

lemma le64_no_tilde: "n < 126 \<Longrightarrow> CHR ''~'' \<notin> set (le64 n)"
proof
  assume n: "n < 126" and "CHR ''~'' \<in> set (le64 n)"
  then obtain i where "CHR ''~'' = char_of (n div 256 ^ i mod 256)" by (auto simp: le64_def)
  then have "(126 :: nat) = of_char (char_of (n div 256 ^ i mod 256) :: char)" by (rule subst) simp
  then have "126 = n div 256 ^ i mod 256" by simp
  moreover have "n div 256 ^ i mod 256 \<le> n" by (meson div_le_dividend le_trans mod_less_eq_dividend)
  ultimately show False using n by simp
qed

lemma ex_preimage_chars:
  "CHR ''~'' \<notin> set (action_preimage ex_codec ex_key [] [] [])"
  "CHR ''~'' \<in> set (action_preimage ex_codec ex_key [] [] [ex_tilde])"
  by (simp_all add: action_preimage_def hash_key_field_def ex_codec_def ex_key_def ex_tilde_def le64_no_tilde)

lemma ex_candidates_ok: "candidate_ok ex_codec ex_plain" "candidate_ok ex_codec ex_other"
proof -
  have a: "artifacts_ok [ex_artifact ''a.rlib'']"
    using ex_key_ok by (simp add: artifacts_ok_def ex_artifact_def clean_def is_sep_def dotted_def ex_key_def)
  have k: "compiler_action_key ex_codec ex_key [] [] [] = ex_key"
    "compiler_action_key ex_codec ex_key [] [] [ex_tilde] = ex_ones"
    by (simp_all only: compiler_action_key_def ex_codec_def lib.simps)
       (use ex_preimage_chars [unfolded ex_codec_def] in simp_all)
  show "candidate_ok ex_codec ex_plain" "candidate_ok ex_codec ex_other"
    by (simp_all add: candidate_ok_def ex_plain_def ex_other_def ex_candidate_def a k inputs_ok_def env_ok_def
        protocol_version_def max_candidate_artifacts_def max_candidate_env_def)
      (simp_all add: ex_artifact_def ex_tilde_def)
qed

lemma ex_plain_found: "index_found ex_codec empty_store ex_key = Some []"
  by (simp add: index_found_def)

lemma ex_plain_keys [simp]: "ac_static_key ex_plain = ex_key" "ac_action_key ex_plain = ex_key"
  "ac_static_key ex_other = ex_key" "ac_action_key ex_other = ex_ones"
  by (simp_all add: ex_plain_def ex_other_def ex_candidate_def)

definition ex_one_candidate :: "ex_doc store" where
  "ex_one_candidate = snd (put_candidate ex_codec ex_plain 8 5 empty_store)"

lemma ex_one_candidate_eq: "ex_one_candidate = index_written ex_codec ex_plain 8 5 [] empty_store"
  using put_candidate_found [OF ex_candidates_ok(1), of empty_store "[]" 8 5]
  by (simp add: ex_one_candidate_def index_found_def)

lemma ex_one_candidate_read: "read_candidates ex_codec ex_key ex_one_candidate = (Inr [ex_plain], ex_one_candidate)"
proof (rule read_candidates_found [OF ex_key_ok])
  have "l_dec_index ex_codec (l_enc_index ex_codec [ex_plain]) = Some [ex_plain]"
    using ex_codec_ok by simp
  then show "index_found ex_codec ex_one_candidate ex_key = Some [ex_plain]"
    using ex_candidates_ok(1) by (simp add: ex_one_candidate_eq index_written_def index_found_def
        updated_index_def index_ok_def)
qed

lemma ex_keys_differ [simp]: "ex_ones \<noteq> ex_key" "ex_key \<noteq> ex_ones"
  by (simp_all add: ex_ones_def ex_key_def)

theorem put_candidate_then_read_witness:
  "fst (read_candidates ex_codec ex_key (snd (put_candidate ex_codec ex_other 8 6 ex_one_candidate)))
     = Inr [ex_other, ex_plain]"
  using put_candidate_then_read [OF ex_codec_ok ex_candidates_ok(2), of 8 ex_one_candidate "[ex_plain]" 6]
    ex_one_candidate_read by auto

text \<open>
  Keeping more than 1024 candidates loses them all: on an index of 1024 candidates
  \<open>put_candidate\<close> with a larger limit succeeds and writes 1025, which the next read refuses and
  moves to the quarantine, so every candidate of the key is gone.
\<close>

theorem overfull_index_is_lost:
  assumes "codec_ok L" and "candidate_ok L c" and "max_candidates > 1024"
    and "read_candidates L (ac_static_key c) s = (Inr index, s)" and "length index = 1024"
    and "ac_action_key c \<notin> ac_action_key ` set index"
  shows "\<exists>t u. put_candidate L c max_candidates now s = (Inr (), t)
       \<and> read_candidates L (ac_static_key c) t = (Inl IndexTooLarge, u)
       \<and> read_candidates L (ac_static_key c) u = (Inr [], u)"
proof -
  have k: "key_ok (ac_static_key c)" using candidate_ok_keys [OF assms(2)] by simp
  have found: "index_found L s (ac_static_key c) = Some index"
  proof (cases "index_found L s (ac_static_key c)")
    case None
    with read_candidates_broken [OF k None] assms(4) show ?thesis by auto
  next
    case (Some i)
    with read_candidates_found [OF k Some] assms(4) show ?thesis by simp
  qed
  let ?new = "updated_index c max_candidates index" and ?t = "index_written L c max_candidates now index s"
  have "ac_action_key x \<noteq> ac_action_key c" if "x \<in> set index" for x
    using imageI [OF that, of ac_action_key] assms(6) by metis
  then have "filter (\<lambda>x. ac_action_key x \<noteq> ac_action_key c) index = index"
    by (intro filter_True) simp
  then have new: "?new = c # index" using assms(3,5) by (simp add: updated_index_def)
  have "validate_index L (ac_static_key c) ?new = Inl IndexTooLarge"
    using assms(5) by (simp add: validate_index_def new ensure_def)
  then have "read_candidates L (ac_static_key c) ?t
      = (Inl IndexTooLarge, quarantine_action (ac_static_key c)
          \<lparr>df_doc = l_enc_index L ?new, df_modified = now\<rparr> ?t)"
    using k assms(1) by (simp add: read_candidates_def index_written_def)
  moreover have "read_candidates L (ac_static_key c) (quarantine_action (ac_static_key c) f ?t)
      = (Inr [], quarantine_action (ac_static_key c) f ?t)" for f
    using k by (simp add: read_candidates_def quarantine_action_def)
  ultimately show ?thesis using put_candidate_found [OF assms(2) found, of max_candidates now] by blast
qed

definition ex_full :: "ex_doc store" where
  "ex_full = empty_store\<lparr>st_actions := [ex_key \<mapsto>
     \<lparr>df_doc = Doc_index (replicate 1024 ex_plain), df_modified = 1\<rparr>]\<rparr>"

lemma ex_full_read: "read_candidates ex_codec ex_key ex_full = (Inr (replicate 1024 ex_plain), ex_full)"
proof (rule read_candidates_found [OF ex_key_ok])
  have "index_ok ex_codec ex_key (replicate 1024 ex_plain)"
    using ex_candidates_ok(1) by (simp add: index_ok_def)
  moreover have "l_dec_index ex_codec (Doc_index (replicate 1024 ex_plain)) = Some (replicate 1024 ex_plain)"
    by (simp only: ex_codec_def lib.simps ex_doc.case)
  ultimately show "index_found ex_codec ex_full ex_key = Some (replicate 1024 ex_plain)"
    by (simp add: index_found_def ex_full_def)
qed

theorem overfull_index_is_lost_witness:
  "\<exists>t u. put_candidate ex_codec ex_other 2000 9 ex_full = (Inr (), t)
     \<and> read_candidates ex_codec ex_key t = (Inl IndexTooLarge, u) \<and> read_candidates ex_codec ex_key u = (Inr [], u)"
  using overfull_index_is_lost [OF ex_codec_ok ex_candidates_ok(2), of 2000 ex_full "replicate 1024 ex_plain" 9]
    ex_full_read by simp

section \<open>Declared records and archives are written once\<close>

definition ex_platform :: platform_identity where
  "ex_platform = \<lparr>pi_rustc = ''r'', pi_cargo = ''c'', pi_os = ''linux'', pi_arch = ''x'',
     pi_path_digest = ex_key, pi_rustup_home_digest = ex_key, pi_rustup_toolchain = None,
     pi_host_cc = None, pi_host_ld = None, pi_host_ar = None\<rparr>"

definition ex_declared :: declared_record where
  "ex_declared = \<lparr>dr_protocol = 6, dr_key = ex_key, dr_name = ''n'', dr_created_ms = 3,
     dr_platform = ex_platform, dr_command = ex_command, dr_environment = [],
     dr_inputs = [ex_artifact ''src/a.rs''], dr_output_paths = [''out''],
     dr_outputs = [ex_artifact ''out/a''], dr_stdout = \<lparr>sa_digest = ex_key, sa_len = 4\<rparr>,
     dr_stderr = \<lparr>sa_digest = ex_key, sa_len = 4\<rparr>, dr_duration_ms = 1, dr_executor = ''e''\<rparr>"

definition ex_archive :: archive_manifest where
  "ex_archive = \<lparr>am_protocol = 6, am_name = ''rel'', am_tree_digest = ex_key, am_created_ms = 3,
     am_producer_action = None, am_files = [ex_artifact ''a'']\<rparr>"

lemma ex_artifacts_ok:
  "artifacts_ok [ex_artifact ''src/a.rs'']" "artifacts_ok [ex_artifact ''out/a'']" "artifacts_ok [ex_artifact ''a'']"
  using ex_key_ok by (simp_all add: artifacts_ok_def ex_artifact_def clean_def is_sep_def dotted_def ex_key_def)

lemma ex_declared_ok: "declared_ok ex_codec ex_declared"
proof -
  have "declared_action_key ex_codec ''n'' ex_platform ex_command [] [ex_artifact ''src/a.rs''] [''out''] = ex_key"
    by (simp add: declared_action_key_def ex_codec_def)
  moreover have "platform_ok ex_platform" by (simp add: platform_ok_def platform_fields_def ex_platform_def)
  moreover have "clean ''out''" by (simp add: clean_def is_sep_def dotted_def)
  moreover have "output_covered [''out''] (ex_artifact ''out/a'')"
    by (simp add: output_covered_def within_prefix ex_artifact_def is_sep_def)
  ultimately show ?thesis
    using ex_command_ok ex_output_roots ex_artifacts_ok
    by (simp add: declared_ok_def ex_declared_def protocol_version_def max_record_env_def max_record_artifacts_def)
qed

lemma ex_archive_ok: "archive_ok ex_codec ex_archive"
proof -
  have "tree_digest ex_codec [ex_artifact ''a''] = ex_key"
    by (simp add: tree_digest_def ex_codec_def ex_artifact_def)
  moreover have "validate_archive_name ''rel'' = Inr ()"
    by (simp add: validate_archive_name_def is_digit_def is_alpha_def)
  ultimately show ?thesis using ex_artifacts_ok
    by (simp add: archive_ok_def ex_archive_def protocol_version_def max_record_artifacts_def)
qed

text \<open>
  A declared record is written once: once a key reads as a record, any later publications,
  of this or other records, leave that reading as it is.
\<close>

theorem declared_first_writer_wins:
  assumes "read_declared L key s = (Inr (Some x), s)"
  shows "read_declared L key (foldl (\<lambda>s (r, now). snd (put_declared L r now s)) s rs)
           = (Inr (Some x), foldl (\<lambda>s (r, now). snd (put_declared L r now s)) s rs)"
proof -
  have "declared_found L s key = Some x"
    using assms declared_check [of L _ key]
    by (auto simp: read_declared_def declared_found_def declared_here_def
        split: option.splits sum.splits if_splits)
  then show ?thesis by (intro read_declared_found decl.first_writer_wins)
qed

definition ex_published :: "ex_doc store" where
  "ex_published = snd (put_declared ex_codec ex_declared 4 empty_store)"

lemma ex_declared_key [simp]: "dr_key ex_declared = ex_key"
  by (simp add: ex_declared_def)

lemma ex_reread: "declared_reread ex_codec ex_declared = Some ex_declared"
  using ex_declared_ok ex_codec_ok by (simp add: declared_reread_def declared_here_def)

lemma ex_published_read: "read_declared ex_codec ex_key ex_published = (Inr (Some ex_declared), ex_published)"
proof (rule read_declared_found)
  show "declared_found ex_codec ex_published ex_key = Some ex_declared"
    using decl.publish_new [OF ex_declared_ok, of empty_store 4] ex_reread
    by (auto simp: ex_published_def declared_found_def declared_broken_def)
qed

theorem declared_first_writer_wins_witness:
  "fst (read_declared ex_codec ex_key
     (snd (put_declared ex_codec (ex_declared\<lparr>dr_executor := ''other''\<rparr>) 9 ex_published))) = Inr (Some ex_declared)"
  using declared_first_writer_wins [OF ex_published_read, of "[(ex_declared\<lparr>dr_executor := ''other''\<rparr>, 9)]"]
  by simp

text \<open>
  Publishing an archive binds its name to one tree: on an unused name it succeeds, repeating it
  is accepted and changes nothing, and any later well-formed manifest for another tree is refused
  with the store unchanged.
\<close>

theorem archive_name_bound_to_tree:
  assumes "codec_ok L" and "validate_archive_manifest L m = Inr ()" and "st_archives s (am_name m) = None"
    and "validate_archive_manifest L m' = Inr ()" and "am_name m' = am_name m" and "am_tree_digest m' \<noteq> am_tree_digest m"
  shows "\<exists>t. put_archive L m now s = (Inr True, t) \<and> read_archive L (am_name m) t = (Inr (Some m), t)
       \<and> put_archive L m now' t = (Inr False, t) \<and> put_archive L m' now' t = (Inl ArchiveConflict, t)"
proof -
  have ok: "archive_ok L m" "archive_ok L m'" using assms(2,4) by (simp_all add: archive_manifest_ok)
  let ?t = "snd (put_archive L m now s)"
  have p: "put_archive L m now s = (Inr True, ?t)"
    using put_archive_fresh [OF ok(1) assms(3)] by simp
  have "archive_reread L m = Some m" using ok(1) assms(1) by (simp add: archive_reread_def archive_here_def)
  then have f: "archive_found L ?t (am_name m) = Some m"
    using arch.publish_new [OF ok(1), of s now] assms(3) p
    by (auto simp: archive_found_def archive_broken_def)
  then have "put_archive L m now' ?t = (Inr False, ?t)" "put_archive L m' now' ?t = (Inl ArchiveConflict, ?t)"
    using put_archive_found [OF ok(1), of ?t m now'] put_archive_found [OF ok(2), of ?t m now'] assms(5,6)
    by simp_all
  with p read_archive_found [OF f] show ?thesis by blast
qed

definition ex_archive2 :: archive_manifest where
  "ex_archive2 = ex_archive\<lparr>am_tree_digest := ex_ones, am_files := [ex_artifact ''~'']\<rparr>"

lemma ex_archive2_ok: "archive_ok ex_codec ex_archive2"
proof -
  have "tree_digest ex_codec [ex_artifact ''~''] = ex_ones"
    by (simp add: tree_digest_def ex_codec_def ex_artifact_def)
  moreover have "artifacts_ok [ex_artifact ''~'']"
    using ex_key_ok by (simp add: artifacts_ok_def ex_artifact_def clean_def is_sep_def dotted_def ex_key_def)
  ultimately show ?thesis using ex_archive_ok by (simp add: archive_ok_def ex_archive2_def ex_archive_def)
qed

theorem archive_name_bound_to_tree_witness:
  "\<exists>t. put_archive ex_codec ex_archive 4 empty_store = (Inr True, t)
     \<and> put_archive ex_codec ex_archive2 5 t = (Inl ArchiveConflict, t)"
  using archive_name_bound_to_tree [OF ex_codec_ok, of ex_archive empty_store ex_archive2 4 5]
    ex_archive_ok ex_archive2_ok
  by (auto simp: archive_manifest_ok) (auto simp: ex_archive2_def ex_archive_def)

text \<open>
  A record file that fails its checks heals itself: publishing a fit record over it fails once
  and moves the broken file to the quarantine; repeating the publication succeeds and the record
  reads back.
\<close>

theorem broken_record_is_quarantined:
  assumes "codec_ok L" and "validate_declared_record L r = Inr ()" and "st_declared s (dr_key r) = Some f"
    and "\<not> (\<exists>x. l_dec_declared L (df_doc f) = Some x \<and> validate_declared_record L x = Inr () \<and> dr_key x = dr_key r)"
  shows "\<exists>e t u. put_declared L r now s = (Inl e, t) \<and> st_quarantine t = st_quarantine s @ [f]
       \<and> put_declared L r now' t = (Inr True, u) \<and> read_declared L (dr_key r) u = (Inr (Some r), u)"
proof -
  have ok: "declared_ok L r" using assms(2) by (simp add: declared_record_ok)
  have b: "declared_here L (dr_key r) (df_doc f) = None"
    using assms(4) by (cases "declared_here L (dr_key r) (df_doc f)") (auto simp: declared_here_Some declared_record_ok)
  then have broken: "declared_broken L s (dr_key r)" using assms(3) by (simp add: declared_broken_def declared_found_def)
  have reread: "declared_reread L r = Some r" using ok assms(1) by (simp add: declared_reread_def declared_here_def)
  obtain e t u where "put_declared L r now s = (Inl e, t)" "put_declared L r now' t = (Inr True, u)"
    and "declared_found L u (dr_key r) = Some r"
    using decl.broken_then_published [OF ok broken reread, of now now'] by blast
  moreover have "t = quarantine_declared (dr_key r) f s"
    using calculation(1) read_declared_broken [OF declared_ok_key [OF ok] assms(3) b] declared_ok_key [OF ok]
    by (auto simp: put_declared_fit [OF ok] put_declared_unlocked_def put_unfold)
  ultimately show ?thesis by (auto simp: quarantine_declared_def read_declared_found)
qed

definition ex_broken :: "ex_doc store" where
  "ex_broken = empty_store\<lparr>st_declared := [ex_key \<mapsto> \<lparr>df_doc = Doc_junk, df_modified = 1\<rparr>]\<rparr>"

theorem broken_record_is_quarantined_witness:
  "\<exists>e t u. put_declared ex_codec ex_declared 2 ex_broken = (Inl e, t)
     \<and> put_declared ex_codec ex_declared 3 t = (Inr True, u)"
proof -
  have f: "st_declared ex_broken (dr_key ex_declared) = Some \<lparr>df_doc = Doc_junk, df_modified = 1\<rparr>"
    by (simp add: ex_broken_def)
  have "validate_declared_record ex_codec ex_declared = Inr ()" using ex_declared_ok by (simp add: declared_record_ok)
  from broken_record_is_quarantined [OF ex_codec_ok this f, of 2 3] show ?thesis by (auto simp: ex_codec_def)
qed

end
