(* ===== verification/Server_State.thy ===== *)
theory Server_State
  imports Store_Props
begin

text \<open>
  The cache server's state, its errors and its gate (\<open>crates/bellows-server/src/main.rs\<close>): the
  start-up checks of \<open>serve\<close>, \<open>authorize\<close>, and the lease table of single-flight builds. HTTP, TLS
  and JSON framing are axum's; a handler is a function from the state to a result and the state
  afterwards. The write lock makes a publication one such step.
\<close>

section \<open>Errors\<close>

text \<open>\<open>ApiError(status, message)\<close>; a formatted message keeps its arguments.\<close>

datatype api_text =
    Text string
  | Of_check check_error
  | Of_store store_error
  | Blob_text string string
  | Output_outside string
  | Env_forbidden string
  | Exec_failed

datatype api_error = Api_error nat api_text

definition internal :: "'e \<Rightarrow> api_error" where
  "internal e = Api_error 500 (Text ''internal server error'')"

definition bad_request :: "api_text \<Rightarrow> api_error" where
  "bad_request t = Api_error 400 t"

definition not_found :: "string \<Rightarrow> api_error" where
  "not_found m = Api_error 404 (Text m)"

section \<open>State\<close>

record server_lease =
  sl_token :: string
  sl_expires_ms :: nat

text \<open>
  \<open>AppState\<close>. The \<open>HashMap\<close> of leases is an association list with one entry per key; the locks and
  the semaphore are the interleaving, not state.
\<close>

record 'b app =
  ap_store :: "'b store"
  ap_max_blob_bytes :: nat
  ap_auth_token :: "string option"
  ap_max_candidates :: nat
  ap_leases :: "(string \<times> server_lease) list"
  ap_enable_execution :: bool

type_synonym ('b, 'a) handler = "'b app \<Rightarrow> (api_error + 'a) \<times> 'b app"

definition a_bind :: "('b, 'a) handler \<Rightarrow> ('a \<Rightarrow> ('b, 'c) handler) \<Rightarrow> ('b, 'c) handler" where
  "a_bind f g ap = (case f ap of (Inl e, ap') \<Rightarrow> (Inl e, ap') | (Inr a, ap') \<Rightarrow> g a ap')"

definition a_lift :: "api_error + 'a \<Rightarrow> ('b, 'a) handler" where
  "a_lift r ap = (r, ap)"

text \<open>A store operation with its error mapped.\<close>

definition on_store :: "(store_error \<Rightarrow> api_error) \<Rightarrow> ('b, 'a) store_op \<Rightarrow> ('b, 'a) handler" where
  "on_store h f ap = (let (r, s) = f (ap_store ap) in (map_err h r, ap\<lparr>ap_store := s\<rparr>))"

section \<open>Starting\<close>

record server_args =
  sv_listen_loopback :: bool
  sv_auth_token :: "string option"
  sv_allow_insecure_no_auth :: bool
  sv_max_candidates :: nat
  sv_max_blob_mb :: nat
  sv_enable_execution :: bool
  sv_max_executors :: nat
  sv_max_requests :: nat
  sv_max_store_gb :: "nat option"
  sv_gc_interval_mins :: nat

datatype start_error =
    Zero_argument string | Empty_auth_token | Unauthenticated_listener | Execution_needs_token | Platform_undetected

text \<open>
  \<open>detected\<close> tells whether \<open>PlatformIdentity::detect\<close> succeeds; opening and locking the data
  directory is outside the model.
\<close>

definition start_checks :: "server_args \<Rightarrow> bool \<Rightarrow> start_error + unit" where
  "start_checks args detected =
     r_then (ensure (sv_max_candidates args \<noteq> 0) (Zero_argument ''--max-candidates''))
    (r_then (ensure (sv_max_blob_mb args \<noteq> 0) (Zero_argument ''--max-blob-mb''))
    (r_then (ensure (sv_max_executors args \<noteq> 0) (Zero_argument ''--max-executors''))
    (r_then (ensure (sv_max_requests args \<noteq> 0) (Zero_argument ''--max-requests''))
    (r_then (ensure (sv_gc_interval_mins args \<noteq> 0) (Zero_argument ''--gc-interval-mins''))
    (r_then (ensure (sv_auth_token args \<noteq> Some []) Empty_auth_token)
    (r_then (ensure (sv_listen_loopback args \<or> sv_auth_token args \<noteq> None \<or> sv_allow_insecure_no_auth args)
       Unauthenticated_listener)
    (r_then (ensure (\<not> sv_enable_execution args \<or> sv_auth_token args \<noteq> None) Execution_needs_token)
    (ensure (\<not> sv_enable_execution args \<or> detected) Platform_undetected))))))))"

definition start_server :: "server_args \<Rightarrow> bool \<Rightarrow> 'b store \<Rightarrow> start_error + 'b app" where
  "start_server args detected s =
     r_then (start_checks args detected)
       (Inr \<lparr>ap_store = s, ap_max_blob_bytes = sat_mul64 (sv_max_blob_mb args) (1024 * 1024),
          ap_auth_token = sv_auth_token args, ap_max_candidates = sv_max_candidates args,
          ap_leases = [], ap_enable_execution = sv_enable_execution args\<rparr>)"

section \<open>Authorization\<close>

text \<open>
  \<open>header\<close> is the \<open>Authorization\<close> header's value, if any; \<open>HeaderValue::to_str\<close> accepts visible
  ASCII and tabs. The comparison is of the two BLAKE3 hashes, in constant time.
\<close>

definition header_text :: "string \<Rightarrow> string option" where
  "header_text v =
     (if list_all (\<lambda>c. (32 \<le> (of_char c :: nat) \<and> (of_char c :: nat) < 127) \<or> (of_char c :: nat) = 9) v
      then Some v else None)"

definition supplied_token :: "string option \<Rightarrow> string" where
  "supplied_token header =
     (case Option.bind (Option.bind header header_text) (strip_prefix ''Bearer '') of None \<Rightarrow> [] | Some t \<Rightarrow> t)"

definition authorize :: "'b lib \<Rightarrow> 'b app \<Rightarrow> string option \<Rightarrow> api_error + unit" where
  "authorize L ap header =
     (case ap_auth_token ap of
        None \<Rightarrow> Inr ()
      | Some expected \<Rightarrow>
          ensure (l_hash L expected = l_hash L (supplied_token header))
            (Api_error 401 (Text ''missing or invalid bearer token'')))"

text \<open>Every handler begins with \<open>authorize(&state, &headers)?\<close>.\<close>

definition authorized :: "'b lib \<Rightarrow> string option \<Rightarrow> ('b, 'a) handler \<Rightarrow> ('b, 'a) handler" where
  "authorized L header h ap =
     (case authorize L ap header of Inl e \<Rightarrow> (Inl e, ap) | Inr _ \<Rightarrow> h ap)"

section \<open>Single-flight leases\<close>

datatype lease_response = Owned string nat | Wait nat nat

record lease_request =
  lr_client_id :: string
  lr_ttl_ms :: nat

definition clamp :: "nat \<Rightarrow> nat \<Rightarrow> nat \<Rightarrow> nat" where
  "clamp lo hi n = (if n < lo then lo else if hi < n then hi else n)"

definition lease_token :: "'b lib \<Rightarrow> string \<Rightarrow> string \<Rightarrow> nat \<Rightarrow> string" where
  "lease_token L client_id static_key now = l_hash L (client_id @ '':'' @ static_key @ '':'' @ dec_string now)"

definition acquire_lease :: "'b lib \<Rightarrow> string option \<Rightarrow> nat \<Rightarrow> string \<Rightarrow> lease_request \<Rightarrow> ('b, lease_response) handler" where
  "acquire_lease L header now static_key request = authorized L header (\<lambda>ap.
     let leases = filter (\<lambda>(_, l). sl_expires_ms l > now) (ap_leases ap)
     in case map_of leases static_key of
          Some l \<Rightarrow> (Inr (Wait 150 (sl_expires_ms l)), ap\<lparr>ap_leases := leases\<rparr>)
        | None \<Rightarrow>
            let ttl = clamp 1000 (10 * 60 * 1000) (lr_ttl_ms request);
                token = lease_token L (lr_client_id request) static_key now;
                expires_ms = wrap_add64 now ttl
            in (Inr (Owned token expires_ms),
                ap\<lparr>ap_leases := (static_key, \<lparr>sl_token = token, sl_expires_ms = expires_ms\<rparr>) # leases\<rparr>))"

definition release_lease :: "'b lib \<Rightarrow> string option \<Rightarrow> string \<Rightarrow> string \<Rightarrow> ('b, unit) handler" where
  "release_lease L header static_key tok = authorized L header (\<lambda>ap.
     case map_of (ap_leases ap) static_key of
       Some l \<Rightarrow>
         if sl_token l = tok
         then (Inr (), ap\<lparr>ap_leases := filter (\<lambda>(k, _). k \<noteq> static_key) (ap_leases ap)\<rparr>)
         else (Inl (not_found ''lease not found''), ap)
     | None \<Rightarrow> (Inl (not_found ''lease not found''), ap))"

end
