(* ===== verification/Server_Handlers.thy ===== *)
theory Server_Handlers
  imports Server_State
begin

text \<open>
  The handlers that read and publish blobs, candidates, declared records and archives, and the
  statistics (\<open>crates/bellows-server/src/main.rs\<close>).
\<close>

section \<open>Blobs\<close>

record health_response =
  hr_service :: string
  hr_protocol :: nat
  hr_version :: string

text \<open>\<open>check_writable\<close> writes and removes a probe file outside the four record directories.\<close>

definition health :: "'b lib \<Rightarrow> string \<Rightarrow> string option \<Rightarrow> ('b, health_response) handler" where
  "health L version header = authorized L header (\<lambda>ap.
     (Inr \<lparr>hr_service = ''bellowsd'', hr_protocol = protocol_version, hr_version = version\<rparr>, ap))"

text \<open>The body streams the file as it is; the length is the file's.\<close>

definition get_blob :: "'b lib \<Rightarrow> string option \<Rightarrow> string \<Rightarrow> ('b, string) handler" where
  "get_blob L header digest = authorized L header (\<lambda>ap.
     (case blob_path digest of
        Inl (Check e) \<Rightarrow> (Inl (bad_request (Of_check e)), ap)
      | Inl e \<Rightarrow> (Inl (bad_request (Of_store e)), ap)
      | Inr _ \<Rightarrow>
          (case st_blobs (ap_store ap) digest of
             None \<Rightarrow> (Inl (not_found ''blob not found''), ap)
           | Some f \<Rightarrow> (Inr (bf_bytes f), ap))))"

definition key_error :: "store_error \<Rightarrow> api_error" where
  "key_error e = bad_request (case e of Check c \<Rightarrow> Of_check c | _ \<Rightarrow> Of_store e)"

definition head_blob :: "'b lib \<Rightarrow> string option \<Rightarrow> nat \<Rightarrow> string \<Rightarrow> ('b, unit) handler" where
  "head_blob L header now digest = authorized L header (\<lambda>ap.
     (case blob_path digest of
        Inl e \<Rightarrow> (Inl (key_error e), ap)
      | Inr _ \<Rightarrow>
          if st_blobs (ap_store ap) digest = None then (Inl (not_found ''blob not found''), ap)
          else (case read_blob L digest (ap_store ap) of
                  Inl _ \<Rightarrow> (Inl (not_found ''blob is corrupt''), ap)
                | Inr _ \<Rightarrow> on_store internal (touch_blob digest now) ap)))"

text \<open>
  \<open>receive_blob\<close>: the chunks of the body, the last of which may be a read error. A chunk is shorter
  than the address space, so the running length does not wrap before the limit is checked.
\<close>

fun receive_loop :: "nat \<Rightarrow> nat \<Rightarrow> string \<Rightarrow> (string + string) list \<Rightarrow> api_error + string" where
  "receive_loop limit len received [] = Inr received"
| "receive_loop limit len received (Inl e # chunks) = Inl (bad_request (Text (''read upload: '' @ e)))"
| "receive_loop limit len received (Inr chunk # chunks) =
     (let len' = len + length chunk
      in if len' > limit then Inl (Api_error 413 (Text ''blob exceeds the server's size limit''))
         else receive_loop limit len' (received @ chunk) chunks)"

definition receive_blob :: "nat \<Rightarrow> (string + string) list \<Rightarrow> api_error + string" where
  "receive_blob limit chunks = receive_loop limit 0 [] chunks"

datatype put_status = Created | Unchanged

definition put_status :: "bool \<Rightarrow> put_status" where
  "put_status created = (if created then Created else Unchanged)"

definition put_blob_handler :: "'b lib \<Rightarrow> string option \<Rightarrow> nat \<Rightarrow> string \<Rightarrow> (string + string) list \<Rightarrow> ('b, put_status) handler" where
  "put_blob_handler L header now digest body = authorized L header (\<lambda>ap.
     (case blob_path digest of
        Inl e \<Rightarrow> (Inl (key_error e), ap)
      | Inr _ \<Rightarrow>
          (case receive_blob (ap_max_blob_bytes ap) body of
             Inl e \<Rightarrow> (Inl e, ap)
           | Inr temp \<Rightarrow>
               if l_hash L temp \<noteq> digest then (Inl (bad_request (Text ''blob digest mismatch'')), ap)
               else a_bind (on_store internal (commit_blob L digest temp now))
                      (\<lambda>created. a_lift (Inr (put_status created))) ap)))"

section \<open>Candidates\<close>

definition get_candidates :: "'b lib \<Rightarrow> string option \<Rightarrow> string \<Rightarrow> ('b, candidate_index) handler" where
  "get_candidates L header static_key = authorized L header
     (a_bind (on_store internal (read_candidates L static_key)) (\<lambda>index.
        a_lift (if index = [] then Inl (not_found ''action not found'') else Inr index)))"

definition check_blob :: "'b lib \<Rightarrow> 'b store \<Rightarrow> string \<Rightarrow> string \<Rightarrow> api_error + string" where
  "check_blob L s what digest = map_err (\<lambda>_. bad_request (Blob_text what digest)) (read_blob L digest s)"

definition check_stream :: "'b lib \<Rightarrow> 'b store \<Rightarrow> string \<Rightarrow> string \<Rightarrow> stream_artifact \<Rightarrow> api_error + unit" where
  "check_stream L s what mismatch stream =
     r_bind (check_blob L s what (sa_digest stream)) (\<lambda>bytes.
       ensure (length bytes = sa_len stream) (bad_request (Text mismatch)))"

definition candidate_checks :: "'b lib \<Rightarrow> 'b store \<Rightarrow> action_candidate \<Rightarrow> api_error + unit" where
  "candidate_checks L s c =
     r_then (map_err (\<lambda>e. bad_request (Of_check e)) (validate_candidate_manifest L c))
    (r_then (check_all (\<lambda>a. r_bind (check_blob L s ''referenced blob'' (ar_digest a)) (\<lambda>_. Inr ())) (ac_artifacts c))
       (check_all (check_stream L s ''referenced blob'' ''compiler stream length does not match manifest'')
          [ac_stdout c, ac_stderr c]))"

text \<open>The write lock is held from the first check to the last write.\<close>

definition store_candidate :: "'b lib \<Rightarrow> nat \<Rightarrow> action_candidate \<Rightarrow> ('b, unit) handler" where
  "store_candidate L now c ap =
     (case candidate_checks L (ap_store ap) c of
        Inl e \<Rightarrow> (Inl e, ap)
      | Inr _ \<Rightarrow> on_store internal (put_candidate L c (ap_max_candidates ap) now) ap)"

definition put_candidate_handler :: "'b lib \<Rightarrow> string option \<Rightarrow> nat \<Rightarrow> string \<Rightarrow> string \<Rightarrow> action_candidate \<Rightarrow> ('b, unit) handler" where
  "put_candidate_handler L header now static_key action_key c = authorized L header (\<lambda>ap.
     if ac_static_key c \<noteq> static_key \<or> ac_action_key c \<noteq> action_key
     then (Inl (bad_request (Text ''action key does not match path'')), ap)
     else store_candidate L now c ap)"

definition record_use_handler :: "'b lib \<Rightarrow> string option \<Rightarrow> nat \<Rightarrow> string \<Rightarrow> string \<Rightarrow> ('b, unit) handler" where
  "record_use_handler L header now static_key action_key = authorized L header (\<lambda>ap.
     (case r_then (validate_content_key static_key) (validate_content_key action_key) of
        Inl e \<Rightarrow> (Inl (bad_request (Of_check e)), ap)
      | Inr _ \<Rightarrow> on_store internal (record_use static_key action_key now) ap))"

section \<open>Declared records and archives\<close>

definition get_declared :: "'b lib \<Rightarrow> string option \<Rightarrow> string \<Rightarrow> ('b, declared_record) handler" where
  "get_declared L header key = authorized L header
     (a_bind (on_store internal (read_declared L key)) (\<lambda>found.
        a_lift (case found of None \<Rightarrow> Inl (not_found ''declared action not found'') | Some r \<Rightarrow> Inr r)))"

definition verify_artifact :: "'b lib \<Rightarrow> 'b store \<Rightarrow> string \<Rightarrow> artifact \<Rightarrow> api_error + unit" where
  "verify_artifact L s what a =
     r_bind (map_err (\<lambda>e. bad_request (Of_check e)) (validate_relative_path (ar_file_name a))) (\<lambda>_.
     r_bind (check_blob L s what (ar_digest a)) (\<lambda>_. Inr ()))"

definition verify_declared_record :: "'b lib \<Rightarrow> 'b store \<Rightarrow> declared_record \<Rightarrow> api_error + unit" where
  "verify_declared_record L s r =
     r_then (map_err (\<lambda>e. bad_request (Of_check e)) (validate_declared_record L r))
    (r_then (map_err (\<lambda>e. bad_request (Of_check e)) (validate_declared_command (dr_command r)))
    (r_then (ensure (declared_action_key L (dr_name r) (dr_platform r) (dr_command r) (dr_environment r)
        (dr_inputs r) (dr_output_paths r) = dr_key r) (bad_request (Text ''record key does not match manifest'')))
    (r_then (check_all (verify_artifact L s ''record blob'') (dr_inputs r @ dr_outputs r))
    (r_then (check_all (\<lambda>a. ensure (list_ex (relative_path_is_within (ar_file_name a)) (dr_output_paths r))
        (bad_request (Output_outside (ar_file_name a)))) (dr_outputs r))
       (check_all (check_stream L s ''stream blob'' ''stream length does not match manifest'')
          [dr_stdout r, dr_stderr r])))))"

definition put_declared_handler :: "'b lib \<Rightarrow> string option \<Rightarrow> nat \<Rightarrow> string \<Rightarrow> declared_record \<Rightarrow> ('b, put_status) handler" where
  "put_declared_handler L header now key r = authorized L header (\<lambda>ap.
     if dr_key r \<noteq> key then (Inl (bad_request (Text ''declared key does not match path'')), ap)
     else (case verify_declared_record L (ap_store ap) r of
             Inl e \<Rightarrow> (Inl e, ap)
           | Inr _ \<Rightarrow> a_bind (on_store internal (put_declared L r now))
               (\<lambda>created. a_lift (Inr (put_status created))) ap))"

definition get_archive :: "'b lib \<Rightarrow> string option \<Rightarrow> string \<Rightarrow> ('b, archive_manifest) handler" where
  "get_archive L header name = authorized L header
     (a_bind (on_store internal (read_archive L name)) (\<lambda>found.
        a_lift (case found of None \<Rightarrow> Inl (not_found ''archive not found'') | Some m \<Rightarrow> Inr m)))"

text \<open>
  \<open>contains("already bound")\<close> on the error's text picks out the conflict: no other message has the
  phrase, unless the data directory's own path does.
\<close>

definition archive_error :: "store_error \<Rightarrow> api_error" where
  "archive_error e = (if e = ArchiveConflict then Api_error 409 (Of_store e) else internal e)"

definition archive_checks :: "'b lib \<Rightarrow> 'b store \<Rightarrow> archive_manifest \<Rightarrow> api_error + unit" where
  "archive_checks L s m =
     r_then (map_err (\<lambda>e. bad_request (Of_check e)) (validate_archive_manifest L m))
    (r_then (check_all (verify_artifact L s ''archive blob'') (am_files m))
       (ensure (tree_digest L (am_files m) = am_tree_digest m) (bad_request (Text ''archive tree digest mismatch''))))"

definition put_archive_handler :: "'b lib \<Rightarrow> string option \<Rightarrow> nat \<Rightarrow> string \<Rightarrow> archive_manifest \<Rightarrow> ('b, put_status) handler" where
  "put_archive_handler L header now name m = authorized L header (\<lambda>ap.
     if am_name m \<noteq> name then (Inl (bad_request (Text ''archive name does not match path'')), ap)
     else (case archive_checks L (ap_store ap) m of
             Inl e \<Rightarrow> (Inl e, ap)
           | Inr _ \<Rightarrow> a_bind (on_store archive_error (put_archive L m now))
               (\<lambda>created. a_lift (Inr (put_status created))) ap))"

section \<open>Statistics\<close>

text \<open>
  What \<open>read_dir\<close> gives: the names in each directory in some order, each once. The functions that
  walk the store take it as an argument.
\<close>

record listing =
  ls_blobs :: "string list"
  ls_actions :: "string list"
  ls_declared :: "string list"
  ls_archives :: "string list"

definition lists :: "string list \<Rightarrow> (string \<rightharpoonup> 'f) \<Rightarrow> bool" where
  "lists names m \<longleftrightarrow> distinct names \<and> set names = dom m"

definition listing_of :: "listing \<Rightarrow> 'b store \<Rightarrow> bool" where
  "listing_of ls s \<longleftrightarrow> lists (ls_blobs ls) (st_blobs s) \<and> lists (ls_actions ls) (st_actions s)
     \<and> lists (ls_declared ls) (st_declared s) \<and> lists (ls_archives ls) (st_archives s)"

record server_stats =
  ss_blobs :: nat
  ss_blob_bytes :: nat
  ss_action_indexes :: nat
  ss_candidates :: nat
  ss_active_leases :: nat
  ss_declared_actions :: nat
  ss_archives :: nat

text \<open>\<open>count_files\<close>: every record file has the extension \<open>json\<close>.\<close>

definition count_files :: "string list \<Rightarrow> (string \<Rightarrow> nat option) \<Rightarrow> nat \<times> nat" where
  "count_files names size_of = foldl (\<lambda>(count, bytes) n. case size_of n of None \<Rightarrow> (count, bytes)
     | Some b \<Rightarrow> (count + 1, bytes + b)) (0, 0) names"

fun count_candidates :: "'b lib \<Rightarrow> 'b store \<Rightarrow> string list \<Rightarrow> nat \<Rightarrow> store_error + nat" where
  "count_candidates L s [] n = Inr n"
| "count_candidates L s (k # ks) n =
     (case st_actions s k of
        None \<Rightarrow> count_candidates L s ks n
      | Some f \<Rightarrow> (case l_dec_index L (df_doc f) of
                    None \<Rightarrow> Inl RecordUndecodable
                  | Some index \<Rightarrow> count_candidates L s ks (n + length index)))"

definition collect_stats :: "'b lib \<Rightarrow> listing \<Rightarrow> 'b store \<Rightarrow> nat \<Rightarrow> store_error + server_stats" where
  "collect_stats L ls s active_leases =
     (let (blobs, blob_bytes) = count_files (ls_blobs ls) (\<lambda>d. map_option (\<lambda>f. length (bf_bytes f)) (st_blobs s d));
          present = (\<lambda>m k. map_option (\<lambda>_. 0) (m k))
      in r_bind (count_candidates L s (ls_actions ls) 0) (\<lambda>candidates.
           Inr \<lparr>ss_blobs = blobs, ss_blob_bytes = blob_bytes,
              ss_action_indexes = fst (count_files (ls_actions ls) (present (st_actions s))),
              ss_candidates = candidates, ss_active_leases = active_leases,
              ss_declared_actions = fst (count_files (ls_declared ls) (present (st_declared s))),
              ss_archives = fst (count_files (ls_archives ls) (present (st_archives s)))\<rparr>))"

definition stats :: "'b lib \<Rightarrow> listing \<Rightarrow> string option \<Rightarrow> nat \<Rightarrow> ('b, server_stats) handler" where
  "stats L ls header now = authorized L header (\<lambda>ap.
     let active_leases = length (filter (\<lambda>(_, l). sl_expires_ms l > now) (ap_leases ap))
     in (map_err internal (collect_stats L ls (ap_store ap) active_leases), ap))"

end
