(* ===== verification/Text_Lines.thy ===== *)
theory Text_Lines
  imports Bellows_Prelude
begin

text \<open>
  The text operations of Rust's standard library that the store's journal, the dep-info parser and
  the path normalizer use: \<open>str::lines\<close>, \<open>split_inclusive\<close>, \<open>split_once\<close> with a string pattern,
  \<open>str::replace\<close>, \<open>trim_end_matches\<close> and \<open>u64::from_str\<close>.
\<close>

section \<open>Lines\<close>

definition lf :: char where "lf = CHR 0x0A"
definition cr :: char where "cr = CHR 0x0D"

text \<open>\<open>split_inclusive('\n')\<close>: every line keeps its line feed; no empty last line.\<close>

fun split_inclusive :: "string \<Rightarrow> string list" where
  "split_inclusive [] = []"
| "split_inclusive (c # s) =
     (if c = lf then [c] # split_inclusive s
      else (case split_inclusive s of [] \<Rightarrow> [[c]] | w # ws \<Rightarrow> (c # w) # ws))"

definition strip_suffix1 :: "char \<Rightarrow> string \<Rightarrow> string option" where
  "strip_suffix1 c s = (if s \<noteq> [] \<and> last s = c then Some (butlast s) else None)"

definition strip_eol :: "string \<Rightarrow> string" where
  "strip_eol line =
     (case strip_suffix1 lf line of
        None \<Rightarrow> line
      | Some body \<Rightarrow> (case strip_suffix1 cr body of None \<Rightarrow> body | Some body' \<Rightarrow> body'))"

definition str_lines :: "string \<Rightarrow> string list" where
  "str_lines s = map strip_eol (split_inclusive s)"

lemma split_inclusive_line: "lf \<notin> set w \<Longrightarrow> split_inclusive (w @ lf # s) = (w @ [lf]) # split_inclusive s"
  by (induction w) auto

lemma split_inclusive_concat: "concat (split_inclusive s) = s"
  by (induction s) (auto split: list.splits)

lemma str_lines_line:
  assumes "lf \<notin> set w" and "w = [] \<or> last w \<noteq> cr"
  shows "str_lines (w @ lf # s) = w # str_lines s"
  using assms by (auto simp: str_lines_def split_inclusive_line strip_eol_def strip_suffix1_def)

lemma str_lines_Nil [simp]: "str_lines [] = []"
  by (simp add: str_lines_def)

section \<open>Splitting and trimming\<close>

fun split_once_str :: "string \<Rightarrow> string \<Rightarrow> (string \<times> string) option" where
  "split_once_str pat s =
     (if prefix pat s then Some ([], drop (length pat) s)
      else (case s of [] \<Rightarrow> None
            | c # s' \<Rightarrow> map_option (\<lambda>(a, b). (c # a, b)) (split_once_str pat s')))"

declare split_once_str.simps [simp del]

definition trim_end_matches :: "(char \<Rightarrow> bool) \<Rightarrow> string \<Rightarrow> string" where
  "trim_end_matches p s = rev (dropWhile p (rev s))"

lemma trim_end_matches_id: "s = [] \<or> \<not> p (last s) \<Longrightarrow> trim_end_matches p s = s"
  by (cases s rule: rev_cases) (auto simp: trim_end_matches_def)

section \<open>Replacement\<close>

text \<open>
  \<open>str::replace\<close>: left to right, without overlaps. An empty pattern matches at every character
  boundary, that is before every byte that is not a continuation byte, and at the end.
\<close>

definition is_continuation :: "char \<Rightarrow> bool" where
  "is_continuation c \<longleftrightarrow> 128 \<le> (of_char c :: nat) \<and> (of_char c :: nat) < 192"

function replace_all :: "string \<Rightarrow> string \<Rightarrow> string \<Rightarrow> string" where
  "replace_all pat to s =
     (if pat \<noteq> [] \<and> prefix pat s then to @ replace_all pat to (drop (length pat) s)
      else (case s of [] \<Rightarrow> [] | c # s' \<Rightarrow> c # replace_all pat to s'))"
  by pat_completeness auto
termination
  by (relation "measure (\<lambda>(pat, to, s). length s)") (auto simp: prefix_def)

declare replace_all.simps [simp del]

definition str_replace :: "string \<Rightarrow> string \<Rightarrow> string \<Rightarrow> string" where
  "str_replace pat to s =
     (if pat = [] then concat (map (\<lambda>c. if is_continuation c then [c] else to @ [c]) s) @ to
      else replace_all pat to s)"

lemma replace_all_Nil [simp]: "replace_all pat to [] = []"
  by (subst replace_all.simps) simp

lemma replace_all_match: "pat \<noteq> [] \<Longrightarrow> replace_all pat to (pat @ s) = to @ replace_all pat to s"
  by (subst replace_all.simps) simp

lemma replace_all_skip: "\<not> prefix pat (c # s) \<Longrightarrow> replace_all pat to (c # s) = c # replace_all pat to s"
  by (subst replace_all.simps) simp

lemma replace_all_absent: "\<not> sublist pat s \<Longrightarrow> replace_all pat to s = s"
proof (induction s)
  case (Cons c s)
  then have "\<not> prefix pat (c # s)" "\<not> sublist pat s" by (simp_all add: sublist_Cons_right)
  then show ?case using Cons.IH by (simp add: replace_all_skip)
qed simp

section \<open>Numbers\<close>

text \<open>\<open>u64::from_str\<close>: an optional plus sign, then one or more digits, within 64 bits.\<close>

definition digits_value :: "string \<Rightarrow> nat" where
  "digits_value ds = foldl (\<lambda>n c. 10 * n + (of_char c - 48)) 0 ds"

definition u64_from_str :: "string \<Rightarrow> nat option" where
  "u64_from_str s =
     (let ds = (case s of c # rest \<Rightarrow> if c = CHR ''+'' then rest else s | [] \<Rightarrow> [])
      in if ds \<noteq> [] \<and> list_all is_digit ds \<and> digits_value ds \<le> u64_max then Some (digits_value ds) else None)"

lemma digits_value_snoc: "digits_value (ds @ [c]) = 10 * digits_value ds + (of_char c - 48)"
  by (simp add: digits_value_def)

lemma digits_value_dec_string: "digits_value (dec_string n) = n"
proof (induction n rule: dec_string.induct)
  case (1 n)
  have d: "of_char (digit_char (n mod 10)) - (48 :: nat) = n mod 10" by (simp add: of_char_digit_char)
  show ?case
  proof (cases "n < 10")
    case True
    then show ?thesis using d by (subst dec_string.simps) (simp add: digits_value_def)
  next
    case False
    have "digits_value (dec_string n) = 10 * digits_value (dec_string (n div 10)) + n mod 10"
      using False d by (subst dec_string.simps) (simp add: digits_value_snoc)
    then show ?thesis using 1 [OF False] by simp
  qed
qed

lemma u64_from_str_dec: "n \<le> u64_max \<Longrightarrow> u64_from_str (dec_string n) = Some n"
proof -
  assume "n \<le> u64_max"
  have "list_all is_digit (dec_string n)" by (auto simp: list_all_iff intro: dec_string_digits)
  moreover obtain c rest where cs: "dec_string n = c # rest" by (cases "dec_string n") auto
  moreover have "c \<noteq> CHR ''+''" using dec_string_digits [of c n] cs by (auto simp: is_digit_def)
  moreover have "digits_value (c # rest) = n" using digits_value_dec_string [of n] cs by simp
  ultimately show ?thesis using \<open>n \<le> u64_max\<close> by (simp add: u64_from_str_def Let_def)
qed

end
