(* ===== verification/GC_Journal.thy ===== *)
theory GC_Journal
  imports GC_Plan_Props Server_Handlers Text_Lines
begin

text \<open>
  The access journal as the collector sees it (\<open>crates/bellows-core/src/gc.rs\<close>): reading it into
  the newest use per candidate, setting it aside before a collection, following what is appended
  during one (\<open>Recent\<close>), and rewriting it afterwards. \<open>from_utf8_lossy\<close> is left out: it only
  changes bytes outside ASCII, and a field with such a byte is rejected with or without it.
\<close>

section \<open>Parsing\<close>

definition parse_line :: "string \<Rightarrow> (string \<times> string \<times> nat) option" where
  "parse_line line =
     (case split_on (\<lambda>c. c = CHR '' '') line of
        [key, action, ms] \<Rightarrow>
          (case r_then (validate_content_key key) (validate_content_key action) of
             Inl _ \<Rightarrow> None
           | Inr _ \<Rightarrow> map_option (\<lambda>ms. (key, action, ms)) (u64_from_str ms))
      | _ \<Rightarrow> None)"

definition parse_lines :: "string \<Rightarrow> (string \<times> string \<times> nat) list" where
  "parse_lines bytes = List.map_filter parse_line (str_lines bytes)"

section \<open>Reading\<close>

text \<open>\<open>Path::extension\<close> of a file name.\<close>

definition file_extension :: "string \<Rightarrow> string option" where
  "file_extension name =
     (if CHR ''.'' \<notin> set name then None
      else let ext = rev (takeWhile (\<lambda>c. c \<noteq> CHR ''.'') (rev name))
           in if length ext + 1 = length name then None else Some ext)"

definition journal_file :: string where "journal_file = ''journal.log''"

definition access_files :: "'b store \<Rightarrow> (string \<times> string) list" where
  "access_files s = (case st_journal s of None \<Rightarrow> [] | Some j \<Rightarrow> [(journal_file, j)]) @ st_rotated s"

text \<open>The \<open>HashMap\<close> of newest uses, as the sorted list of its entries.\<close>

type_synonym uses = "((string \<times> string) \<times> nat) list"

definition last_use :: "uses \<Rightarrow> string \<Rightarrow> string \<Rightarrow> nat" where
  "last_use uses key action = (case map_of uses (key, action) of None \<Rightarrow> 0 | Some ms \<Rightarrow> ms)"

definition note_use :: "uses \<Rightarrow> string \<times> string \<times> nat \<Rightarrow> uses" where
  "note_use uses entry =
     (let (key, action, ms) = entry in bt_insert (key, action) (max (last_use uses key action) ms) uses)"

definition read_journal :: "'b store \<Rightarrow> uses" where
  "read_journal s =
     foldl note_use [] (concat (map (\<lambda>(name, bytes). if file_extension name = Some ''log'' then parse_lines bytes else [])
       (access_files s)))"

section \<open>Rotation and compaction\<close>

definition put_file :: "string \<Rightarrow> string \<Rightarrow> (string \<times> string) list \<Rightarrow> (string \<times> string) list" where
  "put_file name bytes files = filter (\<lambda>(n, _). n \<noteq> name) files @ [(name, bytes)]"

definition rotate_journal :: "nat \<Rightarrow> nat \<Rightarrow> 'b store \<Rightarrow> 'b store" where
  "rotate_journal now pid s =
     (case st_journal s of
        None \<Rightarrow> s
      | Some j \<Rightarrow> s\<lparr>st_journal := None,
          st_rotated := put_file (''journal-'' @ dec_string now @ ''-'' @ dec_string pid @ ''.log'') j (st_rotated s)\<rparr>)"

definition compact_line :: "gc_unit \<times> bool \<Rightarrow> string" where
  "compact_line entry =
     (let (u, evicted) = entry
      in case (u_static_key u, u_candidate u) of
           (Some key, Some (action, created)) \<Rightarrow>
             if \<not> evicted \<and> u_last_used_ms u > created then journal_line key action (u_last_used_ms u) else []
         | _ \<Rightarrow> [])"

definition compact_name :: "snapshot \<Rightarrow> string" where
  "compact_name sn = ''compact-'' @ dec_string (sn_started_ms sn) @ ''.log''"

text \<open>\<open>read\<close>: the files the directory had before the compact one was written.\<close>

definition compact_journal :: "snapshot \<Rightarrow> plan \<Rightarrow> 'b store \<Rightarrow> 'b store" where
  "compact_journal sn p s =
     (let read = filter (\<lambda>n. n \<noteq> journal_file \<and> suffix ''.log'' n) (map fst (access_files s));
          lines = concat (map compact_line (zip (sn_units sn) (pl_evicted p)));
          files = (if lines = [] then st_rotated s else put_file (compact_name sn) lines (st_rotated s));
          removed = filter (\<lambda>n. n \<noteq> compact_name sn) read
      in s\<lparr>st_rotated := filter (\<lambda>(n, _). n \<notin> set removed) files\<rparr>)"

section \<open>Following the journal\<close>

record recent =
  rc_offset :: nat
  rc_uses :: "(string \<times> string) set"
  rc_blobs :: "string set"

definition no_recent :: recent where
  "no_recent = \<lparr>rc_offset = 0, rc_uses = {}, rc_blobs = {}\<rparr>"

text \<open>\<open>rposition\<close> of the line feed.\<close>

definition last_newline :: "string \<Rightarrow> nat option" where
  "last_newline bytes =
     (if lf \<in> set bytes then Some (length bytes - Suc (length (takeWhile (\<lambda>c. c \<noteq> lf) (rev bytes)))) else None)"

definition candidate_digests :: "action_candidate \<Rightarrow> string list" where
  "candidate_digests c = map ar_digest (ac_artifacts c) @ [sa_digest (ac_stdout c), sa_digest (ac_stderr c)]"

definition refresh_key :: "'b lib \<Rightarrow> string set \<times> 'b store \<Rightarrow> string \<Rightarrow> string set \<times> 'b store" where
  "refresh_key L acc key =
     (let (blobs, s) = acc
      in case read_candidates L key s of
           (Inl _, s') \<Rightarrow> (blobs, s')
         | (Inr index, s') \<Rightarrow> (blobs \<union> set (concat (map candidate_digests index)), s'))"

definition refresh :: "'b lib \<Rightarrow> recent \<Rightarrow> 'b store \<Rightarrow> recent \<times> 'b store" where
  "refresh L rc s =
     (case st_journal s of
        None \<Rightarrow> (rc, s)
      | Some j \<Rightarrow>
          let bytes = drop (rc_offset rc) j
          in case last_newline bytes of
               None \<Rightarrow> (rc, s)
             | Some end \<Rightarrow>
                 let entries = parse_lines (take (Suc end) bytes);
                     keys = sort (remdups (map fst entries));
                     (blobs, s') = foldl (refresh_key L) (rc_blobs rc, s) keys
                 in (\<lparr>rc_offset = rc_offset rc + end + 1,
                      rc_uses = rc_uses rc \<union> set (map (\<lambda>(key, action, _). (key, action)) entries),
                      rc_blobs = blobs\<rparr>, s'))"

end
