(* ===== verification/GC_Collect.thy ===== *)
theory GC_Collect
  imports GC_Journal
begin

text \<open>
  A collection from beginning to end (\<open>crates/bellows-core/src/gc.rs\<close>): \<open>Snapshot::read\<close>,
  \<open>Plan::report\<close> with its buckets, \<open>evict_from\<close>, the two phases of \<open>Plan::apply\<close> in batches, and
  \<open>Store::collect\<close>. The listing says in which order the directories are read.
\<close>

section \<open>The snapshot\<close>

datatype gc_error = Undecodable record_path | Bad_blob_name string

definition not_temp :: "string \<Rightarrow> bool" where
  "not_temp name \<longleftrightarrow> \<not> is_temp_name name"

definition read_blobs :: "string list \<Rightarrow> 'b store \<Rightarrow> gc_blob list" where
  "read_blobs names s =
     List.map_filter (\<lambda>d. map_option (\<lambda>f. \<lparr>b_digest = d, b_bytes = length (bf_bytes f), b_modified_ms = bf_modified f\<rparr>)
       (st_blobs s d)) (filter not_temp names)"

text \<open>The \<open>HashMap\<close> from digests to indices.\<close>

definition by_digest :: "gc_blob list \<Rightarrow> string \<rightharpoonup> nat" where
  "by_digest blobs = map_of (rev (zip (map b_digest blobs) [0..<length blobs]))"

type_synonym entry = "gc_unit \<times> string list"

definition candidate_entry :: "uses \<Rightarrow> record_path \<Rightarrow> action_candidate \<Rightarrow> entry" where
  "candidate_entry uses path c =
     (\<lparr>u_path = path, u_candidate = Some (ac_action_key c, ac_created_ms c), u_static_key = Some (ac_static_key c),
       u_protocol = Some (ac_protocol c), u_crate_name = ac_crate_name c,
       u_kind = candidate_kind (ac_crate_name c) (ac_artifacts c),
       u_pinned = list_ex (\<lambda>i. prefix pin_prefix (ei_name i)) (ac_env c),
       u_last_used_ms = max (last_use uses (ac_static_key c) (ac_action_key c)) (ac_created_ms c), u_blobs = []\<rparr>,
      candidate_digests c)"

definition declared_digests :: "declared_record \<Rightarrow> string list" where
  "declared_digests r = map ar_digest (dr_inputs r @ dr_outputs r) @ [sa_digest (dr_stdout r), sa_digest (dr_stderr r)]"

definition declared_entry :: "record_path \<Rightarrow> nat \<Rightarrow> declared_record \<Rightarrow> entry" where
  "declared_entry path modified r =
     (\<lparr>u_path = path, u_candidate = None, u_static_key = None, u_protocol = None, u_crate_name = dr_name r,
       u_kind = Declared, u_pinned = False, u_last_used_ms = modified, u_blobs = []\<rparr>, declared_digests r)"

definition archive_digests :: "archive_manifest \<Rightarrow> string list" where
  "archive_digests m = map ar_digest (am_files m)"

definition archive_entry :: "record_path \<Rightarrow> nat \<Rightarrow> archive_manifest \<Rightarrow> entry" where
  "archive_entry path modified m =
     (\<lparr>u_path = path, u_candidate = None, u_static_key = None, u_protocol = Some (am_protocol m), u_crate_name = am_name m,
       u_kind = Archive, u_pinned = False, u_last_used_ms = max modified (am_created_ms m), u_blobs = []\<rparr>,
      archive_digests m)"

text \<open>
  One record file as \<open>read_parallel\<close> decodes it and the loops of \<open>read\<close> turn it into units; a file
  removed in the meantime contributes nothing, an undecodable one aborts the collection.
\<close>

fun file_entries :: "'b lib \<Rightarrow> uses \<Rightarrow> 'b store \<Rightarrow> record_path \<Rightarrow> gc_error + entry list" where
  "file_entries L uses s (Action_file k) =
     (case st_actions s k of
        None \<Rightarrow> Inr []
      | Some f \<Rightarrow> (case l_dec_index L (df_doc f) of
            None \<Rightarrow> Inl (Undecodable (Action_file k))
          | Some index \<Rightarrow> Inr (map (candidate_entry uses (Action_file k)) index)))"
| "file_entries L uses s (Declared_file k) =
     (case st_declared s k of
        None \<Rightarrow> Inr []
      | Some f \<Rightarrow> (case l_dec_declared L (df_doc f) of
            None \<Rightarrow> Inl (Undecodable (Declared_file k))
          | Some r \<Rightarrow> Inr [declared_entry (Declared_file k) (df_modified f) r]))"
| "file_entries L uses s (Archive_file k) =
     (case st_archives s k of
        None \<Rightarrow> Inr []
      | Some f \<Rightarrow> (case l_dec_archive L (df_doc f) of
            None \<Rightarrow> Inl (Undecodable (Archive_file k))
          | Some m \<Rightarrow> Inr [archive_entry (Archive_file k) (df_modified f) m]))"

text \<open>The files in the order of the three directories; a temporary name starts with \<open>.tmp-\<close>.\<close>

definition record_files :: "listing \<Rightarrow> record_path list" where
  "record_files ls = map Action_file (filter not_temp (ls_actions ls))
     @ map Declared_file (filter not_temp (ls_declared ls)) @ map Archive_file (filter not_temp (ls_archives ls))"

fun all_entries :: "'b lib \<Rightarrow> uses \<Rightarrow> 'b store \<Rightarrow> record_path list \<Rightarrow> gc_error + entry list" where
  "all_entries L uses s [] = Inr []"
| "all_entries L uses s (p # ps) =
     r_bind (file_entries L uses s p) (\<lambda>es. r_bind (all_entries L uses s ps) (\<lambda>rest. Inr (es @ rest)))"

definition make_snapshot :: "uses \<Rightarrow> gc_blob list \<Rightarrow> entry list \<Rightarrow> nat \<Rightarrow> snapshot" where
  "make_snapshot uses blobs entries started =
     (let (units, referrers) = foldl (add_unit (by_digest blobs)) ([], replicate (length blobs) []) entries
      in \<lparr>sn_units = units, sn_blobs = blobs, sn_referrers = referrers, sn_journal_entries = length uses,
          sn_total_bytes = foldl (\<lambda>total b. sat_add64 total (b_bytes b)) 0 blobs, sn_started_ms = started\<rparr>)"

definition read_snapshot :: "'b lib \<Rightarrow> listing \<Rightarrow> nat \<Rightarrow> 'b store \<Rightarrow> gc_error + snapshot" where
  "read_snapshot L ls started s =
     (let uses = read_journal s; blobs = read_blobs (ls_blobs ls) s
      in r_bind (all_entries L uses s (record_files ls)) (\<lambda>entries. Inr (make_snapshot uses blobs entries started)))"

section \<open>Evicting from a record file\<close>

definition remove_record :: "record_path \<Rightarrow> 'b store \<Rightarrow> 'b store" where
  "remove_record path s =
     (case path of
        Action_file k \<Rightarrow> s\<lparr>st_actions := (st_actions s)(k := None)\<rparr>
      | Declared_file k \<Rightarrow> s\<lparr>st_declared := (st_declared s)(k := None)\<rparr>
      | Archive_file k \<Rightarrow> s\<lparr>st_archives := (st_archives s)(k := None)\<rparr>)"

definition record_at :: "record_path \<Rightarrow> 'b store \<Rightarrow> 'b doc_file option" where
  "record_at path s =
     (case path of Action_file k \<Rightarrow> st_actions s k | Declared_file k \<Rightarrow> st_declared s k | Archive_file k \<Rightarrow> st_archives s k)"

definition put_record :: "record_path \<Rightarrow> 'b doc_file \<Rightarrow> 'b store \<Rightarrow> 'b store" where
  "put_record path f s =
     (case path of
        Action_file k \<Rightarrow> s\<lparr>st_actions := (st_actions s)(k \<mapsto> f)\<rparr>
      | Declared_file k \<Rightarrow> s\<lparr>st_declared := (st_declared s)(k \<mapsto> f)\<rparr>
      | Archive_file k \<Rightarrow> s\<lparr>st_archives := (st_archives s)(k \<mapsto> f)\<rparr>)"

definition evicts :: "(string \<times> string) set \<Rightarrow> gc_unit list \<Rightarrow> action_candidate \<Rightarrow> bool" where
  "evicts uses units c \<longleftrightarrow> list_ex (\<lambda>u. case u_candidate u of
       None \<Rightarrow> False
     | Some (action, created) \<Rightarrow> action = ac_action_key c \<and> created = ac_created_ms c \<and> (ac_static_key c, action) \<notin> uses) units"

definition evict_from :: "'b lib \<Rightarrow> nat \<Rightarrow> (string \<times> string) set \<Rightarrow> record_path \<Rightarrow> gc_unit list \<Rightarrow> 'b store \<Rightarrow> nat \<times> 'b store" where
  "evict_from L now uses path units s =
     (if list_all (\<lambda>u. u_candidate u = None) units
      then (if record_at path s = None then (0, s) else (1, remove_record path s))
      else (case record_at path s of
        None \<Rightarrow> (0, s)
      | Some f \<Rightarrow> (case l_dec_index L (df_doc f) of
            None \<Rightarrow> (0, s)
          | Some index \<Rightarrow>
              let kept = filter (\<lambda>c. \<not> evicts uses units c) index;
                  removed = length index - length kept
              in if removed = 0 then (0, s)
                 else if kept = [] then (removed, remove_record path s)
                 else (removed, put_record path \<lparr>df_doc = l_enc_index L kept, df_modified = now\<rparr> s))))"

section \<open>Applying a plan\<close>

definition batch_size :: nat where "batch_size = 256"
definition coarse_clock_slack_ms :: nat where "coarse_clock_slack_ms = 50"

function chunks :: "nat \<Rightarrow> 'a list \<Rightarrow> 'a list list" where
  "chunks n xs = (if xs = [] \<or> n = 0 then [] else take n xs # chunks n (drop n xs))"
  by pat_completeness auto
termination by (relation "measure (\<lambda>(n, xs). length xs)") auto

declare chunks.simps [simp del]

definition by_path :: "snapshot \<Rightarrow> plan \<Rightarrow> (record_path \<times> gc_unit list) list" where
  "by_path sn p =
     foldl (\<lambda>m (u, evicted). if evicted
         then bt_insert (u_path u) ((case map_of m (u_path u) of None \<Rightarrow> [] | Some us \<Rightarrow> us) @ [u]) m else m)
       [] (zip (sn_units sn) (pl_evicted p))"

record 'b apply_state =
  as_recent :: recent
  as_records_evicted :: nat
  as_deleted :: nat
  as_skipped :: nat
  as_store :: "'b store"

definition start_apply :: "'b store \<Rightarrow> 'b apply_state" where
  "start_apply s = \<lparr>as_recent = no_recent, as_records_evicted = 0, as_deleted = 0, as_skipped = 0, as_store = s\<rparr>"

definition refreshed :: "'b lib \<Rightarrow> 'b apply_state \<Rightarrow> 'b apply_state" where
  "refreshed L st = (let (rc, s) = refresh L (as_recent st) (as_store st) in st\<lparr>as_recent := rc, as_store := s\<rparr>)"

definition evict_path :: "'b lib \<Rightarrow> nat \<Rightarrow> 'b apply_state \<Rightarrow> record_path \<times> gc_unit list \<Rightarrow> 'b apply_state" where
  "evict_path L now st entry =
     (let (path, units) = entry; (n, s) = evict_from L now (rc_uses (as_recent st)) path units (as_store st)
      in st\<lparr>as_records_evicted := as_records_evicted st + n, as_store := s\<rparr>)"

definition evict_batch :: "'b lib \<Rightarrow> nat \<Rightarrow> 'b apply_state \<Rightarrow> (record_path \<times> gc_unit list) list \<Rightarrow> 'b apply_state" where
  "evict_batch L now st batch = foldl (evict_path L now) (refreshed L st) batch"

definition delete_blob :: "snapshot \<Rightarrow> nat \<Rightarrow> 'b apply_state \<Rightarrow> gc_error + 'b apply_state" where
  "delete_blob sn b st =
     (let digest = b_digest (sn_blobs sn ! b)
      in case blob_path digest of
           Inl _ \<Rightarrow> Inl (Bad_blob_name digest)
         | Inr _ \<Rightarrow>
             (case st_blobs (as_store st) digest of
                None \<Rightarrow> Inr st
              | Some f \<Rightarrow>
                  if sn_started_ms sn \<le> sat_add64 (bf_modified f) coarse_clock_slack_ms
                     \<or> digest \<in> rc_blobs (as_recent st)
                  then Inr (st\<lparr>as_skipped := as_skipped st + 1\<rparr>)
                  else Inr (st\<lparr>as_deleted := as_deleted st + 1,
                         as_store := (as_store st)\<lparr>st_blobs := (st_blobs (as_store st))(digest := None)\<rparr>\<rparr>)))"

text \<open>A batch that fails leaves what it deleted before the failure deleted.\<close>

fun delete_blobs :: "snapshot \<Rightarrow> nat list \<Rightarrow> 'b apply_state \<Rightarrow> gc_error option \<times> 'b apply_state" where
  "delete_blobs sn [] st = (None, st)"
| "delete_blobs sn (b # bs) st =
     (case delete_blob sn b st of Inl e \<Rightarrow> (Some e, st) | Inr st' \<Rightarrow> delete_blobs sn bs st')"

definition delete_batch :: "'b lib \<Rightarrow> snapshot \<Rightarrow> nat list \<Rightarrow> 'b apply_state \<Rightarrow> gc_error option \<times> 'b apply_state" where
  "delete_batch L sn batch st = delete_blobs sn batch (refreshed L st)"

fun delete_batches :: "'b lib \<Rightarrow> snapshot \<Rightarrow> nat list list \<Rightarrow> 'b apply_state \<Rightarrow> gc_error option \<times> 'b apply_state" where
  "delete_batches L sn [] st = (None, st)"
| "delete_batches L sn (batch # batches) st =
     (case delete_batch L sn batch st of
        (Some e, st') \<Rightarrow> (Some e, st')
      | (None, st') \<Rightarrow> delete_batches L sn batches st')"

definition planned_blobs :: "plan \<Rightarrow> nat list" where
  "planned_blobs p = map fst (pl_freed p) @ pl_unreferenced p"

definition apply_plan :: "'b lib \<Rightarrow> nat \<Rightarrow> snapshot \<Rightarrow> plan \<Rightarrow> 'b store \<Rightarrow> gc_error option \<times> 'b apply_state" where
  "apply_plan L now sn p s =
     delete_batches L sn (chunks batch_size (planned_blobs p))
       (foldl (evict_batch L now) (start_apply s) (chunks batch_size (by_path sn p)))"

end
