(* ===== verification/GC_Report.thy ===== *)
theory GC_Report
  imports GC_Collect
begin

text \<open>
  \<open>Plan::report\<close>, its buckets, and \<open>Store::collect\<close>, with the server's \<open>gc\<close> handler and its
  periodic collection. Sums of bytes are naturals: the code's 64-bit additions would wrap only past
  16 EiB of blobs.
\<close>

section \<open>Buckets\<close>

definition new_bucket :: "string \<Rightarrow> string \<Rightarrow> gc_bucket" where
  "new_bucket grp name = \<lparr>gb_group = grp, gb_label = name, gb_records = 0, gb_exclusive_bytes = 0,
     gb_evicted_records = 0, gb_evicted_bytes = 0\<rparr>"

type_synonym buckets = "(string \<times> gc_bucket) list"

definition count_record :: "string \<Rightarrow> buckets \<Rightarrow> string \<times> bool \<Rightarrow> buckets" where
  "count_record grp m entry =
     (let (name, evicted) = entry;
          b = (case map_of m name of None \<Rightarrow> new_bucket grp name | Some b \<Rightarrow> b)
      in bt_insert name (b\<lparr>gb_records := gb_records b + 1,
           gb_evicted_records := gb_evicted_records b + (if evicted then 1 else 0)\<rparr>) m)"

definition add_exclusive :: "snapshot \<Rightarrow> string list \<Rightarrow> buckets \<Rightarrow> nat \<Rightarrow> buckets" where
  "add_exclusive sn labels m blob =
     (case sn_referrers sn ! blob of
        [] \<Rightarrow> m
      | first # rest \<Rightarrow>
          let name = labels ! first
          in if list_all (\<lambda>r. labels ! r = name) (first # rest)
             then (case map_of m name of
                     None \<Rightarrow> m
                   | Some b \<Rightarrow> bt_insert name (b\<lparr>gb_exclusive_bytes := gb_exclusive_bytes b + blob_bytes sn blob\<rparr>) m)
             else m)"

definition add_evicted :: "snapshot \<Rightarrow> string list \<Rightarrow> buckets \<Rightarrow> nat \<times> nat \<Rightarrow> buckets" where
  "add_evicted sn labels m freed =
     (let (blob, unit) = freed
      in case map_of m (labels ! unit) of
           None \<Rightarrow> m
         | Some b \<Rightarrow> bt_insert (labels ! unit) (b\<lparr>gb_evicted_bytes := gb_evicted_bytes b + blob_bytes sn blob\<rparr>) m)"

definition buckets :: "plan \<Rightarrow> snapshot \<Rightarrow> string \<Rightarrow> (gc_unit \<Rightarrow> string) \<Rightarrow> gc_bucket list" where
  "buckets p sn grp label =
     (let labels = map label (sn_units sn);
          counted = foldl (count_record grp) [] (zip labels (pl_evicted p));
          exclusive = foldl (add_exclusive sn labels) counted [0..<length (sn_referrers sn)]
      in map snd (foldl (add_evicted sn labels) exclusive (pl_freed p)))"

section \<open>The report\<close>

definition day_ms :: nat where "day_ms = 24 * 60 * 60 * 1000"
definition top_crates :: nat where "top_crates = 15"

definition age_label :: "snapshot \<Rightarrow> gc_unit \<Rightarrow> string" where
  "age_label sn u =
     (let days = (sn_started_ms sn - u_last_used_ms u) div day_ms
      in if days = 0 then ''used within 1 day''
         else if days \<le> 2 then ''used 1-3 days ago''
         else if days \<le> 6 then ''used 3-7 days ago'' else ''used over 7 days ago'')"

definition protocol_label :: "gc_unit \<Rightarrow> string" where
  "protocol_label u = (case u_protocol u of Some p \<Rightarrow> ''protocol '' @ dec_string p | None \<Rightarrow> ''unversioned'')"

definition scope_label :: "gc_unit \<Rightarrow> string" where
  "scope_label u = (if u_pinned u then ''pinned to a checkout'' else ''shareable'')"

definition breakdown :: "plan \<Rightarrow> snapshot \<Rightarrow> gc_bucket list" where
  "breakdown p sn =
     buckets p sn ''protocol'' protocol_label @ buckets p sn ''kind'' (\<lambda>u. kind_label (u_kind u))
     @ buckets p sn ''scope'' scope_label @ buckets p sn ''last use'' (age_label sn)
     @ take top_crates (sort_key (\<lambda>b. (- int (gb_evicted_bytes b), - int (gb_exclusive_bytes b)))
         (buckets p sn ''crate'' u_crate_name))"

definition list_min :: "nat list \<Rightarrow> nat option" where
  "list_min xs = (case xs of [] \<Rightarrow> None | x # rest \<Rightarrow> Some (foldl min x rest))"

definition list_max :: "nat list \<Rightarrow> nat option" where
  "list_max xs = (case xs of [] \<Rightarrow> None | x # rest \<Rightarrow> Some (foldl max x rest))"

definition report :: "plan \<Rightarrow> snapshot \<Rightarrow> gc_options \<Rightarrow> gc_report" where
  "report p sn opts =
     (let marked = zip (sn_units sn) (pl_evicted p);
          used = (\<lambda>gone. map (\<lambda>(u, _). u_last_used_ms u) (filter (\<lambda>(_, e). e = gone) marked))
      in \<lparr>gr_bytes_before = sn_total_bytes sn, gr_bytes_after = pl_bytes_after p,
          gr_records_evicted = length (filter (\<lambda>e. e) (pl_evicted p)),
          gr_blobs_evicted = length (pl_freed p) + length (pl_unreferenced p),
          gr_dry_run = go_dry_run opts, gr_max_bytes = go_max_bytes opts, gr_min_protocol = go_min_protocol opts,
          gr_max_executable_bytes = go_max_executable_bytes opts, gr_records = length (sn_units sn),
          gr_candidates = length (filter (\<lambda>u. u_candidate u \<noteq> None) (sn_units sn)),
          gr_blobs = length (sn_blobs sn),
          gr_evicted_bytes = sum_list (map (\<lambda>(b, _). blob_bytes sn b) (pl_freed p)),
          gr_unreferenced_blobs = length (pl_unreferenced p),
          gr_unreferenced_bytes = sum_list (map (blob_bytes sn) (pl_unreferenced p)),
          gr_protected_blobs = pl_protected_unreferenced p, gr_skipped_blobs = 0,
          gr_journal_entries = sn_journal_entries sn, gr_oldest_kept_ms = list_min (used False),
          gr_newest_evicted_ms = list_max (used True), gr_duration_ms = 0, gr_breakdown = breakdown p sn\<rparr>)"

section \<open>A whole collection\<close>

definition directory_bytes :: "string list \<Rightarrow> 'b store \<Rightarrow> nat" where
  "directory_bytes names s = foldl (\<lambda>total b. sat_add64 total (b_bytes b)) 0 (read_blobs names s)"

definition collect :: "'b lib \<Rightarrow> listing \<Rightarrow> gc_options \<Rightarrow> nat \<Rightarrow> nat \<Rightarrow> nat \<Rightarrow> 'b store \<Rightarrow> (gc_error + gc_report) \<times> 'b store" where
  "collect L ls opts pid started ended s =
     (let s1 = (if go_dry_run opts then s else rotate_journal started pid s)
      in case read_snapshot L ls started s1 of
           Inl e \<Rightarrow> (Inl e, s1)
         | Inr sn \<Rightarrow>
             let p = new_plan sn opts started; rep = report p sn opts
             in if go_dry_run opts then (Inr (rep\<lparr>gr_duration_ms := ended - started\<rparr>), s1)
                else (case apply_plan L started sn p s1 of
                   (Some e, st) \<Rightarrow> (Inl e, as_store st)
                 | (None, st) \<Rightarrow>
                     let s2 = compact_journal sn p (as_store st)
                     in (Inr (rep\<lparr>gr_records_evicted := as_records_evicted st, gr_blobs_evicted := as_deleted st,
                           gr_skipped_blobs := as_skipped st, gr_bytes_after := directory_bytes (ls_blobs ls) s2,
                           gr_duration_ms := ended - started\<rparr>), s2)))"

text \<open>\<open>Store::gc\<close>, \<open>bellowsd\<close>'s \<open>gc\<close> handler, and what \<open>--max-store-gb\<close> runs every interval.\<close>

definition default_gc_options :: gc_options where
  "default_gc_options = \<lparr>go_max_bytes = 0, go_dry_run = False, go_min_protocol = None, go_max_executable_bytes = None\<rparr>"

definition periodic_options :: "nat \<Rightarrow> gc_options" where
  "periodic_options max_bytes = default_gc_options\<lparr>go_max_bytes := max_bytes\<rparr>"

definition gc_handler :: "'b lib \<Rightarrow> listing \<Rightarrow> nat \<Rightarrow> string option \<Rightarrow> nat \<Rightarrow> nat \<Rightarrow> gc_options \<Rightarrow> ('b, gc_report) handler" where
  "gc_handler L ls pid header started ended request = authorized L header (\<lambda>ap.
     let (r, s) = collect L ls request pid started ended (ap_store ap)
     in (map_err internal r, ap\<lparr>ap_store := s\<rparr>))"

definition periodic_gc :: "'b lib \<Rightarrow> listing \<Rightarrow> nat \<Rightarrow> nat \<Rightarrow> nat \<Rightarrow> nat \<Rightarrow> 'b app \<Rightarrow> 'b app" where
  "periodic_gc L ls pid started ended gigabytes ap =
     ap\<lparr>ap_store := snd (collect L ls (periodic_options (sat_mul64 gigabytes (1024 * 1024 * 1024))) pid started ended (ap_store ap))\<rparr>"

end
