(* ===== verification/Core_Normalizer.thy ===== *)
theory Core_Normalizer
  imports Text_Lines
begin

text \<open>
  \<open>PathNormalizer\<close> and the dep-info parser of \<open>crates/bellows-core/src/lib.rs\<close>. A path is the text
  \<open>to_string_lossy\<close> renders; the Windows-only spellings of \<open>PathNormalizer::new\<close> are left out, as
  the model is of the Unix build.
\<close>

section \<open>The normalizer\<close>

text \<open>\<open>bases\<close>: (token, path) pairs, longest path first.\<close>

type_synonym normalizer = "(string \<times> string) list"

definition add_base :: "normalizer \<Rightarrow> string \<times> string \<Rightarrow> normalizer" where
  "add_base rendered base =
     (let (token, path) = base; value = trim_end_matches (\<lambda>c. c = CHR ''/'') path
      in if value \<noteq> [] \<and> \<not> list_ex (\<lambda>(_, p). p = value) rendered then rendered @ [(token, value)] else rendered)"

definition new_normalizer :: "(string \<times> string) list \<Rightarrow> normalizer" where
  "new_normalizer bases = sort_key (\<lambda>(_, path). - int (length path)) (foldl add_base [] bases)"

definition spellings :: "normalizer \<Rightarrow> string \<Rightarrow> string list" where
  "spellings n token = map snd (filter (\<lambda>(candidate, _). candidate = token) n)"

definition normalize :: "normalizer \<Rightarrow> string \<Rightarrow> string" where
  "normalize n value = foldl (\<lambda>text (token, path). str_replace path token text) value n"

definition verbatim :: "string \<Rightarrow> bool" where
  "verbatim path \<longleftrightarrow> prefix [CHR 0x5C, CHR 0x5C, CHR ''?'', CHR 0x5C] path"

definition choose_spelling :: "normalizer \<Rightarrow> string \<times> string \<Rightarrow> normalizer" where
  "choose_spelling chosen base =
     (let (token, path) = base
      in case map_of chosen token of
           Some entry \<Rightarrow>
             if verbatim entry \<and> \<not> verbatim path \<and> CHR ''/'' \<notin> set path
             then map (\<lambda>(t, p). if t = token then (t, path) else (t, p)) chosen else chosen
         | None \<Rightarrow> chosen @ [(token, path)])"

definition localizations :: "normalizer \<Rightarrow> normalizer" where
  "localizations n = foldl choose_spelling [] n"

definition localize :: "normalizer \<Rightarrow> string \<Rightarrow> string" where
  "localize n value = foldl (\<lambda>text (token, path). str_replace token path text) value (localizations n)"

section \<open>Replacement on bytes\<close>

definition window_position :: "string \<Rightarrow> string \<Rightarrow> nat option" where
  "window_position from value =
     find (\<lambda>i. take (length from) (drop i value) = from) [0..<Suc (length value) - length from]"

text \<open>The \<open>while\<close> loop for one pattern; the caller skips an empty one.\<close>

function replace_loop :: "string \<Rightarrow> string \<Rightarrow> string \<Rightarrow> nat \<Rightarrow> string \<Rightarrow> string" where
  "replace_loop from to value offset out =
     (case window_position from (drop offset value) of
        None \<Rightarrow> out @ drop offset value
      | Some pos \<Rightarrow>
          if from = [] then out @ drop offset value
          else replace_loop from to value (offset + pos + length from)
                 (out @ take pos (drop offset value) @ to))"
  by pat_completeness auto
termination
proof (relation "measure (\<lambda>(from, to, value, offset, out). length value - offset)")
  fix "from" to "value" out :: string and offset pos
  assume p: "window_position from (drop offset value) = Some pos" and ne: "from \<noteq> []"
  then have "pos \<in> set [0..<Suc (length (drop offset value)) - length from]"
    unfolding window_position_def by (auto dest: find_Some_iff2)
  then have "pos + length from \<le> length value - offset" by auto
  moreover have "0 < length from" using ne by simp
  ultimately show "((from, to, value, offset + pos + length from, out @ take pos (drop offset value) @ to),
      from, to, value, offset, out) \<in> measure (\<lambda>(from, to, value, offset, out). length value - offset)"
    unfolding in_measure prod.case by linarith
qed simp

declare replace_loop.simps [simp del]

definition replace_one :: "string \<times> string \<Rightarrow> string \<Rightarrow> string" where
  "replace_one replacement value =
     (let (from, to) = replacement in if from = [] then value else replace_loop from to value 0 [])"

definition replace_bytes :: "string \<Rightarrow> (string \<times> string) list \<Rightarrow> string" where
  "replace_bytes input replacements = foldl (\<lambda>value r. replace_one r value) input replacements"

definition normalize_bytes :: "normalizer \<Rightarrow> string \<Rightarrow> string" where
  "normalize_bytes n bytes = replace_bytes bytes (map (\<lambda>(t, p). (p, t)) n)"

definition localize_bytes :: "normalizer \<Rightarrow> string \<Rightarrow> string" where
  "localize_bytes n bytes = replace_bytes bytes (localizations n)"

section \<open>Dep-info\<close>

definition backslash :: char where "backslash = CHR 0x5C"

text \<open>\<open>split_makefile_words\<close>: white space is Unicode's, found at its UTF-8 encoding.\<close>

function split_words :: "string \<Rightarrow> string \<Rightarrow> string list" where
  "split_words current s =
     (case s of
        [] \<Rightarrow> if current = [] then [] else [current]
      | c # rest \<Rightarrow>
          if c = backslash \<and> rest \<noteq> [] \<and> hd rest = CHR '' ''
          then split_words (current @ [CHR '' '']) (tl rest)
          else (case find (\<lambda>w. w \<noteq> [] \<and> prefix w s) white_space of
                  Some w \<Rightarrow> (if current = [] then [] else [current]) @ split_words [] (drop (length w) s)
                | None \<Rightarrow> split_words (current @ [c]) rest))"
  by pat_completeness auto
termination
  by (relation "measure (\<lambda>(current, s). length s)") (auto simp: find_Some_iff prefix_def Suc_le_eq)

declare split_words.simps [simp del]

definition split_makefile_words :: "string \<Rightarrow> string list" where
  "split_makefile_words value = split_words [] value"

definition logical_lines :: "string \<Rightarrow> string" where
  "logical_lines text = str_replace [backslash, lf] [] (str_replace [backslash, cr, lf] [] text)"

definition env_dep :: "string \<Rightarrow> (string \<times> string option) option" where
  "env_dep line =
     map_option (\<lambda>rest. case split_once_str ''='' rest of
         None \<Rightarrow> (rest, None) | Some (name, value) \<Rightarrow> (name, Some value))
       (strip_prefix ''# env-dep:'' line)"

definition line_files :: "string \<Rightarrow> string list" where
  "line_files line =
     (if env_dep line \<noteq> None then []
      else (case split_once_str '': '' line of
              None \<Rightarrow> [] | Some (_, dependencies) \<Rightarrow> filter (\<lambda>w. w \<noteq> []) (split_makefile_words dependencies)))"

text \<open>The two \<open>BTreeSet\<close>s become the sorted lists of their elements.\<close>

definition parse_dep_info :: "string \<Rightarrow> string list \<times> (string \<times> string option) list" where
  "parse_dep_info text =
     (let ls = str_lines (logical_lines text)
      in (sort (remdups (concat (map line_files ls))), sort (remdups (List.map_filter env_dep ls))))"

definition join :: "string \<Rightarrow> string list \<Rightarrow> string" where
  "join sep ws = concat (case ws of [] \<Rightarrow> [] | w # rest \<Rightarrow> w # map (\<lambda>x. sep @ x) rest)"

definition escape_spaces :: "string \<Rightarrow> string" where
  "escape_spaces w = str_replace '' '' [backslash, CHR '' ''] w"

definition rewrite_words :: "(string \<Rightarrow> string) \<Rightarrow> string \<Rightarrow> string" where
  "rewrite_words rewrite words = join '' '' (map (\<lambda>w. escape_spaces (rewrite w)) (split_makefile_words words))"

definition rewrite_line :: "(string \<Rightarrow> string) \<Rightarrow> string \<Rightarrow> string" where
  "rewrite_line rewrite line =
     (let body = trim_end_matches (\<lambda>c. c = cr \<or> c = lf) line
      in (if prefix ''#'' body then body
          else (case split_once_str '': '' body of
                  Some (targets, dependencies) \<Rightarrow> rewrite_words rewrite targets @ '': '' @ rewrite_words rewrite dependencies
                | None \<Rightarrow> (case strip_suffix1 (CHR '':'') body of
                             Some target \<Rightarrow> rewrite_words rewrite target @ '':''
                           | None \<Rightarrow> body)))
         @ (if suffix [cr, lf] line then [cr, lf] else if suffix [lf] line then [lf] else []))"

definition rewrite_dep_info :: "(string \<Rightarrow> string) \<Rightarrow> string \<Rightarrow> string" where
  "rewrite_dep_info rewrite text = concat (map (rewrite_line rewrite) (split_inclusive (logical_lines text)))"

end
