(* ===== verification/Core_Normalizer_Props.thy ===== *)
theory Core_Normalizer_Props
  imports Core_Normalizer
begin

text \<open>
  What the normalizer and the dep-info parser guarantee: the byte and the string version agree,
  localizing undoes normalizing, and rewriting a line keeps its words.
\<close>

section \<open>The byte loop is str::replace\<close>

lemma window_position_None: "window_position pat s = None \<Longrightarrow> pat \<noteq> [] \<Longrightarrow> \<not> sublist pat s"
proof
  assume n: "window_position pat s = None" and "sublist pat s" and ne: "pat \<noteq> []"
  then obtain a b where s: "s = a @ pat @ b" by (auto simp: sublist_def)
  then have "length a \<in> set [0..<Suc (length s) - length pat]" by auto
  then have "take (length pat) (drop (length a) s) \<noteq> pat"
    using n unfolding window_position_def find_None_all by blast
  then show False using s by simp
qed

lemma replace_all_before:
  "(\<forall>i < k. \<not> prefix pat (drop i s)) \<Longrightarrow> k \<le> length s \<Longrightarrow> replace_all pat to s = take k s @ replace_all pat to (drop k s)"
proof (induction k arbitrary: s)
  case (Suc k)
  then obtain c s' where s: "s = c # s'" by (cases s) auto
  have "\<not> prefix pat (drop i s')" if "i < k" for i using Suc.prems(1) s that by (auto dest: spec [of _ "Suc i"])
  then have "replace_all pat to s' = take k s' @ replace_all pat to (drop k s')"
    using Suc.prems(2) s by (intro Suc.IH) auto
  moreover have "\<not> prefix pat (c # s')" using Suc.prems(1) s by (auto dest: spec [of _ 0])
  ultimately show ?case by (simp add: s replace_all_skip)
qed simp

lemma window_position_Some:
  assumes "window_position pat s = Some k" and ne: "pat \<noteq> []"
  shows "replace_all pat to s = take k s @ to @ replace_all pat to (drop (k + length pat) s)"
proof -
  obtain i where i: "i < length [0..<Suc (length s) - length pat]" "k = [0..<Suc (length s) - length pat] ! i"
      "take (length pat) (drop k s) = pat"
      and before: "\<forall>j < i. take (length pat) (drop ([0..<Suc (length s) - length pat] ! j) s) \<noteq> pat"
    using assms(1) unfolding window_position_def find_Some_iff by auto
  then have k: "k = i" "k < Suc (length s) - length pat" by auto
  have "\<not> prefix pat (drop j s)" if "j < k" for j
    using before k that by (auto simp: prefix_def)
  then have "replace_all pat to s = take k s @ replace_all pat to (drop k s)"
    using k by (intro replace_all_before) auto
  moreover have "drop k s = pat @ drop (k + length pat) s"
    using i(3) by (metis add.commute append_take_drop_id drop_drop)
  ultimately show ?thesis using ne by (simp add: replace_all_match)
qed

lemma replace_loop_eq: "from \<noteq> [] \<Longrightarrow> replace_loop from to s offset out = out @ replace_all from to (drop offset s)"
proof (induction "from" to s offset out rule: replace_loop.induct)
  case (1 "from" to s offset out)
  show ?case
  proof (cases "window_position from (drop offset s)")
    case None
    then show ?thesis using "1.prems"
      by (subst replace_loop.simps) (simp add: replace_all_absent window_position_None)
  next
    case (Some k)
    have "replace_loop from to s (offset + k + length from) (out @ take k (drop offset s) @ to)
        = (out @ take k (drop offset s) @ to) @ replace_all from to (drop (offset + k + length from) s)"
      using "1.IH" [OF Some] "1.prems" by simp
    moreover have "replace_loop from to s offset out
        = replace_loop from to s (offset + k + length from) (out @ take k (drop offset s) @ to)"
      using Some "1.prems" by (subst replace_loop.simps) simp
    moreover have "drop (offset + k + length from) s = drop (k + length from) (drop offset s)"
      by (simp add: ac_simps)
    ultimately show ?thesis using window_position_Some [OF Some "1.prems"] by simp
  qed
qed

lemma replace_one_eq: "from \<noteq> [] \<Longrightarrow> replace_one (from, to) s = str_replace from to s"
  by (simp add: replace_one_def str_replace_def replace_loop_eq)

lemma replace_bytes_eq:
  "\<forall>(f, t) \<in> set rs. f \<noteq> [] \<Longrightarrow> replace_bytes s rs = foldl (\<lambda>s (f, t). str_replace f t s) s rs"
  by (induction rs arbitrary: s) (auto simp: replace_bytes_def replace_one_eq)

section \<open>The bases of a normalizer\<close>

lemma trim_end_prefix: "prefix (trim_end_matches p s) s"
proof -
  have "rev s = takeWhile p (rev s) @ dropWhile p (rev s)" by simp
  then have "s = rev (dropWhile p (rev s)) @ rev (takeWhile p (rev s))" by (metis rev_append rev_rev_ident)
  then show ?thesis by (metis prefixI trim_end_matches_def)
qed

lemma add_base_sub: "set (add_base rendered (t, p)) \<subseteq> insert (t, trim_end_matches (\<lambda>c. c = CHR ''/'') p) (set rendered)"
  by (auto simp: add_base_def Let_def)

lemma add_base_nonempty: "\<forall>b \<in> set rendered. snd b \<noteq> [] \<Longrightarrow> \<forall>b \<in> set (add_base rendered base). snd b \<noteq> []"
  by (auto simp: add_base_def Let_def split: prod.splits)

lemma add_bases_sub:
  "set (foldl add_base rendered bases)
    \<subseteq> set rendered \<union> (\<lambda>(t, p). (t, trim_end_matches (\<lambda>c. c = CHR ''/'') p)) ` set bases"
proof (induction bases arbitrary: rendered)
  case (Cons b bases)
  obtain t p where b: "b = (t, p)" by (cases b)
  from Cons [of "add_base rendered b"] add_base_sub [of rendered t p] show ?case unfolding b by auto
qed simp

lemma add_bases_nonempty: "\<forall>b \<in> set rendered. snd b \<noteq> [] \<Longrightarrow> \<forall>b \<in> set (foldl add_base rendered bases). snd b \<noteq> []"
proof (induction bases arbitrary: rendered)
  case (Cons b bases)
  from Cons.IH [OF add_base_nonempty [OF Cons.prems]] show ?case by simp
qed simp

lemma add_bases_distinct:
  "distinct (map fst rendered @ map fst bases) \<Longrightarrow> distinct (map fst (foldl add_base rendered bases))"
proof (induction bases arbitrary: rendered)
  case (Cons b bases)
  obtain t p where b: "b = (t, p)" by (cases b)
  have "distinct (map fst (add_base rendered b) @ map fst bases)"
    using Cons.prems add_base_sub [of rendered t p] unfolding b by (auto simp: add_base_def Let_def)
  from Cons.IH [OF this] show ?case by simp
qed simp

lemma new_normalizer_set: "set (new_normalizer bases) = set (foldl add_base [] bases)"
  by (simp add: new_normalizer_def)

lemma new_normalizer_paths: "(t, p) \<in> set (new_normalizer bases) \<Longrightarrow> p \<noteq> []"
  using add_bases_nonempty [of "[]" bases] unfolding new_normalizer_set by fastforce

lemma new_normalizer_base:
  assumes "(t, p) \<in> set (new_normalizer bases)"
  obtains q where "(t, q) \<in> set bases" and "prefix p q" and "p \<noteq> []"
proof -
  obtain q where "(t, q) \<in> set bases" "p = trim_end_matches (\<lambda>c. c = CHR ''/'') q"
    using assms add_bases_sub [of "[]" bases] by (auto simp: new_normalizer_set)
  then show ?thesis using that trim_end_prefix new_normalizer_paths [OF assms] by blast
qed

lemma new_normalizer_distinct:
  assumes "distinct (map fst bases)"
  shows "distinct (map fst (new_normalizer bases))"
proof -
  have "distinct (map fst (foldl add_base [] bases))" using add_bases_distinct [of "[]" bases] assms by simp
  moreover have "mset (map fst (new_normalizer bases)) = mset (map fst (foldl add_base [] bases))"
    by (simp add: new_normalizer_def mset_map)
  ultimately show ?thesis by (metis mset_eq_imp_distinct_iff)
qed

lemma choose_spellings_id: "distinct (map fst chosen @ map fst n) \<Longrightarrow> foldl choose_spelling chosen n = chosen @ n"
proof (induction n arbitrary: chosen)
  case (Cons b n)
  obtain t p where b: "b = (t, p)" by (cases b)
  have "map_of chosen t = None" using Cons.prems b by (auto simp: map_of_eq_None_iff)
  then have "choose_spelling chosen b = chosen @ [b]" by (simp add: choose_spelling_def b)
  then show ?case using Cons by simp
qed simp

lemma localizations_distinct: "distinct (map fst n) \<Longrightarrow> localizations n = n"
  by (simp add: localizations_def choose_spellings_id)

lemma choose_spelling_tokens: "fst ` set (choose_spelling chosen b) \<subseteq> insert (fst b) (fst ` set chosen)"
proof -
  obtain t p where b: "b = (t, p)" by (cases b)
  have "fst ` set (map (\<lambda>(u, q). if u = t then (u, p) else (u, q)) chosen) = fst ` set chosen"
    by (force simp: image_iff)
  then show ?thesis by (simp add: choose_spelling_def b split: option.split) auto
qed

lemma choose_spellings_tokens: "fst ` set (foldl choose_spelling chosen n) \<subseteq> fst ` set chosen \<union> fst ` set n"
proof (induction n arbitrary: chosen)
  case (Cons b n)
  from Cons [of "choose_spelling chosen b"] choose_spelling_tokens [of chosen b] show ?case by auto
qed simp

text \<open>
  The byte-level loop and the string replacement agree: a normalizer rewrites a text and its
  bytes alike, in both directions, as long as no token is empty.
\<close>

theorem normalize_bytes_agrees:
  assumes "list_all (\<lambda>(token, path). token \<noteq> []) bases"
  shows "normalize_bytes (new_normalizer bases) v = normalize (new_normalizer bases) v
       \<and> localize_bytes (new_normalizer bases) v = localize (new_normalizer bases) v"
proof
  let ?n = "new_normalizer bases"
  have "\<forall>(f, t) \<in> set (map (\<lambda>(t, p). (p, t)) ?n). f \<noteq> []" using new_normalizer_paths by auto
  then show "normalize_bytes ?n v = normalize ?n v"
    by (simp add: normalize_bytes_def normalize_def replace_bytes_eq foldl_map case_prod_unfold)
  have "fst ` set ?n \<subseteq> fst ` set bases" by (auto elim!: new_normalizer_base intro: rev_image_eqI)
  then have "fst ` set (localizations ?n) \<subseteq> fst ` set bases"
    using choose_spellings_tokens [of "[]" ?n] by (auto simp: localizations_def)
  then have "\<forall>(f, t) \<in> set (localizations ?n). f \<noteq> []" using assms by (fastforce simp: list_all_iff)
  then show "localize_bytes ?n v = localize ?n v"
    by (simp add: localize_bytes_def localize_def replace_bytes_eq)
qed

section \<open>Localizing undoes normalizing\<close>

text \<open>
  A half-normalized text as a list of literal characters and tokens; \<open>render\<close> is the text the code
  sees, \<open>expand\<close> the original.
\<close>

datatype item = Lit char | Tok string

fun render_item :: "item \<Rightarrow> string" where
  "render_item (Lit c) = [c]"
| "render_item (Tok t) = t"

definition render :: "item list \<Rightarrow> string" where
  "render xs = concat (map render_item xs)"

fun expand_item :: "normalizer \<Rightarrow> item \<Rightarrow> string" where
  "expand_item n (Lit c) = [c]"
| "expand_item n (Tok t) = (case map_of n t of None \<Rightarrow> [] | Some p \<Rightarrow> p)"

definition expand :: "normalizer \<Rightarrow> item list \<Rightarrow> string" where
  "expand n xs = concat (map (expand_item n) xs)"

definition dollar :: char where "dollar = CHR ''$''"
definition slash_char :: char where "slash_char = CHR ''/''"

lemma slash_not_dollar [simp]: "slash_char \<noteq> dollar" "dollar \<noteq> slash_char"
  by (simp_all add: slash_char_def dollar_def)

definition token_ok :: "string \<Rightarrow> bool" where
  "token_ok t \<longleftrightarrow> t \<noteq> [] \<and> hd t = dollar \<and> dollar \<notin> set (tl t) \<and> slash_char \<notin> set t"

definition root_ok :: "string \<Rightarrow> bool" where
  "root_ok p \<longleftrightarrow> p \<noteq> [] \<and> hd p = slash_char \<and> dollar \<notin> set p"

definition bases_ok :: "normalizer \<Rightarrow> bool" where
  "bases_ok n \<longleftrightarrow> distinct (map fst n) \<and> list_all (\<lambda>(t, p). token_ok t \<and> root_ok p) n
     \<and> list_all (\<lambda>(t, _). list_all (\<lambda>(u, _). prefix t u \<longrightarrow> t = u) n) n"

lemma bases_okD:
  assumes "bases_ok n"
  shows "distinct (map fst n)" and "(t, p) \<in> set n \<Longrightarrow> token_ok t \<and> root_ok p"
    and "t \<in> fst ` set n \<Longrightarrow> u \<in> fst ` set n \<Longrightarrow> prefix t u \<Longrightarrow> t = u"
  using assms by (auto simp: bases_ok_def list_all_iff) blast

text \<open>Items over the tokens of \<open>n\<close>.\<close>

fun item_ok :: "string set \<Rightarrow> item \<Rightarrow> bool" where
  "item_ok T (Lit c) = (c \<noteq> dollar)"
| "item_ok T (Tok t) = (t \<in> T)"

lemma replace_all_pass:
  assumes "pat \<noteq> []" and "hd pat \<notin> set u"
  shows "replace_all pat to (u @ s) = u @ replace_all pat to s"
  using assms(2)
proof (induction u)
  case (Cons c u)
  then have "\<not> prefix pat (c # u @ s)" using assms(1) by (cases pat) auto
  with Cons show ?case by (simp add: replace_all_skip)
qed simp

lemma render_prefix_literal:
  "dollar \<notin> set p \<Longrightarrow> prefix p (render xs) \<Longrightarrow> (\<forall>x \<in> set xs. item_ok T x) \<Longrightarrow> (\<forall>t \<in> T. token_ok t) \<Longrightarrow>
    \<exists>ys. xs = map Lit p @ ys"
proof (induction p arbitrary: xs)
  case (Cons c p)
  then obtain x zs where xs: "xs = x # zs" by (cases xs) (auto simp: render_def)
  show ?case
  proof (cases x)
    case (Lit d)
    with Cons.prems xs have "prefix p (render zs)" "d = c" by (auto simp: render_def)
    with Cons xs Lit show ?thesis by auto
  next
    case (Tok t)
    with Cons.prems xs have "token_ok t" by auto
    with Cons.prems xs Tok show ?thesis by (cases t) (auto simp: token_ok_def render_def)
  qed
qed simp

lemma normalize_step:
  assumes p: "root_ok p" and t: "map_of n t = Some p" "t \<in> T" and T: "\<forall>t \<in> T. token_ok t"
  shows "(\<forall>x \<in> set xs. item_ok T x) \<Longrightarrow>
    \<exists>ys. replace_all p t (render xs) = render ys \<and> expand n ys = expand n xs \<and> (\<forall>y \<in> set ys. item_ok T y)"
proof (induction xs rule: length_induct)
  case (1 xs)
  have ne: "p \<noteq> []" using p by (simp add: root_ok_def)
  show ?case
  proof (cases xs)
    case Nil
    then show ?thesis by (intro exI [of _ "[]"]) (simp add: render_def)
  next
    case (Cons x zs)
    show ?thesis
    proof (cases "prefix p (render xs)")
      case True
      then obtain ys where ys: "xs = map Lit p @ ys"
        using render_prefix_literal [of p xs T] "1.prems" T p by (auto simp: root_ok_def)
      then obtain ys' where y: "replace_all p t (render ys) = render ys'" "expand n ys' = expand n ys"
          "\<forall>y \<in> set ys'. item_ok T y"
        using "1.IH" "1.prems" ne by (auto dest!: spec [of _ ys])
      have "render xs = p @ render ys" by (simp add: ys render_def comp_def)
      then have "replace_all p t (render xs) = render (Tok t # ys')"
        using y(1) ne by (simp add: replace_all_match render_def)
      moreover have "expand n (Tok t # ys') = expand n xs"
        using y(2) t(1) by (simp add: expand_def ys comp_def)
      ultimately show ?thesis using y(3) t(2) by (intro exI [of _ "Tok t # ys'"]) auto
    next
      case False
      obtain ys where y: "replace_all p t (render zs) = render ys" "expand n ys = expand n zs"
          "\<forall>y \<in> set ys. item_ok T y"
        using "1.IH" "1.prems" Cons by (auto dest!: spec [of _ zs])
      have "replace_all p t (render xs) = render_item x @ replace_all p t (render zs)"
      proof (cases x)
        case (Lit c)
        then show ?thesis using False Cons by (simp add: render_def replace_all_skip)
      next
        case (Tok u)
        then have "slash_char \<notin> set u" using "1.prems" Cons T by (auto simp: token_ok_def)
        then show ?thesis using Tok Cons p ne by (simp add: render_def replace_all_pass root_ok_def)
      qed
      then have "replace_all p t (render xs) = render (x # ys)" using y(1) by (simp add: render_def)
      moreover have "expand n (x # ys) = expand n xs" using y(2) Cons by (simp add: expand_def)
      ultimately show ?thesis using y(3) "1.prems" Cons by (intro exI [of _ "x # ys"]) auto
    qed
  qed
qed

lemma localize_step:
  assumes n: "bases_ok n" and t: "(t, p) \<in> set n" and T: "T \<subseteq> fst ` set n"
  shows "(\<forall>x \<in> set xs. item_ok T x) \<Longrightarrow>
    \<exists>ys. replace_all t p (render xs) = render ys \<and> expand n ys = expand n xs \<and> (\<forall>y \<in> set ys. item_ok (T - {t}) y)"
proof (induction xs)
  case Nil
  then show ?case by (intro exI [of _ "[]"]) (simp add: render_def)
next
  case (Cons x zs)
  have tok: "token_ok t" "root_ok p" using bases_okD(2) [OF n t] by simp_all
  then have ne: "t \<noteq> []" "hd t = dollar" by (simp_all add: token_ok_def)
  have mp: "map_of n t = Some p" using bases_okD(1) [OF n] t by simp
  obtain ys where y: "replace_all t p (render zs) = render ys" "expand n ys = expand n zs"
      "\<forall>y \<in> set ys. item_ok (T - {t}) y"
    using Cons by auto
  show ?case
  proof (cases x)
    case (Lit c)
    then have "\<not> prefix t (c # render zs)" using Cons.prems ne by (cases t) auto
    then have "replace_all t p (render (x # zs)) = render (x # ys)"
      using Lit y(1) by (simp add: render_def replace_all_skip)
    then show ?thesis using y Lit Cons.prems by (intro exI [of _ "x # ys"]) (auto simp: expand_def)
  next
    case (Tok u)
    have u: "u \<in> fst ` set n" using Tok Cons.prems T by auto
    show ?thesis
    proof (cases "u = t")
      case True
      have "replace_all t p (render (x # zs)) = render (map Lit p @ ys)"
        using Tok True y(1) ne by (simp add: render_def replace_all_match comp_def)
      moreover have "\<forall>y \<in> set (map Lit p). item_ok (T - {t}) y" using tok(2) by (auto simp: root_ok_def)
      moreover have "expand n (map Lit p @ ys) = expand n (x # zs)"
        using Tok True mp y(2) by (simp add: expand_def comp_def)
      ultimately show ?thesis using y(3) by (intro exI [of _ "map Lit p @ ys"]) auto
    next
      case False
      have "token_ok u" using u bases_okD(2) [OF n] by auto
      then obtain w where w: "u = dollar # w" "dollar \<notin> set w" by (cases u) (auto simp: token_ok_def)
      have "\<not> prefix t (u @ render zs)"
      proof
        assume "prefix t (u @ render zs)"
        then have "prefix t u \<or> prefix u t" by (metis prefix_append prefix_order.eq_iff prefixI prefix_same_cases)
        then show False using False u t bases_okD(3) [OF n] by (metis fst_conv rev_image_eqI)
      qed
      then have "replace_all t p (u @ render zs) = u @ replace_all t p (render zs)"
        using w ne replace_all_pass [of t w p "render zs"] by (simp add: replace_all_skip)
      then have "replace_all t p (render (x # zs)) = render (x # ys)"
        using Tok y(1) by (simp add: render_def)
      then show ?thesis using y Tok False Cons.prems by (intro exI [of _ "x # ys"]) (auto simp: expand_def)
    qed
  qed
qed

lemma normalize_steps:
  assumes "bases_ok n"
  shows "set bs \<subseteq> set n \<Longrightarrow> (\<forall>x \<in> set xs. item_ok (fst ` set n) x) \<Longrightarrow>
    \<exists>ys. foldl (\<lambda>text (token, path). str_replace path token text) (render xs) bs = render ys
      \<and> expand n ys = expand n xs \<and> (\<forall>y \<in> set ys. item_ok (fst ` set n) y)"
proof (induction bs arbitrary: xs)
  case (Cons b bs)
  obtain t p where b: "b = (t, p)" by (cases b)
  have tp: "(t, p) \<in> set n" using Cons.prems b by simp
  have T: "\<forall>t \<in> fst ` set n. token_ok t" using bases_okD(2) [OF assms] by auto
  have p: "root_ok p" using bases_okD(2) [OF assms tp] by simp
  have "map_of n t = Some p" using bases_okD(1) [OF assms] tp by simp
  moreover have "t \<in> fst ` set n" using tp by (auto intro: rev_image_eqI)
  ultimately obtain ys where
    y: "replace_all p t (render xs) = render ys" "expand n ys = expand n xs" "\<forall>y \<in> set ys. item_ok (fst ` set n) y"
    using normalize_step [OF p _ _ T Cons.prems(2)] by blast
  then show ?case using Cons.IH [OF _ y(3)] Cons.prems(1) p by (auto simp: b str_replace_def root_ok_def)
qed auto

lemma localize_steps:
  assumes "bases_ok n"
  shows "set bs \<subseteq> set n \<Longrightarrow> T \<subseteq> fst ` set n \<Longrightarrow> (\<forall>x \<in> set xs. item_ok T x) \<Longrightarrow>
    \<exists>ys. foldl (\<lambda>text (token, path). str_replace token path text) (render xs) bs = render ys
      \<and> expand n ys = expand n xs \<and> (\<forall>y \<in> set ys. item_ok (T - fst ` set bs) y)"
proof (induction bs arbitrary: xs T)
  case (Cons b bs)
  obtain t p where b: "b = (t, p)" by (cases b)
  have tp: "(t, p) \<in> set n" using Cons.prems b by simp
  have ne: "t \<noteq> []" using bases_okD(2) [OF assms tp] by (simp add: token_ok_def)
  from localize_step [OF assms tp Cons.prems(2,3)] obtain ys where
    y: "replace_all t p (render xs) = render ys" "expand n ys = expand n xs" "\<forall>y \<in> set ys. item_ok (T - {t}) y"
    by blast
  have "\<exists>zs. foldl (\<lambda>text (token, path). str_replace token path text) (render ys) bs = render zs
      \<and> expand n zs = expand n ys \<and> (\<forall>z \<in> set zs. item_ok (T - {t} - fst ` set bs) z)"
    using Cons.prems(1,2) by (intro Cons.IH [OF _ _ y(3)]) auto
  moreover have "T - {t} - fst ` set bs = T - fst ` set (b # bs)" by (auto simp: b)
  ultimately show ?case using y ne by (auto simp: b str_replace_def)
qed auto

lemma literal_items:
  "\<forall>x \<in> set xs. item_ok {} x \<Longrightarrow> render xs = expand n xs"
proof (induction xs)
  case (Cons x xs)
  then show ?case by (cases x) (auto simp: render_def expand_def)
qed (simp add: render_def expand_def)

lemma new_normalizer_ok: "bases_ok bases \<Longrightarrow> bases_ok (new_normalizer bases)"
proof -
  assume b: "bases_ok bases"
  have "token_ok t \<and> root_ok p" if tp: "(t, p) \<in> set (new_normalizer bases)" for t p
  proof -
    obtain q where q: "(t, q) \<in> set bases" "prefix p q" "p \<noteq> []"
      by (rule new_normalizer_base [OF tp])
    then have "token_ok t" "root_ok q" using bases_okD(2) [OF b] by auto
    then show ?thesis using q(2,3) by (auto simp: root_ok_def prefix_def)
  qed
  moreover have sub: "fst ` set (new_normalizer bases) \<subseteq> fst ` set bases"
    by (auto elim!: new_normalizer_base intro: rev_image_eqI)
  moreover have "t = u" if "(t, p) \<in> set (new_normalizer bases)" "(u, q) \<in> set (new_normalizer bases)" "prefix t u" for t p u q
  proof (rule bases_okD(3) [OF b _ _ that(3)])
    show "t \<in> fst ` set bases" "u \<in> fst ` set bases" using that(1,2) sub by force+
  qed
  ultimately show ?thesis
    using new_normalizer_distinct [OF bases_okD(1) [OF b]]
    unfolding bases_ok_def list_all_iff by (auto simp: case_prod_unfold)
qed


definition ex_bases :: normalizer where
  "ex_bases = [(''$HOME'', ''/home/a''), (''$WORKSPACE'', ''/home/a/app'')]"


theorem normalize_bytes_agrees_witness:
  "normalize_bytes (new_normalizer ex_bases) ''/home/a/app/b'' = normalize (new_normalizer ex_bases) ''/home/a/app/b''"
  using normalize_bytes_agrees [of ex_bases "''/home/a/app/b''"] by (simp add: ex_bases_def)


section \<open>Dep-info\<close>

lemma replace_all_concat_absent:
  assumes "pat \<noteq> []" and "\<And>i. i < length u \<Longrightarrow> \<not> prefix pat (drop i u @ s)"
  shows "replace_all pat to (u @ s) = u @ replace_all pat to s"
  using assms(2)
proof (induction u)
  case (Cons c u)
  from Cons.prems [of 0] have "\<not> prefix pat (c # u @ s)" by simp
  moreover have "replace_all pat to (u @ s) = u @ replace_all pat to s"
    using Cons.prems [of "Suc i" for i] by (intro Cons.IH) simp
  ultimately show ?case by (simp add: replace_all_skip)
qed simp

lemma split_once_str_char:
  "c \<notin> set a \<Longrightarrow> split_once_str [c] (a @ c # b) = Some (a, b)"
  by (induction a) (subst split_once_str.simps; simp)+

text \<open>Plain text: neither a backslash nor a line break.\<close>

definition plain :: "string \<Rightarrow> bool" where
  "plain s \<longleftrightarrow> backslash \<notin> set s \<and> lf \<notin> set s \<and> cr \<notin> set s"

definition env_line :: "string \<Rightarrow> string \<Rightarrow> string" where
  "env_line name value = ''# env-dep:'' @ name @ ''='' @ value @ [lf]"

lemma special_chars [simp]: "backslash \<noteq> lf" "lf \<noteq> backslash" "backslash \<noteq> cr" "cr \<noteq> backslash" "lf \<noteq> cr" "cr \<noteq> lf"
  by (simp_all add: backslash_def lf_def cr_def)

lemma plain_replace:
  assumes "plain u" and "hd pat = backslash" and "pat \<noteq> []"
  shows "replace_all pat to (u @ s) = u @ replace_all pat to s"
  using assms by (intro replace_all_pass) (auto simp: plain_def)

lemma backslash_crlf_skip: "plain v \<Longrightarrow> replace_all [backslash, cr, lf] [] (backslash # lf # v @ [lf]) = backslash # lf # v @ [lf]"
proof -
  assume p: "plain v"
  have "\<not> sublist [backslash, cr, lf] (backslash # lf # v @ [lf])"
  proof
    assume "sublist [backslash, cr, lf] (backslash # lf # v @ [lf])"
    then have "cr \<in> set (backslash # lf # v @ [lf])" by (auto dest!: set_mono_sublist)
    then show False using p by (auto simp: plain_def)
  qed
  then show ?thesis by (rule replace_all_absent)
qed

lemma logical_swallow:
  assumes "plain u" and "plain v"
  shows "logical_lines (u @ [backslash, backslash, lf] @ v @ [lf]) = u @ [backslash] @ v @ [lf]"
proof -
  have "replace_all [backslash, cr, lf] [] (u @ backslash # backslash # lf # v @ [lf])
      = u @ backslash # backslash # lf # v @ [lf]"
    using assms backslash_crlf_skip [OF assms(2)] by (simp add: plain_replace replace_all_skip)
  moreover have "replace_all [backslash, lf] [] (backslash # lf # v @ [lf]) = v @ [lf]"
    using replace_all_match [of "[backslash, lf]" "[]" "v @ [lf]"] assms(2)
      plain_replace [of v "[backslash, lf]" "[]" "[lf]"] by (simp add: replace_all_skip)
  then have "replace_all [backslash, lf] [] (u @ backslash # backslash # lf # v @ [lf]) = u @ [backslash] @ v @ [lf]"
    using assms(1) by (simp add: plain_replace replace_all_skip)
  ultimately show ?thesis by (simp add: logical_lines_def str_replace_def)
qed

text \<open>
  An environment value that ends in a backslash hides the next environment dependency: rustc
  writes the backslash doubled at the end of its line, the parser takes its second half and the
  line feed for a line continuation, and the following entry becomes part of the value.
\<close>

theorem env_dep_backslash_hides_next:
  assumes "plain name" and "plain value" and "plain name2" and "plain value2" and "CHR ''='' \<notin> set name"
  shows "parse_dep_info (env_line name (value @ [backslash, backslash]) @ env_line name2 value2)
    = ([], [(name, Some (value @ [backslash] @ ''# env-dep:'' @ name2 @ ''='' @ value2))])"
proof -
  let ?u = "''# env-dep:'' @ name @ ''='' @ value" and ?v = "''# env-dep:'' @ name2 @ ''='' @ value2"
  have p: "plain ?u" "plain ?v" using assms by (auto simp: plain_def backslash_def lf_def cr_def)
  have t: "env_line name (value @ [backslash, backslash]) @ env_line name2 value2
      = ?u @ [backslash, backslash, lf] @ ?v @ [lf]"
    by (simp add: env_line_def)
  let ?l = "?u @ [backslash] @ ?v"
  have "lf \<notin> set ?l" and "cr \<notin> set ?l" using p by (auto simp: plain_def)
  then have "str_lines (?l @ [lf]) = [?l]"
    using str_lines_line [of ?l "[]"] by (metis append_is_Nil_conv last_in_set str_lines_Nil)
  then have l: "str_lines (logical_lines (env_line name (value @ [backslash, backslash]) @ env_line name2 value2)) = [?l]"
    unfolding t logical_swallow [OF p] by simp
  have "env_dep ?l = Some (name, Some (value @ [backslash] @ ?v))"
    using split_once_str_char [OF assms(5), of "value @ [backslash] @ ?v"] by (simp add: env_dep_def strip_prefix_def)
  then show ?thesis unfolding parse_dep_info_def Let_def l by (simp add: line_files_def map_filter_simps)
qed

theorem env_dep_backslash_hides_next_witness:
  "parse_dep_info (env_line ''DIR'' (''C:'' @ [backslash, backslash]) @ env_line ''MODE'' ''fast'')
    = ([], [(''DIR'', Some (''C:'' @ [backslash] @ ''# env-dep:MODE=fast''))])"
  using env_dep_backslash_hides_next [of "''DIR''" "''C:''" "''MODE''" "''fast''"]
  by (simp add: plain_def backslash_def lf_def cr_def)

text \<open>A file name a rewrite may produce: no white space but spaces, not empty, no final backslash.\<close>

definition word_ok :: "string \<Rightarrow> bool" where
  "word_ok w \<longleftrightarrow> w \<noteq> [] \<and> last w \<noteq> backslash \<and> list_all (\<lambda>x. x = '' '' \<or> \<not> sublist x w) white_space"

lemma escape_spaces_Nil [simp]: "escape_spaces [] = []"
  by (simp add: escape_spaces_def str_replace_def)

lemma escape_spaces_space: "escape_spaces (CHR '' '' # w) = backslash # CHR '' '' # escape_spaces w"
  using replace_all_match [of "'' ''" "[backslash, CHR '' '']" w] by (simp add: escape_spaces_def str_replace_def)

lemma escape_spaces_other: "c \<noteq> CHR '' '' \<Longrightarrow> escape_spaces (c # w) = c # escape_spaces w"
  by (simp add: escape_spaces_def str_replace_def replace_all_skip)

lemma escape_spaces_start: "escape_spaces w = CHR '' '' # r \<Longrightarrow> False"
  by (cases w; cases "hd w = CHR '' ''") (auto simp: escape_spaces_space escape_spaces_other backslash_def)

lemma char_of_32: "char_of (32 :: nat) = CHR '' ''"
proof -
  have "of_char (CHR '' '') = (32 :: nat)" by simp
  then show ?thesis by (metis char_of_char)
qed

lemma white_space_chars: "x \<in> set white_space \<Longrightarrow> x = '' '' \<or> (x \<noteq> [] \<and> CHR '' '' \<notin> set x \<and> backslash \<notin> set x)"
proof -
  assume x: "x \<in> set white_space"
  have "map of_char x = [32 :: nat] \<or> (map of_char x \<noteq> ([] :: nat list) \<and> 32 \<notin> set (map of_char x :: nat list)
      \<and> 92 \<notin> set (map of_char x :: nat list))"
    using x by (auto simp: white_space_def)
  moreover have "x = '' ''" if "map of_char x = [32 :: nat]"
    using arg_cong [OF that, of "map char_of"] by (simp add: comp_def char_of_32)
  moreover have "of_char (CHR '' '') = (32 :: nat)" "of_char backslash = (92 :: nat)" by (simp_all add: backslash_def)
  ultimately show ?thesis by (metis imageI list.map_disc_iff set_map)
qed

lemma white_space_not_backslash: "find (\<lambda>w. w \<noteq> [] \<and> prefix w (backslash # s)) white_space = None"
proof -
  have "\<not> (x \<noteq> [] \<and> prefix x (backslash # s))" if "x \<in> set white_space" for x
    using white_space_chars [OF that] by (cases x) (auto simp: backslash_def)
  then show ?thesis unfolding find_None_all by blast
qed

lemma white_space_space: "find (\<lambda>w. w \<noteq> [] \<and> prefix w (CHR '' '' # s)) white_space = Some '' ''"
proof -
  have app: "find P (xs @ ys) = (case find P xs of None \<Rightarrow> find P ys | Some x \<Rightarrow> Some x)" for P and xs ys :: "string list"
    by (induction xs) auto
  have sp: "char_of n \<noteq> CHR '' ''" if "n \<in> {9, 10, 11, 12, 13 :: nat}" for n
  proof
    assume "char_of n = CHR '' ''"
    then have "of_char (char_of n :: char) = (of_char (CHR '' '') :: nat)" by simp
    then show False using that by auto
  qed
  have "white_space = take 5 white_space @ '' '' # drop 6 white_space" by (simp add: white_space_def char_of_32)
  moreover have "list_all (\<lambda>x. x \<noteq> [] \<and> hd x \<noteq> CHR '' '') (take 5 white_space)"
    using sp by (simp add: white_space_def)
  then have "\<not> (x \<noteq> [] \<and> prefix x (CHR '' '' # s))" if "x \<in> set (take 5 white_space)" for x
    using that by (cases x) (auto simp: list_all_iff)
  then have "find (\<lambda>w. w \<noteq> [] \<and> prefix w (CHR '' '' # s)) (take 5 white_space) = None"
    unfolding find_None_all by blast
  then have "find (\<lambda>w. w \<noteq> [] \<and> prefix w (CHR '' '' # s)) (take 5 white_space @ '' '' # drop 6 white_space) = Some '' ''"
    by (simp add: app)
  ultimately show ?thesis by metis
qed

lemma escaped_prefix:
  "CHR '' '' \<notin> set x \<Longrightarrow> backslash \<notin> set x \<Longrightarrow> s = [] \<or> hd s = CHR '' '' \<Longrightarrow> prefix x (escape_spaces w @ s) \<Longrightarrow> prefix x w"
proof (induction x arbitrary: w)
  case (Cons c x)
  show ?case
  proof (cases w)
    case Nil
    with Cons.prems show ?thesis by (cases s) auto
  next
    case (Cons d w')
    show ?thesis
    proof (cases "d = CHR '' ''")
      case True
      with Cons Cons.prems show ?thesis by (auto simp: escape_spaces_space)
    next
      case False
      with Cons Cons.prems Cons.IH [of w'] show ?thesis by (auto simp: escape_spaces_other)
    qed
  qed
qed simp

lemma split_escaped_word:
  "(\<forall>x \<in> set white_space. x = '' '' \<or> \<not> sublist x w) \<Longrightarrow> w = [] \<or> last w \<noteq> backslash \<Longrightarrow> s = [] \<or> hd s = CHR '' '' \<Longrightarrow>
    split_words current (escape_spaces w @ s) = split_words (current @ w) s"
proof (induction w arbitrary: current)
  case (Cons c w)
  have sub: "\<forall>x \<in> set white_space. x = '' '' \<or> \<not> sublist x w"
    using Cons.prems(1) by (auto simp: sublist_Cons_right)
  have last: "w = [] \<or> last w \<noteq> backslash" using Cons.prems(2) by (auto split: if_splits)
  note IH = Cons.IH [OF sub last Cons.prems(3)]
  consider "c = CHR '' ''" | "c = backslash" | "c \<noteq> CHR '' ''" "c \<noteq> backslash" by blast
  then show ?case
  proof cases
    case 1
    then show ?thesis using IH by (subst split_words.simps) (simp add: escape_spaces_space)
  next
    case 2
    have ne: "w \<noteq> []" using 2 Cons.prems(2) by auto
    then have "hd (escape_spaces w @ s) \<noteq> CHR '' ''"
      using escape_spaces_start [of w] by (cases "escape_spaces w"; cases w; cases "hd w = CHR '' ''")
        (auto simp: escape_spaces_space escape_spaces_other)
    moreover have "c \<noteq> CHR '' ''" using 2 by (simp add: backslash_def)
    ultimately show ?thesis using 2 IH white_space_not_backslash [of "escape_spaces w @ s"]
      by (subst split_words.simps) (simp add: escape_spaces_other)
  next
    case 3
    have "find (\<lambda>x. x \<noteq> [] \<and> prefix x (c # escape_spaces w @ s)) white_space = None"
      unfolding find_None_all
    proof (intro ballI notI)
      fix x
      assume x: "x \<in> set white_space" and p: "x \<noteq> [] \<and> prefix x (c # escape_spaces w @ s)"
      have "x \<noteq> '' ''" using p 3 by auto
      then have "CHR '' '' \<notin> set x" "backslash \<notin> set x" "\<not> sublist x (c # w)"
        using white_space_chars [OF x] Cons.prems(1) x by auto
      moreover have "prefix x (escape_spaces (c # w) @ s)" using p 3 by (simp add: escape_spaces_other)
      ultimately show False using escaped_prefix [OF _ _ Cons.prems(3)] prefix_imp_sublist by blast
    qed
    with 3 IH show ?thesis by (subst split_words.simps) (simp add: escape_spaces_other)
  qed
qed simp

lemma split_words_space: "split_words current (CHR '' '' # s) = (if current = [] then [] else [current]) @ split_words [] s"
  by (subst split_words.simps) (simp add: white_space_space backslash_def)

lemma split_words_Nil: "split_words current [] = (if current = [] then [] else [current])"
  by (subst split_words.simps) simp

lemma split_joined_words:
  "\<forall>w \<in> set ws. word_ok w \<Longrightarrow> split_words [] (join '' '' (map escape_spaces ws)) = ws"
proof (induction ws)
  case (Cons w ws)
  have w: "\<forall>x \<in> set white_space. x = '' '' \<or> \<not> sublist x w" "w = [] \<or> last w \<noteq> backslash" "w \<noteq> []"
    using Cons.prems by (auto simp: word_ok_def list_all_iff)
  show ?case
  proof (cases ws)
    case Nil
    then show ?thesis using split_escaped_word [OF w(1,2), of "[]" "[]"] w(3) by (simp add: join_def split_words_Nil)
  next
    case (Cons v vs)
    have "join '' '' (map escape_spaces (w # ws)) = escape_spaces w @ CHR '' '' # join '' '' (map escape_spaces ws)"
      using Cons by (simp add: join_def)
    then show ?thesis
      using split_escaped_word [OF w(1,2), of "CHR '' '' # join '' '' (map escape_spaces ws)" "[]"] w(3)
        Cons.IH Cons.prems by (simp add: split_words_space)
  qed
qed (simp add: join_def split_words_Nil)

lemma graph_word_ok:
  assumes "w \<noteq> []" and "last w \<noteq> backslash" and "list_all (\<lambda>c. is_graph c \<or> c = CHR '' '') w"
  shows "word_ok w"
proof -
  have "\<not> sublist x w" if x: "x \<in> set white_space" "x \<noteq> '' ''" for x
  proof
    assume "sublist x w"
    moreover have "x \<noteq> []" "\<not> is_graph (hd x)" using white_space_not_graph [OF x(1)] by auto
    moreover have "hd x \<noteq> CHR '' ''" using white_space_chars [OF x(1)] x(2) by (cases x) auto
    ultimately show False using assms(3) set_mono_sublist [of x w] by (cases x) (auto simp: list_all_iff)
  qed
  with assms show ?thesis by (auto simp: word_ok_def list_all_iff)
qed

text \<open>
  Rewriting the file names of a dep-info line rewrites exactly its words: splitting the
  rewritten line gives the rewritten words, spaces inside names included.
\<close>

theorem rewrite_words_splits_back:
  assumes "list_all (\<lambda>w. word_ok (rewrite w)) (split_makefile_words line)"
  shows "split_makefile_words (rewrite_words rewrite line) = map rewrite (split_makefile_words line)"
proof -
  have "\<forall>w \<in> set (map rewrite (split_makefile_words line)). word_ok w"
    using assms by (auto simp: list_all_iff)
  from split_joined_words [OF this] show ?thesis
    by (simp add: split_makefile_words_def rewrite_words_def comp_def)
qed

definition ex_words :: string where
  "ex_words = ''a.rs'' @ [CHR '' ''] @ ''b'' @ [backslash, CHR '' ''] @ ''c.rs''"

theorem rewrite_words_splits_back_witness:
  "split_makefile_words (rewrite_words (\<lambda>w. ''src/'' @ w) ex_words) = [''src/a.rs'', ''src/b c.rs'']"
proof -
  have ok: "word_ok ''a.rs''" "word_ok ''b c.rs''" "word_ok ''src/a.rs''" "word_ok ''src/b c.rs''"
    by (rule graph_word_ok; simp add: is_graph_def backslash_def)+
  have "ex_words = join '' '' (map escape_spaces [''a.rs'', ''b c.rs''])"
    by (simp add: ex_words_def join_def escape_spaces_space escape_spaces_other)
  then have w: "split_makefile_words ex_words = [''a.rs'', ''b c.rs'']"
    using split_joined_words [of "[''a.rs'', ''b c.rs'']"] ok by (simp add: split_makefile_words_def)
  have "list_all (\<lambda>w. word_ok (''src/'' @ w)) [''a.rs'', ''b c.rs'']" using ok by simp
  with rewrite_words_splits_back [of "\<lambda>w. ''src/'' @ w" ex_words] show ?thesis by (simp add: w)
qed

end
