(* ===== verification/Server_Execute.thy ===== *)
theory Server_Execute
  imports Server_Handlers Core_Normalizer_Props
begin

text \<open>
  Remote execution: \<open>validate_execution_request\<close>, \<open>execute\<close>, \<open>execute_declared\<close> and
  \<open>collect_output_files\<close> of \<open>crates/bellows-server/src/main.rs\<close>, and \<open>execution.rs\<close>. The command
  itself runs outside: it is a parameter that takes the command line, the environment and the
  workspace and gives its result and the workspace's tree afterwards.
\<close>

section \<open>Environments and commands\<close>

definition env_set :: "string \<Rightarrow> string \<Rightarrow> (string \<times> string) list \<Rightarrow> (string \<times> string) list" where
  "env_set k v e = (k, v) # filter (\<lambda>(k', _). k' \<noteq> k) e"

definition env_remove :: "string \<Rightarrow> (string \<times> string) list \<Rightarrow> (string \<times> string) list" where
  "env_remove k e = filter (\<lambda>(k', _). k' \<noteq> k) e"

definition env_sets :: "(string \<times> string) list \<Rightarrow> (string \<times> string) list \<Rightarrow> (string \<times> string) list" where
  "env_sets kvs e = foldl (\<lambda>e (k, v). env_set k v e) e kvs"

record command =
  cm_program :: string
  cm_args :: "string list"
  cm_env :: "(string \<times> string) list"

text \<open>What the executor takes from its own process.\<close>

record host =
  ho_path :: string
  ho_rustup_home :: string
  ho_exe :: string
  ho_pid :: nat

text \<open>On Unix there is nothing to preserve for the linker.\<close>

definition platform_environment :: "(string \<times> string) list" where
  "platform_environment = []"

definition remap_env :: string where "remap_env = ''BELLOWS_DECLARED_REMAP''"
definition inner_wrapper_env :: string where "inner_wrapper_env = ''BELLOWS_DECLARED_INNER_WRAPPER''"

definition configure_cargo_remapping :: "host \<Rightarrow> string \<Rightarrow> (string \<times> string) list \<Rightarrow> command \<Rightarrow> command" where
  "configure_cargo_remapping h workspace environment c =
     (let e = env_remove inner_wrapper_env (env_set remap_env workspace (env_set ''RUSTC_WRAPPER'' (ho_exe h) (cm_env c)))
      in c\<lparr>cm_env := (case map_of environment ''RUSTC_WRAPPER'' of
            Some w \<Rightarrow> if w \<noteq> [] then env_set inner_wrapper_env w e else e
          | None \<Rightarrow> e)\<rparr>)"

text \<open>
  The compiler wrapper: the command \<open>remap_compiler\<close> runs for its arguments under the environment
  \<open>vars\<close>, or its error.
\<close>

definition is_probe :: "string \<Rightarrow> bool" where
  "is_probe arg \<longleftrightarrow> arg = ''-vV'' \<or> arg = ''--version'' \<or> prefix ''--print'' arg"

definition remap_compiler :: "(string \<times> string) list \<Rightarrow> string list \<Rightarrow> string + command" where
  "remap_compiler vars raw =
     (case raw of
        [] \<Rightarrow> Inl ''missing declared compiler''
      | compiler # args \<Rightarrow>
          (case map_of vars remap_env of
             None \<Rightarrow> Inl ''missing declared remap root''
           | Some workspace \<Rightarrow>
               let (program, first) = (case map_of vars inner_wrapper_env of
                     Some w \<Rightarrow> (w, [compiler]) | None \<Rightarrow> (compiler, []));
                   remap = (if list_ex is_probe args then []
                     else [''--remap-path-prefix'', workspace @ ''=/bellows/action''])
               in Inr \<lparr>cm_program = program, cm_args = first @ args @ remap,
                       cm_env = env_remove inner_wrapper_env (env_remove remap_env vars)\<rparr>))"

section \<open>The workspace\<close>

text \<open>Files written before the run, by their path's names below the workspace.\<close>

type_synonym workspace_files = "(string list \<times> (string \<times> bool)) list"

definition cargo_home_dir :: "string list" where
  "cargo_home_dir = [''.bellows-cargo-home'']"

fun component_name :: "path_component \<Rightarrow> string list" where
  "component_name (Normal w) = [w]"
| "component_name _ = []"

definition path_names :: "string \<Rightarrow> string list" where
  "path_names v = concat (map component_name (components v))"

text \<open>A file cannot be put below a file or over a directory.\<close>

definition ws_blocked :: "workspace_files \<Rightarrow> string list \<Rightarrow> bool" where
  "ws_blocked ws path \<longleftrightarrow> path = cargo_home_dir \<or> list_ex (\<lambda>(q, _). strict_prefix q path \<or> strict_prefix path q) ws"

datatype exec_error =
    Exec_check check_error
  | Exec_store store_error
  | Exec_io
  | Exec_command string
  | Output_missing string
  | Output_symlink string
  | Output_special string
  | No_outputs

fun write_inputs :: "'b lib \<Rightarrow> 'b store \<Rightarrow> artifact list \<Rightarrow> workspace_files \<Rightarrow> exec_error + workspace_files" where
  "write_inputs L s [] ws = Inr ws"
| "write_inputs L s (i # is) ws =
     r_bind (map_err Exec_check (validate_relative_path (ar_file_name i))) (\<lambda>relative.
     r_bind (map_err Exec_store (read_blob L (ar_digest i) s)) (\<lambda>bytes.
       let path = path_names relative
       in if ws_blocked ws path then Inl Exec_io
          else write_inputs L s is ((path, (bytes, ar_executable i)) # filter (\<lambda>(q, _). q \<noteq> path) ws)))"

text \<open>
  The tree after the run. A link holds what it resolves to, if anything; \<open>symlink_metadata\<close> does not
  follow the last component of a path, and the system follows every other.
\<close>

datatype node = File string bool | Dir "(string \<times> node) list" | Link "node option" | Special

fun follow :: "node \<Rightarrow> node option" where
  "follow (Link (Some n)) = follow n"
| "follow (Link None) = None"
| "follow n = Some n"

fun node_at :: "(string \<times> node) list \<Rightarrow> string list \<Rightarrow> node option" where
  "node_at entries [] = Some (Dir entries)"
| "node_at entries [n] = map_of entries n"
| "node_at entries (n # ns) =
     (case Option.bind (map_of entries n) follow of
        Some (Dir entries') \<Rightarrow> node_at entries' ns
      | _ \<Rightarrow> None)"

section \<open>Collecting the outputs\<close>

type_synonym ('b, 'a) exec_op = "'b store \<Rightarrow> (exec_error + 'a) \<times> 'b store"

definition e_bind :: "('b, 'a) exec_op \<Rightarrow> ('a \<Rightarrow> ('b, 'c) exec_op) \<Rightarrow> ('b, 'c) exec_op" where
  "e_bind f g s = (case f s of (Inl e, t) \<Rightarrow> (Inl e, t) | (Inr a, t) \<Rightarrow> g a t)"

definition e_lift :: "exec_error + 'a \<Rightarrow> ('b, 'a) exec_op" where
  "e_lift r s = (r, s)"

definition e_store :: "('b, 'a) store_op \<Rightarrow> ('b, 'a) exec_op" where
  "e_store f s = (let (r, t) = f s in (map_err Exec_store r, t))"

definition publish_output :: "'b lib \<Rightarrow> nat \<Rightarrow> string list \<Rightarrow> string \<Rightarrow> bool \<Rightarrow> artifact list \<Rightarrow> ('b, artifact list) exec_op" where
  "publish_output L now path bytes executable outputs =
     e_bind (e_lift (map_err Exec_check (validate_relative_path (join ''/'' path)))) (\<lambda>relative.
       let digest = l_hash L bytes
       in e_bind (e_store (put_blob L digest bytes now)) (\<lambda>_.
            e_lift (Inr (outputs @ [\<lparr>ar_file_name = relative, ar_digest = digest, ar_executable = executable\<rparr>]))))"

fun collect_output_files :: "'b lib \<Rightarrow> nat \<Rightarrow> string list \<Rightarrow> node \<Rightarrow> artifact list \<Rightarrow> ('b, artifact list) exec_op"
  and collect_entries :: "'b lib \<Rightarrow> nat \<Rightarrow> string list \<Rightarrow> (string \<times> node) list \<Rightarrow> artifact list \<Rightarrow> ('b, artifact list) exec_op"
where
  "collect_output_files L now path (Link n) outputs = e_lift (Inl (Output_symlink (join ''/'' path)))"
| "collect_output_files L now path (Dir entries) outputs = collect_entries L now path entries outputs"
| "collect_output_files L now path Special outputs = e_lift (Inl (Output_special (join ''/'' path)))"
| "collect_output_files L now path (File bytes executable) outputs = publish_output L now path bytes executable outputs"
| "collect_entries L now path [] outputs = e_lift (Inr outputs)"
| "collect_entries L now path ((name, n) # entries) outputs =
     e_bind (collect_output_files L now (path @ [name]) n outputs) (collect_entries L now path entries)"

fun collect_declarations :: "'b lib \<Rightarrow> nat \<Rightarrow> (string \<times> node) list \<Rightarrow> string list \<Rightarrow> artifact list \<Rightarrow> ('b, artifact list) exec_op" where
  "collect_declarations L now tree [] outputs = e_lift (Inr outputs)"
| "collect_declarations L now tree (d # ds) outputs =
     e_bind (e_lift (map_err Exec_check (validate_relative_path d))) (\<lambda>relative.
       case node_at tree (path_names relative) of
         None \<Rightarrow> e_lift (Inl (Output_missing d))
       | Some n \<Rightarrow> e_bind (collect_output_files L now (path_names relative) n outputs)
           (collect_declarations L now tree ds))"

text \<open>\<open>dedup_by\<close> on the sorted outputs keeps the first of equal names.\<close>

fun dedup_names :: "artifact list \<Rightarrow> artifact list" where
  "dedup_names (a # b # as) =
     (if ar_file_name b = ar_file_name a then dedup_names (a # as) else a # dedup_names (b # as))"
| "dedup_names as = as"

section \<open>Running\<close>

record process_output =
  po_success :: bool
  po_stdout :: string
  po_stderr :: string
  po_tree :: "(string \<times> node) list"
  po_duration_ms :: nat

type_synonym runner = "command \<Rightarrow> workspace_files \<Rightarrow> process_output option"

text \<open>\<open>Path::file_name\<close> of the program.\<close>

definition program_name :: "string \<Rightarrow> string" where
  "program_name program = (case rev (components program) of Normal w # _ \<Rightarrow> w | _ \<Rightarrow> [])"

definition exec_command :: "host \<Rightarrow> string \<Rightarrow> platform_identity \<Rightarrow> execute_request \<Rightarrow> command" where
  "exec_command h workspace platform request =
     (let e = env_sets (xr_environment request) (env_sets platform_environment
          (env_set ''CARGO_NET_OFFLINE'' ''true'' (env_set ''CARGO_HOME'' ''.bellows-cargo-home''
            (env_set ''HOME'' ''/homeless-shelter'' (env_set ''PATH'' (ho_path h) [])))));
          e2 = env_set ''RUSTUP_HOME'' (ho_rustup_home h) e;
          e3 = (case pi_rustup_toolchain platform of None \<Rightarrow> e2 | Some v \<Rightarrow> env_set ''RUSTUP_TOOLCHAIN'' v e2);
          c = \<lparr>cm_program = hd (xr_command request), cm_args = tl (xr_command request), cm_env = e3\<rparr>
      in if program_name (cm_program c) = ''cargo'' then configure_cargo_remapping h workspace (xr_environment request) c
         else if program_name (cm_program c) = ''rustc''
         then c\<lparr>cm_args := cm_args c @ [''--remap-path-prefix'', workspace @ ''=/bellows/action'']\<rparr>
         else c)"

definition executed_record :: "'b lib \<Rightarrow> host \<Rightarrow> nat \<Rightarrow> platform_identity \<Rightarrow> execute_request \<Rightarrow> artifact list \<Rightarrow>
    string \<Rightarrow> string \<Rightarrow> nat \<Rightarrow> declared_record" where
  "executed_record L h now platform request outputs stdout stderr duration =
     \<lparr>dr_protocol = protocol_version, dr_key = xr_key request, dr_name = xr_name request, dr_created_ms = now,
      dr_platform = platform, dr_command = xr_command request, dr_environment = xr_environment request,
      dr_inputs = xr_inputs request, dr_output_paths = xr_outputs request, dr_outputs = outputs,
      dr_stdout = \<lparr>sa_digest = l_hash L stdout, sa_len = length stdout\<rparr>,
      dr_stderr = \<lparr>sa_digest = l_hash L stderr, sa_len = length stderr\<rparr>,
      dr_duration_ms = duration, dr_executor = ''bellowsd:'' @ dec_string (ho_pid h)\<rparr>"

text \<open>The end of \<open>execute_declared\<close>: the two streams, then the record.\<close>

definition publish_run :: "'b lib \<Rightarrow> host \<Rightarrow> nat \<Rightarrow> platform_identity \<Rightarrow> execute_request \<Rightarrow> artifact list \<Rightarrow>
    string \<Rightarrow> string \<Rightarrow> nat \<Rightarrow> ('b, declared_record) exec_op" where
  "publish_run L h now platform request outputs stdout stderr duration =
     e_bind (e_store (put_blob L (l_hash L stdout) stdout now)) (\<lambda>_.
     e_bind (e_store (put_blob L (l_hash L stderr) stderr now)) (\<lambda>_.
       let r = executed_record L h now platform request outputs stdout stderr duration
       in e_bind (e_store (put_declared L r now)) (\<lambda>_. e_lift (Inr r))))"

definition collect_run :: "'b lib \<Rightarrow> host \<Rightarrow> string \<Rightarrow> nat \<Rightarrow> platform_identity \<Rightarrow> execute_request \<Rightarrow> process_output \<Rightarrow>
    ('b, declared_record) exec_op" where
  "collect_run L h workspace now platform request out =
     e_bind (collect_declarations L now (po_tree out) (xr_outputs request) []) (\<lambda>collected.
       let outputs = dedup_names (sort_key ar_file_name collected);
           n = new_normalizer [(''$SANDBOX'', workspace)]
       in if outputs = [] then e_lift (Inl No_outputs)
          else publish_run L h now platform request outputs (normalize_bytes n (po_stdout out))
                 (normalize_bytes n (po_stderr out)) (po_duration_ms out))"

definition execute_declared :: "'b lib \<Rightarrow> host \<Rightarrow> runner \<Rightarrow> string \<Rightarrow> nat \<Rightarrow> platform_identity \<Rightarrow> execute_request \<Rightarrow>
    ('b, declared_record) exec_op" where
  "execute_declared L h run workspace now platform request s =
     (case write_inputs L s (xr_inputs request) [] of
        Inl e \<Rightarrow> (Inl e, s)
      | Inr ws \<Rightarrow>
          (case run (exec_command h workspace platform request) ws of
             None \<Rightarrow> (Inl Exec_io, s)
           | Some out \<Rightarrow>
               if \<not> po_success out then (Inl (Exec_command (po_stderr out)), s)
               else collect_run L h workspace now platform request out s))"

section \<open>The handler\<close>

definition forbidden_env :: "string list" where
  "forbidden_env = [''PATH'', ''HOME'', ''CARGO_HOME'', ''RUSTUP_HOME'', ''RUSTUP_TOOLCHAIN'']"

definition validate_execution_request :: "execute_request \<Rightarrow> api_error + unit" where
  "validate_execution_request request =
     (let check = (\<lambda>r. map_err (\<lambda>e. bad_request (Of_check e)) r)
      in r_then (check (validate_output_roots (xr_inputs request) (xr_outputs request)))
        (r_then (check (validate_declared_command (xr_command request)))
        (r_then (check_all (\<lambda>a. check (r_bind (validate_relative_path (ar_file_name a)) (\<lambda>_. Inr ()))) (xr_inputs request))
        (r_then (check_all (\<lambda>d. check (r_bind (validate_relative_path d) (\<lambda>_. Inr ()))) (xr_outputs request))
          (check_all (\<lambda>name. ensure (map_of (xr_environment request) name = None) (bad_request (Env_forbidden name)))
             forbidden_env)))))"

record execute_response =
  er_cache_hit :: bool
  er_record :: declared_record

text \<open>
  The lock per action key makes lookup and execution of one key one step with respect to other
  executions of it.
\<close>

definition run_declared :: "'b lib \<Rightarrow> host \<Rightarrow> runner \<Rightarrow> string \<Rightarrow> nat \<Rightarrow> platform_identity \<Rightarrow> execute_request \<Rightarrow>
    ('b, execute_response) handler" where
  "run_declared L h run workspace now platform request ap =
     (case execute_declared L h run workspace now platform request (ap_store ap) of
        (Inl e, s) \<Rightarrow> (Inl (Api_error 422 Exec_failed), ap\<lparr>ap_store := s\<rparr>)
      | (Inr r, s) \<Rightarrow> (Inr \<lparr>er_cache_hit = False, er_record = r\<rparr>, ap\<lparr>ap_store := s\<rparr>))"

definition find_or_run :: "'b lib \<Rightarrow> host \<Rightarrow> runner \<Rightarrow> string \<Rightarrow> nat \<Rightarrow> platform_identity \<Rightarrow> execute_request \<Rightarrow>
    ('b, execute_response) handler" where
  "find_or_run L h run workspace now platform request =
     a_bind (on_store internal (read_declared L (xr_key request))) (\<lambda>found.
       case found of
         Some r \<Rightarrow> a_lift (Inr \<lparr>er_cache_hit = True, er_record = r\<rparr>)
       | None \<Rightarrow> run_declared L h run workspace now platform request)"

text \<open>\<open>detected\<close> is the result of \<open>PlatformIdentity::detect\<close>.\<close>

definition execute :: "'b lib \<Rightarrow> host \<Rightarrow> runner \<Rightarrow> string \<Rightarrow> platform_identity option \<Rightarrow> string option \<Rightarrow> nat \<Rightarrow>
    execute_request \<Rightarrow> ('b, execute_response) handler" where
  "execute L h run workspace detected header now request = authorized L header (\<lambda>ap.
     if \<not> ap_enable_execution ap then (Inl (Api_error 403 (Text ''remote execution is disabled'')), ap)
     else (case detected of
       None \<Rightarrow> (Inl (internal ()), ap)
     | Some platform \<Rightarrow>
         if xr_platform request \<noteq> platform
         then (Inl (Api_error 412 (Text ''executor toolchain identity does not match request'')), ap)
         else if xr_key request \<noteq> declared_action_key L (xr_name request) (xr_platform request) (xr_command request)
             (xr_environment request) (xr_inputs request) (xr_outputs request)
         then (Inl (bad_request (Text ''declared action key mismatch'')), ap)
         else (case validate_execution_request request of
             Inl e \<Rightarrow> (Inl e, ap)
           | Inr _ \<Rightarrow> find_or_run L h run workspace now platform request ap)))"

end
