(* ===== verification/Server_Router.thy ===== *)
theory Server_Router
  imports Server_Execute GC_Report
begin

text \<open>
  The routes of \<open>serve\<close> (\<open>crates/bellows-server/src/main.rs\<close>) as one function from requests to
  responses, and what holds of every request: the authorization gate, the single-flight leases and
  the size limit of an upload.
\<close>

section \<open>Routes\<close>

datatype api_request =
    Get_live | Get_health | Get_stats
  | Get_blob string | Head_blob string | Put_blob string "(string + string) list"
  | Get_action string | Put_action string string action_candidate | Post_used string string
  | Get_declared string | Put_declared string declared_record
  | Get_archive string | Put_archive string archive_manifest
  | Post_execute execute_request | Post_gc gc_options
  | Post_lease string lease_request | Delete_lease string string

datatype api_response =
    No_content | Health_is health_response | Stats_are server_stats | Blob_is string | Put_is put_status
  | Index_is candidate_index | Declared_is declared_record | Archive_is archive_manifest
  | Executed_is execute_response | Report_is gc_report | Lease_is lease_response

text \<open>
  What the process around the handlers provides: the clock at the request's start and end, the
  order \<open>read_dir\<close> gives, the executor's host, command runner, temporary directory and toolchain.
\<close>

record 'b world =
  w_now :: nat
  w_ended :: nat
  w_listing :: "'b store \<Rightarrow> listing"
  w_version :: string
  w_host :: host
  w_run :: runner
  w_workspace :: string
  w_detected :: "platform_identity option"

definition respond :: "('a \<Rightarrow> api_response) \<Rightarrow> ('b, 'a) handler \<Rightarrow> ('b, api_response) handler" where
  "respond f h ap = (case h ap of (Inl e, ap') \<Rightarrow> (Inl e, ap') | (Inr a, ap') \<Rightarrow> (Inr (f a), ap'))"

definition handle :: "'b lib \<Rightarrow> 'b world \<Rightarrow> string option \<Rightarrow> api_request \<Rightarrow> ('b, api_response) handler" where
  "handle L W header req ap =
     (let none = respond (\<lambda>_ :: unit. No_content); ls = w_listing W (ap_store ap); now = w_now W
      in case req of
           Get_live \<Rightarrow> (Inr No_content, ap)
         | Get_health \<Rightarrow> respond Health_is (health L (w_version W) header) ap
         | Get_stats \<Rightarrow> respond Stats_are (stats L ls header now) ap
         | Get_blob d \<Rightarrow> respond Blob_is (get_blob L header d) ap
         | Head_blob d \<Rightarrow> none (head_blob L header now d) ap
         | Put_blob d body \<Rightarrow> respond Put_is (put_blob_handler L header now d body) ap
         | Get_action k \<Rightarrow> respond Index_is (get_candidates L header k) ap
         | Put_action k a c \<Rightarrow> none (put_candidate_handler L header now k a c) ap
         | Post_used k a \<Rightarrow> none (record_use_handler L header now k a) ap
         | Get_declared k \<Rightarrow> respond Declared_is (get_declared L header k) ap
         | Put_declared k r \<Rightarrow> respond Put_is (put_declared_handler L header now k r) ap
         | Get_archive n \<Rightarrow> respond Archive_is (get_archive L header n) ap
         | Put_archive n m \<Rightarrow> respond Put_is (put_archive_handler L header now n m) ap
         | Post_execute x \<Rightarrow> respond Executed_is (execute L (w_host W) (w_run W) (w_workspace W) (w_detected W) header now x) ap
         | Post_gc opts \<Rightarrow> respond Report_is (gc_handler L ls (ho_pid (w_host W)) header now (w_ended W) opts) ap
         | Post_lease k x \<Rightarrow> respond Lease_is (acquire_lease L header now k x) ap
         | Delete_lease k tok \<Rightarrow> none (release_lease L header k tok) ap)"

section \<open>The gate\<close>

lemma respond_authorized:
  assumes "authorize L ap header = Inl e"
  shows "respond f (authorized L header h) ap = (Inl e, ap)"
  using assms by (simp add: respond_def authorized_def)

lemma authorized_ok: "authorize L ap header = Inr u \<Longrightarrow> authorized L header h ap = h ap"
  by (simp add: authorized_def)

lemmas gated_defs = health_def stats_def get_blob_def head_blob_def put_blob_handler_def get_candidates_def
  put_candidate_handler_def record_use_handler_def get_declared_def put_declared_handler_def get_archive_def
  put_archive_handler_def execute_def gc_handler_def acquire_lease_def release_lease_def

lemma handle_unauthorized:
  assumes "authorize L ap header = Inl e" and "req \<noteq> Get_live"
  shows "handle L W header req ap = (Inl e, ap)"
  using assms(2) by (cases req) (simp_all add: handle_def Let_def gated_defs respond_authorized [OF assms(1)])

text \<open>
  C5. With a token configured, no request but the liveness probe gets past the gate without it: it
  is answered 401 and changes nothing. And a server that was started to listen beyond the loopback
  interface has a token, which is not empty, unless it was told to run without one.
\<close>

theorem unauthorized_requests_change_nothing:
  assumes "ap_auth_token ap = Some tok" and "l_hash L (supplied_token header) \<noteq> l_hash L tok" and "req \<noteq> Get_live"
  shows "handle L W header req ap = (Inl (Api_error 401 (Text ''missing or invalid bearer token'')), ap)
       \<and> {a. \<exists>args detected s. start_server args detected s = Inr a \<and> \<not> sv_listen_loopback args
            \<and> \<not> sv_allow_insecure_no_auth args \<and> ap_auth_token (a :: 'b app) \<in> {None, Some []}} = {}"
proof
  have "l_hash L tok \<noteq> l_hash L (supplied_token header)" using assms(2) by simp
  then have "authorize L ap header = Inl (Api_error 401 (Text ''missing or invalid bearer token''))"
    using assms(1) by (simp add: authorize_def)
  from handle_unauthorized [OF this assms(3)]
  show "handle L W header req ap = (Inl (Api_error 401 (Text ''missing or invalid bearer token'')), ap)" .
  show "{a. \<exists>args detected s. start_server args detected s = Inr a \<and> \<not> sv_listen_loopback args
      \<and> \<not> sv_allow_insecure_no_auth args \<and> ap_auth_token (a :: 'b app) \<in> {None, Some []}} = {}"
    by (auto simp: start_server_def start_checks_def)
qed

definition ex_server :: "'b store \<Rightarrow> 'b app" where
  "ex_server s = \<lparr>ap_store = s, ap_max_blob_bytes = 1024, ap_auth_token = Some ''secret'', ap_max_candidates = 8,
     ap_leases = [], ap_enable_execution = True\<rparr>"

theorem unauthorized_requests_change_nothing_witness:
  "\<forall>W. snd (handle (ex_lib\<lparr>l_hash := \<lambda>b. b\<rparr>) W None (Post_gc default_gc_options) (ex_server (empty_store :: string store))) = ex_server empty_store"
proof
  fix W
  have "ap_auth_token (ex_server (empty_store :: string store)) = Some ''secret''" by (simp add: ex_server_def)
  moreover have "l_hash (ex_lib\<lparr>l_hash := \<lambda>b. b\<rparr>) (supplied_token None) \<noteq> l_hash (ex_lib\<lparr>l_hash := \<lambda>b. b\<rparr>) ''secret''"
    by (simp add: supplied_token_def)
  moreover have "Post_gc default_gc_options \<noteq> Get_live" by simp
  ultimately have "handle (ex_lib\<lparr>l_hash := \<lambda>b. b\<rparr>) W None (Post_gc default_gc_options) (ex_server empty_store)
      = (Inl (Api_error 401 (Text ''missing or invalid bearer token'')), ex_server empty_store)"
    by (rule unauthorized_requests_change_nothing [THEN conjunct1])
  then show "snd (handle (ex_lib\<lparr>l_hash := \<lambda>b. b\<rparr>) W None (Post_gc default_gc_options) (ex_server empty_store)) = ex_server empty_store"
    by (rule ssubst) (rule snd_conv)
qed

section \<open>Single-flight leases\<close>

text \<open>A live lease of a key: its holder's entry, not yet expired at the given time.\<close>

definition held :: "'b app \<Rightarrow> string \<Rightarrow> server_lease \<Rightarrow> bool" where
  "held ap key l \<longleftrightarrow> map_of (ap_leases ap) key = Some l \<and> distinct (map fst (ap_leases ap))"

lemma map_of_filter_other:
  "distinct (map fst xs) \<Longrightarrow> map_of xs k = Some v \<Longrightarrow> P (k, v) \<Longrightarrow> map_of (filter P xs) k = Some v"
  by (induction xs) (auto split: if_splits)

lemma distinct_filter_fst: "distinct (map fst xs) \<Longrightarrow> distinct (map fst (filter P xs))"
  by (induction xs) auto

lemma ap_leases_on_store [simp]: "ap_leases (snd (on_store h f ap)) = ap_leases ap"
  by (simp add: on_store_def Let_def case_prod_unfold)

lemma held_acquire:
  assumes h: "held ap key l" and now: "now < sl_expires_ms l" and auth: "authorize L ap header = Inr u"
  shows "held (snd (acquire_lease L header now k x ap)) key l"
    and "fst (acquire_lease L header now key x ap) = Inr (Wait 150 (sl_expires_ms l))"
proof -
  let ?ls = "filter (\<lambda>(_, l). sl_expires_ms l > now) (ap_leases ap)"
  have d: "distinct (map fst ?ls)" and m: "map_of ?ls key = Some l"
    using h now map_of_filter_other [of "ap_leases ap" key l] distinct_filter_fst by (auto simp: held_def)
  show "fst (acquire_lease L header now key x ap) = Inr (Wait 150 (sl_expires_ms l))"
    using m by (simp add: acquire_lease_def authorized_ok [OF auth])
  show "held (snd (acquire_lease L header now k x ap)) key l"
  proof (cases "map_of ?ls k")
    case None
    then have "k \<noteq> key" using m by auto
    moreover have "k \<notin> fst ` set ?ls" by (rule map_of_eq_None_iff [THEN iffD1, OF None])
    ultimately
    show ?thesis using d m None
      by (simp add: acquire_lease_def authorized_ok [OF auth] held_def Let_def)
  next
    case (Some l')
    then show ?thesis using d m by (simp add: acquire_lease_def authorized_ok [OF auth] held_def)
  qed
qed

lemma held_release:
  assumes "held ap key l" and "k \<noteq> key \<or> tok \<noteq> sl_token l"
  shows "held (snd (release_lease L header k tok ap)) key l"
proof (cases "authorize L ap header")
  case (Inr u)
  show ?thesis
  proof (cases "map_of (ap_leases ap) k")
    case None
    then show ?thesis using assms(1) Inr by (simp add: release_lease_def authorized_ok [OF Inr])
  next
    case (Some l')
    show ?thesis
    proof (cases "sl_token l' = tok")
      case True
      then have "k \<noteq> key" using assms Some by (auto simp: held_def)
      then show ?thesis using assms(1) True Some map_of_filter_other [of "ap_leases ap" key l] distinct_filter_fst
        by (auto simp: release_lease_def authorized_ok [OF Inr] held_def)
    next
      case False
      then show ?thesis using assms(1) Some by (simp add: release_lease_def authorized_ok [OF Inr])
    qed
  qed
qed (use assms in \<open>simp add: release_lease_def authorized_def\<close>)

text \<open>Lease traffic: requests for leases and releases, each at its time.\<close>

datatype lease_traffic = Ask nat string lease_request | Give_back string string

fun lease_run :: "'b lib \<Rightarrow> string option \<Rightarrow> lease_traffic list \<Rightarrow> 'b app \<Rightarrow> 'b app" where
  "lease_run L header [] ap = ap"
| "lease_run L header (Ask now k x # ts) ap = lease_run L header ts (snd (acquire_lease L header now k x ap))"
| "lease_run L header (Give_back k tok # ts) ap = lease_run L header ts (snd (release_lease L header k tok ap))"

definition disturbs :: "string \<Rightarrow> server_lease \<Rightarrow> lease_traffic \<Rightarrow> bool" where
  "disturbs key l t = (case t of Ask now k x \<Rightarrow> now \<ge> sl_expires_ms l | Give_back k tok \<Rightarrow> k = key \<and> tok = sl_token l)"

lemma acquire_auth [simp]: "ap_auth_token (snd (acquire_lease L header now k x ap)) = ap_auth_token ap"
  by (simp add: acquire_lease_def authorized_def Let_def split: sum.split option.split)

lemma release_auth [simp]: "ap_auth_token (snd (release_lease L header k tok ap)) = ap_auth_token ap"
  by (simp add: release_lease_def authorized_def Let_def split: sum.split option.split)

lemma authorize_cong: "ap_auth_token ap = ap_auth_token ap' \<Longrightarrow> authorize L ap header = authorize L ap' header"
  by (simp add: authorize_def)

lemma held_run:
  "held ap key l \<Longrightarrow> filter (disturbs key l) ts = [] \<Longrightarrow> authorize L ap header = Inr () \<Longrightarrow>
    held (lease_run L header ts ap) key l \<and> authorize L (lease_run L header ts ap) header = Inr ()"
proof (induction ts arbitrary: ap)
  case (Cons t ts)
  show ?case
  proof (cases t)
    case (Ask now k x)
    let ?ap = "snd (acquire_lease L header now k x ap)"
    have "now < sl_expires_ms l" using Cons.prems(2) Ask by (simp add: disturbs_def split: if_splits)
    then have "held ?ap key l" using held_acquire(1) [OF Cons.prems(1) _ Cons.prems(3)] by simp
    moreover have "authorize L ?ap header = Inr ()" using authorize_cong [of ?ap ap] Cons.prems(3) by simp
    moreover have "filter (disturbs key l) ts = []" using Cons.prems(2) by (simp split: if_splits)
    ultimately show ?thesis using Cons.IH Ask by simp
  next
    case (Give_back k tok)
    let ?ap = "snd (release_lease L header k tok ap)"
    have "k \<noteq> key \<or> tok \<noteq> sl_token l" using Cons.prems(2) Give_back by (auto simp: disturbs_def split: if_splits)
    then have "held ?ap key l" using held_release [OF Cons.prems(1)] by blast
    moreover have "authorize L ?ap header = Inr ()" using authorize_cong [of ?ap ap] Cons.prems(3) by simp
    moreover have "filter (disturbs key l) ts = []" using Cons.prems(2) by (simp split: if_splits)
    ultimately show ?thesis using Cons.IH Give_back by simp
  qed
qed simp

text \<open>
  C15. A lease is exclusive: from the moment a client owns it until it expires or is given back with
  its token, every other client asking for the key is told to wait until then, whatever lease
  traffic there is in between. The lease lasts between one second and ten minutes.
\<close>

theorem lease_is_exclusive:
  assumes "authorize L ap header = Inr ()" and "distinct (map fst (ap_leases ap))"
    and "acquire_lease L header now key x ap = (Inr (Owned tok expires), ap')" and "now + 600000 \<le> u64_max"
    and "filter (disturbs key \<lparr>sl_token = tok, sl_expires_ms = expires\<rparr>) ts = []" and "later < expires"
  shows "fst (acquire_lease L header later key y (lease_run L header ts ap')) = Inr (Wait 150 expires)
       \<and> now + 1000 \<le> expires \<and> expires \<le> now + 600000"
proof -
  let ?ls = "filter (\<lambda>(_, l). sl_expires_ms l > now) (ap_leases ap)"
  have none: "map_of ?ls key = None" and t: "expires = wrap_add64 now (clamp 1000 (10 * 60 * 1000) (lr_ttl_ms x))"
    and ap': "ap' = ap\<lparr>ap_leases := (key, \<lparr>sl_token = tok, sl_expires_ms = expires\<rparr>) # ?ls\<rparr>"
    using assms(3) by (auto simp: acquire_lease_def authorized_ok [OF assms(1)] Let_def split: option.splits)
  have "key \<notin> fst ` set ?ls" using none by (simp add: map_of_eq_None_iff)
  then have "held ap' key \<lparr>sl_token = tok, sl_expires_ms = expires\<rparr>"
    using distinct_filter_fst [OF assms(2)] by (simp add: held_def ap')
  moreover have "authorize L ap' header = Inr ()" using assms(1) authorize_cong [of ap' ap] by (simp add: ap')
  ultimately have "held (lease_run L header ts ap') key \<lparr>sl_token = tok, sl_expires_ms = expires\<rparr>"
    "authorize L (lease_run L header ts ap') header = Inr ()"
    using held_run assms(5) by blast+
  from held_acquire(2) [OF this(1) _ this(2)] assms(6)
  have "fst (acquire_lease L header later key y (lease_run L header ts ap')) = Inr (Wait 150 expires)" by simp
  moreover have "expires = now + clamp 1000 (10 * 60 * 1000) (lr_ttl_ms x)"
    using assms(4) unfolding t by (intro wrap_add64_id) (simp add: clamp_def)
  ultimately show ?thesis by (auto simp: clamp_def)
qed

theorem lease_is_exclusive_witness:
  "fst (acquire_lease ex_lib (Some ''Bearer secret'') 500 ''k'' \<lparr>lr_client_id = ''b'', lr_ttl_ms = 2\<rparr>
     (snd (acquire_lease ex_lib (Some ''Bearer secret'') 7 ''k'' \<lparr>lr_client_id = ''a'', lr_ttl_ms = 2\<rparr> (ex_server (empty_store :: string store)))))
   = Inr (Wait 150 1007)"
proof -
  let ?ap = "ex_server empty_store :: string app" and ?h = "Some ''Bearer secret''"
  let ?x = "\<lparr>lr_client_id = ''a'', lr_ttl_ms = 2\<rparr>"
  have a: "authorize ex_lib ?ap ?h = Inr ()"
    by (simp add: authorize_def ex_server_def supplied_token_def header_text_def strip_prefix_def)
  obtain tok ap' where o: "acquire_lease ex_lib ?h 7 ''k'' ?x ?ap = (Inr (Owned tok 1007), ap')"
    unfolding acquire_lease_def authorized_ok [OF a]
    by (simp add: ex_server_def Let_def clamp_def wrap_add64_def u64_max_def)
  have "fst (acquire_lease ex_lib ?h 500 ''k'' \<lparr>lr_client_id = ''b'', lr_ttl_ms = 2\<rparr> (lease_run ex_lib ?h [] ap'))
      = Inr (Wait 150 1007)"
    using lease_is_exclusive [OF a _ o, of "[]" 500] by (simp add: ex_server_def u64_max_def)
  then show ?thesis by (simp add: o)
qed

section \<open>Uploads\<close>

lemma receive_loop_spec:
  "receive_loop limit len received parts = Inr b \<longleftrightarrow>
     (\<exists>ds. parts = map Inr ds \<and> b = received @ concat ds \<and> (ds \<noteq> [] \<longrightarrow> len + length (concat ds) \<le> limit))"
proof (induction limit len received parts rule: receive_loop.induct)
  case (3 limit len received chunk parts)
  have "(\<exists>ds. Inr chunk # parts = map Inr ds \<and> P ds) \<longleftrightarrow> (\<exists>ds. parts = map Inr ds \<and> P (chunk # ds))" for P
    by (auto simp: Cons_eq_map_conv)
  then show ?case using 3 by (auto simp: Let_def)
qed (auto simp: Cons_eq_map_conv)

text \<open>
  The size limit is exact: a body is received in full exactly when every chunk of it arrives and
  they make up at most \<open>--max-blob-mb\<close> together, however it is cut into chunks; and what is received
  is the concatenation of the chunks.
\<close>

theorem upload_limit_exact:
  "receive_blob limit parts = Inr b \<longleftrightarrow> (\<exists>ds. parts = map Inr ds \<and> b = concat ds \<and> length b \<le> limit)"
  by (auto simp: receive_blob_def receive_loop_spec)

end
