(* ===== verification/Server_Props.thy ===== *)
theory Server_Props
  imports Server_Router
begin

text \<open>
  How requests change the store: blobs that were intact stay intact, the journal only grows by whole
  lines, and a record is added only when every blob it references is intact. The collector's
  theory rests on the same facts.
\<close>

section \<open>What a store holds\<close>

definition intact :: "'b lib \<Rightarrow> 'b store \<Rightarrow> string \<Rightarrow> bool" where
  "intact L s d \<longleftrightarrow> (\<exists>b. read_blob L d s = Inr b)"

definition journal_text :: "'b store \<Rightarrow> string" where
  "journal_text s = (case st_journal s of None \<Rightarrow> [] | Some j \<Rightarrow> j)"

text \<open>
  An item is a record as the collector sees it: the candidate's identity (static key, action key,
  creation time), or none for a declared record or an archive, and the digests it references.
\<close>

type_synonym item = "(string \<times> string \<times> nat) option \<times> string list"

definition candidate_item :: "action_candidate \<Rightarrow> item" where
  "candidate_item c = (Some (ac_static_key c, ac_action_key c, ac_created_ms c), candidate_digests c)"

definition doc_items :: "'b lib \<Rightarrow> record_path \<Rightarrow> 'b doc_file \<Rightarrow> item set" where
  "doc_items L p f =
     (case p of
        Action_file k \<Rightarrow> (case l_dec_index L (df_doc f) of None \<Rightarrow> {} | Some index \<Rightarrow> candidate_item ` set index)
      | Declared_file k \<Rightarrow> (case l_dec_declared L (df_doc f) of None \<Rightarrow> {} | Some r \<Rightarrow> {(None, declared_digests r)})
      | Archive_file k \<Rightarrow> (case l_dec_archive L (df_doc f) of None \<Rightarrow> {} | Some m \<Rightarrow> {(None, archive_digests m)}))"

definition items_at :: "'b lib \<Rightarrow> 'b store \<Rightarrow> record_path \<Rightarrow> item set" where
  "items_at L s p = (case record_at p s of None \<Rightarrow> {} | Some f \<Rightarrow> doc_items L p f)"

text \<open>Every record's blobs are there and hash to their names.\<close>

definition backed :: "'b lib \<Rightarrow> 'b store \<Rightarrow> bool" where
  "backed L s \<longleftrightarrow> (\<forall>p. \<forall>it \<in> items_at L s p. \<forall>d \<in> set (snd it). intact L s d)"

lemma record_at_simps [simp]:
  "record_at (Action_file k) s = st_actions s k" "record_at (Declared_file k) s = st_declared s k"
  "record_at (Archive_file k) s = st_archives s k"
  by (simp_all add: record_at_def)

lemma items_at_cong: "record_at p s = record_at p t \<Longrightarrow> items_at L s p = items_at L t p"
  by (simp add: items_at_def)

lemma intact_iff: "intact L s d \<longleftrightarrow> key_ok d \<and> (\<exists>f. st_blobs s d = Some f \<and> l_hash L (bf_bytes f) = d)"
  by (auto simp: intact_def read_blob_ok)

lemma intact_cong: "st_blobs s d = st_blobs t d \<Longrightarrow> intact L s d = intact L t d"
  by (simp add: intact_iff)

section \<open>Journal lines\<close>

definition whole_lines :: "string \<Rightarrow> bool" where
  "whole_lines x \<longleftrightarrow> x = [] \<or> last x = lf"

lemma split_inclusive_append: "whole_lines x \<Longrightarrow> split_inclusive (x @ y) = split_inclusive x @ split_inclusive y"
proof (induction x)
  case (Cons c x)
  show ?case
  proof (cases "x = []")
    case True
    then show ?thesis using Cons.prems by (simp add: whole_lines_def)
  next
    case False
    then have "whole_lines x" using Cons.prems by (simp add: whole_lines_def)
    moreover have "split_inclusive x \<noteq> []"
      using False by (cases x) (auto split: list.splits)
    ultimately show ?thesis using Cons.IH by (auto split: list.splits)
  qed
qed simp

lemma parse_lines_append: "whole_lines x \<Longrightarrow> parse_lines (x @ y) = parse_lines x @ parse_lines y"
  by (simp add: parse_lines_def str_lines_def split_inclusive_append map_filter_def)

lemma whole_lines_append: "whole_lines x \<Longrightarrow> whole_lines y \<Longrightarrow> whole_lines (x @ y)"
  by (auto simp: whole_lines_def last_append)

lemma parse_lines_Nil [simp]: "parse_lines [] = []"
  by (simp add: parse_lines_def map_filter_def)

lemma lower_hex_plain: "is_lower_hex c \<Longrightarrow> c \<noteq> CHR '' '' \<and> c \<noteq> lf \<and> c \<noteq> cr"
  by (auto simp: is_lower_hex_def is_digit_def lf_def cr_def)

lemma digit_plain: "is_digit c \<Longrightarrow> c \<noteq> CHR '' '' \<and> c \<noteq> lf \<and> c \<noteq> cr"
  by (auto simp: is_digit_def lf_def cr_def)

lemma key_plain: "key_ok k \<Longrightarrow> c \<in> set k \<Longrightarrow> c \<noteq> CHR '' '' \<and> c \<noteq> lf \<and> c \<noteq> cr"
  using lower_hex_plain by (auto simp: key_ok_def)

lemma parse_journal_line:
  assumes "key_ok k" and "key_ok a" and "ms \<le> u64_max"
  shows "parse_lines (journal_line k a ms @ rest) = (k, a, ms) # parse_lines rest"
proof -
  let ?w = "k @ '' '' @ a @ '' '' @ dec_string ms"
  have d: "\<And>c. c \<in> set (dec_string ms) \<Longrightarrow> c \<noteq> CHR '' '' \<and> c \<noteq> lf \<and> c \<noteq> cr"
    using dec_string_digits digit_plain by blast
  have "lf \<notin> set ?w" using key_plain [OF assms(1)] key_plain [OF assms(2)] d by (auto simp: lf_def)
  moreover have "last ?w = last (dec_string ms)" by simp
  then have "last ?w \<noteq> cr" using d [of "last (dec_string ms)"] by simp
  ultimately have l: "str_lines (?w @ lf # rest) = ?w # str_lines rest" by (intro str_lines_line) auto
  have "split_on (\<lambda>c. c = CHR '' '') ?w = [k, a, dec_string ms]"
    using key_plain [OF assms(1)] key_plain [OF assms(2)] d by (simp add: split_on_field split_on_clean)
  then have "parse_line ?w = Some (k, a, ms)"
  proof -
    have "validate_content_key k = Inr ()" "validate_content_key a = Inr ()" using assms by simp_all
    with \<open>split_on _ ?w = _\<close> show ?thesis by (simp add: parse_line_def u64_from_str_dec [OF assms(3)] del: validate_content_key_ok)
  qed
  moreover have j: "journal_line k a ms @ rest = ?w @ lf # rest" by (simp add: journal_line_def lf_def)
  ultimately show ?thesis unfolding parse_lines_def j l by (simp add: map_filter_simps)
qed

lemma whole_journal_line [simp]: "whole_lines (journal_line k a ms)"
  by (simp add: whole_lines_def journal_line_def lf_def)

section \<open>How a store advances\<close>

text \<open>
  \<open>x\<close> is what was appended to the journal. A candidate that is new under its key is named by a line
  of \<open>x\<close>.
\<close>

definition new_item_ok :: "'b lib \<Rightarrow> 'b store \<Rightarrow> string \<Rightarrow> record_path \<Rightarrow> item \<Rightarrow> bool" where
  "new_item_ok L t x p it \<longleftrightarrow> (\<forall>d \<in> set (snd it). intact L t d)
     \<and> (\<forall>k. p = Action_file k \<longrightarrow> (\<exists>a created ms. fst it = Some (k, a, created) \<and> (k, a, ms) \<in> set (parse_lines x)))"

definition grows :: "'b lib \<Rightarrow> 'b store \<Rightarrow> 'b store \<Rightarrow> string \<Rightarrow> bool" where
  "grows L s t x \<longleftrightarrow> (\<forall>d. intact L s d \<longrightarrow> intact L t d) \<and> whole_lines x \<and> journal_text t = journal_text s @ x
     \<and> (\<forall>p. \<forall>it \<in> items_at L t p. it \<in> items_at L s p \<or> new_item_ok L t x p it)"

definition advances :: "'b lib \<Rightarrow> 'b store \<Rightarrow> 'b store \<Rightarrow> bool" where
  "advances L s t \<longleftrightarrow> (\<exists>x. grows L s t x)"

lemma growsD:
  assumes "grows L s t x"
  shows "intact L s d \<Longrightarrow> intact L t d" and "whole_lines x" and "journal_text t = journal_text s @ x"
    and "it \<in> items_at L t p \<Longrightarrow> it \<in> items_at L s p \<or> new_item_ok L t x p it"
  using assms by (auto simp: grows_def)

lemma grows_trans:
  assumes s: "grows L s t x" and t: "grows L t u y"
  shows "grows L s u (x @ y)"
  unfolding grows_def
proof (intro conjI allI ballI impI)
  show "whole_lines (x @ y)" using growsD(2) [OF s] growsD(2) [OF t] by (rule whole_lines_append)
  show "journal_text u = journal_text s @ x @ y" using growsD(3) [OF s] growsD(3) [OF t] by simp
  fix p it
  assume "it \<in> items_at L u p"
  then consider "it \<in> items_at L t p" | "new_item_ok L u y p it" using growsD(4) [OF t] by blast
  then show "it \<in> items_at L s p \<or> new_item_ok L u (x @ y) p it"
  proof cases
    case 1
    from growsD(4) [OF s this] show ?thesis
    proof
      assume n: "new_item_ok L t x p it"
      then have "\<forall>d \<in> set (snd it). intact L u d" using growsD(1) [OF t] by (simp add: new_item_ok_def)
      moreover have "set (parse_lines x) \<subseteq> set (parse_lines (x @ y))"
        by (simp add: parse_lines_append [OF growsD(2) [OF s]])
      ultimately show ?thesis using n unfolding new_item_ok_def by blast
    qed simp
  next
    case 2
    have "set (parse_lines y) \<subseteq> set (parse_lines (x @ y))"
      by (simp add: parse_lines_append [OF growsD(2) [OF s]])
    then show ?thesis using 2 unfolding new_item_ok_def by blast
  qed
qed (use growsD(1) [OF s] growsD(1) [OF t] in blast)

lemma advances_trans: "advances L s t \<Longrightarrow> advances L t u \<Longrightarrow> advances L s u"
  unfolding advances_def using grows_trans by blast

lemma advances_intact: "advances L s t \<Longrightarrow> intact L s d \<Longrightarrow> intact L t d"
  using growsD(1) unfolding advances_def by blast

lemma grows_same:
  assumes "\<And>d. intact L s d \<Longrightarrow> intact L t d" and "st_journal t = st_journal s"
    and "\<And>p f. record_at p t = Some f \<Longrightarrow> record_at p s = Some f"
  shows "grows L s t []"
proof -
  have "items_at L t p \<subseteq> items_at L s p" for p
    using assms(3) [of p] by (auto simp: items_at_def split: option.splits)
  then show ?thesis using assms(1,2) by (auto simp: grows_def whole_lines_def journal_text_def)
qed

lemma advances_refl [simp]: "advances L s s"
  using grows_same [of L s s] unfolding advances_def by blast

lemma advances_same:
  "(\<And>d. intact L s d \<Longrightarrow> intact L t d) \<Longrightarrow> st_journal t = st_journal s \<Longrightarrow>
    (\<And>p f. record_at p t = Some f \<Longrightarrow> record_at p s = Some f) \<Longrightarrow> advances L s t"
  unfolding advances_def using grows_same by blast

text \<open>What a store that advances keeps.\<close>

lemma backed_advances:
  assumes "backed L s" and "advances L s t"
  shows "backed L t"
proof -
  obtain x where g: "grows L s t x" using assms(2) by (auto simp: advances_def)
  then show ?thesis using assms(1) growsD(1,4) [OF g] unfolding backed_def new_item_ok_def by metis
qed

subsection \<open>Blobs\<close>

lemma record_at_blobs [simp]: "record_at p (s\<lparr>st_blobs := m\<rparr>) = record_at p s"
  by (simp add: record_at_def split: record_path.split)

lemma advances_set_blob:
  assumes "\<And>f. st_blobs s d = Some f \<Longrightarrow> l_hash L (bf_bytes f) = d \<Longrightarrow> l_hash L bytes = d"
  shows "advances L s (s\<lparr>st_blobs := (st_blobs s)(d \<mapsto> \<lparr>bf_bytes = bytes, bf_modified = now\<rparr>)\<rparr>)"
  by (rule advances_same) (use assms in \<open>auto simp: intact_iff\<close>)

lemma advances_touch_blob: "advances L s (snd (touch_blob d now s))"
proof (cases "key_ok d")
  case True
  show ?thesis
  proof (cases "st_blobs s d")
    case (Some f)
    have eq: "f\<lparr>bf_modified := now\<rparr> = \<lparr>bf_bytes = bf_bytes f, bf_modified = now\<rparr>" by (cases f) simp
    show ?thesis using Some True advances_set_blob [of s d L "bf_bytes f" now] by (simp add: touch_blob_def eq)
  qed (simp add: touch_blob_def True)
next
  case False
  then have "\<exists>e. blob_path d = Inl e" using paths_ok(1) [of d] by (cases "blob_path d") auto
  then show ?thesis by (auto simp: touch_blob_def)
qed

lemma blob_path_cases: "(\<exists>e. blob_path d = Inl e \<and> \<not> key_ok d) \<or> key_ok d"
  using paths_ok(1) [of d] by (cases "blob_path d") auto

lemma advances_commit_blob:
  assumes "l_hash L temp = d"
  shows "advances L s (snd (commit_blob L d temp now s))"
    and "fst (commit_blob L d temp now s) = Inr c \<Longrightarrow> intact L (snd (commit_blob L d temp now s)) d"
proof -
  have "advances L s (snd (commit_blob L d temp now s))
    \<and> (fst (commit_blob L d temp now s) = Inr c \<longrightarrow> intact L (snd (commit_blob L d temp now s)) d)"
  proof (cases "key_ok d")
    case False
    then obtain e where "blob_path d = Inl e" using blob_path_cases [of d] by blast
    then show ?thesis by (simp add: commit_blob_def)
  next
    case True
    show ?thesis
    proof (cases "read_blob L d s")
      case (Inl e)
      then show ?thesis using True assms advances_set_blob [of s d L temp now]
        by (simp add: commit_blob_cases intact_iff)
    next
      case (Inr b)
      then have "l_hash L b = d" by (auto simp: read_blob_ok)
      then show ?thesis using Inr True advances_set_blob [of s d L b now]
        by (simp add: commit_blob_cases intact_iff)
    qed
  qed
  then show "advances L s (snd (commit_blob L d temp now s))"
    "fst (commit_blob L d temp now s) = Inr c \<Longrightarrow> intact L (snd (commit_blob L d temp now s)) d" by blast+
qed

lemma advances_put_blob:
  shows "advances L s (snd (put_blob L d bytes now s))"
    and "fst (put_blob L d bytes now s) = Inr c \<Longrightarrow> intact L (snd (put_blob L d bytes now s)) d"
proof -
  have "advances L s (snd (put_blob L d bytes now s))
    \<and> (fst (put_blob L d bytes now s) = Inr c \<longrightarrow> intact L (snd (put_blob L d bytes now s)) d)"
  proof (cases "key_ok d \<and> l_hash L bytes = d")
    case True
    then show ?thesis using advances_commit_blob [where L = L and temp = bytes and d = d and s = s and now = now] by (auto simp: put_blob_cases)
  next
    case False
    then show ?thesis using blob_path_cases [of d] by (auto simp: put_blob_def Let_def)
  qed
  then show "advances L s (snd (put_blob L d bytes now s))"
    "fst (put_blob L d bytes now s) = Inr c \<Longrightarrow> intact L (snd (put_blob L d bytes now s)) d" by blast+
qed

subsection \<open>Records\<close>

lemma advances_quarantine:
  "advances L s (quarantine_action k f s)" "advances L s (quarantine_declared k f s)"
  "advances L s (quarantine_archive k f s)"
  by (rule advances_same; auto simp: quarantine_action_def quarantine_declared_def quarantine_archive_def
      intact_iff record_at_def split: record_path.splits if_splits)+

lemma advances_read_candidates: "advances L s (snd (read_candidates L k s))"
  using advances_quarantine(1) by (auto simp: read_candidates_def split: sum.splits option.splits)

lemma advances_read_declared: "advances L s (snd (read_declared L k s))"
  using advances_quarantine(2) by (auto simp: read_declared_def split: sum.splits option.splits)

lemma advances_read_archive: "advances L s (snd (read_archive L k s))"
  using advances_quarantine(3) by (auto simp: read_archive_def split: sum.splits option.splits)

lemma grows_record_use:
  assumes "key_ok k" and "key_ok a"
  shows "record_use k a now s = (Inr (), s\<lparr>st_journal := Some (journal_text s @ journal_line k a now)\<rparr>)"
    and "grows L s (s\<lparr>st_journal := Some (journal_text s @ journal_line k a now)\<rparr>) (journal_line k a now)"
proof -
  show "record_use k a now s = (Inr (), s\<lparr>st_journal := Some (journal_text s @ journal_line k a now)\<rparr>)"
    using assms by (simp add: record_use_def journal_text_def)
  show "grows L s (s\<lparr>st_journal := Some (journal_text s @ journal_line k a now)\<rparr>) (journal_line k a now)"
    by (auto simp: grows_def journal_text_def intact_iff items_at_def record_at_def split: record_path.splits)
qed

lemma advances_record_use: "advances L s (snd (record_use k a now s))"
proof (cases "key_ok k \<and> key_ok a")
  case True
  then show ?thesis using grows_record_use [where k = k and a = a and now = now and s = s] unfolding advances_def by auto
next
  case False
  then have "\<not> (\<exists>u. r_then (checked_key k) (checked_key a) = Inr u)" by auto
  then obtain e where "r_then (checked_key k) (checked_key a) = Inl e"
    by (cases "r_then (checked_key k) (checked_key a)") auto
  then show ?thesis by (simp add: record_use_def)
qed

lemma items_at_put:
  "items_at L (put_record p f s) q = (if q = p then doc_items L p f else items_at L s q)"
  by (cases p; cases q) (simp_all add: items_at_def put_record_def)

lemma intact_put_record [simp]: "intact L (put_record p f s) d = intact L s d"
  by (cases p) (simp_all add: intact_iff put_record_def)

lemma journal_put_record [simp]: "st_journal (put_record p f s) = st_journal s"
  by (cases p) (simp_all add: put_record_def)

lemma advances_put_candidate:
  assumes L: "codec_ok L" and now: "now \<le> u64_max" and i: "\<forall>d \<in> set (candidate_digests c). intact L s d"
  shows "advances L s (snd (put_candidate L c n now s))"
proof (cases "candidate_ok L c")
  case False
  then obtain e where "validate_candidate_manifest L c = Inl e"
    using candidate_manifest_ok [of L c] by (cases "validate_candidate_manifest L c") auto
  then show ?thesis by (simp add: put_candidate_def s_bind_def s_lift_def)
next
  case True
  let ?k = "ac_static_key c" and ?a = "ac_action_key c"
  have keys: "key_ok ?k" "key_ok ?a" using candidate_ok_keys [OF True] by simp_all
  obtain r t where rt: "read_candidates L ?k s = (r, t)" by (cases "read_candidates L ?k s")
  have st: "advances L s t" using advances_read_candidates [of L s ?k] rt by simp
  have valid: "validate_candidate_manifest L c = Inr ()" using True by (simp add: candidate_manifest_ok)
  have eq: "put_candidate L c n now s = (case r of Inl e \<Rightarrow> (Inl e, t)
      | Inr index \<Rightarrow> record_use ?k ?a now (put_record (Action_file ?k)
          \<lparr>df_doc = l_enc_index L (updated_index c n index), df_modified = now\<rparr> t))"
    using keys by (simp add: put_candidate_def put_candidate_unlocked_def s_bind_def s_lift_def valid rt put_record_def
        split: sum.split)
  show ?thesis
  proof (cases r)
    case (Inl e)
    with eq st show ?thesis by simp
  next
    case (Inr index)
    let ?u = "put_record (Action_file ?k) \<lparr>df_doc = l_enc_index L (updated_index c n index), df_modified = now\<rparr> t"
    let ?v = "?u\<lparr>st_journal := Some (journal_text ?u @ journal_line ?k ?a now)\<rparr>"
    have old: "candidate_item ` set index \<subseteq> items_at L t (Action_file ?k)"
      using rt Inr keys by (auto simp: read_candidates_def items_at_def doc_items_def split: option.splits sum.splits)
    have parsed: "(?k, ?a, now) \<in> set (parse_lines (journal_line ?k ?a now))"
      using parse_journal_line [OF keys now, of "[]"] by simp
    have "grows L t ?v (journal_line ?k ?a now)"
      unfolding grows_def
    proof (intro conjI allI ballI impI)
      show "intact L ?v d" if "intact L t d" for d using that by (simp add: intact_iff put_record_def)
      show "journal_text ?v = journal_text t @ journal_line ?k ?a now" by (simp add: journal_text_def)
      fix p it
      assume "it \<in> items_at L ?v p"
      moreover have "items_at L ?v p = items_at L ?u p" by (rule items_at_cong) (simp add: record_at_def split: record_path.split)
      ultimately have it: "it \<in> items_at L ?u p" by simp
      show "it \<in> items_at L t p \<or> new_item_ok L ?v (journal_line ?k ?a now) p it"
      proof (cases "p = Action_file ?k")
        case False
        with it show ?thesis by (simp add: items_at_put)
      next
        case True
        with it L have "it \<in> candidate_item ` set (updated_index c n index)"
          by (simp add: items_at_put doc_items_def)
        moreover have "set (updated_index c n index) \<subseteq> insert c (set index)"
          using set_take_subset by (fastforce simp: updated_index_def)
        ultimately have "it = candidate_item c \<or> it \<in> candidate_item ` set index" by blast
        moreover have "new_item_ok L ?v (journal_line ?k ?a now) p (candidate_item c)"
        proof -
          have "\<forall>d \<in> set (candidate_digests c). intact L ?v d"
            using i advances_intact [OF st] by (simp add: intact_iff put_record_def)
          then show ?thesis using True parsed by (auto simp: new_item_ok_def candidate_item_def)
        qed
        ultimately show ?thesis using old True by blast
      qed
    qed simp
    then have "advances L t ?v" by (auto simp: advances_def)
    with st have "advances L s ?v" by (rule advances_trans)
    moreover have "snd (put_candidate L c n now s) = ?v"
      using eq Inr grows_record_use(1) [OF keys, of now ?u] by simp
    ultimately show ?thesis by simp
  qed
qed

text \<open>A declared record or an archive is written under a name that had no record.\<close>

lemma advances_put_record:
  assumes "\<forall>k. p \<noteq> Action_file k" and "\<forall>it \<in> doc_items L p f. \<forall>d \<in> set (snd it). intact L s d"
  shows "advances L s (put_record p f s)"
proof -
  have "grows L s (put_record p f s) []"
    using assms by (auto simp: grows_def whole_lines_def journal_text_def items_at_put new_item_ok_def)
  then show ?thesis by (auto simp: advances_def)
qed

lemma advances_put_declared:
  assumes L: "codec_ok L" and i: "\<forall>d \<in> set (declared_digests r). intact L s d"
  shows "advances L s (snd (put_declared L r now s))"
proof (cases "declared_ok L r")
  case False
  with put_declared_unfit [OF False, of now s] show ?thesis by auto
next
  case True
  consider "st_declared s (dr_key r) = None" | x where "declared_found L s (dr_key r) = Some x"
    | "declared_broken L s (dr_key r)"
    by (cases "declared_found L s (dr_key r)"; cases "st_declared s (dr_key r)") (auto simp: declared_broken_def)
  then show ?thesis
  proof cases
    case 1
    have "\<forall>it \<in> doc_items L (Declared_file (dr_key r)) \<lparr>df_doc = l_enc_declared L r, df_modified = now\<rparr>.
        \<forall>d \<in> set (snd it). intact L s d"
      using i L by (simp add: doc_items_def)
    from advances_put_record [OF _ this] put_declared_fresh [OF True 1, of now] show ?thesis
      by (simp add: put_record_def)
  next
    case 2
    with put_declared_found [OF True 2, of now] show ?thesis by simp
  next
    case 3
    with put_declared_broken [OF True 3, of now] advances_quarantine(2) show ?thesis by auto
  qed
qed

lemma advances_put_archive:
  assumes L: "codec_ok L" and i: "\<forall>d \<in> set (archive_digests m). intact L s d"
  shows "advances L s (snd (put_archive L m now s))"
proof (cases "archive_ok L m")
  case False
  with put_archive_unfit [OF False, of now s] show ?thesis by auto
next
  case True
  consider "st_archives s (am_name m) = None" | x where "archive_found L s (am_name m) = Some x"
    | "archive_broken L s (am_name m)"
    by (cases "archive_found L s (am_name m)"; cases "archive_broken L s (am_name m)")
      (auto dest: archive_not_broken_none)
  then show ?thesis
  proof cases
    case 1
    have "\<forall>it \<in> doc_items L (Archive_file (am_name m)) \<lparr>df_doc = l_enc_archive L m, df_modified = now\<rparr>.
        \<forall>d \<in> set (snd it). intact L s d"
      using i L by (simp add: doc_items_def)
    from advances_put_record [OF _ this] put_archive_fresh [OF True 1, of now] show ?thesis
      by (simp add: put_record_def)
  next
    case 2
    with put_archive_found [OF True 2, of now] show ?thesis by simp
  next
    case 3
    with put_archive_broken [OF True 3, of now] advances_quarantine(3) show ?thesis by auto
  qed
qed

section \<open>Handlers\<close>

lemma store_on_store [simp]: "ap_store (snd (on_store h f ap)) = snd (f (ap_store ap))"
  by (simp add: on_store_def Let_def case_prod_unfold)

lemma store_authorized:
  "advances L (ap_store ap) (ap_store (snd (h ap))) \<Longrightarrow> advances L (ap_store ap) (ap_store (snd (authorized L header h ap)))"
  by (simp add: authorized_def split: sum.split)

lemma store_bind_lift: "ap_store (snd (a_bind f (\<lambda>a. a_lift (g a)) ap)) = ap_store (snd (f ap))"
  by (cases "f ap"; cases "fst (f ap)") (simp_all add: a_bind_def a_lift_def)

lemma store_respond [simp]: "ap_store (snd (respond f h ap)) = ap_store (snd (h ap))"
  by (cases "h ap"; cases "fst (h ap)") (simp_all add: respond_def)

lemma check_blob_intact: "check_blob L s what d = Inr b \<Longrightarrow> intact L s d"
  by (auto simp: check_blob_def intact_def)

lemma check_stream_intact: "check_stream L s what m x = Inr u \<Longrightarrow> intact L s (sa_digest x)"
  using check_blob_intact by (auto simp: check_stream_def)

lemma verify_artifact_intact: "verify_artifact L s what a = Inr u \<Longrightarrow> intact L s (ar_digest a)"
  using check_blob_intact by (auto simp: verify_artifact_def)

lemma candidate_checks_intact:
  assumes "candidate_checks L s c = Inr u"
  shows "\<forall>d \<in> set (candidate_digests c). intact L s d"
proof -
  have "\<forall>a \<in> set (ac_artifacts c). \<exists>b. check_blob L s ''referenced blob'' (ar_digest a) = Inr b"
    and "\<forall>x \<in> {ac_stdout c, ac_stderr c}.
      check_stream L s ''referenced blob'' ''compiler stream length does not match manifest'' x = Inr ()"
    using assms unfolding candidate_checks_def r_then_ok check_all_ok by auto
  then show ?thesis using check_blob_intact check_stream_intact by (fastforce simp: candidate_digests_def)
qed

lemma verify_declared_intact:
  assumes "verify_declared_record L s r = Inr u"
  shows "\<forall>d \<in> set (declared_digests r). intact L s d"
proof -
  have "\<forall>a \<in> set (dr_inputs r @ dr_outputs r). verify_artifact L s ''record blob'' a = Inr ()"
    and "\<forall>x \<in> {dr_stdout r, dr_stderr r}. check_stream L s ''stream blob'' ''stream length does not match manifest'' x = Inr ()"
    using assms unfolding verify_declared_record_def r_then_ok check_all_ok by auto
  then show ?thesis using verify_artifact_intact check_stream_intact by (fastforce simp: declared_digests_def)
qed

lemma archive_checks_intact:
  assumes "archive_checks L s m = Inr u"
  shows "\<forall>d \<in> set (archive_digests m). intact L s d"
proof -
  have "\<forall>a \<in> set (am_files m). verify_artifact L s ''archive blob'' a = Inr ()"
    using assms unfolding archive_checks_def r_then_ok check_all_ok by auto
  then show ?thesis using verify_artifact_intact by (fastforce simp: archive_digests_def)
qed

subsection \<open>Execution\<close>

abbreviation e_advances :: "'b lib \<Rightarrow> 'b store \<Rightarrow> (exec_error + 'a) \<times> 'b store \<Rightarrow> bool" where
  "e_advances L s r \<equiv> advances L s (snd r)"

lemma e_bind_advances:
  assumes "e_advances L s (f s)" and "\<And>a t. f s = (Inr a, t) \<Longrightarrow> e_advances L t (g a t)"
  shows "e_advances L s (e_bind f g s)"
  using assms advances_trans by (cases "f s"; cases "fst (f s)") (auto simp: e_bind_def)

lemma e_store_snd [simp]: "snd (e_store f s) = snd (f s)"
  by (simp add: e_store_def Let_def case_prod_unfold)

lemma e_store_Inr: "e_store f s = (Inr a, t) \<longleftrightarrow> f s = (Inr a, t)"
  by (cases "f s") (auto simp: e_store_def)

lemma e_lift_snd [simp]: "snd (e_lift r s) = s"
  by (simp add: e_lift_def)

lemma e_bind_Inr: "e_bind f g s = (Inr b, u) \<longleftrightarrow> (\<exists>a t. f s = (Inr a, t) \<and> g a t = (Inr b, u))"
  by (cases "f s"; cases "fst (f s)") (auto simp: e_bind_def)

lemma e_lift_Inr: "e_lift r s = (Inr a, t) \<longleftrightarrow> r = Inr a \<and> t = s"
  by (auto simp: e_lift_def)

lemma publish_output_advances:
  "e_advances L s (publish_output L now path bytes x outs s)"
  "publish_output L now path bytes x outs s = (Inr outs', t) \<Longrightarrow>
    \<forall>a \<in> set outs'. a \<in> set outs \<or> intact L t (ar_digest a)"
proof -
  show "e_advances L s (publish_output L now path bytes x outs s)"
    unfolding publish_output_def Let_def
    by (intro e_bind_advances) (auto simp: advances_put_blob e_lift_def)
  assume "publish_output L now path bytes x outs s = (Inr outs', t)"
  then show "\<forall>a \<in> set outs'. a \<in> set outs \<or> intact L t (ar_digest a)"
    using advances_put_blob(2) [of L "l_hash L bytes" bytes now s]
    by (auto simp: publish_output_def Let_def e_bind_Inr e_lift_Inr e_store_Inr)
qed

lemma collect_advances:
  "e_advances L s (collect_output_files L now path n outs s)
    \<and> (\<forall>outs' t. collect_output_files L now path n outs s = (Inr outs', t) \<longrightarrow>
        (\<forall>a \<in> set outs'. a \<in> set outs \<or> intact L t (ar_digest a)))"
  "e_advances L s (collect_entries L now path es outs s)
    \<and> (\<forall>outs' t. collect_entries L now path es outs s = (Inr outs', t) \<longrightarrow>
        (\<forall>a \<in> set outs'. a \<in> set outs \<or> intact L t (ar_digest a)))"
proof (induction L now path n outs and L now path es outs arbitrary: s and s
    rule: collect_output_files_collect_entries.induct)
  case (4 L now path bytes executable outputs)
  show ?case by (auto simp: publish_output_advances(1) dest: publish_output_advances(2))
next
  case (6 L now path name n entries outputs)
  let ?f = "collect_output_files L now (path @ [name]) n outputs"
  have adv: "e_advances L s (e_bind ?f (collect_entries L now path entries) s)"
    using 6 by (intro e_bind_advances) auto
  moreover have "a \<in> set outputs \<or> intact L u (ar_digest a)"
    if "e_bind ?f (collect_entries L now path entries) s = (Inr outs', u)" "a \<in> set outs'" for outs' u a
  proof -
    obtain o1 t where t: "?f s = (Inr o1, t)" "collect_entries L now path entries o1 t = (Inr outs', u)"
      using \<open>e_bind _ _ _ = _\<close> by (auto simp: e_bind_Inr)
    have "advances L t u" using 6(2) t(2) by (metis snd_conv)
    moreover have "a \<in> set o1 \<or> intact L u (ar_digest a)" using 6(2) t(2) that(2) by blast
    moreover have "a \<in> set o1 \<Longrightarrow> a \<in> set outputs \<or> intact L t (ar_digest a)" using 6(1) [of s] t(1) by blast
    ultimately show ?thesis using advances_intact by blast
  qed
  ultimately show ?case by simp
qed (simp_all add: e_lift_Inr)

lemma collect_declarations_advances:
  "e_advances L s (collect_declarations L now tree ds outs s)
    \<and> (\<forall>outs' t. collect_declarations L now tree ds outs s = (Inr outs', t) \<longrightarrow>
        (\<forall>a \<in> set outs'. a \<in> set outs \<or> intact L t (ar_digest a)))"
proof (induction ds arbitrary: outs s)
  case (Cons d ds)
  show ?case
  proof (cases "validate_relative_path d")
    case (Inl e)
    then show ?thesis by (simp add: e_bind_def e_lift_def)
  next
    case (Inr rel)
    show ?thesis
    proof (cases "node_at tree (path_names rel)")
      case None
      then show ?thesis using Inr by (simp add: e_bind_def e_lift_def)
    next
      case (Some n)
      let ?f = "collect_output_files L now (path_names rel) n outs"
      have eq: "collect_declarations L now tree (d # ds) outs s = e_bind ?f (collect_declarations L now tree ds) s"
        using Inr Some by (simp add: e_bind_def e_lift_def)
      have adv: "e_advances L s (e_bind ?f (collect_declarations L now tree ds) s)"
        by (rule e_bind_advances) (rule collect_advances(1) [THEN conjunct1], rule Cons [THEN conjunct1])
      moreover have "a \<in> set outs \<or> intact L u (ar_digest a)"
        if "e_bind ?f (collect_declarations L now tree ds) s = (Inr outs', u)" "a \<in> set outs'" for outs' u a
      proof -
        obtain o1 t where t: "?f s = (Inr o1, t)" "collect_declarations L now tree ds o1 t = (Inr outs', u)"
          using \<open>e_bind _ _ _ = _\<close> by (auto simp: e_bind_Inr)
        have "advances L t u" using Cons t(2) by (metis snd_conv)
        moreover have "a \<in> set o1 \<or> intact L u (ar_digest a)" using Cons t(2) that(2) by blast
        moreover have "a \<in> set o1 \<Longrightarrow> a \<in> set outs \<or> intact L t (ar_digest a)" using collect_advances(1) t(1) by blast
        ultimately show ?thesis using advances_intact by blast
      qed
      ultimately show ?thesis unfolding eq by blast
    qed
  qed
qed (simp add: e_lift_Inr)

lemma dedup_names_subset: "set (dedup_names as) \<subseteq> set as"
  by (induction as rule: dedup_names.induct) auto

lemma write_inputs_intact: "write_inputs L s is ws = Inr ws' \<Longrightarrow> \<forall>a \<in> set is. intact L s (ar_digest a)"
  by (induction L s "is" ws rule: write_inputs.induct) (auto simp: Let_def intact_def split: if_splits)

lemma publish_run_advances:
  assumes L: "codec_ok L" and ins: "\<forall>a \<in> set (xr_inputs request). intact L s (ar_digest a)"
    and outs: "\<forall>a \<in> set outputs. intact L s (ar_digest a)"
  shows "e_advances L s (publish_run L h now platform request outputs stdout stderr duration s)"
  unfolding publish_run_def
proof (intro e_bind_advances)
  show "e_advances L s (e_store (put_blob L (l_hash L stdout) stdout now) s)" by (simp add: advances_put_blob)
  fix b1 v
  assume "e_store (put_blob L (l_hash L stdout) stdout now) s = (Inr b1, v)"
  then have p1: "put_blob L (l_hash L stdout) stdout now s = (Inr b1, v)" by (simp add: e_store_Inr)
  show "e_advances L v (e_store (put_blob L (l_hash L stderr) stderr now) v)" by (simp add: advances_put_blob)
  fix b2 w
  assume "e_store (put_blob L (l_hash L stderr) stderr now) v = (Inr b2, w)"
  then have p2: "put_blob L (l_hash L stderr) stderr now v = (Inr b2, w)" by (simp add: e_store_Inr)
  let ?r = "executed_record L h now platform request outputs stdout stderr duration"
  have a1: "advances L s v" and i1: "intact L v (l_hash L stdout)"
    using advances_put_blob [where L = L and s = s and d = "l_hash L stdout" and bytes = stdout and now = now] p1 by simp_all
  have a2: "advances L v w" and i2: "intact L w (l_hash L stderr)"
    using advances_put_blob [where L = L and s = v and d = "l_hash L stderr" and bytes = stderr and now = now] p2 by simp_all
  have "\<forall>d \<in> set (declared_digests ?r). intact L w d"
    using ins outs i2 advances_intact [OF a2 i1] advances_intact [OF a1] advances_intact [OF a2]
    by (auto simp: declared_digests_def executed_record_def)
  from advances_put_declared [OF L this]
  show "e_advances L w ((let r = ?r in e_bind (e_store (put_declared L r now)) (\<lambda>_. e_lift (Inr r))) w)"
    unfolding Let_def by (intro e_bind_advances) simp_all
qed

lemma collect_run_advances:
  assumes L: "codec_ok L" and ins: "\<forall>a \<in> set (xr_inputs request). intact L s (ar_digest a)"
  shows "e_advances L s (collect_run L h workspace now platform request out s)"
  unfolding collect_run_def
proof (rule e_bind_advances)
  let ?c = "collect_declarations L now (po_tree out) (xr_outputs request) []"
  show "e_advances L s (?c s)" by (rule collect_declarations_advances [THEN conjunct1])
  fix collected u
  assume c: "?c s = (Inr collected, u)"
  have su: "advances L s u" using collect_declarations_advances [THEN conjunct1] c by (metis snd_conv)
  have "\<forall>a \<in> set collected. intact L u (ar_digest a)"
    using collect_declarations_advances [THEN conjunct2, rule_format, OF c] by simp
  then have outs: "\<forall>a \<in> set (dedup_names (sort_key ar_file_name collected)). intact L u (ar_digest a)"
    using dedup_names_subset [of "sort_key ar_file_name collected"] by auto
  have "\<forall>a \<in> set (xr_inputs request). intact L u (ar_digest a)" using ins advances_intact [OF su] by blast
  from publish_run_advances [OF L this outs]
  show "e_advances L u ((let outputs = dedup_names (sort_key ar_file_name collected);
      n = new_normalizer [(''$SANDBOX'', workspace)]
    in if outputs = [] then e_lift (Inl No_outputs)
       else publish_run L h now platform request outputs (normalize_bytes n (po_stdout out))
              (normalize_bytes n (po_stderr out)) (po_duration_ms out)) u)"
    by (simp add: Let_def)
qed

lemma execute_declared_advances:
  assumes "codec_ok L"
  shows "e_advances L s (execute_declared L h run workspace now platform request s)"
  using collect_run_advances [OF assms write_inputs_intact]
  by (simp add: execute_declared_def split: sum.split option.split)

lemma store_run_declared [simp]:
  "ap_store (snd (run_declared L h run workspace now platform request ap))
    = snd (execute_declared L h run workspace now platform request (ap_store ap))"
  by (simp add: run_declared_def split: prod.split sum.split)

lemma find_or_run_advances:
  assumes "codec_ok L"
  shows "advances L (ap_store ap) (ap_store (snd (find_or_run L h run workspace now platform request ap)))"
proof -
  let ?found = "on_store internal (read_declared L (xr_key request))"
  obtain r a where f: "?found ap = (r, a)" by (cases "?found ap")
  have st: "advances L (ap_store ap) (ap_store a)"
    using advances_read_declared [of L "ap_store ap" "xr_key request"]
      store_on_store [of internal "read_declared L (xr_key request)" ap] f by simp
  show ?thesis
  proof (cases r)
    case (Inr found)
    then show ?thesis
      using f st advances_trans [OF st execute_declared_advances [OF assms]]
      by (cases found) (simp_all add: find_or_run_def a_bind_def a_lift_def)
  qed (use f st in \<open>simp add: find_or_run_def a_bind_def\<close>)
qed

lemma execute_advances:
  assumes "codec_ok L"
  shows "advances L (ap_store ap) (ap_store (snd (execute L h run workspace detected header now request ap)))"
  unfolding execute_def using find_or_run_advances [OF assms]
  by (intro store_authorized) (simp split: option.split sum.split)

subsection \<open>Every request\<close>

lemma store_acquire [simp]: "ap_store (snd (acquire_lease L header now k x ap)) = ap_store ap"
  by (simp add: acquire_lease_def authorized_def Let_def split: sum.split option.split)

lemma store_release [simp]: "ap_store (snd (release_lease L header k tok ap)) = ap_store ap"
  by (simp add: release_lease_def authorized_def Let_def split: sum.split option.split)

lemma put_blob_handler_advances:
  "advances L (ap_store ap) (ap_store (snd (put_blob_handler L header now d body ap)))"
  unfolding put_blob_handler_def
  by (intro store_authorized) (auto simp: store_bind_lift advances_commit_blob(1) split: sum.split)

lemma head_blob_advances: "advances L (ap_store ap) (ap_store (snd (head_blob L header now d ap)))"
  unfolding head_blob_def by (intro store_authorized) (auto simp: advances_touch_blob split: sum.split)

lemma store_candidate_advances:
  assumes "codec_ok L" and "now \<le> u64_max"
  shows "advances L (ap_store ap) (ap_store (snd (store_candidate L now c ap)))"
proof (cases "candidate_checks L (ap_store ap) c")
  case (Inr u)
  from advances_put_candidate [OF assms candidate_checks_intact [OF Inr]] Inr
  show ?thesis by (simp add: store_candidate_def)
qed (simp add: store_candidate_def)

lemma put_candidate_handler_advances:
  assumes "codec_ok L" and "now \<le> u64_max"
  shows "advances L (ap_store ap) (ap_store (snd (put_candidate_handler L header now k a c ap)))"
  unfolding put_candidate_handler_def using store_candidate_advances [OF assms] by (intro store_authorized) simp

lemma record_use_handler_advances: "advances L (ap_store ap) (ap_store (snd (record_use_handler L header now k a ap)))"
  unfolding record_use_handler_def
  by (intro store_authorized) (auto simp: advances_record_use split: sum.split)

lemma put_declared_handler_advances:
  assumes "codec_ok L"
  shows "advances L (ap_store ap) (ap_store (snd (put_declared_handler L header now k r ap)))"
  unfolding put_declared_handler_def using advances_put_declared [OF assms verify_declared_intact]
  by (intro store_authorized) (auto simp: store_bind_lift split: sum.split)

lemma put_archive_handler_advances:
  assumes "codec_ok L"
  shows "advances L (ap_store ap) (ap_store (snd (put_archive_handler L header now n m ap)))"
  unfolding put_archive_handler_def using advances_put_archive [OF assms archive_checks_intact]
  by (intro store_authorized) (auto simp: store_bind_lift split: sum.split)

lemma reading_handlers_advance:
  "advances L (ap_store ap) (ap_store (snd (get_candidates L header k ap)))"
  "advances L (ap_store ap) (ap_store (snd (get_declared L header k ap)))"
  "advances L (ap_store ap) (ap_store (snd (get_archive L header k ap)))"
  "advances L (ap_store ap) (ap_store (snd (get_blob L header k ap)))"
  "advances L (ap_store ap) (ap_store (snd (health L version header ap)))"
  "advances L (ap_store ap) (ap_store (snd (stats L ls header now ap)))"
  unfolding get_candidates_def get_declared_def get_archive_def get_blob_def health_def stats_def
  by (intro store_authorized; auto simp: store_bind_lift advances_read_candidates advances_read_declared
      advances_read_archive Let_def split: sum.split store_error.split option.split)+

definition is_gc :: "api_request \<Rightarrow> bool" where
  "is_gc req \<longleftrightarrow> (case req of Post_gc opts \<Rightarrow> True | _ \<Rightarrow> False)"

lemma handle_advances:
  assumes "codec_ok L" and "w_now W \<le> u64_max" and "\<not> is_gc req"
  shows "advances L (ap_store ap) (ap_store (snd (handle L W header req ap)))"
  using assms(3) by (cases req) (simp_all add: handle_def Let_def is_gc_def reading_handlers_advance head_blob_advances
      put_blob_handler_advances put_candidate_handler_advances [OF assms(1,2)] record_use_handler_advances
      put_declared_handler_advances [OF assms(1)] put_archive_handler_advances [OF assms(1)] execute_advances [OF assms(1)])

text \<open>A sequence of requests, each with the surroundings it finds.\<close>

fun serve_all :: "'b lib \<Rightarrow> ('b world \<times> string option \<times> api_request) list \<Rightarrow> 'b app \<Rightarrow> 'b app" where
  "serve_all L [] ap = ap"
| "serve_all L ((W, header, req) # reqs) ap = serve_all L reqs (snd (handle L W header req ap))"

lemma backed_serve_all:
  "codec_ok L \<Longrightarrow> list_all (\<lambda>(W, header, req). w_now W \<le> u64_max \<and> \<not> is_gc req) reqs \<Longrightarrow> backed L (ap_store ap) \<Longrightarrow>
    backed L (ap_store (serve_all L reqs ap))"
  by (induction L reqs ap rule: serve_all.induct) (auto intro: backed_advances handle_advances)

end
