(* ===== verification/GC_Snapshot.thy ===== *)
theory GC_Snapshot
  imports GC_Bounds GC_Report Server_Props
begin

text \<open>
  What a snapshot knows: every item of a record file that was read is a unit, a unit references the
  blobs of its digests that are present, and the plan made from it puts every evicted unit in the
  batches of the first phase.
\<close>

section \<open>Entries and items\<close>

fun entry_item :: "entry \<Rightarrow> item" where
  "entry_item (u, ds) = ((case (u_static_key u, u_candidate u) of
     (Some k, Some (a, c)) \<Rightarrow> Some (k, a, c) | _ \<Rightarrow> None), ds)"

text \<open>A unit stands for a candidate exactly when its file is an index.\<close>

definition entry_ok :: "entry \<Rightarrow> bool" where
  "entry_ok e \<longleftrightarrow> ((\<exists>k. u_path (fst e) = Action_file k) \<longleftrightarrow> u_candidate (fst e) \<noteq> None)
     \<and> (u_candidate (fst e) \<noteq> None \<longrightarrow> u_static_key (fst e) \<noteq> None)"

definition knows_item :: "entry list \<Rightarrow> record_path \<Rightarrow> item \<Rightarrow> bool" where
  "knows_item es p it \<longleftrightarrow> (\<exists>e \<in> set es. u_path (fst e) = p \<and> entry_item e = it)"

lemma knows_item_append [simp]: "knows_item (es @ fs) p it \<longleftrightarrow> knows_item es p it \<or> knows_item fs p it"
  by (auto simp: knows_item_def)

lemma file_entries_items:
  assumes "file_entries L uses s p = Inr es"
  shows "it \<in> items_at L s p \<Longrightarrow> knows_item es p it" and "e \<in> set es \<Longrightarrow> entry_ok e"
proof -
  show "it \<in> items_at L s p \<Longrightarrow> knows_item es p it"
    using assms by (cases p) (auto simp: items_at_def doc_items_def knows_item_def candidate_item_def candidate_entry_def
        declared_entry_def archive_entry_def split: option.splits)
  show "e \<in> set es \<Longrightarrow> entry_ok e"
    using assms by (cases p) (auto simp: entry_ok_def candidate_entry_def declared_entry_def archive_entry_def split: option.splits)
qed

section \<open>Digests and blobs\<close>

lemma by_digest_Some:
  assumes "by_digest blobs d = Some b"
  shows "b < length blobs \<and> b_digest (blobs ! b) = d"
  using map_of_SomeD [OF assms [unfolded by_digest_def]] by (auto simp: set_zip)

lemma by_digest_nth:
  assumes "distinct (map b_digest blobs)" and "b < length blobs"
  shows "by_digest blobs (b_digest (blobs ! b)) = Some b"
proof -
  let ?z = "zip (map b_digest blobs) [0..<length blobs]"
  have "distinct (map fst (rev ?z))" using assms(1) by (simp add: rev_map [symmetric])
  moreover have "(b_digest (blobs ! b), b) \<in> set (rev ?z)"
    using assms(2) by (force simp: set_zip)
  ultimately show ?thesis unfolding by_digest_def by (rule map_of_is_SomeI)
qed

lemma read_blobs_digests: "map b_digest (read_blobs names s) = filter (\<lambda>d. st_blobs s d \<noteq> None) (filter not_temp names)"
  by (induction names) (auto simp: read_blobs_def map_filter_simps split: option.split)

section \<open>The units of a snapshot\<close>

lemma add_units_linked:
  assumes "linked units referrers" and "\<And>d b. bd d = Some b \<Longrightarrow> b < length referrers"
    and "foldl (add_unit bd) (units, referrers) es = (units', referrers')"
  shows "linked units' referrers' \<and> length referrers' = length referrers \<and> length units' = length units + length es
     \<and> (\<forall>i < length es. \<exists>blobs. units' ! (length units + i) = fst (es ! i)\<lparr>u_blobs := blobs\<rparr>
          \<and> set blobs = {b. \<exists>d \<in> set (snd (es ! i)). bd d = Some b})
     \<and> (\<forall>i < length units. units' ! i = units ! i)"
  using assms
proof (induction es arbitrary: units referrers)
  case (Cons e es)
  obtain u ds where e: "e = (u, ds)" by (cases e)
  obtain units1 referrers1 where a: "add_unit bd (units, referrers) (u, ds) = (units1, referrers1)"
    by (cases "add_unit bd (units, referrers) (u, ds)")
  have "linked units1 referrers1 \<and> length referrers1 = length referrers
     \<and> (\<exists>blobs. units1 = units @ [u\<lparr>u_blobs := blobs\<rparr>] \<and> set blobs = {b. \<exists>d \<in> set ds. bd d = Some b})"
    using Cons.prems(1,2) a by (rule linked_add_unit)
  then obtain blobs where
    l: "linked units1 referrers1" "length referrers1 = length referrers" "units1 = units @ [u\<lparr>u_blobs := blobs\<rparr>]"
      "set blobs = {b. \<exists>d \<in> set ds. bd d = Some b}" by blast
  have f: "foldl (add_unit bd) (units1, referrers1) es = (units', referrers')"
    using Cons.prems(3) a e by simp
  have "\<And>d b. bd d = Some b \<Longrightarrow> b < length referrers1" using Cons.prems(2) l(2) by simp
  note IH = Cons.IH [OF l(1) this f]
  have n: "length units1 = Suc (length units)" using l(3) by simp
  have "\<exists>blobs. units' ! (length units + i) = fst ((e # es) ! i)\<lparr>u_blobs := blobs\<rparr>
      \<and> set blobs = {b. \<exists>d \<in> set (snd ((e # es) ! i)). bd d = Some b}" if "i < length (e # es)" for i
  proof (cases i)
    case 0
    then show ?thesis using IH l(3,4) n e by (auto simp: nth_append)
  next
    case (Suc j)
    then have "j < length es" using that by simp
    then show ?thesis using IH n Suc by auto
  qed
  moreover have "\<forall>i < length units. units' ! i = units ! i" using IH l(3) n by (auto simp: nth_append)
  ultimately show ?case using IH l(2) n by auto
qed simp

lemma sum_sizes:
  "sum_list (map b_bytes blobs) \<le> u64_max \<Longrightarrow> n + sum_list (map b_bytes blobs) \<le> u64_max \<Longrightarrow>
    foldl (\<lambda>total b. sat_add64 total (b_bytes b)) n blobs = n + sum_list (map b_bytes blobs)"
  by (induction blobs arbitrary: n) (simp_all add: sat_add64_def)

lemma make_snapshot_sel [simp]:
  "sn_blobs (make_snapshot uses blobs es started) = blobs"
  "sn_started_ms (make_snapshot uses blobs es started) = started"
  by (simp_all add: make_snapshot_def Let_def case_prod_unfold)

lemma make_snapshot_units:
  assumes "sn = make_snapshot uses blobs es started"
  shows "linked (sn_units sn) (sn_referrers sn)" and "length (sn_referrers sn) = length blobs"
    and "unit_count sn = length es"
    and "i < length es \<Longrightarrow> \<exists>bs. sn_units sn ! i = fst (es ! i)\<lparr>u_blobs := bs\<rparr>
      \<and> set bs = {b. \<exists>d \<in> set (snd (es ! i)). by_digest blobs d = Some b}"
proof -
  obtain units referrers where f: "foldl (add_unit (by_digest blobs)) ([], replicate (length blobs) []) es = (units, referrers)"
    by (cases "foldl (add_unit (by_digest blobs)) ([], replicate (length blobs) []) es")
  have sn: "sn_units sn = units" "sn_referrers sn = referrers" by (simp_all add: assms make_snapshot_def f Let_def)
  have "linked [] (replicate (length blobs) [])" by (simp add: linked_def)
  moreover have "\<And>d b. by_digest blobs d = Some b \<Longrightarrow> b < length (replicate (length blobs) [])"
    using by_digest_Some by fastforce
  ultimately have "linked units referrers \<and> length referrers = length (replicate (length blobs) ([] :: nat list)) \<and> length units = length ([] :: gc_unit list) + length es
     \<and> (\<forall>i < length es. \<exists>bs. units ! (length ([] :: gc_unit list) + i) = fst (es ! i)\<lparr>u_blobs := bs\<rparr>
          \<and> set bs = {b. \<exists>d \<in> set (snd (es ! i)). by_digest blobs d = Some b})
     \<and> (\<forall>i < length ([] :: gc_unit list). units ! i = [] ! i)"
    using f by (rule add_units_linked)
  then show "linked (sn_units sn) (sn_referrers sn)" "length (sn_referrers sn) = length blobs"
    "unit_count sn = length es" "i < length es \<Longrightarrow> \<exists>bs. sn_units sn ! i = fst (es ! i)\<lparr>u_blobs := bs\<rparr>
      \<and> set bs = {b. \<exists>d \<in> set (snd (es ! i)). by_digest blobs d = Some b}"
    by (simp_all add: sn)
qed

lemma make_snapshot_ok:
  assumes "sum_list (map b_bytes blobs) \<le> u64_max"
  shows "snapshot_ok (make_snapshot uses blobs es started)"
proof -
  let ?sn = "make_snapshot uses blobs es started"
  have "sn_total_bytes ?sn = sum_list (map b_bytes blobs)"
    using sum_sizes [of blobs 0] assms by (simp add: make_snapshot_def Let_def case_prod_unfold)
  also have "\<dots> = sum (blob_bytes ?sn) {..<length blobs}"
    by (simp add: sum_list_sum_nth blob_bytes_def atLeast0LessThan)
  finally show ?thesis using make_snapshot_units(1,2) [OF refl, of uses blobs es started] by (simp add: snapshot_ok_def)
qed

section \<open>The batches\<close>

lemma concat_chunks: "0 < n \<Longrightarrow> concat (chunks n xs) = xs"
  by (induction n xs rule: chunks.induct) (subst chunks.simps, auto)

lemma set_chunks: "0 < n \<Longrightarrow> (\<Union>b \<in> set (chunks n xs). set b) = set xs"
  using arg_cong [OF concat_chunks [of n xs], of set] by simp

text \<open>Every file of \<open>m\<close> lists only units of its own.\<close>

definition own_units :: "(record_path \<times> gc_unit list) list \<Rightarrow> bool" where
  "own_units m \<longleftrightarrow> (\<forall>(p, us) \<in> set m. \<forall>u \<in> set us. u_path u = p)"

lemma bt_insert_set: "set (bt_insert k v m) \<subseteq> insert (k, v) (set m)"
  by (induction m rule: bt_insert.induct [of _ k v]) auto

definition put_unit :: "(record_path \<times> gc_unit list) list \<Rightarrow> gc_unit \<Rightarrow> (record_path \<times> gc_unit list) list" where
  "put_unit m u = bt_insert (u_path u) ((case map_of m (u_path u) of None \<Rightarrow> [] | Some us \<Rightarrow> us) @ [u]) m"

lemma put_unit_own:
  assumes "own_units m"
  shows "own_units (put_unit m u)"
proof -
  let ?old = "case map_of m (u_path u) of None \<Rightarrow> [] | Some us \<Rightarrow> us"
  have "\<forall>v \<in> set ?old. u_path v = u_path u"
  proof (cases "map_of m (u_path u)")
    case (Some us)
    from map_of_SomeD [OF this] assms Some show ?thesis by (auto simp: own_units_def)
  qed simp
  then have new: "\<forall>v \<in> set (?old @ [u]). u_path v = u_path u" by simp
  show ?thesis unfolding own_units_def
  proof (intro ballI, clarify)
    fix p us v
    assume "(p, us) \<in> set (put_unit m u)" and v: "v \<in> set us"
    then have "(p, us) = (u_path u, ?old @ [u]) \<or> (p, us) \<in> set m"
      using subsetD [OF bt_insert_set [of "u_path u" "?old @ [u]" m], of "(p, us)"] by (simp add: put_unit_def)
    then show "u_path v = p"
    proof
      assume "(p, us) = (u_path u, ?old @ [u])"
      with v new show ?thesis by blast
    next
      assume "(p, us) \<in> set m"
      with v assms show ?thesis by (auto simp: own_units_def)
    qed
  qed
qed

lemma put_unit_keeps:
  assumes "map_of m p = Some us" and "v \<in> set us"
  shows "\<exists>us'. map_of (put_unit m u) p = Some us' \<and> v \<in> set us'"
  using assms by (auto simp: put_unit_def)

lemma put_unit_has: "\<exists>us. map_of (put_unit m u) (u_path u) = Some us \<and> u \<in> set us"
  by (simp add: put_unit_def)

lemma put_unit_sound:
  assumes "(p, us) \<in> set (put_unit m u)" and "v \<in> set us"
  shows "v = u \<or> (\<exists>us'. (p, us') \<in> set m \<and> v \<in> set us')"
  using assms bt_insert_set [of "u_path u" _ m] by (fastforce simp: put_unit_def dest: map_of_SomeD split: option.splits)

lemma by_path_eq: "by_path sn p = foldl put_unit [] (map fst (filter snd (zip (sn_units sn) (pl_evicted p))))"
proof -
  have "foldl (\<lambda>m (u, evicted). if evicted
         then bt_insert (u_path u) ((case map_of m (u_path u) of None \<Rightarrow> [] | Some us \<Rightarrow> us) @ [u]) m else m) m z
      = foldl put_unit m (map fst (filter snd z))" for z m
    by (induction z arbitrary: m) (auto simp: put_unit_def)
  then show ?thesis by (simp add: by_path_def)
qed

lemma put_units:
  "own_units m \<Longrightarrow> own_units (foldl put_unit m us)"
  "map_of m p = Some ws \<Longrightarrow> v \<in> set ws \<Longrightarrow> \<exists>ws'. map_of (foldl put_unit m us) p = Some ws' \<and> v \<in> set ws'"
proof -
  show "own_units m \<Longrightarrow> own_units (foldl put_unit m us)" by (induction us arbitrary: m) (simp_all add: put_unit_own)
  show "map_of m p = Some ws \<Longrightarrow> v \<in> set ws \<Longrightarrow> \<exists>ws'. map_of (foldl put_unit m us) p = Some ws' \<and> v \<in> set ws'"
  proof (induction us arbitrary: m ws)
    case (Cons u us)
    from put_unit_keeps [OF Cons.prems, of u] Cons.IH show ?case by auto
  qed auto
qed

lemma put_units_has: "u \<in> set us \<Longrightarrow> \<exists>ws. map_of (foldl put_unit m us) (u_path u) = Some ws \<and> u \<in> set ws"
proof (induction us arbitrary: m)
  case (Cons v us)
  show ?case
  proof (cases "u = v")
    case True
    with put_unit_has [of m u] put_units(2) show ?thesis by fastforce
  qed (use Cons in simp)
qed simp

lemma put_units_sound:
  "(p, ws) \<in> set (foldl put_unit m us) \<Longrightarrow> v \<in> set ws \<Longrightarrow> v \<in> set us \<or> (\<exists>ws'. (p, ws') \<in> set m \<and> v \<in> set ws')"
proof (induction us arbitrary: m)
  case (Cons u us)
  from Cons.IH [of "put_unit m u"] Cons.prems put_unit_sound [of p _ m u v] show ?case by fastforce
qed auto

lemma by_path_facts:
  shows "own_units (by_path sn p)"
    and "(q, us) \<in> set (by_path sn p) \<Longrightarrow> u \<in> set us \<Longrightarrow> u \<in> set (sn_units sn)"
    and "i < unit_count sn \<Longrightarrow> length (pl_evicted p) = unit_count sn \<Longrightarrow> pl_evicted p ! i \<Longrightarrow>
      \<exists>us. (u_path (sn_units sn ! i), us) \<in> set (by_path sn p) \<and> sn_units sn ! i \<in> set us"
proof -
  let ?us = "map fst (filter snd (zip (sn_units sn) (pl_evicted p)))"
  show "own_units (by_path sn p)" unfolding by_path_eq by (rule put_units(1)) (simp add: own_units_def)
  show "(q, us) \<in> set (by_path sn p) \<Longrightarrow> u \<in> set us \<Longrightarrow> u \<in> set (sn_units sn)"
    unfolding by_path_eq using put_units_sound [of q us "[]" ?us u] by (auto dest: set_zip_leftD)
  assume "i < unit_count sn" "length (pl_evicted p) = unit_count sn" "pl_evicted p ! i"
  then have "(sn_units sn ! i, True) \<in> set (zip (sn_units sn) (pl_evicted p))" by (auto simp: set_zip)
  then have "sn_units sn ! i \<in> set ?us" by force
  from put_units_has [OF this, of "[]"] show "\<exists>us. (u_path (sn_units sn ! i), us) \<in> set (by_path sn p) \<and> sn_units sn ! i \<in> set us"
    unfolding by_path_eq by (blast dest: map_of_SomeD)
qed

section \<open>What the plan deletes\<close>

definition planned_digests :: "snapshot \<Rightarrow> plan \<Rightarrow> string set" where
  "planned_digests sn p = (\<lambda>b. b_digest (sn_blobs sn ! b)) ` set (planned_blobs p)"

text \<open>A unit matches an item of its file as \<open>evict_from\<close> compares them.\<close>

definition unit_matches :: "gc_unit \<Rightarrow> item \<Rightarrow> bool" where
  "unit_matches u it \<longleftrightarrow> (case fst it of None \<Rightarrow> u_candidate u = None | Some (k, a, c) \<Rightarrow> u_candidate u = Some (a, c))"

lemma planned_unit_evicted:
  assumes ok: "snapshot_ok sn" and p: "p = new_plan sn opts now" and b: "b \<in> set (planned_blobs p)"
    and u: "u < unit_count sn" "b \<in> set (u_blobs (sn_units sn ! u))"
  shows "pl_evicted p ! u" and "length (pl_evicted p) = unit_count sn"
proof -
  note f = evictions_facts [OF ok, of opts now]
  have r: "u \<in> set (sn_referrers sn ! b)" using snapshot_okD(4) [OF ok u] by simp
  then have "b \<notin> set (unreferenced sn now)" by (auto simp: unreferenced_def stale_unreferenced_def)
  then have "b \<in> gone sn (ev_evicted (evictions sn opts now))"
    using b f(3) by (auto simp: planned_blobs_def p)
  with r show "pl_evicted p ! u" by (simp add: gone_iff p)
  show "length (pl_evicted p) = unit_count sn" by (simp add: p f(1))
qed

lemma entry_matches:
  assumes "entry_ok e" and "entry_item e = it" and "u_candidate u = u_candidate (fst e)"
  shows "unit_matches u it"
proof -
  obtain v ds where e: "e = (v, ds)" by (cases e)
  have "u_candidate v = None \<or> (\<exists>k a c. u_candidate v = Some (a, c) \<and> u_static_key v = Some k)"
    using assms(1) by (cases "u_candidate v") (auto simp: entry_ok_def e)
  then show ?thesis using assms(2,3) by (auto simp: unit_matches_def e split: option.splits)
qed

text \<open>A planned digest of an item the snapshot knows makes its unit part of the first phase.\<close>

lemma planned_item_evicted:
  assumes sn: "sn = make_snapshot uses blobs es started" and p: "p = new_plan sn opts started"
    and d: "distinct (map b_digest blobs)" and size: "sum_list (map b_bytes blobs) \<le> u64_max"
    and es: "\<forall>e \<in> set es. entry_ok e" and it: "knows_item es q it" and pd: "set (snd it) \<inter> planned_digests sn p \<noteq> {}"
  shows "\<exists>us. (q, us) \<in> set (by_path sn p) \<and> (\<exists>u \<in> set us. unit_matches u it)"
proof -
  have ok: "snapshot_ok sn" unfolding sn by (rule make_snapshot_ok [OF size])
  obtain i where i: "i < length es" "u_path (fst (es ! i)) = q" "entry_item (es ! i) = it"
    using it by (auto simp: knows_item_def in_set_conv_nth)
  obtain bs where u: "sn_units sn ! i = fst (es ! i)\<lparr>u_blobs := bs\<rparr>"
    "set bs = {b. \<exists>d \<in> set (snd (es ! i)). by_digest blobs d = Some b}"
    using make_snapshot_units(4) [OF sn i(1)] by blast
  have ds: "snd it = snd (es ! i)" using i(3) by (cases "es ! i") auto
  obtain b where b: "b \<in> set (planned_blobs p)" "b_digest (sn_blobs sn ! b) \<in> set (snd it)"
    using pd by (auto simp: planned_digests_def)
  have "b < length blobs"
    using b(1) evictions_facts(3) [OF ok, of opts started]
    by (auto simp: planned_blobs_def p gone_iff unreferenced_def sn)
  from by_digest_nth [OF d this] have "b \<in> set (u_blobs (sn_units sn ! i))"
    using b(2) u ds by (auto simp: sn)
  note e = planned_unit_evicted [OF ok p b(1) _ this]
  have n: "i < unit_count sn" using i(1) make_snapshot_units(3) [OF sn] by simp
  from by_path_facts(3) [OF n e(2) [OF n] e(1) [OF n]] obtain us where
    "(q, us) \<in> set (by_path sn p)" "sn_units sn ! i \<in> set us" using u i(2) by auto
  moreover have "unit_matches (sn_units sn ! i) it"
  proof (rule entry_matches)
    show "entry_ok (es ! i)" using es i(1) by simp
  qed (use u(1) i(3) in auto)
  ultimately show ?thesis by blast
qed

lemma by_path_candidates:
  assumes sn: "sn = make_snapshot uses blobs es started" and es: "\<forall>e \<in> set es. entry_ok e"
    and us: "(q, us) \<in> set (by_path sn p)" "u \<in> set us"
  shows "u_path u = q" and "(\<exists>k. q = Action_file k) \<longleftrightarrow> u_candidate u \<noteq> None"
proof -
  show q: "u_path u = q" using by_path_facts(1) [of sn p] us by (auto simp: own_units_def)
  obtain i where "i < length es" "u = sn_units sn ! i"
    using by_path_facts(2) [OF us] make_snapshot_units(3) [OF sn] by (auto simp: in_set_conv_nth)
  then obtain bs where "u = fst (es ! i)\<lparr>u_blobs := bs\<rparr>" "es ! i \<in> set es"
    using make_snapshot_units(4) [OF sn, of i] by auto
  then show "(\<exists>k. q = Action_file k) \<longleftrightarrow> u_candidate u \<noteq> None" using es q by (auto simp: entry_ok_def)
qed

end
