(* ===== verification/GC_Concurrent.thy ===== *)
theory GC_Concurrent
  imports GC_Snapshot
begin

text \<open>
  A collection while the server goes on serving. \<open>Store::collect\<close> takes no lock while it reads the
  snapshot, and a lock per batch while it applies the plan; between any two of its steps any number
  of requests may change the store. The collector is a state machine over the store, the requests
  are the steps of its environment.
\<close>

section \<open>The collector's steps\<close>

datatype record_dir = Actions_dir | Declared_dir | Archives_dir

fun dir_of :: "record_path \<Rightarrow> record_dir" where
  "dir_of (Action_file k) = Actions_dir"
| "dir_of (Declared_file k) = Declared_dir"
| "dir_of (Archive_file k) = Archives_dir"

fun file_name :: "record_path \<Rightarrow> string" where
  "file_name (Action_file k) = k"
| "file_name (Declared_file k) = k"
| "file_name (Archive_file k) = k"

fun file_in :: "record_dir \<Rightarrow> string \<Rightarrow> record_path" where
  "file_in Actions_dir k = Action_file k"
| "file_in Declared_dir k = Declared_file k"
| "file_in Archives_dir k = Archive_file k"

lemma file_in_dir [simp]: "file_in (dir_of p) (file_name p) = p"
  by (cases p) simp_all

text \<open>
  The files of a directory are decoded by several workers, each file at a moment of its own: a slot
  per file, to be filled in any order. \<open>Reading\<close> holds the slots of the directory being read, the
  entries of the directories before it and the directories after it.
\<close>

type_synonym slots = "(record_path \<times> entry list option) list"

datatype gc_phase =
    Idle
  | Rotated nat gc_options
  | Journal_read nat gc_options uses
  | Reading nat gc_options uses "gc_blob list" slots "entry list" "record_dir list"
  | Evicting snapshot plan "(record_path \<times> gc_unit list) list list"
  | Deleting snapshot plan "nat list list"

definition slot_entries :: "slots \<Rightarrow> entry list" where
  "slot_entries slots = concat (map (\<lambda>(p, es). case es of None \<Rightarrow> [] | Some es \<Rightarrow> es) slots)"

definition all_read :: "slots \<Rightarrow> bool" where
  "all_read slots \<longleftrightarrow> list_all (\<lambda>(p, es). es \<noteq> None) slots"

type_synonym 'b gc_state = "'b apply_state \<times> gc_phase"

text \<open>
  \<open>env\<close> is what the requests may do to the store in one step. A dry run changes nothing and is left
  out. The plan assumes less than 16 EiB of blobs.
\<close>

inductive gc_step :: "'b lib \<Rightarrow> ('b store \<Rightarrow> 'b store \<Rightarrow> bool) \<Rightarrow> 'b gc_state \<Rightarrow> 'b gc_state \<Rightarrow> bool" for L env where
  Request: "env (as_store st) s \<Longrightarrow> gc_step L env (st, ph) (st\<lparr>as_store := s\<rparr>, ph)"
| Start: "\<not> go_dry_run opts \<Longrightarrow>
    gc_step L env (st, Idle) (start_apply (rotate_journal started pid (as_store st)), Rotated started opts)"
| Read_uses: "gc_step L env (st, Rotated started opts) (st, Journal_read started opts (read_journal (as_store st)))"
| Read_blob_files: "distinct names \<Longrightarrow>
    gc_step L env (st, Journal_read started opts uses)
      (st, Reading started opts uses (read_blobs names (as_store st)) [] [] [Actions_dir, Declared_dir, Archives_dir])"
| List_dir: "all_read slots \<Longrightarrow> (\<And>n. record_at (file_in d n) (as_store st) \<noteq> None \<Longrightarrow> n \<in> set names) \<Longrightarrow>
    gc_step L env (st, Reading started opts uses blobs slots es (d # dirs))
      (st, Reading started opts uses blobs (map (\<lambda>n. (file_in d n, None)) (filter not_temp names))
             (es @ slot_entries slots) dirs)"
| Read_file: "i < length slots \<Longrightarrow> slots ! i = (p, None) \<Longrightarrow> file_entries L uses (as_store st) p = Inr fs \<Longrightarrow>
    gc_step L env (st, Reading started opts uses blobs slots es dirs)
      (st, Reading started opts uses blobs (slots[i := (p, Some fs)]) es dirs)"
| Make_plan: "all_read slots \<Longrightarrow> sum_list (map b_bytes blobs) \<le> u64_max \<Longrightarrow>
    sn = make_snapshot uses blobs (es @ slot_entries slots) started \<Longrightarrow> p = new_plan sn opts started \<Longrightarrow>
    gc_step L env (st, Reading started opts uses blobs slots es []) (st, Evicting sn p (chunks batch_size (by_path sn p)))"
| Evict_batch: "gc_step L env (st, Evicting sn p (batch # batches)) (evict_batch L now st batch, Evicting sn p batches)"
| Evicted: "gc_step L env (st, Evicting sn p []) (st, Deleting sn p (chunks batch_size (planned_blobs p)))"
| Delete_batch: "delete_batch L sn batch st = (None, st') \<Longrightarrow>
    gc_step L env (st, Deleting sn p (batch # batches)) (st', Deleting sn p batches)"
| Delete_fails: "delete_batch L sn batch st = (Some e, st') \<Longrightarrow>
    gc_step L env (st, Deleting sn p (batch # batches)) (st', Idle)"
| Compact: "gc_step L env (st, Deleting sn p []) (st\<lparr>as_store := compact_journal sn p (as_store st)\<rparr>, Idle)"
| Abort: "gc_step L env (st, ph) (st, Idle)"

inductive gc_steps :: "'b lib \<Rightarrow> ('b store \<Rightarrow> 'b store \<Rightarrow> bool) \<Rightarrow> 'b gc_state \<Rightarrow> 'b gc_state \<Rightarrow> bool" for L env where
  No_steps: "gc_steps L env x x"
| More_steps: "gc_steps L env x y \<Longrightarrow> gc_step L env y z \<Longrightarrow> gc_steps L env x z"

lemma gc_steps_trans: "gc_steps L env y z \<Longrightarrow> gc_steps L env x y \<Longrightarrow> gc_steps L env x z"
  by (induction rule: gc_steps.induct) (auto intro: gc_steps.intros)

lemma gc_steps_one: "gc_step L env x y \<Longrightarrow> gc_steps L env x y"
  by (rule More_steps [OF No_steps])

section \<open>What the collector knows of uses\<close>

definition unread :: "recent \<Rightarrow> 'b store \<Rightarrow> string" where
  "unread rc s = drop (rc_offset rc) (journal_text s)"

definition journal_ok :: "recent \<Rightarrow> 'b store \<Rightarrow> bool" where
  "journal_ok rc s \<longleftrightarrow> rc_offset rc \<le> length (journal_text s) \<and> whole_lines (unread rc s)"

text \<open>
  An item is noticed when the collector has its digests, or will have them at its next look at the
  journal.
\<close>

definition noticed :: "recent \<Rightarrow> 'b store \<Rightarrow> record_path \<Rightarrow> item \<Rightarrow> bool" where
  "noticed rc s p it \<longleftrightarrow> set (snd it) \<subseteq> rc_blobs rc
     \<or> (\<exists>k a c ms. p = Action_file k \<and> fst it = Some (k, a, c) \<and> (k, a, ms) \<in> set (parse_lines (unread rc s)))"

text \<open>A candidate that was used is noticed, and every index names its own key.\<close>

definition uses_noticed :: "'b lib \<Rightarrow> recent \<Rightarrow> 'b store \<Rightarrow> bool" where
  "uses_noticed L rc s \<longleftrightarrow> (\<forall>k a c ds. (k, a) \<in> rc_uses rc \<longrightarrow> (Some (k, a, c), ds) \<in> items_at L s (Action_file k) \<longrightarrow>
     noticed rc s (Action_file k) (Some (k, a, c), ds))"

definition well_keyed :: "'b lib \<Rightarrow> 'b store \<Rightarrow> bool" where
  "well_keyed L s \<longleftrightarrow> (\<forall>k. \<forall>it \<in> items_at L s (Action_file k). \<exists>a c. fst it = Some (k, a, c))"

lemma unread_grows:
  assumes "journal_ok rc s" and "grows L s t x"
  shows "unread rc t = unread rc s @ x" and "journal_ok rc t"
    and "parse_lines (unread rc t) = parse_lines (unread rc s) @ parse_lines x"
proof -
  show u: "unread rc t = unread rc s @ x"
    using assms growsD(3) [OF assms(2)] by (simp add: unread_def journal_ok_def)
  show "journal_ok rc t"
    using assms whole_lines_append [OF _ growsD(2) [OF assms(2)]] growsD(3) [OF assms(2)]
    by (simp add: journal_ok_def u)
  show "parse_lines (unread rc t) = parse_lines (unread rc s) @ parse_lines x"
    using assms(1) by (simp add: u parse_lines_append journal_ok_def)
qed

lemma noticed_grows:
  assumes "journal_ok rc s" and "grows L s t x"
  shows "noticed rc s p it \<Longrightarrow> noticed rc t p it"
    and "new_item_ok L t x (Action_file k) it \<Longrightarrow> noticed rc t (Action_file k) it"
  using unread_grows(3) [OF assms] by (fastforce simp: noticed_def new_item_ok_def)+

lemma uses_noticed_grows:
  assumes "journal_ok rc s" and g: "grows L s t x" and "uses_noticed L rc s"
  shows "uses_noticed L rc t"
  unfolding uses_noticed_def
proof (intro allI impI)
  fix k a c ds
  assume u: "(k, a) \<in> rc_uses rc" and "(Some (k, a, c), ds) \<in> items_at L t (Action_file k)"
  from growsD(4) [OF g this(2)] show "noticed rc t (Action_file k) (Some (k, a, c), ds)"
    using noticed_grows [OF assms(1) g] assms(3) u unfolding uses_noticed_def by blast
qed

lemma well_keyed_grows:
  assumes "grows L s t x" and "well_keyed L s"
  shows "well_keyed L t"
  using assms growsD(4) [OF assms(1)] unfolding well_keyed_def new_item_ok_def by metis

subsection \<open>Looking at the journal\<close>

text \<open>The collector only removes; \<open>shrinks\<close> says what a step of it keeps.\<close>

definition shrinks :: "'b lib \<Rightarrow> 'b store \<Rightarrow> 'b store \<Rightarrow> bool" where
  "shrinks L s t \<longleftrightarrow> (\<forall>d. intact L t d = intact L s d) \<and> journal_text t = journal_text s
     \<and> (\<forall>p. items_at L t p \<subseteq> items_at L s p)"

lemma shrinks_refl [simp]: "shrinks L s s"
  by (simp add: shrinks_def)

lemma shrinks_trans: "shrinks L s t \<Longrightarrow> shrinks L t u \<Longrightarrow> shrinks L s u"
  unfolding shrinks_def by (simp, blast)

lemma shrinksD:
  "shrinks L s t \<Longrightarrow> it \<in> items_at L t p \<Longrightarrow> it \<in> items_at L s p"
  "shrinks L s t \<Longrightarrow> unread rc t = unread rc s" "shrinks L s t \<Longrightarrow> intact L t d = intact L s d"
  by (auto simp: shrinks_def unread_def)

lemma shrinks_noticed: "shrinks L s t \<Longrightarrow> noticed rc t p it = noticed rc s p it"
  by (simp add: noticed_def shrinksD(2))

lemma shrinks_keeps:
  "shrinks L s t \<Longrightarrow> well_keyed L s \<Longrightarrow> well_keyed L t"
  "shrinks L s t \<Longrightarrow> uses_noticed L rc s \<Longrightarrow> uses_noticed L rc t"
  using shrinksD(1) shrinks_noticed unfolding well_keyed_def uses_noticed_def by blast+

lemma items_quarantined: "items_at L (quarantine_action k f s) p \<subseteq> items_at L s p"
  by (cases p) (simp_all add: items_at_def quarantine_action_def)

lemma read_candidates_shrinks:
  assumes "key_ok k" and r: "read_candidates L k s = (r, t)"
  shows "shrinks L s t"
    and "it \<in> items_at L t (Action_file k) \<Longrightarrow> \<exists>index. r = Inr index \<and> set (snd it) \<subseteq> set (concat (map candidate_digests index))"
proof -
  have q: "shrinks L s (quarantine_action k f s)" for f
    using items_quarantined [of L k f s] by (simp add: shrinks_def intact_iff quarantine_action_def journal_text_def)
  show "shrinks L s t" using r q by (auto simp: read_candidates_def split: sum.splits option.splits)
  assume "it \<in> items_at L t (Action_file k)"
  then show "\<exists>index. r = Inr index \<and> set (snd it) \<subseteq> set (concat (map candidate_digests index))"
    using r assms(1) by (auto simp: read_candidates_def items_at_def doc_items_def quarantine_action_def candidate_item_def
        split: sum.splits option.splits)
qed

lemma refresh_keys:
  assumes "\<forall>k \<in> set ks. key_ok k" and "foldl (refresh_key L) (blobs, s) ks = (blobs', t)"
  shows "shrinks L s t \<and> blobs \<subseteq> blobs' \<and> (\<forall>k \<in> set ks. \<forall>it \<in> items_at L t (Action_file k). set (snd it) \<subseteq> blobs')"
  using assms
proof (induction ks arbitrary: blobs s)
  case (Cons k ks)
  obtain r u where r: "read_candidates L k s = (r, u)" by (cases "read_candidates L k s")
  have k: "key_ok k" using Cons.prems(1) by simp
  obtain blobs1 where b: "refresh_key L (blobs, s) k = (blobs1, u)" "blobs \<subseteq> blobs1"
      "\<And>index. r = Inr index \<Longrightarrow> set (concat (map candidate_digests index)) \<subseteq> blobs1"
    using r by (cases r) (auto simp: refresh_key_def)
  have "\<forall>k \<in> set ks. key_ok k" and "foldl (refresh_key L) (blobs1, u) ks = (blobs', t)"
    using Cons.prems b(1) by simp_all
  note IH = Cons.IH [OF this]
  note s = read_candidates_shrinks [OF k r]
  have "set (snd it) \<subseteq> blobs'" if "it \<in> items_at L t (Action_file k)" for it
  proof -
    have "it \<in> items_at L u (Action_file k)" using that shrinksD(1) IH by blast
    from s(2) [OF this] show ?thesis using b(3) IH by blast
  qed
  then show ?case using IH b(2) shrinks_trans [OF s(1)] by auto
qed simp

lemma last_newline_whole:
  assumes "whole_lines x"
  shows "last_newline x = (if x = [] then None else Some (length x - 1))"
proof (cases x rule: rev_cases)
  case (snoc y c)
  then have "c = lf" using assms by (simp add: whole_lines_def)
  then show ?thesis using snoc by (simp add: last_newline_def)
qed (simp add: last_newline_def)

lemma parse_line_keys: "parse_line l = Some (k, a, ms) \<Longrightarrow> key_ok k \<and> key_ok a"
  by (auto simp: parse_line_def split: list.splits sum.splits)

lemma parse_lines_keys: "(k, a, ms) \<in> set (parse_lines x) \<Longrightarrow> key_ok k \<and> key_ok a"
  using parse_line_keys by (fastforce simp: parse_lines_def map_filter_def)

text \<open>After a look at the journal nothing of it is unread, and what was to be noticed is.\<close>

lemma refresh_facts:
  assumes j: "journal_ok rc s" and r: "refresh L rc s = (rc', t)"
  shows "shrinks L s t" and "journal_ok rc' t" and "unread rc' t = []" and "rc_blobs rc \<subseteq> rc_blobs rc'"
    and "noticed rc s p it \<Longrightarrow> it \<in> items_at L t p \<Longrightarrow> set (snd it) \<subseteq> rc_blobs rc'"
    and "uses_noticed L rc s \<Longrightarrow> uses_noticed L rc' t"
proof -
  let ?x = "unread rc s"
  let ?es = "parse_lines ?x"
  have new: "shrinks L s t \<and> journal_ok rc' t \<and> unread rc' t = [] \<and> rc_blobs rc \<subseteq> rc_blobs rc'
     \<and> rc_uses rc' = rc_uses rc \<union> {(k, a). \<exists>ms. (k, a, ms) \<in> set ?es}
     \<and> (\<forall>(k, a, ms) \<in> set ?es. \<forall>it \<in> items_at L t (Action_file k). set (snd it) \<subseteq> rc_blobs rc')"
  proof (cases "?x = []")
    case True
    then have "refresh L rc s = (rc, s)"
      by (auto simp: refresh_def unread_def journal_text_def last_newline_def split: option.splits)
    then show ?thesis using r j True by simp
  next
    case False
    then obtain jt where jt: "st_journal s = Some jt" by (auto simp: unread_def journal_text_def split: option.splits)
    have x: "drop (rc_offset rc) jt = ?x" by (simp add: unread_def journal_text_def jt)
    have n: "last_newline ?x = Some (length ?x - 1)" using last_newline_whole j False by (simp add: journal_ok_def)
    have all: "take (Suc (length ?x - 1)) ?x = ?x" using False by simp
    obtain blobs' t' where f: "foldl (refresh_key L) (rc_blobs rc, s) (sort (remdups (map fst ?es))) = (blobs', t')"
      by (cases "foldl (refresh_key L) (rc_blobs rc, s) (sort (remdups (map fst ?es)))")
    have "(\<lparr>rc_offset = rc_offset rc + (length ?x - 1) + 1,
        rc_uses = rc_uses rc \<union> set (map (\<lambda>(key, action, _). (key, action)) ?es), rc_blobs = blobs'\<rparr>, t') = (rc', t)"
      using r all by (simp add: refresh_def jt x n f Let_def)
    then have eq: "rc' = \<lparr>rc_offset = rc_offset rc + (length ?x - 1) + 1,
        rc_uses = rc_uses rc \<union> set (map (\<lambda>(key, action, _). (key, action)) ?es), rc_blobs = blobs'\<rparr>" and t: "t' = t"
      unfolding prod.inject by simp_all
    have "0 < length ?x" using False by simp
    then have rc': "rc_offset rc' = rc_offset rc + length ?x" "rc_blobs rc' = blobs'"
      "rc_uses rc' = rc_uses rc \<union> set (map (\<lambda>(k, a, _). (k, a)) ?es)"
      unfolding eq by simp_all
    have "\<forall>k \<in> set (sort (remdups (map fst ?es))). key_ok k" using parse_lines_keys by fastforce
    from refresh_keys [OF this f] have k: "shrinks L s t" "rc_blobs rc \<subseteq> blobs'"
      "\<forall>k \<in> fst ` set ?es. \<forall>it \<in> items_at L t (Action_file k). set (snd it) \<subseteq> blobs'" by (simp_all add: t)
    have o: "rc_offset rc' = length (journal_text t)"
      using j k(1) by (simp add: rc'(1) shrinks_def journal_ok_def unread_def)
    have "rc_uses rc' = rc_uses rc \<union> {(k, a). \<exists>ms. (k, a, ms) \<in> set ?es}" by (force simp: rc'(3))
    moreover have "\<forall>(k, a, ms) \<in> set ?es. \<forall>it \<in> items_at L t (Action_file k). set (snd it) \<subseteq> rc_blobs rc'"
    proof (intro ballI, clarify)
      fix k a ms it1 it2 d
      assume "(k, a, ms) \<in> set ?es"
      from imageI [OF this, of fst] have "k \<in> fst ` set ?es" by simp
      with k(3) show "(it1, it2) \<in> items_at L t (Action_file k) \<Longrightarrow> d \<in> set (snd (it1, it2)) \<Longrightarrow> d \<in> rc_blobs rc'"
        unfolding rc'(2) by blast
    qed
    ultimately show ?thesis using k o by (simp add: journal_ok_def unread_def whole_lines_def rc'(2))
  qed
  then show "shrinks L s t" "journal_ok rc' t" "unread rc' t = []" "rc_blobs rc \<subseteq> rc_blobs rc'" by blast+
  show n: "set (snd it) \<subseteq> rc_blobs rc'" if "noticed rc s p it" "it \<in> items_at L t p" for p it
    using that new unfolding noticed_def by fastforce
  assume u: "uses_noticed L rc s"
  have "set ds \<subseteq> rc_blobs rc'" if "(k, a) \<in> rc_uses rc'" "(Some (k, a, c), ds) \<in> items_at L t (Action_file k)" for k a c ds
  proof -
    have old: "(Some (k, a, c), ds) \<in> items_at L s (Action_file k)" using that(2) new shrinksD(1) by blast
    from that(1) new have "(k, a) \<in> rc_uses rc \<or> (\<exists>ms. (k, a, ms) \<in> set ?es)" by blast
    then show ?thesis
    proof
      assume "(k, a) \<in> rc_uses rc"
      with u old have "noticed rc s (Action_file k) (Some (k, a, c), ds)" by (auto simp: uses_noticed_def)
      from n [OF this that(2)] show ?thesis by simp
    next
      assume "\<exists>ms. (k, a, ms) \<in> set ?es"
      with that(2) new show ?thesis by fastforce
    qed
  qed
  then show "uses_noticed L rc' t" by (simp add: uses_noticed_def noticed_def)
qed

end
