(* ===== verification/GC_Safety.thy ===== *)
theory GC_Safety
  imports GC_Concurrent
begin

text \<open>
  The collector is safe under interference: its invariant, proved once for any environment that
  only publishes with a line in the journal, and the environments of the server.
\<close>

section \<open>Evicting\<close>

lemma items_at_remove: "items_at L (remove_record p s) q = (if q = p then {} else items_at L s q)"
  by (cases p; cases q) (simp_all add: items_at_def remove_record_def)

lemma shrinks_remove: "shrinks L s (remove_record p s)"
proof -
  have "intact L (remove_record p s) d = intact L s d" and "journal_text (remove_record p s) = journal_text s" for d
    by (cases p; simp add: intact_iff journal_text_def remove_record_def)+
  then show ?thesis by (simp add: shrinks_def items_at_remove)
qed

lemma shrinks_put:
  assumes "doc_items L p f \<subseteq> items_at L s p"
  shows "shrinks L s (put_record p f s)"
  using assms by (simp add: shrinks_def items_at_put journal_text_def)

lemma evicts_iff:
  "evicts uses us c \<longleftrightarrow> (\<exists>u \<in> set us. u_candidate u = Some (ac_action_key c, ac_created_ms c)
     \<and> (ac_static_key c, ac_action_key c) \<notin> uses)"
proof -
  have "(case u_candidate u of None \<Rightarrow> False
       | Some (action, created) \<Rightarrow> action = ac_action_key c \<and> created = ac_created_ms c \<and> (ac_static_key c, action) \<notin> uses)
     \<longleftrightarrow> u_candidate u = Some (ac_action_key c, ac_created_ms c) \<and> (ac_static_key c, ac_action_key c) \<notin> uses" for u
    by (auto split: option.split)
  then show ?thesis unfolding evicts_def list_ex_iff by blast
qed

lemma evict_from_index:
  assumes L: "codec_ok L" and e: "evict_from L now uses (Action_file k) us s = (n, t)"
    and us: "\<not> list_all (\<lambda>u. u_candidate u = None) us"
    and f: "st_actions s k = Some f" "l_dec_index L (df_doc f) = Some index"
  shows "shrinks L s t \<and> items_at L t (Action_file k) = candidate_item ` {c \<in> set index. \<not> evicts uses us c}"
proof -
  let ?kept = "filter (\<lambda>c. \<not> evicts uses us c) index"
  let ?f = "\<lparr>df_doc = l_enc_index L ?kept, df_modified = now\<rparr>"
  have items: "items_at L s (Action_file k) = candidate_item ` set index" using f by (simp add: items_at_def doc_items_def)
  have put: "doc_items L (Action_file k) ?f = candidate_item ` set ?kept" using L by (simp add: doc_items_def)
  have "t = (if length index - length ?kept = 0 then s else if ?kept = [] then remove_record (Action_file k) s
      else put_record (Action_file k) ?f s)"
    using e us f by (auto simp: evict_from_def Let_def split: if_splits)
  then consider "length index - length ?kept = 0" "t = s" | "?kept = []" "t = remove_record (Action_file k) s"
    | "t = put_record (Action_file k) ?f s" by presburger
  then show ?thesis
  proof cases
    case 1
    then have "length ?kept = length index" by (simp add: le_antisym)
    then have "\<forall>c \<in> set index. \<not> evicts uses us c" using length_filter_less by (metis nat_neq_iff)
    then show ?thesis using 1 items by auto
  next
    case 2
    then have "{c \<in> set index. \<not> evicts uses us c} = {}" by (auto simp: filter_empty_conv)
    with 2 show ?thesis by (simp add: items_at_remove shrinks_remove)
  next
    case 3
    moreover have "candidate_item ` set ?kept \<subseteq> items_at L s (Action_file k)" by (auto simp: items)
    ultimately show ?thesis using put by (simp add: items_at_put shrinks_put)
  qed
qed

text \<open>What is left of a file after an eviction matches no planned unit, unless it was used.\<close>

lemma evict_from_facts:
  assumes L: "codec_ok L" and wk: "well_keyed L s" and e: "evict_from L now uses p us s = (n, t)"
    and us: "\<forall>u \<in> set us. (\<exists>k. p = Action_file k) \<longleftrightarrow> u_candidate u \<noteq> None"
  shows "shrinks L s t"
    and "it \<in> items_at L t p \<Longrightarrow> u \<in> set us \<Longrightarrow> unit_matches u it \<Longrightarrow>
      \<exists>k a c. p = Action_file k \<and> fst it = Some (k, a, c) \<and> (k, a) \<in> uses"
proof -
  have "shrinks L s t \<and> (\<forall>it \<in> items_at L t p. \<forall>u \<in> set us. unit_matches u it \<longrightarrow>
      (\<exists>k a c. p = Action_file k \<and> fst it = Some (k, a, c) \<and> (k, a) \<in> uses))"
  proof (cases "list_all (\<lambda>u. u_candidate u = None) us")
    case True
    then have "t = (if record_at p s = None then s else remove_record p s)"
      using e by (auto simp: evict_from_def split: if_splits)
    then have "items_at L t p = {} \<and> shrinks L s t" by (simp add: items_at_remove shrinks_remove items_at_def [of L s])
    then show ?thesis by simp
  next
    case False
    then obtain k where p: "p = Action_file k" using us by (auto simp: list_all_iff)
    show ?thesis
    proof (cases "\<exists>f index. record_at p s = Some f \<and> l_dec_index L (df_doc f) = Some index")
      case False2: False
      then have "t = s" "items_at L s p = {}"
        using e False by (auto simp: evict_from_def items_at_def doc_items_def p split: option.splits)
      then show ?thesis by simp
    next
      case True
      then obtain f index where f: "record_at p s = Some f" "l_dec_index L (df_doc f) = Some index" by blast
      then have items: "items_at L s p = candidate_item ` set index" by (simp add: items_at_def doc_items_def p)
      have t: "shrinks L s t \<and> items_at L t p = candidate_item ` {c \<in> set index. \<not> evicts uses us c}"
        unfolding p by (rule evict_from_index [OF L e [unfolded p] False]) (use f in \<open>simp_all add: p\<close>)
      have "\<exists>k a c. p = Action_file k \<and> fst it = Some (k, a, c) \<and> (k, a) \<in> uses"
        if "it \<in> items_at L t p" "u \<in> set us" "unit_matches u it" for it u
      proof -
        have "it \<in> candidate_item ` {c \<in> set index. \<not> evicts uses us c}" using that(1) conjunct2 [OF t] by simp
        then obtain c where c: "c \<in> set index" "\<not> evicts uses us c" "it = candidate_item c" by blast
        have "u_candidate u = Some (ac_action_key c, ac_created_ms c)"
          using that(3) c(3) by (simp add: unit_matches_def candidate_item_def)
        then have "(ac_static_key c, ac_action_key c) \<in> uses" using c(2) that(2) by (auto simp: evicts_iff)
        moreover have "candidate_item c \<in> items_at L s (Action_file k)" using c(1) items p by simp
        then have "\<exists>a m. fst (candidate_item c) = Some (k, a, m)" using wk unfolding well_keyed_def by blast
        then have "ac_static_key c = k" by (simp add: candidate_item_def)
        ultimately show ?thesis using c(3) p by (simp add: candidate_item_def)
      qed
      with t show ?thesis by blast
    qed
  qed
  then show "shrinks L s t"
    "it \<in> items_at L t p \<Longrightarrow> u \<in> set us \<Longrightarrow> unit_matches u it \<Longrightarrow>
      \<exists>k a c. p = Action_file k \<and> fst it = Some (k, a, c) \<and> (k, a) \<in> uses" by blast+
qed

definition units_fit :: "(record_path \<times> gc_unit list) list \<Rightarrow> bool" where
  "units_fit batch \<longleftrightarrow> (\<forall>(p, us) \<in> set batch. \<forall>u \<in> set us. (\<exists>k. p = Action_file k) \<longleftrightarrow> u_candidate u \<noteq> None)"

definition in_batch :: "(record_path \<times> gc_unit list) list \<Rightarrow> record_path \<Rightarrow> item \<Rightarrow> bool" where
  "in_batch batch p it \<longleftrightarrow> (\<exists>us. (p, us) \<in> set batch \<and> (\<exists>u \<in> set us. unit_matches u it))"

lemma in_batch_cons:
  "in_batch ((p, us) # batch) q it \<longleftrightarrow> (q = p \<and> (\<exists>u \<in> set us. unit_matches u it)) \<or> in_batch batch q it"
  by (auto simp: in_batch_def)

lemma evict_paths:
  assumes "codec_ok L" and "well_keyed L (as_store st)" and "uses_noticed L (as_recent st) (as_store st)"
    and "unread (as_recent st) (as_store st) = []" and "units_fit batch" and "foldl (evict_path L now) st batch = st'"
  shows "shrinks L (as_store st) (as_store st') \<and> as_recent st' = as_recent st
     \<and> (\<forall>p. \<forall>it \<in> items_at L (as_store st') p. in_batch batch p it \<longrightarrow> set (snd it) \<subseteq> rc_blobs (as_recent st))"
  using assms
proof (induction batch arbitrary: st)
  case (Cons x batch)
  obtain p us where x: "x = (p, us)" by (cases x)
  obtain n t where e: "evict_from L now (rc_uses (as_recent st)) p us (as_store st) = (n, t)"
    by (cases "evict_from L now (rc_uses (as_recent st)) p us (as_store st)")
  let ?st = "st\<lparr>as_records_evicted := as_records_evicted st + n, as_store := t\<rparr>"
  have step: "evict_path L now st x = ?st" by (simp add: evict_path_def x e)
  have us: "\<forall>u \<in> set us. (\<exists>k. p = Action_file k) \<longleftrightarrow> u_candidate u \<noteq> None"
    using Cons.prems(5) by (auto simp: units_fit_def x)
  note f = evict_from_facts [OF Cons.prems(1,2) e us]
  have IH: "shrinks L t (as_store st') \<and> as_recent st' = as_recent st
     \<and> (\<forall>p. \<forall>it \<in> items_at L (as_store st') p. in_batch batch p it \<longrightarrow> set (snd it) \<subseteq> rc_blobs (as_recent st))"
  proof -
    have "well_keyed L (as_store ?st)" "uses_noticed L (as_recent ?st) (as_store ?st)"
      "unread (as_recent ?st) (as_store ?st) = []" "units_fit batch" "foldl (evict_path L now) ?st batch = st'"
      using shrinks_keeps(1) [OF f(1) Cons.prems(2)] shrinks_keeps(2) [OF f(1) Cons.prems(3)]
        shrinksD(2) [OF f(1)] Cons.prems(4-6) step by (simp_all add: units_fit_def)
    from Cons.IH [OF Cons.prems(1) this] show ?thesis by simp
  qed
  have "set (snd it) \<subseteq> rc_blobs (as_recent st)"
    if it: "it \<in> items_at L (as_store st') p" and u: "u \<in> set us" "unit_matches u it" for it u
  proof -
    have t: "it \<in> items_at L t p" using it IH shrinksD(1) by blast
    from f(2) [OF t u] obtain k a c where k: "p = Action_file k" "fst it = Some (k, a, c)" "(k, a) \<in> rc_uses (as_recent st)"
      by blast
    have "(Some (k, a, c), snd it) \<in> items_at L (as_store st) (Action_file k)"
      using shrinksD(1) [OF f(1) t] k by (metis prod.collapse)
    with Cons.prems(3) k(3) have "noticed (as_recent st) (as_store st) (Action_file k) (Some (k, a, c), snd it)"
      by (auto simp: uses_noticed_def)
    then show ?thesis by (simp add: noticed_def Cons.prems(4))
  qed
  then have "\<forall>q. \<forall>it \<in> items_at L (as_store st') q. in_batch (x # batch) q it \<longrightarrow> set (snd it) \<subseteq> rc_blobs (as_recent st)"
    using IH unfolding in_batch_cons x by blast
  moreover have "shrinks L (as_store st) (as_store st')" using IH shrinks_trans [OF f(1)] by blast
  ultimately show ?case using IH by blast
qed (simp add: in_batch_def)

section \<open>Deleting\<close>

lemma delete_blobs_facts:
  assumes "delete_blobs sn bs st = (r, st')"
  shows "as_recent st' = as_recent st \<and> st_journal (as_store st') = st_journal (as_store st)
     \<and> (\<forall>p. record_at p (as_store st') = record_at p (as_store st))
     \<and> (\<forall>d. d \<in> rc_blobs (as_recent st) \<or> (\<forall>b \<in> set bs. b_digest (sn_blobs sn ! b) \<noteq> d) \<longrightarrow>
          st_blobs (as_store st') d = st_blobs (as_store st) d)"
  using assms
proof (induction sn bs st rule: delete_blobs.induct)
  case (2 sn b bs st)
  show ?case
  proof (cases "delete_blob sn b st")
    case (Inr st1)
    then have "as_recent st1 = as_recent st \<and> st_journal (as_store st1) = st_journal (as_store st)
       \<and> (\<forall>p. record_at p (as_store st1) = record_at p (as_store st))
       \<and> (\<forall>d. d \<in> rc_blobs (as_recent st) \<or> b_digest (sn_blobs sn ! b) \<noteq> d \<longrightarrow> st_blobs (as_store st1) d = st_blobs (as_store st) d)"
      by (auto simp: delete_blob_def Let_def split: sum.splits option.splits if_splits)
    with 2 Inr show ?thesis by auto
  qed (use 2 in auto)
qed simp

section \<open>The invariant\<close>

fun phase_wf :: "gc_phase \<Rightarrow> bool" where
  "phase_wf (Reading started opts uses blobs slots es dirs) \<longleftrightarrow>
     distinct (map b_digest blobs) \<and> (\<forall>e \<in> set (es @ slot_entries slots). entry_ok e)"
| "phase_wf (Evicting sn p batches) \<longleftrightarrow> list_all units_fit batches"
| "phase_wf (Deleting sn p batches) \<longleftrightarrow> (\<forall>batch \<in> set batches. set batch \<subseteq> set (planned_blobs p))"
| "phase_wf ph \<longleftrightarrow> True"

text \<open>Items the collector need not notice: it will read them, evict them, or leave their blobs alone.\<close>

fun excused :: "gc_phase \<Rightarrow> record_path \<Rightarrow> item \<Rightarrow> bool" where
  "excused (Reading started opts uses blobs slots es dirs) q it \<longleftrightarrow>
     knows_item (es @ slot_entries slots) q it \<or> dir_of q \<in> set dirs \<or> (q, None) \<in> set slots"
| "excused (Evicting sn p batches) q it \<longleftrightarrow>
     set (snd it) \<inter> planned_digests sn p = {} \<or> (\<exists>batch \<in> set batches. in_batch batch q it)"
| "excused (Deleting sn p batches) q it \<longleftrightarrow> set (snd it) \<inter> planned_digests sn p = {}"
| "excused ph q it \<longleftrightarrow> True"

definition backed_on :: "'b lib \<Rightarrow> (record_path \<Rightarrow> bool) \<Rightarrow> 'b store \<Rightarrow> bool" where
  "backed_on L tracked s \<longleftrightarrow> (\<forall>p. tracked p \<longrightarrow> (\<forall>it \<in> items_at L s p. \<forall>d \<in> set (snd it). intact L s d))"

definition tracked_ok :: "'b lib \<Rightarrow> (record_path \<Rightarrow> bool) \<Rightarrow> recent \<Rightarrow> 'b store \<Rightarrow> gc_phase \<Rightarrow> bool" where
  "tracked_ok L tracked rc s ph \<longleftrightarrow> (\<forall>p. tracked p \<longrightarrow> (\<forall>it \<in> items_at L s p. noticed rc s p it \<or> excused ph p it))"

fun sys_ok :: "'b lib \<Rightarrow> (record_path \<Rightarrow> bool) \<Rightarrow> 'b gc_state \<Rightarrow> bool" where
  "sys_ok L tracked (st, ph) \<longleftrightarrow> well_keyed L (as_store st) \<and> backed_on L tracked (as_store st) \<and> phase_wf ph
     \<and> (ph \<noteq> Idle \<longrightarrow> journal_ok (as_recent st) (as_store st) \<and> uses_noticed L (as_recent st) (as_store st)
          \<and> tracked_ok L tracked (as_recent st) (as_store st) ph)"

lemma tracked_okD: "tracked_ok L tracked rc s ph \<Longrightarrow> tracked p \<Longrightarrow> it \<in> items_at L s p \<Longrightarrow> noticed rc s p it \<or> excused ph p it"
  by (auto simp: tracked_ok_def)

lemma backed_on_shrinks: "shrinks L s t \<Longrightarrow> backed_on L tracked s \<Longrightarrow> backed_on L tracked t"
  using shrinksD(1,3) unfolding backed_on_def by blast

lemma slot_entries_fill:
  assumes "i < length slots" and "slots ! i = (p, None)"
  shows "set (slot_entries (slots[i := (p, Some fs)])) = set (slot_entries slots) \<union> set fs"
proof -
  have s: "slots = take i slots @ (p, None) # drop (Suc i) slots" using assms by (metis id_take_nth_drop)
  have u: "slots[i := (p, Some fs)] = take i slots @ (p, Some fs) # drop (Suc i) slots"
    using assms(1) by (simp add: upd_conv_take_nth_drop)
  have "set (slot_entries (take i slots @ (p, Some fs) # drop (Suc i) slots))
      = set (slot_entries (take i slots @ (p, None) # drop (Suc i) slots)) \<union> set fs"
    by (auto simp: slot_entries_def)
  then show ?thesis unfolding u using s by simp
qed

lemma all_read_None: "all_read slots \<Longrightarrow> (p, None) \<notin> set slots"
  by (auto simp: all_read_def list_all_iff)

lemma slot_still_empty:
  assumes "(q, None) \<in> set slots" and "slots ! i = (p, None)" and "q \<noteq> p"
  shows "(q, None) \<in> set (slots[i := (p, Some fs)])"
proof -
  obtain j where "j < length slots" "slots ! j = (q, None)" using assms(1) by (auto simp: in_set_conv_nth)
  then show ?thesis using assms(2,3) by (metis length_list_update nth_list_update_neq nth_mem prod.inject)
qed

end
