(* ===== verification/GC_Traffic.thy ===== *)
theory GC_Traffic
  imports GC_Safety
begin

text \<open>
  The interface between the collector and the requests it runs beside, and the collector's
  invariant under it.
\<close>

section \<open>The interface\<close>

definition visible :: "record_path \<Rightarrow> bool" where
  "visible p \<longleftrightarrow> not_temp (file_name p)"

text \<open>
  What the collector relies on: a request keeps intact blobs intact and announces every candidate it
  adds with a line in the journal, and other files that are tracked gain nothing. What is tracked
  is visible to the collector.
\<close>

locale traffic =
  fixes L :: "'b lib" and env :: "'b store \<Rightarrow> 'b store \<Rightarrow> bool" and tracked :: "record_path \<Rightarrow> bool"
  assumes env_advances: "codec_ok L \<Longrightarrow> env s t \<Longrightarrow> advances L s t"
    and env_quiet: "codec_ok L \<Longrightarrow> env s t \<Longrightarrow> tracked p \<Longrightarrow> \<forall>k. p \<noteq> Action_file k \<Longrightarrow> items_at L t p \<subseteq> items_at L s p"
    and tracked_visible: "tracked p \<Longrightarrow> visible p"
begin

lemma env_new_item:
  assumes "codec_ok L" and e: "env s t" and g: "grows L s t x" and "tracked p" and "it \<in> items_at L t p"
  shows "it \<in> items_at L s p \<or> (\<exists>k. p = Action_file k \<and> new_item_ok L t x p it)"
  using growsD(4) [OF g assms(5)] env_quiet [OF assms(1) e assms(4)] assms(5) by blast

lemma ok_request:
  assumes L: "codec_ok L" and ok: "sys_ok L tracked (st, ph)" and e: "env (as_store st) t"
  shows "sys_ok L tracked (st\<lparr>as_store := t\<rparr>, ph)"
proof -
  let ?s = "as_store st" and ?rc = "as_recent st"
  obtain x where g: "grows L ?s t x" using env_advances [OF L e] by (auto simp: advances_def)
  note new = env_new_item [OF L e g]
  have "well_keyed L t" using well_keyed_grows [OF g] ok by simp
  moreover have "backed_on L tracked t"
    using ok growsD(1) [OF g] new unfolding sys_ok.simps backed_on_def new_item_ok_def by blast
  moreover have "journal_ok ?rc t \<and> uses_noticed L ?rc t \<and> tracked_ok L tracked ?rc t ph" if ph: "ph \<noteq> Idle"
  proof -
    have j: "journal_ok ?rc ?s" and u: "uses_noticed L ?rc ?s" and tr: "tracked_ok L tracked ?rc ?s ph" using ok ph by simp_all
    have "noticed ?rc t p it \<or> excused ph p it" if "tracked p" "it \<in> items_at L t p" for p it
      using new [OF that] tracked_okD [OF tr that(1)] noticed_grows [OF j g] by blast
    then show ?thesis using unread_grows(2) [OF j g] uses_noticed_grows [OF j g u] by (simp add: tracked_ok_def)
  qed
  ultimately show ?thesis using ok by simp
qed

text \<open>A step that only looks needs a weaker excuse at most.\<close>

lemma ok_look:
  assumes "sys_ok L tracked (st, ph)" and "ph \<noteq> Idle" and "phase_wf ph'"
    and "\<And>p it. tracked p \<Longrightarrow> it \<in> items_at L (as_store st) p \<Longrightarrow> excused ph p it \<Longrightarrow> excused ph' p it"
  shows "sys_ok L tracked (st, ph')"
proof -
  have "tracked_ok L tracked (as_recent st) (as_store st) ph" using assms(1,2) by simp
  then have "tracked_ok L tracked (as_recent st) (as_store st) ph'"
    using assms(4) unfolding tracked_ok_def by blast
  then show ?thesis using assms(1-3) by simp
qed

lemma ok_start:
  assumes "sys_ok L tracked (st, Idle)"
  shows "sys_ok L tracked (start_apply (rotate_journal started pid (as_store st)), Rotated started opts)"
proof -
  let ?t = "rotate_journal started pid (as_store st)"
  have r: "record_at p ?t = record_at p (as_store st)" and i: "intact L ?t d = intact L (as_store st) d" for p d
    by (auto simp: rotate_journal_def record_at_def intact_iff split: option.split record_path.split)
  have j: "journal_text ?t = []" by (simp add: rotate_journal_def journal_text_def split: option.split)
  show ?thesis
    using assms i items_at_cong [OF r] by (simp add: start_apply_def no_recent_def well_keyed_def backed_on_def journal_ok_def
        unread_def j whole_lines_def uses_noticed_def tracked_ok_def)
qed

lemma ok_list_dir:
  assumes ok: "sys_ok L tracked (st, Reading started opts uses blobs slots es (d # dirs))" and "all_read slots"
    and n: "\<And>n. record_at (file_in d n) (as_store st) \<noteq> None \<Longrightarrow> n \<in> set names"
  shows "sys_ok L tracked (st, Reading started opts uses blobs (map (\<lambda>n. (file_in d n, None)) (filter not_temp names))
      (es @ slot_entries slots) dirs)"
proof (rule ok_look [OF ok])
  let ?slots = "map (\<lambda>n. (file_in d n, None :: entry list option)) (filter not_temp names)"
  have empty: "slot_entries ?slots = []" by (simp add: slot_entries_def)
  show "phase_wf (Reading started opts uses blobs ?slots (es @ slot_entries slots) dirs)" using ok by (simp add: empty)
  fix p it
  assume p: "tracked p" "it \<in> items_at L (as_store st) p" and "excused (Reading started opts uses blobs slots es (d # dirs)) p it"
  then have "knows_item (es @ slot_entries slots) p it \<or> dir_of p \<in> set dirs \<or> dir_of p = d"
    using all_read_None [OF assms(2)] by auto
  moreover have "(p, None) \<in> set ?slots" if "dir_of p = d"
  proof -
    have f: "file_in d (file_name p) = p" using that by auto
    have "record_at p (as_store st) \<noteq> None" using p(2) by (auto simp: items_at_def split: option.splits)
    then have "file_name p \<in> set (filter not_temp names)"
      using n [of "file_name p"] f tracked_visible [OF p(1)] by (simp add: visible_def)
    then show ?thesis using f by force
  qed
  ultimately show "excused (Reading started opts uses blobs ?slots (es @ slot_entries slots) dirs) p it" by (auto simp: empty)
qed simp

lemma ok_read_file:
  assumes ok: "sys_ok L tracked (st, Reading started opts uses blobs slots es dirs)" and i: "i < length slots" "slots ! i = (p, None)"
    and f: "file_entries L uses (as_store st) p = Inr fs"
  shows "sys_ok L tracked (st, Reading started opts uses blobs (slots[i := (p, Some fs)]) es dirs)"
proof (rule ok_look [OF ok])
  note fill = slot_entries_fill [OF i, of fs]
  show "phase_wf (Reading started opts uses blobs (slots[i := (p, Some fs)]) es dirs)"
    using ok file_entries_items(2) [OF f] by (auto simp: fill)
  fix q it
  assume q: "it \<in> items_at L (as_store st) q" and "excused (Reading started opts uses blobs slots es dirs) q it"
  then consider "knows_item (es @ slot_entries slots) q it" | "dir_of q \<in> set dirs" | "(q, None) \<in> set slots" by auto
  then show "excused (Reading started opts uses blobs (slots[i := (p, Some fs)]) es dirs) q it"
  proof cases
    case 1
    then show ?thesis by (auto simp: knows_item_def fill)
  next
    case 3
    show ?thesis
    proof (cases "q = p")
      case True
      with file_entries_items(1) [OF f] q have "knows_item fs q it" by simp
      then show ?thesis unfolding excused.simps knows_item_def set_append fill by blast
    qed (use slot_still_empty [OF 3 i(2)] in simp)
  qed simp
qed simp

lemma ok_plan:
  assumes ok: "sys_ok L tracked (st, Reading started opts uses blobs slots es [])" and "all_read slots"
    and size: "sum_list (map b_bytes blobs) \<le> u64_max"
    and sn: "sn = make_snapshot uses blobs (es @ slot_entries slots) started" and p: "p = new_plan sn opts started"
  shows "sys_ok L tracked (st, Evicting sn p (chunks batch_size (by_path sn p)))"
proof (rule ok_look [OF ok])
  have d: "distinct (map b_digest blobs)" and e: "\<forall>e \<in> set (es @ slot_entries slots). entry_ok e" using ok by simp_all
  have b: "0 < batch_size" by (simp add: batch_size_def)
  note c = set_chunks [OF b, of "by_path sn p"]
  have "units_fit batch" if "batch \<in> set (chunks batch_size (by_path sn p))" for batch
    unfolding units_fit_def
  proof (intro ballI, clarify)
    fix q us u
    assume "(q, us) \<in> set batch" "u \<in> set us"
    then show "(\<exists>k. q = Action_file k) \<longleftrightarrow> u_candidate u \<noteq> None"
      using by_path_candidates(2) [OF sn e] that c by blast
  qed
  then show "phase_wf (Evicting sn p (chunks batch_size (by_path sn p)))" by (simp add: list_all_iff)
  fix q it
  assume "excused (Reading started opts uses blobs slots es []) q it"
  then have k: "knows_item (es @ slot_entries slots) q it" using all_read_None [OF assms(2)] by auto
  show "excused (Evicting sn p (chunks batch_size (by_path sn p))) q it"
    using planned_item_evicted [OF sn p d size e k] c by (auto simp: in_batch_def)
qed simp

lemma ok_evict:
  assumes L: "codec_ok L" and ok: "sys_ok L tracked (st, Evicting sn p (batch # batches))"
  shows "sys_ok L tracked (evict_batch L now st batch, Evicting sn p batches)"
proof -
  let ?s = "as_store st" and ?rc = "as_recent st"
  obtain rc' t where r: "refresh L ?rc ?s = (rc', t)" by (cases "refresh L ?rc ?s")
  let ?st = "st\<lparr>as_recent := rc', as_store := t\<rparr>" and ?st' = "evict_batch L now st batch"
  note f = refresh_facts [OF _ r]
  have j: "journal_ok ?rc ?s" and u: "uses_noticed L ?rc ?s" and wk: "well_keyed L ?s" and b: "backed_on L tracked ?s"
    and tr: "tracked_ok L tracked ?rc ?s (Evicting sn p (batch # batches))"
    and fit: "units_fit batch" "list_all units_fit batches" using ok by simp_all
  have e: "foldl (evict_path L now) ?st batch = ?st'" by (simp add: evict_batch_def refreshed_def r)
  have t: "well_keyed L (as_store ?st)" "uses_noticed L (as_recent ?st) (as_store ?st)" "unread (as_recent ?st) (as_store ?st) = []"
    using shrinks_keeps(1) [OF f(1) [OF j] wk] f(6) [OF j u] f(3) [OF j] by simp_all
  have v: "shrinks L t (as_store ?st')" "as_recent ?st' = rc'"
    "\<And>q it. it \<in> items_at L (as_store ?st') q \<Longrightarrow> in_batch batch q it \<Longrightarrow> set (snd it) \<subseteq> rc_blobs rc'"
    using evict_paths [OF L t fit(1) e] by auto
  have un: "unread rc' (as_store ?st') = unread rc' t" by (rule shrinksD(2) [OF v(1)])
  have "noticed rc' (as_store ?st') q it \<or> excused (Evicting sn p batches) q it"
    if q: "tracked q" and it: "it \<in> items_at L (as_store ?st') q" for q it
  proof -
    have it': "it \<in> items_at L t q" by (rule shrinksD(1) [OF v(1) it])
    have "it \<in> items_at L ?s q" by (rule shrinksD(1) [OF f(1) [OF j] it'])
    from tracked_okD [OF tr q this] consider "noticed ?rc ?s q it" | "in_batch batch q it" | "excused (Evicting sn p batches) q it"
      by auto
    then show ?thesis
    proof cases
      case 1
      from f(5) [OF j this it'] show ?thesis by (simp add: noticed_def)
    next
      case 2
      from v(3) [OF it this] show ?thesis by (simp add: noticed_def)
    qed simp
  qed
  moreover have "journal_ok rc' (as_store ?st')"
    using f(2) [OF j] v(1) un by (simp add: journal_ok_def shrinks_def)
  moreover have "shrinks L ?s (as_store ?st')" by (rule shrinks_trans [OF f(1) [OF j] v(1)])
  moreover have "uses_noticed L rc' (as_store ?st')" using shrinks_keeps(2) [OF v(1)] t(2) by simp
  ultimately show ?thesis
    using fit(2) v(2) shrinks_keeps(1) [OF _ wk] backed_on_shrinks [OF _ b] by (simp add: tracked_ok_def)
qed

lemma ok_delete:
  assumes ok: "sys_ok L tracked (st, Deleting sn p (batch # batches))" and d: "delete_batch L sn batch st = (r, st')"
  shows "sys_ok L tracked (st', Deleting sn p batches)"
proof -
  let ?s = "as_store st" and ?rc = "as_recent st"
  obtain rc' t where r: "refresh L ?rc ?s = (rc', t)" by (cases "refresh L ?rc ?s")
  let ?st = "st\<lparr>as_recent := rc', as_store := t\<rparr>"
  note f = refresh_facts [OF _ r]
  have j: "journal_ok ?rc ?s" and u: "uses_noticed L ?rc ?s" and wk: "well_keyed L ?s" and b: "backed_on L tracked ?s"
    and tr: "tracked_ok L tracked ?rc ?s (Deleting sn p (batch # batches))"
    and sub: "set batch \<subseteq> set (planned_blobs p)" "phase_wf (Deleting sn p batches)" using ok by simp_all
  have "delete_blobs sn batch ?st = (r, st')" using d by (simp add: delete_batch_def refreshed_def r)
  note df = delete_blobs_facts [OF this]
  have s: "as_recent ?st = rc'" "as_store ?st = t" by simp_all
  from df [unfolded s] have v: "as_recent st' = rc'" "st_journal (as_store st') = st_journal t"
    "\<And>q. record_at q (as_store st') = record_at q t"
    "\<And>d. d \<in> rc_blobs rc' \<or> (\<forall>b \<in> set batch. b_digest (sn_blobs sn ! b) \<noteq> d) \<Longrightarrow> st_blobs (as_store st') d = st_blobs t d"
    by blast+
  note items = items_at_cong [OF v(3)]
  have un: "unread rc (as_store st') = unread rc t" "journal_text (as_store st') = journal_text t" for rc
    by (simp_all add: unread_def journal_text_def v(2))
  have here: "set (snd it) \<subseteq> rc_blobs rc' \<or> set (snd it) \<inter> planned_digests sn p = {}"
    if "tracked q" "it \<in> items_at L t q" for q it
    using tracked_okD [OF tr that(1) shrinksD(1) [OF f(1) [OF j] that(2)]] f(5) [OF j _ that(2)] by auto
  have "intact L (as_store st') d" if "tracked q" "it \<in> items_at L t q" "d \<in> set (snd it)" for q it d
  proof -
    have "intact L t d" using backed_on_shrinks [OF f(1) [OF j] b] that by (auto simp: backed_on_def)
    moreover have "d \<in> rc_blobs rc' \<or> (\<forall>b \<in> set batch. b_digest (sn_blobs sn ! b) \<noteq> d)"
      using here [OF that(1,2)] that(3) sub(1) by (auto simp: planned_digests_def)
    ultimately show ?thesis using v(4) intact_cong by metis
  qed
  moreover have "tracked_ok L tracked rc' (as_store st') (Deleting sn p batches)"
    using here by (auto simp: tracked_ok_def items noticed_def)
  moreover have "uses_noticed L rc' (as_store st')"
    using f(6) [OF j u] by (simp add: uses_noticed_def items noticed_def un(1))
  ultimately show ?thesis
    using sub(2) v(1) shrinks_keeps(1) [OF f(1) [OF j] wk] f(2) [OF j] by (simp add: well_keyed_def backed_on_def items journal_ok_def un)
qed

lemma ok_compact:
  assumes "sys_ok L tracked (st, ph)"
  shows "sys_ok L tracked (st\<lparr>as_store := compact_journal sn p (as_store st)\<rparr>, Idle)"
proof -
  let ?t = "compact_journal sn p (as_store st)"
  have "record_at q ?t = record_at q (as_store st)" for q by (simp add: compact_journal_def Let_def record_at_def split: record_path.split)
  note items = items_at_cong [OF this]
  have "intact L ?t d = intact L (as_store st) d" for d by (simp add: compact_journal_def Let_def intact_iff)
  then show ?thesis using assms by (simp add: well_keyed_def backed_on_def items)
qed

lemma dir_listed: "dir_of p = Actions_dir \<or> dir_of p = Declared_dir \<or> dir_of p = Archives_dir"
  by (cases p) simp_all

lemma ok_step: "gc_step L env x y \<Longrightarrow> codec_ok L \<Longrightarrow> sys_ok L tracked x \<Longrightarrow> sys_ok L tracked y"
proof (induction rule: gc_step.induct)
  case (Request st s ph)
  then show ?case by (intro ok_request)
next
  case (Start opts st started pid)
  then show ?case by (intro ok_start)
next
  case (Read_uses st started opts)
  then show ?case by (intro ok_look [OF Read_uses(2)]) simp_all
next
  case (Read_blob_files names st started opts uses)
  show ?case
    using Read_blob_files(1) dir_listed by (intro ok_look [OF Read_blob_files(3)]) (simp_all add: read_blobs_digests slot_entries_def)
next
  case (List_dir slots d st names started opts uses blobs es dirs)
  then show ?case by (intro ok_list_dir)
next
  case (Read_file i slots p uses st fs started opts blobs es dirs)
  then show ?case by (intro ok_read_file)
next
  case (Make_plan slots blobs sn uses es started p opts st)
  then show ?case by (intro ok_plan)
next
  case (Evict_batch st sn p batch batches now)
  then show ?case by (intro ok_evict)
next
  case (Evicted st sn p)
  have "0 < batch_size" by (simp add: batch_size_def)
  from set_chunks [OF this, of "planned_blobs p"] show ?case by (intro ok_look [OF Evicted(2)]) auto
next
  case (Delete_batch sn batch st st' p batches)
  show ?case by (rule ok_delete [OF Delete_batch(3,1)])
next
  case (Delete_fails sn batch st e st' p batches)
  from ok_delete [OF Delete_fails(3,1)] show ?case by simp
next
  case (Compact st sn p)
  then show ?case by (intro ok_compact)
next
  case (Abort st ph)
  then show ?case by simp
qed

lemma ok_steps: "gc_steps L env x y \<Longrightarrow> codec_ok L \<Longrightarrow> sys_ok L tracked x \<Longrightarrow> sys_ok L tracked y"
  by (induction rule: gc_steps.induct) (blast intro: ok_step)+

text \<open>From a store whose tracked records are backed the collector reaches only such stores.\<close>

lemma collection_safe:
  assumes "codec_ok L" and "well_keyed L s" and "backed_on L tracked s"
    and "gc_steps L env (start_apply s, Idle) (st, ph)"
  shows "backed_on L tracked (as_store st)"
  using ok_steps [OF assms(4,1)] assms(2,3) by (simp add: start_apply_def)

end

end
