(* ===== verification/Server_Theorems.thy ===== *)
theory Server_Theorems
  imports Server_Props
begin

text \<open>
  What clients of the server rely on: published records are backed by their blobs, and an executed
  action is answered from the store from then on.
\<close>


definition ex_world :: "nat \<Rightarrow> 'b world" where
  "ex_world now = \<lparr>w_now = now, w_ended = now, w_listing = \<lambda>s. \<lparr>ls_blobs = [], ls_actions = [], ls_declared = [], ls_archives = []\<rparr>,
     w_version = ''1'', w_host = \<lparr>ho_path = [], ho_rustup_home = [], ho_exe = [], ho_pid = 1\<rparr>,
     w_run = \<lambda>c ws. None, w_workspace = ''/w'', w_detected = Some ex_platform\<rparr>"

definition ex_auth :: "string option" where
  "ex_auth = Some ''Bearer ~secret''"

definition ex_app :: "ex_doc store \<Rightarrow> ex_doc app" where
  "ex_app s = \<lparr>ap_store = s, ap_max_blob_bytes = 1024, ap_auth_token = Some ''~secret'', ap_max_candidates = 8,
     ap_leases = [], ap_enable_execution = True\<rparr>"

definition ex_requests :: "(ex_doc world \<times> string option \<times> api_request) list" where
  "ex_requests = [(ex_world 2, ex_auth, Put_blob ex_key [Inr ''data'']), (ex_world 3, ex_auth, Put_declared ex_key ex_declared)]"


section \<open>Execution and the cache\<close>

lemma put_declared_kept:
  assumes L: "codec_ok L" and p: "put_declared L r now s = (Inr b, t)"
  shows "declared_found L t (dr_key r) = Some r"
proof -
  have ok: "declared_ok L r" using put_declared_unfit [of L r now s] p by fastforce
  have reread: "declared_reread L r = Some r" using ok L by (simp add: declared_reread_def declared_here_def)
  show ?thesis
  proof (cases "declared_found L s (dr_key r)")
    case (Some x)
    then show ?thesis using put_declared_found [OF ok Some, of now] p by (auto split: if_splits)
  next
    case None
    show ?thesis
    proof (cases "declared_broken L s (dr_key r)")
      case True
      then show ?thesis using put_declared_broken [OF ok True, of now] p by auto
    next
      case False
      then show ?thesis using decl.publish_new [OF ok None False, of now] p reread by auto
    qed
  qed
qed

lemma execute_declared_found:
  assumes "codec_ok L" and "execute_declared L h run workspace now platform request s = (Inr r, t)"
  shows "declared_found L t (xr_key request) = Some r"
proof -
  obtain outs out err duration u b where
    r: "r = executed_record L h now platform request outs out err duration" and p: "put_declared L r now u = (Inr b, t)"
    using assms(2) by (auto simp: execute_declared_def collect_run_def publish_run_def Let_def e_bind_Inr e_store_Inr
        e_lift_Inr split: sum.splits option.splits if_splits)
  have "dr_key r = xr_key request" by (simp add: r executed_record_def)
  with put_declared_kept [OF assms(1) p] show ?thesis by simp
qed

lemma read_declared_hit: "read_declared L key s = (Inr (Some r), t) \<Longrightarrow> t = s \<and> declared_found L s key = Some r"
  using declared_check [of L _ key]
  by (auto simp: read_declared_def declared_found_def declared_here_def split: option.splits sum.splits if_splits)

lemma find_or_run_found:
  assumes L: "codec_ok L" and "find_or_run L h run workspace now platform request ap = (Inr resp, ap')"
  shows "declared_found L (ap_store ap') (xr_key request) = Some (er_record resp)"
    and "ap_auth_token ap' = ap_auth_token ap" and "ap_enable_execution ap' = ap_enable_execution ap"
proof -
  obtain r s where f: "read_declared L (xr_key request) (ap_store ap) = (r, s)"
    by (cases "read_declared L (xr_key request) (ap_store ap)")
  then have o: "on_store internal (read_declared L (xr_key request)) ap = (map_err internal r, ap\<lparr>ap_store := s\<rparr>)"
    by (simp add: on_store_def)
  have "declared_found L (ap_store ap') (xr_key request) = Some (er_record resp)
      \<and> ap_auth_token ap' = ap_auth_token ap \<and> ap_enable_execution ap' = ap_enable_execution ap"
  proof (cases r)
    case (Inl e)
    then show ?thesis using assms(2) o by (simp add: find_or_run_def a_bind_def)
  next
    case (Inr found)
    show ?thesis
    proof (cases found)
      case None
      then show ?thesis using assms(2) o Inr execute_declared_found [OF L]
        by (auto simp: find_or_run_def a_bind_def run_declared_def split: prod.splits sum.splits)
    next
      case (Some x)
      then show ?thesis using assms(2) o Inr f read_declared_hit [of L "xr_key request" "ap_store ap" x s]
        by (auto simp: find_or_run_def a_bind_def a_lift_def)
    qed
  qed
  then show "declared_found L (ap_store ap') (xr_key request) = Some (er_record resp)"
    "ap_auth_token ap' = ap_auth_token ap" "ap_enable_execution ap' = ap_enable_execution ap" by blast+
qed

text \<open>
  C16. An action is executed once: after a successful execution the same request is answered with the
  same record from the store, whatever the command would do if it were run again; the record is
  stored under the request's key and passes every check of a declared record.
\<close>

theorem executed_action_is_cached:
  assumes "codec_ok L" and "execute L h run workspace detected header now request ap = (Inr resp, ap')"
    and "authorize L ap header2 = Inr ()"
  shows "execute L h2 run2 workspace2 detected header2 now2 request ap'
      = (Inr \<lparr>er_cache_hit = True, er_record = er_record resp\<rparr>, ap')
    \<and> validate_declared_record L (er_record resp) = Inr () \<and> dr_key (er_record resp) = xr_key request"
proof -
  have auth: "authorize L ap header = Inr ()" using assms(2) by (auto simp: execute_def authorized_def split: sum.splits)
  obtain platform where d: "detected = Some platform" "ap_enable_execution ap" "xr_platform request = platform"
      "xr_key request = declared_action_key L (xr_name request) (xr_platform request) (xr_command request)
        (xr_environment request) (xr_inputs request) (xr_outputs request)"
      "validate_execution_request request = Inr ()"
    and f: "find_or_run L h run workspace now platform request ap = (Inr resp, ap')"
    using assms(2) by (auto simp: execute_def authorized_ok [OF auth] split: option.splits sum.splits if_splits)
  note found = find_or_run_found [OF assms(1) f]
  have auth': "authorize L ap' header2 = Inr ()" using assms(3) authorize_cong [OF found(2)] by simp
  have "find_or_run L h2 run2 workspace2 now2 platform request ap' = (Inr \<lparr>er_cache_hit = True, er_record = er_record resp\<rparr>, ap')"
    using read_declared_found [OF found(1)] by (simp add: find_or_run_def a_bind_def a_lift_def on_store_def)
  then have "execute L h2 run2 workspace2 detected header2 now2 request ap'
      = (Inr \<lparr>er_cache_hit = True, er_record = er_record resp\<rparr>, ap')"
    using d found(3) by (simp add: execute_def authorized_ok [OF auth'])
  moreover have "declared_ok L (er_record resp) \<and> dr_key (er_record resp) = xr_key request"
    using found(1) by (auto simp: declared_found_Some declared_here_Some)
  ultimately show ?thesis by (simp add: declared_record_ok)
qed

definition ex_request :: execute_request where
  "ex_request = \<lparr>xr_key = ex_key, xr_name = ''n'', xr_platform = ex_platform, xr_command = ex_command, xr_environment = [],
     xr_inputs = [ex_artifact ''src/a.rs''], xr_outputs = [''out'']\<rparr>"

lemma ex_request_ok: "validate_execution_request ex_request = Inr ()"
proof -
  have "validate_relative_path ''src/a.rs'' = Inr ''src/a.rs''" "validate_relative_path ''out'' = Inr ''out''"
    by (simp_all add: validate_relative_path_ok clean_def is_sep_def dotted_def)
  then show ?thesis using ex_output_roots ex_command_ok
    by (simp add: validate_execution_request_def ex_request_def ex_artifact_def forbidden_env_def)
qed

lemma ex_authorized: "authorize ex_codec (ex_app s) ex_auth = Inr ()"
  by (simp add: authorize_def ex_app_def ex_auth_def supplied_token_def header_text_def strip_prefix_def)

lemma ex_execute_hit:
  "execute ex_codec h run w (Some ex_platform) ex_auth now ex_request (ex_app ex_published)
    = (Inr \<lparr>er_cache_hit = True, er_record = ex_declared\<rparr>, ex_app ex_published)"
proof -
  have app: "ap_store (ex_app ex_published) = ex_published" "ap_enable_execution (ex_app ex_published)"
    "ex_app ex_published\<lparr>ap_store := ex_published\<rparr> = ex_app ex_published" by (simp_all add: ex_app_def)
  have req: "xr_key ex_request = ex_key" "xr_platform ex_request = ex_platform" by (simp_all add: ex_request_def)
  have "find_or_run ex_codec h run w now ex_platform ex_request (ex_app ex_published)
      = (Inr \<lparr>er_cache_hit = True, er_record = ex_declared\<rparr>, ex_app ex_published)"
    by (simp add: find_or_run_def a_bind_def a_lift_def on_store_def app req ex_published_read)
  moreover have "declared_action_key ex_codec (xr_name ex_request) (xr_platform ex_request) (xr_command ex_request)
      (xr_environment ex_request) (xr_inputs ex_request) (xr_outputs ex_request) = xr_key ex_request"
    by (simp add: declared_action_key_def ex_codec_def ex_request_def)
  ultimately show ?thesis
    using app(2) req(2) by (simp add: execute_def authorized_ok [OF ex_authorized] ex_request_ok)
qed

theorem executed_action_is_cached_witness:
  "\<forall>h2 run2 w2. fst (execute ex_codec h2 run2 w2 (Some ex_platform) ex_auth 9 ex_request (ex_app ex_published))
    = Inr \<lparr>er_cache_hit = True, er_record = ex_declared\<rparr>"
proof (intro allI)
  fix h2 run2 w2
  note executed_action_is_cached [OF ex_codec_ok ex_execute_hit ex_authorized, where ?h2.0 = h2 and ?run2.0 = run2 and ?workspace2.0 = w2 and ?now2.0 = 9]
  then show "fst (execute ex_codec h2 run2 w2 (Some ex_platform) ex_auth 9 ex_request (ex_app ex_published))
    = Inr \<lparr>er_cache_hit = True, er_record = ex_declared\<rparr>" by simp
qed

section \<open>Outputs behind links\<close>

text \<open>
  A link is refused as a declared output, but not as a directory on the way to one: an output
  declared below a link to a directory is read through the link and published like any other,
  so what it names may lie outside the workspace.
\<close>

theorem output_behind_link_is_published:
  "collect_declarations L now [(''out'', Link (Some (Dir [(''x'', File bytes executable)])))] [''out/x''] [] s
     = collect_declarations L now [(''out'', Dir [(''x'', File bytes executable)])] [''out/x''] [] s
   \<and> collect_declarations L now [(''out'', Link n)] [''out''] [] s = (Inl (Output_symlink ''out''), s)"
proof -
  have "validate_relative_path ''out/x'' = Inr ''out/x''" "validate_relative_path ''out'' = Inr ''out''"
    by (simp_all add: validate_relative_path_ok clean_def is_sep_def dotted_def)
  moreover have "path_names ''out/x'' = [''out'', ''x'']" "path_names ''out'' = [''out'']"
    by (simp_all add: path_names_def components_clean clean_def is_sep_def dotted_def)
  ultimately show ?thesis by (simp add: e_bind_def e_lift_def join_def split: prod.split sum.split)
qed

end
