(* ===== verification/GC_Theorems.thy ===== *)
theory GC_Theorems
  imports GC_Traffic Server_Theorems
begin

text \<open>
  What a collection promises to the requests that run beside it, and what it does not.
\<close>

section \<open>The server's requests as traffic\<close>

definition requests :: "'b lib \<Rightarrow> 'b store \<Rightarrow> 'b store \<Rightarrow> bool" where
  "requests L s t \<longleftrightarrow> (\<exists>W header req ap. ap_store ap = s \<and> w_now W \<le> u64_max \<and> \<not> is_gc req
     \<and> t = ap_store (snd (handle L W header req ap)))"

text \<open>Requests that publish declared records or archives.\<close>

definition publishes_elsewhere :: "api_request \<Rightarrow> bool" where
  "publishes_elsewhere req \<longleftrightarrow> (case req of Put_declared k r \<Rightarrow> True | Put_archive n m \<Rightarrow> True | Post_execute x \<Rightarrow> True | _ \<Rightarrow> False)"

definition compiler_requests :: "'b lib \<Rightarrow> 'b store \<Rightarrow> 'b store \<Rightarrow> bool" where
  "compiler_requests L s t \<longleftrightarrow> (\<exists>W header req ap. ap_store ap = s \<and> w_now W \<le> u64_max \<and> \<not> is_gc req
     \<and> \<not> publishes_elsewhere req \<and> t = ap_store (snd (handle L W header req ap)))"

definition candidate_file :: "record_path \<Rightarrow> bool" where
  "candidate_file p \<longleftrightarrow> visible p \<and> (\<exists>k. p = Action_file k)"

lemma requests_advance: "codec_ok L \<Longrightarrow> requests L s t \<Longrightarrow> advances L s t"
  using handle_advances unfolding requests_def by blast

interpretation served: traffic L "requests L" candidate_file for L :: "'b lib"
  by unfold_locales (auto simp: requests_advance candidate_file_def)

subsection \<open>Compiler requests leave other records alone\<close>

definition calm :: "'b store \<Rightarrow> 'b store \<Rightarrow> bool" where
  "calm s t \<longleftrightarrow> (\<forall>k. st_declared t k = st_declared s k \<or> st_declared t k = None)
     \<and> (\<forall>n. st_archives t n = st_archives s n \<or> st_archives t n = None)"

lemma calm_refl [simp]: "calm s s"
  by (simp add: calm_def)

lemma calm_items:
  assumes "calm s t" and "\<forall>k. p \<noteq> Action_file k"
  shows "items_at L t p \<subseteq> items_at L s p"
  using assms by (cases p) (auto simp: calm_def items_at_def split: option.splits, (metis option.distinct(1) option.inject)+)

lemma calm_ops:
  "calm s (snd (touch_blob d now s))" "calm s (snd (commit_blob L d temp now s))" "calm s (snd (record_use k a now s))"
  "calm s (snd (read_candidates L k s))" "calm s (snd (read_declared L k s))" "calm s (snd (read_archive L n s))"
  by (auto simp: calm_def touch_blob_def commit_blob_def s_bind_def s_lift_def record_use_def read_candidates_def read_declared_def read_archive_def
      quarantine_action_def quarantine_declared_def quarantine_archive_def Let_def split: sum.splits option.splits)

lemma calm_put_candidate: "calm s (snd (put_candidate L c n now s))"
proof (cases "validate_candidate_manifest L c")
  case (Inl e)
  then show ?thesis by (simp add: put_candidate_def s_bind_def s_lift_def)
next
  case (Inr u)
  obtain r t where rt: "read_candidates L (ac_static_key c) s = (r, t)" by (cases "read_candidates L (ac_static_key c) s")
  have st: "calm s t" using calm_ops(4) [of s L "ac_static_key c"] rt by simp
  have "st_declared (snd (record_use k a now v)) = st_declared v" "st_archives (snd (record_use k a now v)) = st_archives v" for k a v
    by (simp_all add: record_use_def split: sum.split)
  note same = this
  show ?thesis using st Inr rt
    by (auto simp: put_candidate_def put_candidate_unlocked_def s_bind_def s_lift_def calm_def same split: sum.splits)
qed

lemma calm_authorized: "calm (ap_store ap) (ap_store (snd (h ap))) \<Longrightarrow> calm (ap_store ap) (ap_store (snd (authorized L header h ap)))"
  by (simp add: authorized_def split: sum.split)

lemma calm_handlers:
  "calm (ap_store ap) (ap_store (snd (get_candidates L header k ap)))"
  "calm (ap_store ap) (ap_store (snd (get_declared L header k ap)))"
  "calm (ap_store ap) (ap_store (snd (get_archive L header k ap)))"
  "calm (ap_store ap) (ap_store (snd (get_blob L header k ap)))"
  "calm (ap_store ap) (ap_store (snd (health L version header ap)))"
  "calm (ap_store ap) (ap_store (snd (stats L ls header now ap)))"
  "calm (ap_store ap) (ap_store (snd (head_blob L header now k ap)))"
  "calm (ap_store ap) (ap_store (snd (put_blob_handler L header now k body ap)))"
  "calm (ap_store ap) (ap_store (snd (record_use_handler L header now k a ap)))"
  "calm (ap_store ap) (ap_store (snd (put_candidate_handler L header now k a c ap)))"
  unfolding get_candidates_def get_declared_def get_archive_def get_blob_def health_def stats_def head_blob_def
    put_blob_handler_def record_use_handler_def put_candidate_handler_def store_candidate_def
  by (intro calm_authorized; auto simp: store_bind_lift calm_ops calm_put_candidate Let_def
      split: sum.split store_error.split option.split)+

lemma calm_handle:
  assumes "\<not> is_gc req" and "\<not> publishes_elsewhere req"
  shows "calm (ap_store ap) (ap_store (snd (handle L W header req ap)))"
  using assms by (cases req) (simp_all add: handle_def Let_def is_gc_def publishes_elsewhere_def calm_handlers)

interpretation compiling: traffic L "compiler_requests L" visible for L :: "'b lib"
proof
  show "codec_ok L \<Longrightarrow> compiler_requests L s t \<Longrightarrow> advances L s t" for s t
    using handle_advances unfolding compiler_requests_def by blast
  show "codec_ok L \<Longrightarrow> compiler_requests L s t \<Longrightarrow> visible p \<Longrightarrow> \<forall>k. p \<noteq> Action_file k \<Longrightarrow> items_at L t p \<subseteq> items_at L s p" for s t p
    using calm_items calm_handle unfolding compiler_requests_def by blast
qed

section \<open>A whole collection is a run of the steps\<close>

lemma all_entries_append:
  "all_entries L uses s (ps @ qs) = r_bind (all_entries L uses s ps) (\<lambda>es. r_bind (all_entries L uses s qs) (\<lambda>fs. Inr (es @ fs)))"
proof (induction ps)
  case Nil
  then show ?case by (cases "all_entries L uses s qs") simp_all
next
  case (Cons p ps)
  then show ?case by (cases "file_entries L uses s p"; cases "all_entries L uses s ps"; cases "all_entries L uses s qs") simp_all
qed

lemma read_files:
  assumes "all_entries L uses (as_store st) ps = Inr fs"
  shows "\<exists>slots'. gc_steps L env (st, Reading started opts uses blobs (slots @ map (\<lambda>p. (p, None)) ps) es dirs)
      (st, Reading started opts uses blobs (slots @ slots') es dirs) \<and> all_read slots' \<and> slot_entries slots' = fs"
  using assms
proof (induction ps arbitrary: slots fs)
  case Nil
  then show ?case by (auto intro!: exI [of _ "[]"] No_steps simp: all_read_def slot_entries_def)
next
  case (Cons p ps)
  then obtain f rest where f: "file_entries L uses (as_store st) p = Inr f" "all_entries L uses (as_store st) ps = Inr rest" "fs = f @ rest"
    by auto
  let ?none = "map (\<lambda>p. (p, None :: entry list option)) ps"
  have "gc_step L env (st, Reading started opts uses blobs (slots @ (p, None) # ?none) es dirs)
      (st, Reading started opts uses blobs ((slots @ (p, None) # ?none)[length slots := (p, Some f)]) es dirs)"
    by (rule Read_file [OF _ _ f(1)]) simp_all
  then have first: "gc_steps L env (st, Reading started opts uses blobs (slots @ map (\<lambda>p. (p, None)) (p # ps)) es dirs)
      (st, Reading started opts uses blobs ((slots @ [(p, Some f)]) @ ?none) es dirs)"
    by (simp add: gc_steps_one)
  from Cons.IH [OF f(2), of "slots @ [(p, Some f)]"] obtain slots' where
    s: "gc_steps L env (st, Reading started opts uses blobs ((slots @ [(p, Some f)]) @ ?none) es dirs)
      (st, Reading started opts uses blobs ((slots @ [(p, Some f)]) @ slots') es dirs)" "all_read slots'" "slot_entries slots' = rest"
    by blast
  have "all_read ((p, Some f) # slots')" "slot_entries ((p, Some f) # slots') = fs"
    using s(2,3) f(3) by (simp_all add: all_read_def slot_entries_def)
  moreover have "gc_steps L env (st, Reading started opts uses blobs (slots @ map (\<lambda>p. (p, None)) (p # ps)) es dirs)
      (st, Reading started opts uses blobs (slots @ (p, Some f) # slots') es dirs)"
    using gc_steps_trans [OF s(1) first] by simp
  ultimately show ?case by blast
qed

lemma read_dir:
  assumes "all_read slots" and n: "{n. record_at (file_in d n) (as_store st) \<noteq> None} \<subseteq> set names"
    and "all_entries L uses (as_store st) (map (file_in d) (filter not_temp names)) = Inr fs"
  shows "\<exists>slots'. gc_steps L env (st, Reading started opts uses blobs slots es (d # dirs))
      (st, Reading started opts uses blobs slots' (es @ slot_entries slots) dirs) \<and> all_read slots' \<and> slot_entries slots' = fs"
proof -
  let ?none = "map (\<lambda>n. (file_in d n, None :: entry list option)) (filter not_temp names)"
  have "gc_steps L env (st, Reading started opts uses blobs slots es (d # dirs))
      (st, Reading started opts uses blobs ([] @ ?none) (es @ slot_entries slots) dirs)"
    unfolding append_Nil by (rule gc_steps_one) (rule List_dir [OF assms(1)], use n in blast)
  moreover obtain slots' where "gc_steps L env (st, Reading started opts uses blobs ([] @ map (\<lambda>p. (p, None)) (map (file_in d) (filter not_temp names))) (es @ slot_entries slots) dirs)
      (st, Reading started opts uses blobs ([] @ slots') (es @ slot_entries slots) dirs)" "all_read slots'" "slot_entries slots' = fs"
    using read_files [OF assms(3)] by blast
  ultimately show ?thesis by (auto simp: comp_def intro: gc_steps_trans)
qed

lemma evict_steps:
  "gc_steps L env (st, Evicting sn p batches) (foldl (evict_batch L now) st batches, Evicting sn p [])"
proof (induction batches arbitrary: st)
  case (Cons batch batches)
  from gc_steps_trans [OF Cons.IH gc_steps_one [OF Evict_batch]] show ?case by simp
qed (simp add: No_steps)

lemma delete_steps:
  "delete_batches L sn batches st = (r, st') \<Longrightarrow>
    gc_steps L env (st, Deleting sn p batches) (st', case r of None \<Rightarrow> Deleting sn p [] | Some e \<Rightarrow> Idle)"
proof (induction L sn batches st rule: delete_batches.induct)
  case (2 L sn batch batches st)
  obtain r1 st1 where d: "delete_batch L sn batch st = (r1, st1)" by (cases "delete_batch L sn batch st")
  show ?case
  proof (cases r1)
    case None
    with 2 d have "gc_steps L env (st1, Deleting sn p batches) (st', case r of None \<Rightarrow> Deleting sn p [] | Some e \<Rightarrow> Idle)" by simp
    from gc_steps_trans [OF this gc_steps_one [OF Delete_batch]] None d show ?thesis by simp
  next
    case (Some e)
    with 2(2) d have "r = Some e" "st' = st1" by simp_all
    then show ?thesis using gc_steps_one [OF Delete_fails, of L sn batch st e st1] d Some by simp
  qed
qed (simp add: No_steps)

lemma file_in_eq: "file_in Actions_dir = Action_file" "file_in Declared_dir = Declared_file" "file_in Archives_dir = Archive_file"
  by (simp_all add: fun_eq_iff)

lemma snapshot_steps:
  assumes "listing_of ls (as_store st)" and "all_entries L uses (as_store st) (record_files ls) = Inr es"
  shows "\<exists>slots fs. gc_steps L env (st, Journal_read started opts uses)
      (st, Reading started opts uses (read_blobs (ls_blobs ls) (as_store st)) slots fs []) \<and> all_read slots \<and> fs @ slot_entries slots = es"
proof -
  let ?b = "read_blobs (ls_blobs ls) (as_store st)" and ?R = "Reading started opts uses (read_blobs (ls_blobs ls) (as_store st))"
  obtain ea ed er where e: "all_entries L uses (as_store st) (map (file_in Actions_dir) (filter not_temp (ls_actions ls))) = Inr ea"
      "all_entries L uses (as_store st) (map (file_in Declared_dir) (filter not_temp (ls_declared ls))) = Inr ed"
      "all_entries L uses (as_store st) (map (file_in Archives_dir) (filter not_temp (ls_archives ls))) = Inr er" "es = ea @ ed @ er"
    using assms(2) file_in_eq by (auto simp: record_files_def all_entries_append)
  have l: "{n. record_at (file_in Actions_dir n) (as_store st) \<noteq> None} \<subseteq> set (ls_actions ls)"
    "{n. record_at (file_in Declared_dir n) (as_store st) \<noteq> None} \<subseteq> set (ls_declared ls)"
    "{n. record_at (file_in Archives_dir n) (as_store st) \<noteq> None} \<subseteq> set (ls_archives ls)"
    using assms(1) by (auto simp: listing_of_def lists_def)
  have "all_read []" by (simp add: all_read_def)
  from read_dir [OF this l(1) e(1)] obtain s1 where
    1: "gc_steps L env (st, ?R [] [] [Actions_dir, Declared_dir, Archives_dir]) (st, ?R s1 [] [Declared_dir, Archives_dir])"
      "all_read s1" "slot_entries s1 = ea" by (force simp: slot_entries_def)
  from read_dir [OF 1(2) l(2) e(2)] obtain s2 where
    2: "gc_steps L env (st, ?R s1 [] [Declared_dir, Archives_dir]) (st, ?R s2 ea [Archives_dir])" "all_read s2" "slot_entries s2 = ed"
    using 1(3) by (metis append_Nil)
  from read_dir [OF 2(2) l(3) e(3)] obtain s3 where
    3: "gc_steps L env (st, ?R s2 ea [Archives_dir]) (st, ?R s3 (ea @ ed) [])" "all_read s3" "slot_entries s3 = er"
    using 2(3) by metis
  have "distinct (ls_blobs ls)" using assms(1) by (simp add: listing_of_def lists_def)
  from gc_steps_one [OF Read_blob_files [OF this]] gc_steps_trans [OF 3(1) gc_steps_trans [OF 2(1) 1(1)]]
  have "gc_steps L env (st, Journal_read started opts uses) (st, ?R s3 (ea @ ed) [])" by (rule gc_steps_trans [rotated])
  with 3(2,3) e(4) have "gc_steps L env (st, Journal_read started opts uses) (st, ?R s3 (ea @ ed) []) \<and> all_read s3
      \<and> (ea @ ed) @ slot_entries s3 = es" by simp
  then show ?thesis by blast
qed


end
