(* ===== verification/GC_Guarantees.thy ===== *)
theory GC_Guarantees
  imports GC_Theorems
begin

text \<open>
  The guarantees of a collection that runs beside requests, on an example store with one cached
  candidate and the blob it references, and where they end.
\<close>

section \<open>An example run\<close>

definition ex_gc_store :: "ex_doc store" where
  "ex_gc_store = ex_one_candidate\<lparr>st_blobs := [ex_key \<mapsto> \<lparr>bf_bytes = ''data'', bf_modified = 5\<rparr>]\<rparr>"

definition ex_gc_listing :: listing where
  "ex_gc_listing = \<lparr>ls_blobs = [ex_key], ls_actions = [ex_key], ls_declared = [], ls_archives = []\<rparr>"

definition ex_empty_budget :: gc_options where
  "ex_empty_budget = \<lparr>go_max_bytes = 0, go_dry_run = False, go_min_protocol = None, go_max_executable_bytes = None\<rparr>"

lemma ex_gc_sel:
  "st_blobs ex_gc_store = [ex_key \<mapsto> \<lparr>bf_bytes = ''data'', bf_modified = 5\<rparr>]"
  "st_actions ex_gc_store = [ex_key \<mapsto> \<lparr>df_doc = Doc_index [ex_plain], df_modified = 5\<rparr>]"
  "st_declared ex_gc_store = Map.empty" "st_archives ex_gc_store = Map.empty"
  by (simp_all add: ex_gc_store_def ex_one_candidate_eq index_written_def ex_plain_def ex_candidate_def updated_index_def ex_codec_def)

lemma ex_gc_listing_ok: "listing_of ex_gc_listing ex_gc_store"
  by (simp add: listing_of_def lists_def ex_gc_listing_def ex_gc_sel)

lemma ex_key_not_temp: "not_temp ex_key"
  by (simp add: not_temp_def is_temp_name_def ex_key_def numeral_eq_Suc)

lemma ex_gc_sizes: "sum_list (map b_bytes (read_blobs (ls_blobs ex_gc_listing) ex_gc_store)) \<le> u64_max"
  by (simp add: read_blobs_def ex_gc_listing_def ex_gc_sel map_filter_simps ex_key_not_temp u64_max_def)


lemma ex_index: "l_dec_index ex_codec (Doc_index i) = Some i" "l_enc_index ex_codec i = Doc_index i"
  by (simp_all add: ex_codec_def)

lemma ex_hash: "l_hash ex_codec ''data'' = ex_key"
  by (simp add: ex_codec_def)

lemma ex_plain_keys2: "ac_static_key ex_plain = ex_key" "ac_action_key ex_plain = ex_key" "ac_created_ms ex_plain = 5"
  "candidate_digests ex_plain = [ex_key, ex_key, ex_key]"
  by (simp_all add: ex_plain_def ex_candidate_def candidate_digests_def ex_artifact_def ex_key_def)

lemma ex_gc_intact: "intact ex_codec ex_gc_store ex_key"
  by (simp add: intact_iff ex_gc_sel ex_hash)

lemma ex_gc_items: "items_at ex_codec ex_gc_store p = (if p = Action_file ex_key then {candidate_item ex_plain} else {})"
  by (cases p) (simp_all add: items_at_def doc_items_def ex_gc_sel ex_index)

lemma ex_gc_ok: "well_keyed ex_codec ex_gc_store" "backed ex_codec ex_gc_store"
  "backed_on ex_codec candidate_file ex_gc_store" "backed_on ex_codec visible ex_gc_store"
  by (simp_all add: well_keyed_def backed_def backed_on_def ex_gc_items candidate_item_def ex_plain_keys2 ex_gc_intact)

text \<open>The collection up to its plan.\<close>

definition ex_rotated :: "ex_doc store" where "ex_rotated = rotate_journal 100 1 ex_gc_store"
definition ex_uses :: uses where "ex_uses = read_journal ex_rotated"
definition ex_entry :: entry where "ex_entry = candidate_entry ex_uses (Action_file ex_key) ex_plain"
definition ex_blob :: gc_blob where "ex_blob = \<lparr>b_digest = ex_key, b_bytes = 4, b_modified_ms = 5\<rparr>"
definition ex_taken :: snapshot where "ex_taken = make_snapshot ex_uses [ex_blob] [ex_entry] 100"
definition ex_planned :: plan where "ex_planned = new_plan ex_taken ex_empty_budget 100"

lemma ex_rotated_sel:
  "st_blobs ex_rotated = st_blobs ex_gc_store" "st_actions ex_rotated = st_actions ex_gc_store"
  "st_declared ex_rotated = st_declared ex_gc_store" "st_archives ex_rotated = st_archives ex_gc_store"
  "st_journal ex_rotated = None"
  by (simp_all add: ex_rotated_def rotate_journal_def split: option.split)

lemma ex_read: "read_blobs [ex_key] ex_rotated = [ex_blob]"
  "all_entries ex_codec ex_uses ex_rotated [Action_file ex_key] = Inr [ex_entry]"
  by (simp_all add: read_blobs_def ex_rotated_sel ex_gc_sel map_filter_simps ex_key_not_temp ex_blob_def ex_entry_def ex_index)

lemma ex_plan_steps:
  "gc_steps ex_codec env (start_apply ex_gc_store, Idle)
     (start_apply ex_rotated, Evicting ex_taken ex_planned (chunks batch_size (by_path ex_taken ex_planned)))"
proof -
  let ?st = "start_apply ex_rotated"
  have st: "as_store ?st = ex_rotated" "as_store (start_apply ex_gc_store) = ex_gc_store" by (simp_all add: start_apply_def)
  have start: "gc_steps ex_codec env (start_apply ex_gc_store, Idle) (?st, Rotated 100 ex_empty_budget)"
    using gc_steps_one [OF Start [of ex_empty_budget ex_codec env "start_apply ex_gc_store" 100 1]]
    by (simp add: st ex_empty_budget_def ex_rotated_def)
  have l: "listing_of ex_gc_listing (as_store ?st)"
    using ex_gc_listing_ok by (simp add: listing_of_def st ex_rotated_sel)
  have "all_entries ex_codec ex_uses (as_store ?st) (record_files ex_gc_listing) = Inr [ex_entry]"
    using ex_read(2) by (simp add: record_files_def ex_gc_listing_def ex_key_not_temp st)
  from snapshot_steps [OF l this, of env 100 ex_empty_budget] obtain slots fs where
    r: "gc_steps ex_codec env (?st, Journal_read 100 ex_empty_budget ex_uses) (?st, Reading 100 ex_empty_budget ex_uses [ex_blob] slots fs [])"
      "all_read slots" "fs @ slot_entries slots = [ex_entry]"
    using ex_read(1) by (auto simp: st ex_gc_listing_def)
  have "gc_step ex_codec env (?st, Reading 100 ex_empty_budget ex_uses [ex_blob] slots fs [])
      (?st, Evicting ex_taken ex_planned (chunks batch_size (by_path ex_taken ex_planned)))"
    by (rule Make_plan [OF r(2)]) (simp_all add: ex_blob_def u64_max_def ex_taken_def ex_planned_def r(3))
  from More_steps [OF gc_steps_trans [OF r(1) More_steps [OF start Read_uses [where st = ?st, unfolded st(1), folded ex_uses_def]]] this]
  show ?thesis .
qed

section \<open>Candidates survive any traffic\<close>

text \<open>
  C1. A collection never breaks a cached compilation: however its steps interleave with requests of
  any kind (uploads, publications, uses, executions), however often it runs, fails or is cut off,
  every candidate in the store references only blobs that are present and intact.
\<close>

theorem candidates_survive_collection:
  assumes "codec_ok L" and "well_keyed L s" and "backed_on L candidate_file s"
    and "gc_steps L (requests L) (start_apply s, Idle) (st, ph)"
  shows "backed_on L candidate_file (as_store st)"
  using assms by (rule served.collection_safe)

theorem candidates_survive_collection_witness:
  "backed_on ex_codec candidate_file ex_rotated \<and> items_at ex_codec ex_rotated (Action_file ex_key) = {candidate_item ex_plain}"
proof
  have "as_store (start_apply ex_rotated) = ex_rotated" by (simp add: start_apply_def)
  with candidates_survive_collection [OF ex_codec_ok ex_gc_ok(1,3) ex_plan_steps]
  show "backed_on ex_codec candidate_file ex_rotated" by simp
  have "record_at (Action_file ex_key) ex_rotated = record_at (Action_file ex_key) ex_gc_store" by (simp add: ex_rotated_sel)
  from items_at_cong [OF this] show "items_at ex_codec ex_rotated (Action_file ex_key) = {candidate_item ex_plain}" by (simp add: ex_gc_items)
qed

text \<open>
  C13. Every record survives a collection beside which no declared record or archive is published:
  then all record files the collector can see, of all three kinds, keep their blobs, whatever
  compiler traffic there is. (A file named like a temporary one is invisible to it.)
\<close>

theorem records_survive_compiler_traffic:
  assumes "codec_ok L" and "well_keyed L s" and "backed_on L visible s"
    and "gc_steps L (compiler_requests L) (start_apply s, Idle) (st, ph)"
  shows "backed_on L visible (as_store st)"
  using assms by (rule compiling.collection_safe)

theorem records_survive_compiler_traffic_witness:
  "backed_on ex_codec visible ex_rotated"
proof -
  have "as_store (start_apply ex_rotated) = ex_rotated" by (simp add: start_apply_def)
  with records_survive_compiler_traffic [OF ex_codec_ok ex_gc_ok(1,4) ex_plan_steps] show ?thesis by simp
qed

section \<open>Declared records may lose their blobs\<close>

definition ex_gc_unit :: gc_unit where "ex_gc_unit = fst ex_entry\<lparr>u_blobs := [0]\<rparr>"

lemma ex_taken_eq: "ex_taken = \<lparr>sn_units = [ex_gc_unit], sn_blobs = [ex_blob], sn_referrers = [[0]],
    sn_journal_entries = length ex_uses, sn_total_bytes = 4, sn_started_ms = 100\<rparr>"
proof -
  have b: "by_digest [ex_blob] = [ex_key \<mapsto> 0]" by (simp add: by_digest_def ex_blob_def)
  have e: "ex_entry = (fst ex_entry, [ex_key, ex_key, ex_key])" by (simp add: ex_entry_def candidate_entry_def ex_plain_keys2)
  have "add_unit [ex_key \<mapsto> 0] ([], [[]]) (fst ex_entry, [ex_key, ex_key, ex_key]) = ([ex_gc_unit], [[0]])"
    by (simp add: add_unit_def ex_gc_unit_def)
  then have "foldl (add_unit (by_digest [ex_blob])) ([], [[]]) [ex_entry] = ([ex_gc_unit], [[0]])"
    unfolding b foldl.simps by (subst e) simp
  then show ?thesis by (simp add: ex_taken_def make_snapshot_def sat_add64_def ex_blob_def u64_max_def)
qed

lemma ex_unit_sel: "u_path ex_gc_unit = Action_file ex_key" "u_candidate ex_gc_unit = Some (ex_key, 5)"
  "u_blobs ex_gc_unit = [0]"
  by (simp_all add: ex_gc_unit_def ex_entry_def candidate_entry_def ex_plain_keys2)

lemma ex_planned_eq: "pl_evicted ex_planned = [True]" "pl_freed ex_planned = [(0, 0)]" "pl_unreferenced ex_planned = []"
proof -
  have o: "evict_order ex_taken ex_empty_budget = [0]" by (simp add: evict_order_def ex_taken_eq)
  have u: "unreferenced ex_taken 100 = []" by (simp add: unreferenced_def stale_unreferenced_def ex_taken_eq)
  have g: "go_max_executable_bytes ex_empty_budget = None" "go_max_bytes ex_empty_budget = 0" by (simp_all add: ex_empty_budget_def)
  obtain x where st: "start_eviction ex_taken 100 = \<lparr>ev_remaining = [1], ev_evicted = [False], ev_freed = [],
      ev_bytes_after = 4, ev_executable_bytes = x\<rparr>"
    by (simp add: start_eviction_def u) (simp add: ex_taken_eq)
  have "evictions ex_taken ex_empty_budget 100 = evict ex_taken 0 (start_eviction ex_taken 100)"
    by (simp add: evictions_def executables_evicted_def o g st)
  moreover have "\<exists>a y. evict ex_taken 0 (start_eviction ex_taken 100) = \<lparr>ev_remaining = [0], ev_evicted = [True], ev_freed = [(0, 0)],
      ev_bytes_after = a, ev_executable_bytes = y\<rparr>"
    unfolding st by (simp add: evict_def ex_taken_eq ex_unit_sel release_blob_def Let_def dec32_def)
  ultimately show "pl_evicted ex_planned = [True]" "pl_freed ex_planned = [(0, 0)]" "pl_unreferenced ex_planned = []"
    by (auto simp: ex_planned_def u)
qed

lemma ex_batches:
  "chunks batch_size (by_path ex_taken ex_planned) = [[(Action_file ex_key, [ex_gc_unit])]]"
  "chunks batch_size (planned_blobs ex_planned) = [[0]]"
proof -
  have one: "chunks batch_size [x] = [[x]]" for x :: 'a by (subst chunks.simps, subst chunks.simps) (simp add: batch_size_def)
  show "chunks batch_size (by_path ex_taken ex_planned) = [[(Action_file ex_key, [ex_gc_unit])]]"
    by (simp add: by_path_def ex_planned_eq ex_taken_eq ex_unit_sel one)
  show "chunks batch_size (planned_blobs ex_planned) = [[0]]" by (simp add: planned_blobs_def ex_planned_eq one)
qed

text \<open>The candidate is evicted, then a declared record is published that references its blob.\<close>

definition ex_evicted :: "ex_doc apply_state" where
  "ex_evicted = evict_batch ex_codec 100 (start_apply ex_rotated) [(Action_file ex_key, [ex_gc_unit])]"

lemma ex_evicted_eq: "ex_evicted = (start_apply ex_rotated)\<lparr>as_records_evicted := 1, as_store := ex_rotated\<lparr>st_actions := Map.empty\<rparr>\<rparr>"
proof -
  have r: "refreshed ex_codec (start_apply ex_rotated) = start_apply ex_rotated"
    by (simp add: refreshed_def refresh_def start_apply_def ex_rotated_sel)
  have "evict_from ex_codec 100 {} (Action_file ex_key) [ex_gc_unit] ex_rotated = (1, ex_rotated\<lparr>st_actions := Map.empty\<rparr>)"
    by (simp add: evict_from_def ex_unit_sel record_at_def ex_rotated_sel ex_gc_sel ex_index evicts_def ex_plain_keys2 remove_record_def Let_def)
  moreover have "as_recent (start_apply ex_rotated) = no_recent" "as_store (start_apply ex_rotated) = ex_rotated"
    "as_records_evicted (start_apply ex_rotated) = 0" "rc_uses no_recent = {}" by (simp_all add: start_apply_def no_recent_def)
  ultimately show ?thesis by (simp add: ex_evicted_def evict_batch_def r evict_path_def)
qed

definition ex_late :: "ex_doc store" where
  "ex_late = ex_rotated\<lparr>st_actions := Map.empty, st_declared := [ex_key \<mapsto> \<lparr>df_doc = Doc_declared ex_declared, df_modified = 101\<rparr>]\<rparr>"

lemma ex_verified: "verify_declared_record ex_codec (ex_rotated\<lparr>st_actions := Map.empty\<rparr>) ex_declared = Inr ()"
proof -
  let ?s = "ex_rotated\<lparr>st_actions := Map.empty\<rparr>"
  have r: "read_blob ex_codec ex_key ?s = Inr ''data''"
    by (simp add: read_blob_ok ex_rotated_sel ex_gc_sel ex_hash)
  have v: "validate_relative_path ''src/a.rs'' = Inr ''src/a.rs''" "validate_relative_path ''out/a'' = Inr ''out/a''"
    by (simp_all add: validate_relative_path_ok clean_def is_sep_def dotted_def)
  have w: "relative_path_is_within ''out/a'' ''out''" by (simp add: within_prefix is_sep_def)
  have k: "declared_action_key ex_codec (dr_name ex_declared) (dr_platform ex_declared) (dr_command ex_declared)
      (dr_environment ex_declared) (dr_inputs ex_declared) (dr_output_paths ex_declared) = dr_key ex_declared"
    by (simp add: declared_action_key_def ex_codec_def ex_declared_def)
  have d: "ar_digest (ex_artifact n) = ex_key" "ar_file_name (ex_artifact n) = n" for n by (simp_all add: ex_artifact_def ex_key_def)
  have "validate_declared_record ex_codec ex_declared = Inr ()" using ex_declared_ok by (simp add: declared_record_ok)
  then show ?thesis unfolding verify_declared_record_def k
    using ex_command_ok by (simp add: ex_declared_def verify_artifact_def check_blob_def check_stream_def d r v w)
qed

lemma ex_late_request: "requests ex_codec (ex_rotated\<lparr>st_actions := Map.empty\<rparr>) ex_late"
proof -
  let ?s = "ex_rotated\<lparr>st_actions := Map.empty\<rparr>"
  let ?h = "handle ex_codec (ex_world 101) ex_auth (Put_declared ex_key ex_declared) (ex_app ?s)"
  have ap: "ap_store (ex_app ?s) = ?s" by (simp add: ex_app_def)
  have "st_declared ?s (dr_key ex_declared) = None" by (simp add: ex_rotated_sel ex_gc_sel)
  from put_declared_fresh [OF ex_declared_ok this, of 101] have
    p: "put_declared ex_codec ex_declared 101 ?s = (Inr True, ex_late)"
    by (simp add: ex_late_def ex_rotated_sel ex_gc_sel) (simp add: ex_codec_def)
  have "snd ?h = (ex_app ?s)\<lparr>ap_store := ex_late\<rparr>"
    by (simp add: handle_def put_declared_handler_def respond_def authorized_ok [OF ex_authorized] ap ex_verified
        a_bind_def a_lift_def on_store_def p ex_world_def)
  then have "ex_late = ap_store (snd ?h)" by simp
  moreover have "w_now (ex_world 101) \<le> u64_max" by (simp add: ex_world_def u64_max_def)
  moreover have "\<not> is_gc (Put_declared ex_key ex_declared)" by (simp add: is_gc_def)
  ultimately show ?thesis unfolding requests_def using ap by blast
qed

definition ex_lost :: "ex_doc store" where
  "ex_lost = ex_late\<lparr>st_blobs := Map.empty\<rparr>"

lemma ex_delete: "\<exists>st'. delete_batch ex_codec ex_taken [0] (ex_evicted\<lparr>as_store := ex_late\<rparr>) = (None, st') \<and> as_store st' = ex_lost"
proof -
  let ?st = "ex_evicted\<lparr>as_store := ex_late\<rparr>"
  have r: "refreshed ex_codec ?st = ?st"
    by (simp add: refreshed_def refresh_def ex_evicted_eq ex_late_def ex_rotated_sel start_apply_def)
  have rc: "rc_blobs (as_recent ?st) = {}" by (simp add: ex_evicted_eq start_apply_def no_recent_def)
  have b: "st_blobs (as_store ?st) ex_key = Some \<lparr>bf_bytes = ''data'', bf_modified = 5\<rparr>"
    by (simp add: ex_late_def ex_rotated_sel ex_gc_sel)
  obtain q where q: "blob_path ex_key = Inr q" using paths_ok(1) [of ex_key] by auto
  have "(st_blobs ex_late)(ex_key := None) = Map.empty" by (simp add: ex_late_def ex_rotated_sel ex_gc_sel)
  then have "delete_blob ex_taken 0 ?st = Inr (?st\<lparr>as_deleted := as_deleted ?st + 1, as_store := ex_lost\<rparr>)"
    using b rc q by (simp add: delete_blob_def ex_taken_eq ex_blob_def sat_add64_def u64_max_def coarse_clock_slack_ms_def ex_lost_def)
  then show ?thesis by (simp add: delete_batch_def r)
qed

text \<open>
  A declared record published while a collection runs may lose its blobs: a run exists in which
  the server accepts a declared record after the records of the collection's plan went and before
  their blobs go, having verified that its blobs are there, and the collection then deletes the
  blob under it. Only candidates are announced in the journal that the collector re-reads.
\<close>

theorem late_declared_record_loses_blobs:
  "\<exists>st. gc_steps ex_codec (requests ex_codec) (start_apply ex_gc_store, Idle) (st, Idle)
     \<and> backed ex_codec ex_gc_store
     \<and> st_declared (as_store st) ex_key = Some \<lparr>df_doc = Doc_declared ex_declared, df_modified = 101\<rparr>
     \<and> ex_key \<in> set (declared_digests ex_declared) \<and> \<not> intact ex_codec (as_store st) ex_key"
proof -
  let ?E = "gc_steps ex_codec (requests ex_codec) (start_apply ex_gc_store, Idle)"
  have "?E (start_apply ex_rotated, Evicting ex_taken ex_planned [[(Action_file ex_key, [ex_gc_unit])]])"
    using ex_plan_steps by (simp add: ex_batches)
  from More_steps [OF More_steps [OF this Evict_batch [where now = 100]] Evicted]
  have 1: "?E (ex_evicted, Deleting ex_taken ex_planned [[0]])" by (simp add: ex_evicted_def ex_batches)
  have "requests ex_codec (as_store ex_evicted) ex_late" using ex_late_request by (simp add: ex_evicted_eq)
  from More_steps [OF 1 Request [where env = "requests ex_codec", OF this]]
  have 2: "?E (ex_evicted\<lparr>as_store := ex_late\<rparr>, Deleting ex_taken ex_planned [[0]])" .
  obtain st' where d: "delete_batch ex_codec ex_taken [0] (ex_evicted\<lparr>as_store := ex_late\<rparr>) = (None, st')" "as_store st' = ex_lost"
    using ex_delete by blast
  note finished = More_steps [OF More_steps [OF 2 Delete_batch [OF d(1)]] Compact]
  let ?t = "compact_journal ex_taken ex_planned ex_lost"
  have t: "st_declared ?t = st_declared ex_lost" "st_blobs ?t = Map.empty" by (simp_all add: compact_journal_def Let_def ex_lost_def)
  have "ex_key \<in> set (declared_digests ex_declared)" by (simp add: declared_digests_def ex_declared_def)
  moreover have "st_declared ?t ex_key = Some \<lparr>df_doc = Doc_declared ex_declared, df_modified = 101\<rparr>"
    by (simp add: t(1)) (simp add: ex_lost_def ex_late_def)
  moreover have "\<not> intact ex_codec ?t ex_key" by (simp add: intact_iff t(2))
  ultimately show ?thesis using finished d(2) ex_gc_ok(2) by (intro exI [of _ "st'\<lparr>as_store := ?t\<rparr>"]) simp
qed

section \<open>Stray files\<close>

lemma delete_blobs_bad:
  assumes "b \<in> set bs" and "\<not> key_ok (b_digest (sn_blobs sn ! b))"
  shows "\<exists>e st'. delete_blobs sn bs st = (Some e, st')"
  using assms(1)
proof (induction bs arbitrary: st)
  case (Cons c bs)
  show ?case
  proof (cases "delete_blob sn c st")
    case (Inr st1)
    have "c \<noteq> b" using Inr assms(2) blob_path_cases [of "b_digest (sn_blobs sn ! b)"] by (auto simp: delete_blob_def)
    with Cons Inr show ?thesis by auto
  qed simp
qed simp

lemma delete_batches_bad:
  assumes "b \<in> set (concat batches)" and "\<not> key_ok (b_digest (sn_blobs sn ! b))"
  shows "\<exists>e st'. delete_batches L sn batches st = (Some e, st')"
  using assms(1)
proof (induction batches arbitrary: st)
  case (Cons batch batches)
  obtain r st1 where d: "delete_batch L sn batch st = (r, st1)" by (cases "delete_batch L sn batch st")
  show ?case
  proof (cases r)
    case None
    have "b \<notin> set batch" using delete_blobs_bad [OF _ assms(2), of batch "refreshed L st"] d None by (auto simp: delete_batch_def)
    with Cons d None show ?thesis by auto
  qed (use d in simp)
qed simp

lemma file_entries_sound: "file_entries L uses s p = Inr es \<Longrightarrow> e \<in> set es \<Longrightarrow> entry_item e \<in> items_at L s p"
  by (cases p) (auto simp: items_at_def doc_items_def candidate_item_def candidate_entry_def declared_entry_def archive_entry_def
      split: option.splits)

lemma all_entries_sound: "all_entries L uses s ps = Inr es \<Longrightarrow> e \<in> set es \<Longrightarrow> \<exists>p. entry_item e \<in> items_at L s p"
  by (induction ps arbitrary: es) (auto, blast dest: file_entries_sound)

lemma stray_is_planned:
  assumes "distinct names" and "name \<in> set names" and "not_temp name" and "st_blobs s name = Some f"
    and "unpublished_blob_grace_ms \<le> started - bf_modified f" and "\<And>e. e \<in> set es \<Longrightarrow> name \<notin> set (snd e)"
    and sn: "sn = make_snapshot uses (read_blobs names s) es started"
  shows "\<exists>b \<in> set (unreferenced sn started). b_digest (sn_blobs sn ! b) = name"
proof -
  let ?blobs = "read_blobs names s"
  let ?x = "\<lparr>b_digest = name, b_bytes = length (bf_bytes f), b_modified_ms = bf_modified f\<rparr>"
  have "name \<in> set (filter not_temp names)" using assms(2,3) by simp
  then have "?x \<in> set ?blobs" using assms(4) unfolding read_blobs_def map_filter_def by force
  then obtain b where b: "b < length ?blobs" "?blobs ! b = ?x" by (auto simp: in_set_conv_nth)
  have sel: "sn_blobs sn = ?blobs" by (simp add: sn)
  have "sn_referrers sn ! b = []"
  proof (rule ccontr)
    assume "sn_referrers sn ! b \<noteq> []"
    then obtain u where "u \<in> set (sn_referrers sn ! b)" by (cases "sn_referrers sn ! b") auto
    moreover have "b < length (sn_referrers sn)" using make_snapshot_units(2) [OF sn] b(1) by simp
    ultimately have u: "u < unit_count sn" "b \<in> set (u_blobs (sn_units sn ! u))"
      using make_snapshot_units(1) [OF sn] unfolding linked_def by blast+
    then have e: "u < length es" using make_snapshot_units(3) [OF sn] by simp
    obtain bs where bs: "sn_units sn ! u = fst (es ! u)\<lparr>u_blobs := bs\<rparr>" "set bs = {b. \<exists>d \<in> set (snd (es ! u)). by_digest ?blobs d = Some b}"
      using make_snapshot_units(4) [OF sn e] by blast
    have "b \<in> set bs" using u(2) unfolding bs(1) by simp
    then obtain d where "d \<in> set (snd (es ! u))" "by_digest ?blobs d = Some b" unfolding bs(2) by blast
    moreover from this(2) have "d = name" using by_digest_Some [of ?blobs d b] b by simp
    ultimately show False using assms(6) [OF nth_mem [OF e]] by simp
  qed
  then have "stale_unreferenced sn started b" using b(2) assms(5) by (simp add: stale_unreferenced_def sel)
  then show ?thesis using b by (auto simp: unreferenced_def sel)
qed

text \<open>
  One stray file ends every collection: a file below \<open>blobs/\<close> whose name is no digest (an editor's
  backup, a \<open>.DS_Store\<close>), an hour old and referenced by nothing, is planned for deletion and then
  refused as a bad key, so the collection fails, whatever its budget, and so does every later one.
\<close>

theorem stray_blob_file_blocks_collection:
  assumes "\<not> go_dry_run opts" and "distinct (ls_blobs ls)" and "name \<in> set (ls_blobs ls)" and "not_temp name" and "\<not> key_ok name"
    and "st_blobs s name = Some f" and "unpublished_blob_grace_ms \<le> started - bf_modified f"
    and "\<And>p it. it \<in> items_at L s p \<Longrightarrow> name \<notin> set (snd it)"
  shows "\<exists>e. fst (collect L ls opts pid started ended s) = Inl e"
proof -
  let ?s = "rotate_journal started pid s"
  let ?uses = "read_journal ?s" and ?blobs = "read_blobs (ls_blobs ls) ?s"
  show ?thesis
  proof (cases "all_entries L ?uses ?s (record_files ls)")
    case (Inl e)
    then show ?thesis using assms(1) by (simp add: collect_def read_snapshot_def Let_def)
  next
    case (Inr es)
    let ?sn = "make_snapshot ?uses ?blobs es started"
    let ?p = "new_plan ?sn opts started"
    have "record_at p ?s = record_at p s" for p by (simp add: rotate_journal_def record_at_def split: option.split record_path.split)
    note items = items_at_cong [OF this]
    have "st_blobs ?s name = Some f" using assms(6) by (simp add: rotate_journal_def split: option.split)
    moreover have "name \<notin> set (snd e)" if "e \<in> set es" for e
      using all_entries_sound [OF Inr that] assms(8) by (cases e) (auto simp: items)
    ultimately have "\<exists>b \<in> set (unreferenced ?sn started). b_digest (sn_blobs ?sn ! b) = name"
      using assms(2-4,7) by (intro stray_is_planned) auto
    then obtain b where b: "b \<in> set (planned_blobs ?p)" "b_digest (sn_blobs ?sn ! b) = name" by (auto simp: planned_blobs_def)
    have "b \<in> set (concat (chunks batch_size (planned_blobs ?p)))" using b(1) by (simp add: concat_chunks batch_size_def)
    moreover have "\<not> key_ok (b_digest (sn_blobs ?sn ! b))" using b(2) assms(5) by (simp only: not_False_eq_True)
    ultimately have "\<exists>e st'. apply_plan L started ?sn ?p ?s = (Some e, st')"
      unfolding apply_plan_def by (rule delete_batches_bad)
    then show ?thesis using assms(1) Inr by (auto simp: collect_def read_snapshot_def Let_def)
  qed
qed

definition ex_stray :: "ex_doc store" where
  "ex_stray = empty_store\<lparr>st_blobs := [''notes.txt'' \<mapsto> \<lparr>bf_bytes = ''hi'', bf_modified = 5\<rparr>]\<rparr>"

theorem stray_blob_file_blocks_collection_witness:
  "\<exists>e. fst (collect ex_codec \<lparr>ls_blobs = [''notes.txt''], ls_actions = [], ls_declared = [], ls_archives = []\<rparr>
     ex_empty_budget 1 3600009 3600010 ex_stray) = Inl e"
proof (rule stray_blob_file_blocks_collection [where name = "''notes.txt''"])
  show "\<not> go_dry_run ex_empty_budget" by (simp add: ex_empty_budget_def)
  show "not_temp ''notes.txt''" by (simp add: not_temp_def is_temp_name_def)
  show "\<not> key_ok ''notes.txt''" by (simp add: key_ok_def)
  show "st_blobs ex_stray ''notes.txt'' = Some \<lparr>bf_bytes = ''hi'', bf_modified = 5\<rparr>" by (simp add: ex_stray_def)
  show "''notes.txt'' \<notin> set (snd it)" if "it \<in> items_at ex_codec ex_stray p" for p it
    using that by (cases p) (simp_all add: items_at_def ex_stray_def)
qed (simp_all add: unpublished_blob_grace_ms_def)

end
