(* ===== verification/Cli_Host.thy ===== *)
theory Cli_Host
  imports Core_Normalizer Core_Records
begin

text \<open>
  What the command-line client uses of Rust's standard library and of the machine it runs on: the
  operations of \<open>Path\<close> (Unix reading), \<open>str::from_utf8\<close>, iteration over an argument list with the
  following argument at hand, and the file system as a record of functions that the client only
  reads through.
\<close>

section \<open>UTF-8\<close>

text \<open>\<open>from_utf8\<close>: the well-formed byte sequences of Unicode's table 3-7.\<close>

abbreviation byte_in :: "char \<Rightarrow> nat \<Rightarrow> nat \<Rightarrow> bool" where
  "byte_in c lo hi \<equiv> lo \<le> (of_char c :: nat) \<and> (of_char c :: nat) \<le> hi"

definition second_byte_ok :: "char \<Rightarrow> char \<Rightarrow> bool" where
  "second_byte_ok b c \<longleftrightarrow>
     (if of_char b = (224 :: nat) then byte_in c 160 191
      else if of_char b = (237 :: nat) then byte_in c 128 159
      else if of_char b = (240 :: nat) then byte_in c 144 191
      else if of_char b = (244 :: nat) then byte_in c 128 143
      else byte_in c 128 191)"

fun utf8 :: "string \<Rightarrow> bool" where
  "utf8 [] = True"
| "utf8 (b # s) =
     (if byte_in b 0 127 then utf8 s
      else if byte_in b 194 223 then (case s of c # t \<Rightarrow> byte_in c 128 191 \<and> utf8 t | _ \<Rightarrow> False)
      else if byte_in b 224 239 then
        (case s of c # d # t \<Rightarrow> second_byte_ok b c \<and> byte_in d 128 191 \<and> utf8 t | _ \<Rightarrow> False)
      else if byte_in b 240 244 then
        (case s of c # d # e # t \<Rightarrow> second_byte_ok b c \<and> byte_in d 128 191 \<and> byte_in e 128 191 \<and> utf8 t
         | _ \<Rightarrow> False)
      else False)"

lemma utf8_ascii: "list_all (\<lambda>c. (of_char c :: nat) < 128) s \<Longrightarrow> utf8 s"
  by (induction s) auto

section \<open>ASCII case\<close>

definition ascii_upper :: "char \<Rightarrow> char" where
  "ascii_upper c = (if byte_in c 97 122 then char_of (of_char c - 32 :: nat) else c)"

definition ascii_lower :: "char \<Rightarrow> char" where
  "ascii_lower c = (if byte_in c 65 90 then char_of (of_char c + 32 :: nat) else c)"

definition to_ascii_uppercase :: "string \<Rightarrow> string" where
  "to_ascii_uppercase = map ascii_upper"

definition to_ascii_lowercase :: "string \<Rightarrow> string" where
  "to_ascii_lowercase = map ascii_lower"

definition eq_ignore_ascii_case :: "string \<Rightarrow> string \<Rightarrow> bool" where
  "eq_ignore_ascii_case a b \<longleftrightarrow> to_ascii_lowercase a = to_ascii_lowercase b"

section \<open>Argument lists\<close>

primrec find_map :: "('a \<Rightarrow> 'b option) \<Rightarrow> 'a list \<Rightarrow> 'b option" where
  "find_map f [] = None"
| "find_map f (x # xs) = (case f x of None \<Rightarrow> find_map f xs | Some y \<Rightarrow> Some y)"

text \<open>\<open>iter().enumerate()\<close> where only \<open>args.get(i + 1)\<close> is looked at.\<close>

fun with_next :: "'a list \<Rightarrow> ('a \<times> 'a option) list" where
  "with_next [] = []"
| "with_next [a] = [(a, None)]"
| "with_next (a # b # as) = (a, Some b) # with_next (b # as)"

lemma map_fst_with_next [simp]: "map fst (with_next as) = as"
  by (induction as rule: with_next.induct) auto

lemma fst_with_next: "(a, n) \<in> set (with_next as) \<Longrightarrow> a \<in> set as"
  using map_fst_with_next [of as] by (metis fst_conv image_eqI list.set_map)

lemma snd_with_next: "(a, Some b) \<in> set (with_next as) \<Longrightarrow> b \<in> set as"
  by (induction as rule: with_next.induct) auto

lemma find_map_None: "find_map f xs = None \<longleftrightarrow> (\<forall>x \<in> set xs. f x = None)"
  by (induction xs) (auto split: option.splits)

lemma find_map_Some: "find_map f xs = Some y \<Longrightarrow> \<exists>x \<in> set xs. f x = Some y"
  by (induction xs) (auto split: option.splits)

lemma find_map_filter: "find_map f xs = (case List.map_filter f xs of [] \<Rightarrow> None | y # _ \<Rightarrow> Some y)"
  by (induction xs) (auto simp: map_filter_simps split: option.splits)

section \<open>Paths\<close>

text \<open>
  The text of a path without what \<open>Components\<close> drops at its end: repeated separators and inner
  \<open>.\<close> segments; the root and a leading \<open>.\<close> stay.
\<close>

function rtrim :: "string \<Rightarrow> string" where
  "rtrim p =
     (if length p > 1 \<and> last p = CHR ''/'' then rtrim (butlast p)
      else if suffix ''/.'' p then rtrim (butlast p)
      else p)"
  by pat_completeness auto
termination
  by (relation "measure length") (auto simp: suffix_def)

declare rtrim.simps [simp del]

lemma rtrim_prefix: "prefix (rtrim p) p"
proof (induction p rule: rtrim.induct)
  case (1 p)
  then show ?case
    by (subst rtrim.simps) (auto intro: prefix_order.trans [OF _ prefixeq_butlast])
qed

lemma rtrim_length: "length (rtrim p) \<le> length p"
  by (rule prefix_length_le [OF rtrim_prefix])

text \<open>\<open>Path::parent\<close>, \<open>Path::ancestors\<close>, \<open>Path::file_name\<close>, \<open>Path::join\<close>.\<close>

definition before_name :: "string \<Rightarrow> string" where
  "before_name q = rev (dropWhile (\<lambda>c. c \<noteq> CHR ''/'') (rev q))"

definition path_parent :: "string \<Rightarrow> string option" where
  "path_parent p =
     (let q = rtrim p
      in if q = [] \<or> q = ''/'' then None
         else Some (rtrim (before_name q)))"

lemma before_name_prefix: "prefix (before_name q) q"
  by (metis before_name_def rev_rev_ident suffix_dropWhile suffix_to_prefix)

lemma before_name_less:
  assumes "q \<noteq> []" and "last q \<noteq> CHR ''/''"
  shows "length (before_name q) < length q"
proof -
  obtain w c where q: "q = w @ [c]" using assms(1) by (cases q rule: rev_cases) auto
  have "length (dropWhile (\<lambda>c. c \<noteq> CHR ''/'') (rev w)) \<le> length w"
    using length_dropWhile_le [of _ "rev w"] by simp
  then show ?thesis using q assms(2) by (simp add: before_name_def)
qed

lemma rtrim_last: "rtrim p = [] \<or> rtrim p = ''/'' \<or> last (rtrim p) \<noteq> CHR ''/''"
proof (induction p rule: rtrim.induct)
  case (1 p)
  show ?case
  proof (cases "length p > 1 \<and> last p = CHR ''/'' \<or> suffix ''/.'' p")
    case True
    then show ?thesis using 1 by (subst (1 2 3) rtrim.simps) auto
  next
    case False
    then have "rtrim p = p" by (subst rtrim.simps) auto
    moreover have "p = [] \<or> p = ''/'' \<or> last p \<noteq> CHR ''/''"
    proof (cases p rule: rev_cases)
      case (snoc w c)
      then show ?thesis using False by (cases w) auto
    qed simp
    ultimately show ?thesis by simp
  qed
qed

lemma path_parent_less:
  assumes "path_parent p = Some q" shows "length q < length p"
proof -
  have q: "q = rtrim (before_name (rtrim p))" and "rtrim p \<noteq> []" "rtrim p \<noteq> ''/''"
    using assms by (auto simp: path_parent_def Let_def split: if_splits)
  then have "length (before_name (rtrim p)) < length (rtrim p)"
    using rtrim_last [of p] by (intro before_name_less) auto
  then show ?thesis using q rtrim_length [of p] rtrim_length [of "before_name (rtrim p)"] by simp
qed

function ancestors :: "string \<Rightarrow> string list" where
  "ancestors p = p # (case path_parent p of None \<Rightarrow> [] | Some q \<Rightarrow> ancestors q)"
  by pat_completeness auto
termination
  by (relation "measure length") (auto simp: path_parent_less)

declare ancestors.simps [simp del]

lemma ancestors_prefix: "a \<in> set (ancestors p) \<Longrightarrow> prefix a p"
proof (induction p rule: ancestors.induct)
  case (1 p)
  have "prefix q p" if "path_parent p = Some q" for q
  proof -
    have "q = rtrim (before_name (rtrim p))"
      using that by (auto simp: path_parent_def Let_def split: if_splits)
    then show ?thesis
      using rtrim_prefix before_name_prefix prefix_order.trans by metis
  qed
  moreover have "a = p \<or> (\<exists>q. path_parent p = Some q \<and> a \<in> set (ancestors q))"
    using "1.prems" ancestors.simps [of p] by (auto split: option.splits)
  ultimately show ?case
    using "1.IH" prefix_order.trans by blast
qed

lemma self_ancestor [simp]: "p \<in> set (ancestors p)"
  by (subst ancestors.simps) simp

definition path_file_name :: "string \<Rightarrow> string option" where
  "path_file_name p = (case rev (components p) of Normal w # _ \<Rightarrow> Some w | _ \<Rightarrow> None)"

definition path_join :: "string \<Rightarrow> string \<Rightarrow> string" where
  "path_join base p =
     (if is_absolute p then p
      else if base = [] \<or> last base = CHR ''/'' then base @ p
      else base @ ''/'' @ p)"

definition path_eq :: "string \<Rightarrow> string \<Rightarrow> bool" where
  "path_eq p q \<longleftrightarrow> components p = components q"

text \<open>
  \<open>Ord\<close> of paths compares component by component, in the order the components are declared;
  \<open>dedup\<close> keeps the first of equal neighbours.
\<close>

fun component_rank :: "path_component \<Rightarrow> nat \<times> string" where
  "component_rank RootDir = (1, [])"
| "component_rank CurDir = (2, [])"
| "component_rank ParentDir = (3, [])"
| "component_rank (Normal w) = (4, w)"

lemma component_rank_inj [simp]: "component_rank a = component_rank b \<longleftrightarrow> a = b"
  by (cases a; cases b) auto

instantiation path_component :: linorder
begin

definition less_eq_path_component :: "path_component \<Rightarrow> path_component \<Rightarrow> bool" where
  "a \<le> b \<longleftrightarrow> component_rank a \<le> component_rank b"

definition less_path_component :: "path_component \<Rightarrow> path_component \<Rightarrow> bool" where
  "a < b \<longleftrightarrow> component_rank a < component_rank b"

instance
proof
  fix a b c :: path_component
  show "a < b \<longleftrightarrow> a \<le> b \<and> \<not> b \<le> a"
    by (simp add: less_eq_path_component_def less_path_component_def less_le_not_le)
  show "a \<le> a" by (simp add: less_eq_path_component_def)
  show "a \<le> b \<Longrightarrow> b \<le> c \<Longrightarrow> a \<le> c" unfolding less_eq_path_component_def by (rule order_trans)
  show "a \<le> b \<Longrightarrow> b \<le> a \<Longrightarrow> a = b"
    using antisym component_rank_inj unfolding less_eq_path_component_def by blast
  show "a \<le> b \<or> b \<le> a" by (auto simp: less_eq_path_component_def)
qed

end

fun dedup_by :: "('a \<Rightarrow> 'b) \<Rightarrow> 'a list \<Rightarrow> 'a list" where
  "dedup_by f (x # y # xs) = (if f x = f y then dedup_by f (x # xs) else x # dedup_by f (y # xs))"
| "dedup_by f xs = xs"

definition sort_paths :: "string list \<Rightarrow> string list" where
  "sort_paths ps = dedup_by components (sort_key components ps)"

lemma set_dedup_by: "set (dedup_by f xs) \<subseteq> set xs" and image_dedup_by: "f ` set (dedup_by f xs) = f ` set xs"
  by (induction f xs rule: dedup_by.induct) auto

text \<open>\<open>rsplit_file_at_dot\<close>: what is before and after the last dot of a file name.\<close>

definition rsplit_dot :: "string \<Rightarrow> string option \<times> string option" where
  "rsplit_dot name =
     (if name = ''..'' \<or> CHR ''.'' \<notin> set name then (Some name, None)
      else let after = rev (takeWhile (\<lambda>c. c \<noteq> CHR ''.'') (rev name));
               before = rev (tl (dropWhile (\<lambda>c. c \<noteq> CHR ''.'') (rev name)))
           in if before = [] then (Some name, None) else (Some before, Some after))"

definition path_extension :: "string \<Rightarrow> string option" where
  "path_extension p = Option.bind (path_file_name p) (\<lambda>w. snd (rsplit_dot w))"

definition path_file_stem :: "string \<Rightarrow> string option" where
  "path_file_stem p = Option.bind (path_file_name p) (\<lambda>w. fst (rsplit_dot w))"

section \<open>The machine\<close>

text \<open>
  \<open>ho_canonical\<close> is \<open>fs::canonicalize\<close>, \<open>ho_links\<close> says which paths are symbolic links (no
  metadata: \<open>None\<close>), \<open>ho_dir\<close> the names \<open>read_dir\<close> lists, in its order, \<open>ho_env\<close> the process environment in the order \<open>env::vars\<close> lists it,
  \<open>ho_cwd\<close> the working directory. The three flags are \<open>cfg!(windows)\<close>,
  \<open>cfg!(target_env = "msvc")\<close> and \<open>cfg!(target_vendor = "apple")\<close>.
\<close>

record machine =
  ho_read :: "string \<Rightarrow> string option"
  ho_is_file :: "string \<Rightarrow> bool"
  ho_exists :: "string \<Rightarrow> bool"
  ho_canonical :: "string \<Rightarrow> string option"
  ho_links :: "string \<Rightarrow> bool option"
  ho_is_dir :: "string \<Rightarrow> bool"
  ho_dir :: "string \<Rightarrow> string list option"
  ho_env :: "(string \<times> string) list"
  ho_cwd :: "string option"
  ho_windows :: bool
  ho_msvc :: bool
  ho_apple :: bool

definition env_var :: "machine \<Rightarrow> string \<Rightarrow> string option" where
  "env_var h name = map_of (ho_env h) name"

definition read_to_string :: "machine \<Rightarrow> string \<Rightarrow> string option" where
  "read_to_string h p = (case ho_read h p of None \<Rightarrow> None | Some t \<Rightarrow> if utf8 t then Some t else None)"

text \<open>\<open>bellows_core::user_home\<close> (its Unix reading) and \<open>bellows_core::rustup_home\<close>.\<close>

definition user_home :: "machine \<Rightarrow> string option" where
  "user_home h = env_var h ''HOME''"

definition rustup_home :: "machine \<Rightarrow> string" where
  "rustup_home h =
     (case env_var h ''RUSTUP_HOME'' of
        Some p \<Rightarrow> p
      | None \<Rightarrow> (case user_home h of Some home \<Rightarrow> path_join home ''.rustup'' | None \<Rightarrow> ''.rustup''))"

end
