(* ===== verification/Cli_Invocation.thy ===== *)
theory Cli_Invocation
  imports Cli_Host
begin

text \<open>
  The compiler wrapper's reading of a rustc command line (\<open>main.rs\<close>): option and codegen values,
  response files, native inputs, output naming, and \<open>Invocation::analyze\<close>, which either describes
  the outputs and inputs of the compile or says why it is not cached.
\<close>

section \<open>Reasons to bypass the cache\<close>

datatype bypass =
    MissingRustc | NonUtf8Argument | CompilerProbe | ShellResponseFile | UnreadableResponseFile string
  | CustomSysroot | CustomTarget | NativeCpu | SaveTemps | UnmodeledFlag string | MissingCrateName
  | UnmodeledCrateType string | UnmodeledSearchPath string | UnmodeledLibrary string | MissingOutDir
  | AmbiguousExtraFilename | MissingExtraFilename | MissingSource | ExternWithoutPath | ExternMissing
  | UnsupportedEmit | EmitWithoutDepInfo | UnmodeledCodegenInput | LinkedByDriver string

text \<open>The reason as the event log has it; the system's error of an unreadable response file is left out.\<close>

fun bypass_message :: "bypass \<Rightarrow> string" where
  "bypass_message MissingRustc = ''missing rustc executable''"
| "bypass_message NonUtf8Argument = ''non-UTF-8 rustc argument''"
| "bypass_message CompilerProbe = ''compiler probe''"
| "bypass_message ShellResponseFile = ''shell-quoted rustc response files are not modeled''"
| "bypass_message (UnreadableResponseFile path) = ''read rustc response file '' @ path"
| "bypass_message CustomSysroot = ''custom sysroot contents are not modeled''"
| "bypass_message CustomTarget = ''custom target specification contents are not modeled''"
| "bypass_message NativeCpu = ''host-native CPU features are not modeled in the cache key''"
| "bypass_message SaveTemps = ''compiler temporary outputs are not modeled''"
| "bypass_message (UnmodeledFlag flag) = ''unstable compiler flag -Z '' @ flag @ '' is not modeled''"
| "bypass_message MissingCrateName = ''missing --crate-name''"
| "bypass_message (UnmodeledCrateType kind) = ''linked crate type '' @ kind @ '' is not modeled''"
| "bypass_message (UnmodeledSearchPath path) =
     ''native linker or external codegen inputs are not modeled: search path -L '' @ path"
| "bypass_message (UnmodeledLibrary library) = ''native linker or external codegen inputs are not modeled: -l '' @ library"
| "bypass_message MissingOutDir = ''missing --out-dir''"
| "bypass_message AmbiguousExtraFilename = ''ambiguous extra filename''"
| "bypass_message MissingExtraFilename = ''missing -C extra-filename''"
| "bypass_message MissingSource = ''missing primary Rust source''"
| "bypass_message ExternWithoutPath = ''extern dependency has no explicit artifact path''"
| "bypass_message ExternMissing = ''extern dependency artifact is missing''"
| "bypass_message UnsupportedEmit =
     ''unsupported emit set or custom output destination; running rustc to produce every requested output''"
| "bypass_message EmitWithoutDepInfo = ''unsupported emit set''"
| "bypass_message UnmodeledCodegenInput = ''native linker or external codegen inputs are not modeled''"
| "bypass_message (LinkedByDriver driver) = ''linked outputs compiled by '' @ driver @ '' are not modeled''"

definition ok_or :: "'a option \<Rightarrow> 'e \<Rightarrow> 'e + 'a" where
  "ok_or x e = (case x of None \<Rightarrow> Inl e | Some a \<Rightarrow> Inr a)"

lemma ok_or_Inr [simp]: "ok_or x e = Inr a \<longleftrightarrow> x = Some a"
  by (auto simp: ok_or_def split: option.splits)

fun map_result :: "('a \<Rightarrow> 'e + 'b) \<Rightarrow> 'a list \<Rightarrow> 'e + 'b list" where
  "map_result f [] = Inr []"
| "map_result f (x # xs) = r_bind (f x) (\<lambda>y. r_bind (map_result f xs) (\<lambda>ys. Inr (y # ys)))"

section \<open>Option values\<close>

definition option_match :: "string \<Rightarrow> string \<times> string option \<Rightarrow> string option" where
  "option_match name = (\<lambda>(arg, after). if arg = name then after else strip_prefix (name @ ''='') arg)"

definition option_value :: "string list \<Rightarrow> string \<Rightarrow> string option" where
  "option_value args name = find_map (option_match name) (with_next args)"

definition multi_option_values :: "string list \<Rightarrow> string \<Rightarrow> string list" where
  "multi_option_values args name = List.map_filter (option_match name) (with_next args)"

definition codegen_match :: "string \<times> string option \<Rightarrow> string option" where
  "codegen_match = (\<lambda>(arg, after). if arg = ''-C'' then after else strip_prefix ''-C'' arg)"

definition codegen_values :: "string list \<Rightarrow> string list" where
  "codegen_values args = List.map_filter codegen_match (with_next args)"

definition codegen_value :: "string list \<Rightarrow> string \<Rightarrow> string option" where
  "codegen_value args name =
     find_map (\<lambda>p. Option.bind (codegen_match p) (strip_prefix (name @ ''=''))) (with_next args)"

definition diagnostic_width :: "string list \<Rightarrow> string option" where
  "diagnostic_width args =
     find_map (\<lambda>(arg, after). if arg = ''--diagnostic-width'' then after
        else strip_prefix ''--diagnostic-width='' arg) (with_next args)"

definition unstable_name :: "string \<Rightarrow> string" where
  "unstable_name value = hd (split_on (\<lambda>c. c = CHR ''='') value)"

definition modeled_unstable_flags :: "string list" where
  "modeled_unstable_flags =
     [''unstable-options'', ''force-unstable-if-unmarked'', ''share-generics'', ''threads'', ''macro-backtrace'']"

definition unmodeled_unstable_flag :: "string list \<Rightarrow> string option" where
  "unmodeled_unstable_flag args =
     find_map (\<lambda>(arg, after).
        case (if arg = ''-Z'' then Some (case after of None \<Rightarrow> [] | Some v \<Rightarrow> v) else strip_prefix ''-Z'' arg) of
          None \<Rightarrow> None
        | Some value \<Rightarrow> if unstable_name value \<in> set modeled_unstable_flags then None else Some (unstable_name value))
       (with_next args)"

definition has_unmodeled_codegen_inputs :: "string list \<Rightarrow> bool" where
  "has_unmodeled_codegen_inputs args \<longleftrightarrow>
     list_ex (\<lambda>value. list_ex (\<lambda>p. prefix p value) [''linker-plugin-lto='', ''profile-use='', ''llvm-plugins=''])
       (codegen_values args)"

section \<open>Response files\<close>

definition expand_argument :: "machine \<Rightarrow> string \<Rightarrow> bypass + string list" where
  "expand_argument h arg =
     (case strip_prefix ''@'' arg of
        None \<Rightarrow> Inr [arg]
      | Some path \<Rightarrow>
          if prefix ''shell:'' path then Inl ShellResponseFile
          else (case read_to_string h path of
                  None \<Rightarrow> Inl (UnreadableResponseFile path)
                | Some text \<Rightarrow> Inr (str_lines text)))"

definition expand_response_files :: "machine \<Rightarrow> string list \<Rightarrow> bypass + string list" where
  "expand_response_files h args = r_bind (map_result (expand_argument h) args) (\<lambda>es. Inr (concat es))"

section \<open>Native inputs\<close>

record static_library =
  sl_name :: string
  sl_verbatim :: bool

definition native_value :: "string \<Rightarrow> string \<times> string option \<Rightarrow> (string \<times> string) list" where
  "native_value flag = (\<lambda>(arg, after).
     if arg = flag then (case after of None \<Rightarrow> [] | Some value \<Rightarrow> [(flag, value)])
     else (case strip_prefix flag arg of
             None \<Rightarrow> [] | Some value \<Rightarrow> if value = [] then [] else [(flag, value)]))"

definition native_values :: "string list \<Rightarrow> (string \<times> string) list" where
  "native_values args = concat (map (\<lambda>p. native_value ''-L'' p @ native_value ''-l'' p) (with_next args))"

definition search_step :: "string \<Rightarrow> bypass + string list" where
  "search_step value =
     (case split_once (CHR ''='') value of
        Some (kind, path) \<Rightarrow>
          if kind = ''dependency'' then Inr []
          else if kind = ''native'' \<or> kind = ''framework'' then Inr [path]
          else Inl (UnmodeledSearchPath value)
      | None \<Rightarrow> Inl (UnmodeledSearchPath value))"

definition library_step :: "string \<Rightarrow> bypass + static_library list" where
  "library_step value =
     (let (kind, name) = (case split_once (CHR ''='') value of Some kn \<Rightarrow> kn | None \<Rightarrow> (''dylib'', value));
          (kind, modifiers) = (case split_once (CHR '':'') kind of Some km \<Rightarrow> km | None \<Rightarrow> (kind, []));
          name = hd (split_on (\<lambda>c. c = CHR '':'') name);
          ms = split_on (\<lambda>c. c = CHR '','') modifiers
      in if kind = ''static'' then
           Inr (if ''-bundle'' \<in> set ms then []
                else [\<lparr>sl_name = name, sl_verbatim = ''+verbatim'' \<in> set ms\<rparr>])
         else if kind = ''dylib'' \<or> kind = ''framework'' \<or> kind = ''raw-dylib'' then Inr []
         else Inl (UnmodeledLibrary value))"

fun native_loop :: "(string \<times> string) list \<Rightarrow> bypass + (string list \<times> static_library list)" where
  "native_loop [] = Inr ([], [])"
| "native_loop ((flag, value) # vs) =
     (if flag = ''-L''
      then r_bind (search_step value) (\<lambda>d. r_bind (native_loop vs) (\<lambda>(ds, ls). Inr (d @ ds, ls)))
      else r_bind (library_step value) (\<lambda>l. r_bind (native_loop vs) (\<lambda>(ds, ls). Inr (ds, l @ ls))))"

definition native_inputs :: "string list \<Rightarrow> bypass + (string list \<times> static_library list)" where
  "native_inputs args = native_loop (native_values args)"

section \<open>Output names\<close>

datatype output_kind = Library | Linked

fun output_kind_name :: "output_kind \<Rightarrow> string" where
  "output_kind_name Library = ''library''"
| "output_kind_name Linked = ''linked''"

record naming =
  na_exe_suffix :: string
  na_dll_prefix :: string
  na_dll_suffix :: string
  na_msvc :: bool

definition naming_for_target :: "machine \<Rightarrow> string option \<Rightarrow> naming" where
  "naming_for_target h target =
     (let (windows, msvc, apple, wasm) =
        (case target of
           Some triple \<Rightarrow> (str_contains triple ''windows'', str_contains triple ''msvc'',
             str_contains triple ''apple'', prefix ''wasm'' triple)
         | None \<Rightarrow> (ho_windows h, ho_msvc h, ho_apple h, False))
      in if wasm then \<lparr>na_exe_suffix = ''.wasm'', na_dll_prefix = [], na_dll_suffix = ''.wasm'', na_msvc = False\<rparr>
         else if windows then \<lparr>na_exe_suffix = ''.exe'', na_dll_prefix = [], na_dll_suffix = ''.dll'', na_msvc = msvc\<rparr>
         else if apple then \<lparr>na_exe_suffix = [], na_dll_prefix = ''lib'', na_dll_suffix = ''.dylib'', na_msvc = False\<rparr>
         else \<lparr>na_exe_suffix = [], na_dll_prefix = ''lib'', na_dll_suffix = ''.so'', na_msvc = False\<rparr>)"

section \<open>The analysed invocation\<close>

record invocation =
  iv_rustc :: string
  iv_args :: "string list"
  iv_crate_name :: string
  iv_out_dir :: string
  iv_kind :: output_kind
  iv_naming :: naming
  iv_stems :: "string list"
  iv_expected :: "string list"
  iv_inputs :: "string list"
  iv_proc_macros :: "string list"
  iv_incremental :: "string option"
  iv_unit :: string
  iv_proc_macro_crate :: bool
  iv_static_libraries :: "static_library list"
  iv_native_search :: "string list"
  iv_response_file :: bool

definition sysroot_crates :: "string list" where
  "sysroot_crates = [''proc_macro'', ''test'', ''std'', ''core'', ''alloc'']"

text \<open>The checks at the head of \<open>analyze\<close> (lines 1432 to 1471), on the expanded arguments.\<close>

definition is_compiler_probe :: "string \<Rightarrow> bool" where
  "is_compiler_probe a \<longleftrightarrow> a = ''-vV'' \<or> prefix ''--print'' a \<or> a = ''-''"

definition custom_target :: "machine \<Rightarrow> string option \<Rightarrow> bool" where
  "custom_target h target =
     (case target of None \<Rightarrow> False | Some t \<Rightarrow> suffix ''.json'' t \<or> ho_is_file h t)"

definition save_temps :: "string list \<Rightarrow> bool" where
  "save_temps args \<longleftrightarrow> list_ex (\<lambda>v. v = ''save-temps'' \<or> prefix ''save-temps='' v) (codegen_values args)"

definition check_arguments :: "machine \<Rightarrow> string list \<Rightarrow> bypass + unit" where
  "check_arguments h args =
     r_then (ensure (option_value args ''--sysroot'' = None) CustomSysroot)
     (r_then (ensure (\<not> custom_target h (option_value args ''--target'')) CustomTarget)
     (r_then (ensure (codegen_value args ''target-cpu'' \<noteq> Some ''native'') NativeCpu)
     (r_then (ensure (\<not> save_temps args) SaveTemps)
       (case unmodeled_unstable_flag args of Some flag \<Rightarrow> Inl (UnmodeledFlag flag) | None \<Rightarrow> Inr ()))))"

definition crate_types :: "string list \<Rightarrow> string list" where
  "crate_types args =
     (let declared = multi_option_values args ''--crate-type''
      in if ''--test'' \<in> set args \<or> declared = [] then [''bin'']
         else concat (map (split_on (\<lambda>c. c = CHR '','')) declared))"

definition modeled_crate_type :: "string \<Rightarrow> bool" where
  "modeled_crate_type kind \<longleftrightarrow>
     kind \<in> set [''lib'', ''rlib'', ''bin'', ''cdylib'', ''dylib'', ''proc-macro'']"

definition check_crate_types :: "string list \<Rightarrow> bypass + unit" where
  "check_crate_types types =
     (case find (\<lambda>kind. \<not> modeled_crate_type kind) types of
        Some kind \<Rightarrow> Inl (UnmodeledCrateType kind) | None \<Rightarrow> Inr ())"

definition predictable_name :: "string list \<Rightarrow> bool" where
  "predictable_name types \<longleftrightarrow> list_ex (\<lambda>kind. kind = ''bin'' \<or> kind = ''cdylib'' \<or> kind = ''dylib'') types"

definition extra_filename :: "string list \<Rightarrow> string list \<Rightarrow> bypass + string" where
  "extra_filename args types =
     (case codegen_value args ''extra-filename'' of
        Some extra \<Rightarrow> if extra = [] \<or> list_ex is_sep extra then Inl AmbiguousExtraFilename else Inr extra
      | None \<Rightarrow> if predictable_name types then Inr [] else Inl MissingExtraFilename)"

text \<open>One \<open>--extern\<close> value: the artifact it names, and the procedural macro it loads.\<close>

definition after_colons :: "string \<Rightarrow> string" where
  "after_colons name = last (split_on (\<lambda>c. c = CHR '':'') name)"

definition extern_step :: "machine \<Rightarrow> string \<Rightarrow> bypass + (string list \<times> string list)" where
  "extern_step h value =
     (case split_once (CHR ''='') value of
        None \<Rightarrow> if after_colons value \<in> set sysroot_crates then Inr ([], []) else Inl ExternWithoutPath
      | Some (name, path) \<Rightarrow>
          if \<not> ho_is_file h path then Inl ExternMissing
          else let ext = (case path_extension path of Some e \<Rightarrow> if utf8 e then e else [] | None \<Rightarrow> [])
               in Inr ([path], if ext \<in> set [''so'', ''dylib'', ''dll''] then [after_colons name] else []))"

definition extern_inputs :: "machine \<Rightarrow> string list \<Rightarrow> bypass + (string list \<times> string list)" where
  "extern_inputs h args =
     r_bind (map_result (extern_step h) (multi_option_values args ''--extern'')) (\<lambda>es.
       Inr (concat (map fst es), concat (map snd es)))"

definition emit_kinds :: "string list \<Rightarrow> bypass + string list" where
  "emit_kinds args =
     (let emits = multi_option_values args ''--emit'';
          kinds = (case emits of e # _ \<Rightarrow> split_on (\<lambda>c. c = CHR '','') e | [] \<Rightarrow> [])
      in if length emits \<noteq> 1
            \<or> list_ex (\<lambda>k. k \<noteq> ''dep-info'' \<and> k \<noteq> ''metadata'' \<and> k \<noteq> ''link'') kinds
            \<or> list_ex (prefix ''-o'') args
         then Inl UnsupportedEmit
         else if ''dep-info'' \<notin> set kinds then Inl EmitWithoutDepInfo
         else Inr kinds)"

text \<open>The outputs a successful compile must leave, as the ascending list of the \<open>BTreeSet\<close>, and their kind.\<close>

definition links_executable :: "string list \<Rightarrow> bool" where
  "links_executable types \<longleftrightarrow> ''bin'' \<in> set types"

definition links_library :: "string list \<Rightarrow> bool" where
  "links_library types \<longleftrightarrow> ''cdylib'' \<in> set types \<or> ''dylib'' \<in> set types \<or> ''proc-macro'' \<in> set types"

definition expected_names :: "naming \<Rightarrow> string \<Rightarrow> string list \<Rightarrow> string list \<Rightarrow> string list" where
  "expected_names naming unit emit types =
     sort (remdups ([unit @ ''.d'']
       @ (if ''metadata'' \<in> set emit then [''lib'' @ unit @ ''.rmeta''] else [])
       @ (if ''link'' \<in> set emit then
            (if ''lib'' \<in> set types \<or> ''rlib'' \<in> set types then [''lib'' @ unit @ ''.rlib''] else [])
            @ (if links_executable types then [unit @ na_exe_suffix naming] else [])
            @ (if links_library types then [na_dll_prefix naming @ unit @ na_dll_suffix naming] else [])
          else [])))"

definition kind_of :: "string list \<Rightarrow> string list \<Rightarrow> output_kind" where
  "kind_of emit types =
     (if ''link'' \<in> set emit \<and> (links_executable types \<or> links_library types) then Linked else Library)"

definition driver_name :: "string \<Rightarrow> string" where
  "driver_name rustc = (case path_file_stem rustc of Some s \<Rightarrow> if utf8 s then s else [] | None \<Rightarrow> [])"

definition plain_driver :: "string \<Rightarrow> bool" where
  "plain_driver driver \<longleftrightarrow> driver = ''rustc'' \<or> prefix ''rustc-'' driver"

definition analyze :: "machine \<Rightarrow> string list \<Rightarrow> bypass + invocation" where
  "analyze h raw =
     (case raw of
        [] \<Rightarrow> Inl MissingRustc
      | rustc # given \<Rightarrow>
          r_then (ensure (list_all utf8 given) NonUtf8Argument)
          (r_then (ensure (\<not> list_ex is_compiler_probe given) CompilerProbe)
          (r_bind (expand_response_files h given) (\<lambda>args.
           r_then (check_arguments h args)
          (r_bind (ok_or (option_value args ''--crate-name'') MissingCrateName) (\<lambda>crate_name.
           let types = crate_types args in
           r_then (check_crate_types types)
          (r_bind (native_inputs args) (\<lambda>(native_search, static_libraries).
           r_bind (ok_or (option_value args ''--out-dir'') MissingOutDir) (\<lambda>out_dir.
           r_bind (extra_filename args types) (\<lambda>extra.
           r_bind (ok_or (find (\<lambda>a. suffix ''.rs'' a \<and> ho_exists h a) args) MissingSource) (\<lambda>source.
           r_bind (extern_inputs h args) (\<lambda>(externs, proc_macros).
           r_bind (emit_kinds args) (\<lambda>emit.
           let unit = crate_name @ extra;
               naming = naming_for_target h (option_value args ''--target'');
               kind = kind_of emit types
           in r_then (ensure (\<not> has_unmodeled_codegen_inputs args) UnmodeledCodegenInput)
             (r_then (ensure (kind \<noteq> Linked \<or> plain_driver (driver_name rustc)) (LinkedByDriver (driver_name rustc)))
               (Inr \<lparr>iv_rustc = rustc, iv_args = args, iv_crate_name = crate_name, iv_out_dir = out_dir,
                 iv_kind = kind, iv_naming = naming, iv_stems = [unit, ''lib'' @ unit],
                 iv_expected = expected_names naming unit emit types, iv_inputs = source # externs,
                 iv_proc_macros = proc_macros, iv_incremental = codegen_value args ''incremental'',
                 iv_unit = unit, iv_proc_macro_crate = ''proc-macro'' \<in> set types,
                 iv_static_libraries = static_libraries, iv_native_search = native_search,
                 iv_response_file = list_ex (prefix ''@'') given\<rparr>)))))))))))))))"

definition owns_output :: "invocation \<Rightarrow> string \<Rightarrow> bool" where
  "owns_output iv file_name \<longleftrightarrow>
     list_ex (\<lambda>stem. case strip_prefix stem file_name of
        None \<Rightarrow> False | Some rest \<Rightarrow> rest = [] \<or> prefix ''.'' rest) (iv_stems iv)"

section \<open>Starting rustc\<close>

text \<open>The arguments rustc is started with, and the text of the response file written for it.\<close>

definition rustc_command :: "invocation \<Rightarrow> string list \<Rightarrow> string list + string" where
  "rustc_command iv args =
     (if \<not> iv_response_file iv \<or> list_ex (\<lambda>a. lf \<in> set a) args then Inl args
      else Inr (join [lf] args))"

section \<open>The wrapper's own reading of the raw arguments\<close>

fun wrapper_crate_name :: "string list \<Rightarrow> string" where
  "wrapper_crate_name (a # b # as) =
     (if a = ''--crate-name'' then (if utf8 b then b else ''rustc'') else wrapper_crate_name (b # as))"
| "wrapper_crate_name _ = ''rustc''"

end
