(* ===== verification/Cli_Environment.thy ===== *)
theory Cli_Environment
  imports Cli_Invocation
begin

text \<open>
  The part of the environment a compile's key covers (\<open>main.rs\<close>): which variables are relevant,
  how a case-insensitive name is spelled, what describes only the shell, and what \<open>PATH\<close> can
  change about a compile.
\<close>

section \<open>Relevant variables\<close>

definition exact_environment :: "string list" where
  "exact_environment =
     [''AR'', ''CC'', ''CXX'', ''DEBUG'', ''DYLD_LIBRARY_PATH'', ''HOME'', ''HOST'', ''INCLUDE'',
      ''LANG'', ''LC_ALL'', ''LD_LIBRARY_PATH'', ''LIB'', ''LIBPATH'', ''LIBRARY_PATH'',
      ''MACOSX_DEPLOYMENT_TARGET'', ''NM'', ''OBJCOPY'', ''OPT_LEVEL'', ''OUT_DIR'', ''PATH'',
      ''PROFILE'', ''RANLIB'', ''SDKROOT'', ''SOURCE_DATE_EPOCH'', ''STRIP'', ''TARGET'', ''TZ'',
      ''UCRTVersion'', ''UniversalCRTSdkDir'', ''VCINSTALLDIR'', ''VCToolsInstallDir'',
      ''VCToolsVersion'', ''VSINSTALLDIR'', ''WindowsSdkDir'', ''WindowsSDKVersion'']"

definition excluded_cargo_control :: "string list" where
  "excluded_cargo_control =
     [''CARGO_BUILD_JOBS'', ''CARGO_INCREMENTAL'', ''CARGO_MAKEFLAGS'', ''CARGO_PRIMARY_PACKAGE'',
      ''CARGO_TARGET_TMPDIR'', ''CARGO_TERM_COLOR'', ''CARGO_TERM_PROGRESS_WHEN'',
      ''CARGO_TERM_PROGRESS_WIDTH'', ''CARGO_TERM_QUIET'', ''CARGO_TERM_VERBOSE'',
      ''CLIPPY_TERMINAL_WIDTH'', ''RUSTC_WRAPPER'', ''RUSTC_WORKSPACE_WRAPPER'',
      ''RUSTUP_AUTO_INSTALL'', ''RUSTUP_TOOLCHAIN_SOURCE'', ''RUST_BACKTRACE'', ''RUST_LOG'',
      ''RUST_MIN_STACK'', ''RUST_RECURSION_COUNT'', ''RUST_TEST_THREADS'']"

definition relevant_prefixes :: "string list" where
  "relevant_prefixes =
     [''AR_'', ''CARGO_'', ''CC_'', ''CFLAGS'', ''CLIPPY_'', ''CPPFLAGS'', ''CXX_'', ''CXXFLAGS'',
      ''DEP_'', ''LDFLAGS'', ''RUST'']"

definition bellows_control :: "string list" where
  "bellows_control =
     [''BELLOWS_AUTH_TOKEN'', ''BELLOWS_READ_ONLY'', ''BELLOWS_DEMO_COMPILE_DELAY_MS'',
      ''BELLOWS_EVENT_LOG'', ''BELLOWS_LOCAL_ONLY'', ''BELLOWS_MAX_WAIT_MS'', ''BELLOWS_SERVER'',
      ''BELLOWS_STATE_DIR'']"

definition is_relevant_environment_name :: "string \<Rightarrow> bool" where
  "is_relevant_environment_name name \<longleftrightarrow>
     name \<notin> set bellows_control \<and> name \<notin> set excluded_cargo_control
     \<and> (name \<in> set exact_environment \<or> list_ex (\<lambda>p. prefix p name) relevant_prefixes)"

definition environment_spelling :: "string \<Rightarrow> string" where
  "environment_spelling name =
     (case find (\<lambda>listed. eq_ignore_ascii_case listed name) exact_environment of
        Some listed \<Rightarrow> listed | None \<Rightarrow> to_ascii_uppercase name)"

text \<open>Collecting into a \<open>BTreeMap\<close>: a later variable replaces an earlier one of the same name.\<close>

definition relevant_environment_of ::
    "(string \<times> string) list \<Rightarrow> normalizer \<Rightarrow> bool \<Rightarrow> (string \<times> string) list" where
  "relevant_environment_of vars N case_insensitive =
     fold (\<lambda>(name, value). bt_insert name (normalize N value))
       (filter (\<lambda>(name, value). is_relevant_environment_name name)
         (map (\<lambda>(name, value). (if case_insensitive then environment_spelling name else name, value)) vars)) []"

section \<open>Variables of the shell\<close>

definition shell_environment :: "string list" where
  "shell_environment =
     [''HOME'', ''LANG'', ''LC_ALL'', ''TZ'']"

datatype path_use = No_Path | Linker string | Whole_Path

definition without_shell :: "machine \<Rightarrow> (string \<times> string) list \<Rightarrow> path_use \<Rightarrow> (string \<times> string) list" where
  "without_shell h environment u =
     (let e = fold bt_remove shell_environment environment;
          e = (if ho_windows h then bt_remove ''DYLD_LIBRARY_PATH'' (bt_remove ''LD_LIBRARY_PATH'' e) else e)
      in if u = Whole_Path then e else bt_remove ''PATH'' e)"

definition relevant_environment :: "machine \<Rightarrow> normalizer \<Rightarrow> (string \<times> string) list" where
  "relevant_environment h N = relevant_environment_of (ho_env h) N (ho_windows h)"

definition compile_environment :: "machine \<Rightarrow> normalizer \<Rightarrow> path_use \<Rightarrow> (string \<times> string) list" where
  "compile_environment h N u = without_shell h (relevant_environment h N) u"

section \<open>What \<open>PATH\<close> can change\<close>

text \<open>The \<open>host:\<close> triple of \<open>rustc -vV\<close>; its output is taken to be valid UTF-8.\<close>

definition host_triple :: "string \<Rightarrow> string option" where
  "host_triple version = map_option trim (find_map (strip_prefix ''host: '') (str_lines version))"

definition path_use_with :: "invocation \<Rightarrow> string option \<Rightarrow> bool \<Rightarrow> path_use" where
  "path_use_with iv host vc_environment =
     (if iv_kind iv \<noteq> Linked then No_Path
      else if codegen_value (iv_args iv) ''linker'' \<noteq> None then Whole_Path
      else case codegen_value (iv_args iv) ''linker-flavor'' of
        Some flavor \<Rightarrow> if flavor = ''lld-link'' then Linker ''lld-link'' else Whole_Path
      | None \<Rightarrow>
          (case (case option_value (iv_args iv) ''--target'' of Some t \<Rightarrow> Some t | None \<Rightarrow> host) of
             None \<Rightarrow> Whole_Path
           | Some triple \<Rightarrow>
               if prefix ''wasm'' triple \<and> \<not> str_contains triple ''emscripten'' then No_Path
               else if str_contains triple ''msvc'' then
                 (if vc_environment \<or> (case host of None \<Rightarrow> True | Some v \<Rightarrow> \<not> str_contains v ''windows'')
                  then Linker ''link.exe'' else No_Path)
               else Whole_Path))"

definition path_use_of :: "machine \<Rightarrow> invocation \<Rightarrow> string option \<Rightarrow> path_use" where
  "path_use_of h iv host = path_use_with iv host (env_var h ''VCINSTALLDIR'' \<noteq> None)"

end
