(* ===== verification/Cli_Roots.thy ===== *)
theory Cli_Roots
  imports Cli_Environment
begin

text \<open>
  The directories a compile belongs to (\<open>main.rs\<close>): the git checkout, the Cargo target directory
  and profile, their spellings, and the two path normalizers built from them. \<open>env::vars\<close> is taken
  to hold valid UTF-8, so \<open>to_string_lossy\<close> leaves paths as they are.
\<close>

definition absolute_path :: "string \<Rightarrow> string \<Rightarrow> string" where
  "absolute_path path workspace = (if is_absolute path then path else path_join workspace path)"

definition canonical_base :: "machine \<Rightarrow> string \<Rightarrow> string" where
  "canonical_base h path = (case ho_canonical h path of Some p \<Rightarrow> p | None \<Rightarrow> path)"

text \<open>\<open>a.strip_prefix(b).ok()?.components().count()\<close>\<close>

definition depth_below :: "string \<Rightarrow> string \<Rightarrow> nat option" where
  "depth_below path root =
     (if path_starts_with path root then Some (length (components path) - length (components root)) else None)"

definition nth_ancestor :: "string \<Rightarrow> nat \<Rightarrow> string option" where
  "nth_ancestor path n = (let as = ancestors path in if n < length as then Some (as ! n) else None)"

section \<open>Checkouts\<close>

definition git_root :: "machine \<Rightarrow> string \<Rightarrow> string option" where
  "git_root h dir = find (\<lambda>a. ho_exists h (path_join a ''.git'')) (ancestors dir)"

definition cargo_home :: "machine \<Rightarrow> string option" where
  "cargo_home h =
     (case env_var h ''CARGO_HOME'' of
        Some p \<Rightarrow> Some p
      | None \<Rightarrow> map_option (\<lambda>home. path_join home ''.cargo'') (user_home h))"

definition managed_dirs :: "machine \<Rightarrow> string list" where
  "managed_dirs h = (case cargo_home h of None \<Rightarrow> [] | Some c \<Rightarrow> [c]) @ [rustup_home h]"

definition launch_root :: "machine \<Rightarrow> string \<Rightarrow> string option" where
  "launch_root h dir =
     (case env_var h ''BELLOWS_WORKSPACE'' of
        None \<Rightarrow> None
      | Some launch \<Rightarrow>
          if is_absolute launch \<and> path_starts_with dir (canonical_base h launch)
          then Some (canonical_base h launch) else None)"

definition checkout_root :: "machine \<Rightarrow> string \<Rightarrow> string option" where
  "checkout_root h given =
     (let dir = canonical_base h given
      in if list_ex (\<lambda>m. path_starts_with dir (canonical_base h m)) (managed_dirs h) then None
         else case git_root h dir of Some r \<Rightarrow> Some r | None \<Rightarrow> launch_root h dir)"

definition compile_checkout :: "machine \<Rightarrow> string \<Rightarrow> string option \<Rightarrow> string option" where
  "compile_checkout h workspace source =
     (case checkout_root h workspace of
        Some r \<Rightarrow> Some r
      | None \<Rightarrow> Option.bind source (\<lambda>s.
          Option.bind (path_parent (absolute_path s workspace)) (checkout_root h)))"

definition given_spelling :: "machine \<Rightarrow> string \<Rightarrow> string \<Rightarrow> string option" where
  "given_spelling h workspace root =
     Option.bind (depth_below workspace root) (\<lambda>depth.
       Option.bind (ho_cwd h) (\<lambda>cwd. nth_ancestor cwd depth))"

definition source_spelling :: "machine \<Rightarrow> string \<Rightarrow> string option \<Rightarrow> string \<Rightarrow> string option" where
  "source_spelling h workspace source root =
     Option.bind source (\<lambda>s.
       let given = absolute_path s workspace
       in Option.bind (depth_below (canonical_base h given) root) (\<lambda>depth.
            map_option (\<lambda>sp. if ho_windows h then str_replace ''/'' [backslash] sp else sp)
              (nth_ancestor given depth)))"

definition ordinary_spelling :: "string \<Rightarrow> string" where
  "ordinary_spelling text =
     (case strip_prefix [backslash, backslash, CHR ''?'', backslash] text of
        Some rest \<Rightarrow>
          (case strip_prefix (''UNC'' @ [backslash]) rest of
             Some unc \<Rightarrow> [backslash, backslash] @ unc
           | None \<Rightarrow> rest)
      | None \<Rightarrow> text)"

definition foreign_checkout :: "machine \<Rightarrow> string \<Rightarrow> string option \<Rightarrow> bool" where
  "foreign_checkout h path checkout =
     (let resolved = canonical_base h path
      in case git_root h (case path_parent resolved of Some p \<Rightarrow> p | None \<Rightarrow> resolved) of
           Some root \<Rightarrow> (case checkout of None \<Rightarrow> True | Some c \<Rightarrow> \<not> path_eq c root)
         | None \<Rightarrow> False)"

definition outside_checkout_roots :: "string \<Rightarrow> bool" where
  "outside_checkout_roots normalized \<longleftrightarrow>
     \<not> list_ex (\<lambda>root. prefix root normalized)
       [''$CHECKOUT'', ''$WORKSPACE'', ''$TARGET'', ''$PROFILE'', ''$CARGO_HOME'', ''$RUSTUP_HOME'']"

section \<open>The target directory\<close>

definition named :: "string list \<Rightarrow> string \<Rightarrow> bool" where
  "named names dir \<longleftrightarrow> (case path_file_name dir of None \<Rightarrow> False | Some n \<Rightarrow> n \<in> set names)"

definition profile_root :: "string \<Rightarrow> string \<Rightarrow> string option" where
  "profile_root target out_dir =
     Option.bind (find (named [''deps'', ''build'', ''examples'']) (ancestors out_dir)) (\<lambda>dir.
       Option.bind (path_parent dir) (\<lambda>profile.
         if path_starts_with profile target \<and> \<not> path_eq profile target then Some profile else None))"

definition infer_target_root :: "string \<Rightarrow> string option" where
  "infer_target_root out_dir =
     (case find (named [''target'']) (ancestors out_dir) of
        Some p \<Rightarrow> Some p
      | None \<Rightarrow> if named [''deps''] out_dir then Option.bind (path_parent out_dir) path_parent else None)"

definition target_root :: "machine \<Rightarrow> string \<Rightarrow> string \<Rightarrow> string option" where
  "target_root h workspace out_dir =
     (case env_var h ''CARGO_TARGET_DIR'' of
        Some path \<Rightarrow> Some (absolute_path path workspace)
      | None \<Rightarrow> infer_target_root out_dir)"

section \<open>Normalizers\<close>

definition checkout_bases :: "machine \<Rightarrow> string \<Rightarrow> string option \<Rightarrow> (string \<times> string) list" where
  "checkout_bases h workspace source =
     (case compile_checkout h workspace source of
        None \<Rightarrow> []
      | Some checkout \<Rightarrow>
          if path_eq checkout workspace then []
          else (case (case given_spelling h workspace checkout of
                        Some g \<Rightarrow> Some g | None \<Rightarrow> source_spelling h workspace source checkout) of
                  None \<Rightarrow> [] | Some given \<Rightarrow> [(''$CHECKOUT'', given)])
               @ [(''$CHECKOUT'', checkout)])"

definition same_directory :: "machine \<Rightarrow> string \<Rightarrow> string \<Rightarrow> bool" where
  "same_directory h a b \<longleftrightarrow>
     map_option components (ho_canonical h a) = map_option components (ho_canonical h b)"

definition workspace_aliases :: "machine \<Rightarrow> string \<Rightarrow> (string \<times> string) list" where
  "workspace_aliases h workspace =
     map (Pair ''$WORKSPACE'')
       (filter (\<lambda>alias. same_directory h alias workspace)
         ((case ho_cwd h of None \<Rightarrow> [] | Some d \<Rightarrow> [d])
          @ (case env_var h ''CARGO_MANIFEST_DIR'' of None \<Rightarrow> [] | Some d \<Rightarrow> [d])))"

definition target_bases :: "machine \<Rightarrow> string \<Rightarrow> string option \<Rightarrow> (string \<times> string) list" where
  "target_bases h out_dir target =
     (case target of
        None \<Rightarrow> []
      | Some target \<Rightarrow>
          (case profile_root target out_dir of
             None \<Rightarrow> [] | Some p \<Rightarrow> [(''$PROFILE'', canonical_base h p), (''$PROFILE'', p)])
          @ [(''$TARGET'', canonical_base h target), (''$TARGET'', target)])"

definition root_bases :: "machine \<Rightarrow> string \<Rightarrow> string \<Rightarrow> string option \<Rightarrow> (string \<times> string) list" where
  "root_bases h workspace out_dir source =
     [(''$WORKSPACE'', workspace)] @ checkout_bases h workspace source @ workspace_aliases h workspace
     @ target_bases h out_dir (target_root h workspace out_dir)"

definition normalizer_for :: "machine \<Rightarrow> string \<Rightarrow> string \<Rightarrow> string option \<Rightarrow> normalizer" where
  "normalizer_for h workspace out_dir source =
     new_normalizer (root_bases h workspace out_dir source
       @ (case cargo_home h of None \<Rightarrow> [] | Some c \<Rightarrow> [(''$CARGO_HOME'', canonical_base h c)])
       @ [(''$RUSTUP_HOME'', canonical_base h (rustup_home h))]
       @ (case user_home h of None \<Rightarrow> [] | Some home \<Rightarrow> [(''$HOME'', canonical_base h home)]))"

section \<open>Inputs\<close>

datatype input_error = NoMetadata string | SymlinkedInput string | NotCanonical string

definition check_no_link :: "machine \<Rightarrow> string \<Rightarrow> input_error + unit" where
  "check_no_link h ancestor =
     (case ho_links h ancestor of
        None \<Rightarrow> Inl (NoMetadata ancestor)
      | Some link \<Rightarrow> if link then Inl (SymlinkedInput ancestor) else Inr ())"

definition canonical_compiler_input :: "machine \<Rightarrow> string \<Rightarrow> input_error + string" where
  "canonical_compiler_input h path =
     r_then (check_all (check_no_link h) (ancestors path)) (ok_or (ho_canonical h path) (NotCanonical path))"

end
