(* ===== verification/Cli_Diagnostics.thy ===== *)
theory Cli_Diagnostics
  imports Cli_Host
begin

text \<open>
  The client's diagnostics (\<open>diagnostics.rs\<close>): the rotating event log, the selection of a build's
  events, the reason of a decision and the summary by reason, and the history of identities that
  explains a miss.
\<close>

section \<open>Events\<close>

record event =
  ev_timestamp_ms :: nat
  ev_kind :: string
  ev_crate_name :: string
  ev_static_key :: "string option"
  ev_action_key :: "string option"
  ev_detail :: string
  ev_reason :: "string option"
  ev_session_id :: "string option"
  ev_workspace :: "string option"
  ev_duration_ms :: "nat option"

record selection =
  se_latest :: bool
  se_session :: "string option"
  se_crate_name :: "string option"

definition latest_session :: "event list \<Rightarrow> string \<Rightarrow> string option" where
  "latest_session events workspace =
     (case find (\<lambda>e. ev_kind e = ''build_start'' \<and> ev_workspace e = Some workspace) (rev events) of
        None \<Rightarrow> None | Some e \<Rightarrow> ev_session_id e)"

definition select_events :: "event list \<Rightarrow> selection \<Rightarrow> string \<Rightarrow> event list" where
  "select_events events sel workspace =
     (let session = (case se_session sel of
            Some sid \<Rightarrow> Some sid
          | None \<Rightarrow> if se_latest sel then latest_session events workspace else None)
      in filter (\<lambda>e. (\<not> se_latest sel \<or> session \<noteq> None)
           \<and> (case session of None \<Rightarrow> True | Some sid \<Rightarrow> ev_session_id e = Some sid)
           \<and> (case se_crate_name sel of None \<Rightarrow> True | Some name \<Rightarrow> ev_crate_name e = name)) events)"

section \<open>The event log\<close>

text \<open>
  The log and its two rotated predecessors, each absent or with its bytes. \<open>enc\<close> and \<open>dec\<close> are
  \<open>serde_json\<close> at the event type; every operation holds the lock file.
\<close>

record event_log =
  el_current :: "string option"
  el_previous :: "string option"
  el_oldest :: "string option"

definition log_limit :: nat where "log_limit = 16 * 1024 * 1024"

definition append_with_limit :: "(event \<Rightarrow> string) \<Rightarrow> event_log \<Rightarrow> event \<Rightarrow> nat \<Rightarrow> event_log" where
  "append_with_limit enc l e limit =
     (let bytes = enc e @ [lf];
          rotate = (case el_current l of None \<Rightarrow> False | Some t \<Rightarrow> length t + length bytes > limit);
          l' = (if rotate
                then \<lparr>el_current = None, el_previous = el_current l, el_oldest = el_previous l\<rparr>
                else l)
      in l'\<lparr>el_current := Some ((case el_current l' of None \<Rightarrow> [] | Some t \<Rightarrow> t) @ bytes)\<rparr>)"

definition append_event :: "(event \<Rightarrow> string) \<Rightarrow> event_log \<Rightarrow> event \<Rightarrow> event_log" where
  "append_event enc l e = append_with_limit enc l e log_limit"

definition read_file :: "(string \<Rightarrow> event option) \<Rightarrow> string option \<Rightarrow> event list option" where
  "read_file dec file =
     (case file of
        None \<Rightarrow> Some []
      | Some t \<Rightarrow> if utf8 t then Some (List.map_filter dec (filter (\<lambda>line. trim line \<noteq> []) (str_lines t)))
                  else None)"

definition read_log :: "(string \<Rightarrow> event option) \<Rightarrow> event_log \<Rightarrow> event list option" where
  "read_log dec l =
     (if el_current l = None \<and> el_previous l = None then Some []
      else case (read_file dec (el_oldest l), read_file dec (el_previous l), read_file dec (el_current l)) of
             (Some a, Some b, Some c) \<Rightarrow> Some (a @ b @ c)
           | _ \<Rightarrow> None)"

section \<open>Reasons\<close>

definition not_cached_yet :: string where
  "not_cached_yet = ''not cached yet: first build of this crate seen here''"
definition build_variant :: string where
  "build_variant = ''not cached: differs from an earlier build of this crate:''"
definition entry_gone :: string where
  "entry_gone = ''not cached: built before, but its entry was evicted or never saved''"
definition legacy_not_cached_yet :: string where "legacy_not_cached_yet = ''first observed identity''"
definition legacy_build_variant :: string where "legacy_build_variant = ''static identity changed:''"
definition legacy_entry_gone :: string where "legacy_entry_gone = ''previously observed identity''"

definition miss_reason :: "string \<Rightarrow> string \<Rightarrow> string" where
  "miss_reason kind detail =
     (let has = str_contains detail;
          variant = has build_variant \<or> has legacy_build_variant
      in if variant \<and> has ''compiler version changed'' then ''compiler_changed''
         else if variant \<and> has ''environment changed:'' then ''environment_changed''
         else if has ''input disappeared:'' then ''input_missing''
         else if has ''input changed:'' then ''input_changed''
         else if has ''environment changed:'' then ''environment_changed''
         else if variant then ''identity_changed''
         else if has not_cached_yet \<or> has legacy_not_cached_yet then ''cold_identity''
         else if has entry_gone \<or> has legacy_entry_gone then ''entry_missing''
         else if has ''remote unavailable'' then ''remote_unavailable''
         else if has ''symlinked compiler input'' then ''symlink_input''
         else if has ''unstable compiler flag'' then ''unstable_flags''
         else if has ''host-native CPU'' then ''host_cpu''
         else if has ''custom sysroot'' \<or> has ''custom target specification'' then ''custom_toolchain''
         else if has ''unsupported emit'' \<or> has ''temporary outputs'' \<or> has ''test harness outputs''
           then ''unsupported_outputs''
         else if has ''incremental'' then ''incremental''
         else if has ''procedural macro'' \<or> has ''linked crate type proc-macro'' then ''proc_macro''
         else if has ''native linker'' then ''native_inputs''
         else if has ''linked crate type'' then ''linked_output''
         else if has ''compiler probe'' then ''compiler_probe''
         else if has ''timed out'' then ''wait_timeout''
         else if kind = ''corrupt'' \<or> has ''absent or corrupt'' \<or> has ''artifacts unavailable''
           then ''artifact_unavailable''
         else if has ''protocol'' then ''protocol_mismatch''
         else if kind = ''fallback'' then ''cache_error''
         else if kind = ''bypass'' then ''unsupported_invocation''
         else ''unspecified'')"

definition reason_code :: "string \<Rightarrow> string \<Rightarrow> string" where
  "reason_code kind detail =
     (let has = str_contains detail
      in if kind = ''hit'' \<or> kind = ''l1_hit'' \<or> kind = ''single_flight'' then
           (if has ''build-script run'' then ''build_script''
            else if has ''linked output'' then ''linked''
            else if has ''library output'' then ''library'' else ''unspecified'')
         else if kind = ''store'' then
           (if has ''pinned to this checkout'' then ''checkout_pinned''
            else if has ''shareable'' then ''shareable'' else ''unspecified'')
         else if kind = ''not_stored'' then
           (if has ''incremental'' then ''incremental_session''
            else if has ''blob size limit'' then ''too_large_for_server''
            else if has ''native member'' then ''native_inputs''
            else if has ''cardinality'' then ''too_many_outputs'' else ''unsupported_outputs'')
         else miss_reason kind detail)"

section \<open>Summaries\<close>

record reason_summary =
  rs_kind :: string
  rs_reason :: string
  rs_count :: nat
  rs_crates :: "string list"
  rs_examples :: "string list"

record summary =
  su_decisions :: "(string \<times> nat) list"
  su_reasons :: "reason_summary list"
  su_session_ids :: "string list"
  su_elapsed_ms :: "nat option"
  su_compiler_process_ms :: nat

definition set_insert :: "'a::linorder \<Rightarrow> 'a list \<Rightarrow> 'a list" where
  "set_insert x xs = (if x \<in> set xs then xs else insort x xs)"

definition reported_kinds :: "string list" where
  "reported_kinds = [''miss'', ''bypass'', ''fallback'', ''corrupt'', ''not_stored'', ''hit'', ''l1_hit'',
     ''single_flight'', ''store'']"

definition event_reason :: "event \<Rightarrow> string" where
  "event_reason e =
     (case ev_reason e of
        Some r \<Rightarrow> if r \<noteq> ''unspecified'' then r else reason_code (ev_kind e) (ev_detail e)
      | None \<Rightarrow> reason_code (ev_kind e) (ev_detail e))"

type_synonym groups = "((string \<times> string) \<times> reason_summary) list"

definition add_to_group :: "event \<Rightarrow> groups \<Rightarrow> groups" where
  "add_to_group e gs =
     (let key = (ev_kind e, event_reason e);
          g = (case map_of gs key of Some g \<Rightarrow> g
               | None \<Rightarrow> \<lparr>rs_kind = ev_kind e, rs_reason = event_reason e, rs_count = 0, rs_crates = [], rs_examples = []\<rparr>)
      in bt_insert key (g\<lparr>rs_count := rs_count g + 1,
           rs_crates := set_insert (ev_crate_name e) (rs_crates g),
           rs_examples := (if length (rs_examples g) < 3 then set_insert (ev_detail e) (rs_examples g) else rs_examples g)\<rparr>) gs)"

definition count_of :: "(string \<times> nat) list \<Rightarrow> string \<Rightarrow> nat" where
  "count_of ds kind = (case map_of ds kind of Some n \<Rightarrow> n | None \<Rightarrow> 0)"

definition summarize_event :: "event \<Rightarrow> summary \<times> groups \<Rightarrow> summary \<times> groups" where
  "summarize_event e = (\<lambda>(s, gs).
     let s = (case ev_session_id e of None \<Rightarrow> s | Some sid \<Rightarrow> s\<lparr>su_session_ids := set_insert sid (su_session_ids s)\<rparr>)
     in if ev_kind e = ''build_end'' then (s\<lparr>su_elapsed_ms := ev_duration_ms e\<rparr>, gs)
        else if ev_kind e = ''compiler_timing'' then
          (s\<lparr>su_compiler_process_ms := su_compiler_process_ms s + (case ev_duration_ms e of Some d \<Rightarrow> d | None \<Rightarrow> 0)\<rparr>, gs)
        else if ev_kind e = ''build_start'' then (s, gs)
        else (s\<lparr>su_decisions := bt_insert (ev_kind e) (count_of (su_decisions s) (ev_kind e) + 1) (su_decisions s)\<rparr>,
              if ev_kind e \<in> set reported_kinds then add_to_group e gs else gs))"

definition empty_summary :: summary where
  "empty_summary = \<lparr>su_decisions = [], su_reasons = [], su_session_ids = [], su_elapsed_ms = None, su_compiler_process_ms = 0\<rparr>"

definition summarize :: "event list \<Rightarrow> summary" where
  "summarize events =
     (let (s, gs) = fold summarize_event events (empty_summary, []);
          s = (if length (su_session_ids s) \<noteq> 1 then s\<lparr>su_elapsed_ms := None\<rparr> else s)
      in s\<lparr>su_reasons := sort_key (\<lambda>r. (- int (rs_count r), rs_reason r)) (map snd gs)\<rparr>)"

section \<open>The history of identities\<close>

record fingerprint =
  fp_key :: string
  fp_components :: "(string \<times> string) list"

definition component_names :: "fingerprint \<Rightarrow> fingerprint \<Rightarrow> string list" where
  "component_names before after = sort (remdups (map fst (fp_components before) @ map fst (fp_components after)))"

definition component_differs :: "fingerprint \<Rightarrow> fingerprint \<Rightarrow> string \<Rightarrow> bool" where
  "component_differs before after name \<longleftrightarrow>
     map_of (fp_components before) name \<noteq> map_of (fp_components after) name"

definition argument_groups_changed :: "fingerprint \<Rightarrow> fingerprint \<Rightarrow> bool" where
  "argument_groups_changed before after =
     list_ex (\<lambda>name. prefix ''argument '' name \<and> name \<noteq> ''argument order'' \<and> component_differs before after name)
       (component_names before after)"

definition arrow :: string where "arrow = '' '' @ map char_of [0xE2::nat, 0x86, 0x92] @ '' ''"

definition describe_change :: "fingerprint \<Rightarrow> fingerprint \<Rightarrow> string \<Rightarrow> string" where
  "describe_change before after name =
     (let short = (\<lambda>v. case v of None \<Rightarrow> ''absent'' | Some s \<Rightarrow> take 12 s)
      in name @ '' ('' @ short (map_of (fp_components before) name) @ arrow
           @ short (map_of (fp_components after) name) @ '')'')"

definition fingerprint_changes :: "fingerprint \<Rightarrow> fingerprint \<Rightarrow> string list" where
  "fingerprint_changes before after =
     map (describe_change before after)
       (filter (component_differs before after)
         (filter (\<lambda>name. name \<noteq> ''argument order'' \<or> \<not> argument_groups_changed before after)
           (component_names before after)))"

text \<open>\<open>min_by_key\<close>: the first of the entries with the fewest changes.\<close>

fun min_by_key :: "('a \<Rightarrow> nat) \<Rightarrow> 'a list \<Rightarrow> 'a option" where
  "min_by_key f [] = None"
| "min_by_key f (x # xs) =
     (case min_by_key f xs of None \<Rightarrow> Some x | Some y \<Rightarrow> Some (if f x \<le> f y then x else y))"

definition explain_identity :: "fingerprint list \<Rightarrow> fingerprint \<Rightarrow> string" where
  "explain_identity history current =
     (if list_ex (\<lambda>old. fp_key old = fp_key current) history then entry_gone
      else case min_by_key (\<lambda>(_, changes). length changes)
             (map (\<lambda>old. (old, fingerprint_changes old current)) history) of
        Some (old, changes) \<Rightarrow>
          build_variant @ '' '' @ join ''; '' changes @ '' (compared with '' @ take 12 (fp_key old) @ '')''
      | None \<Rightarrow> not_cached_yet)"

definition next_history :: "fingerprint list \<Rightarrow> fingerprint \<Rightarrow> fingerprint list" where
  "next_history history current =
     take 8 (current # filter (\<lambda>old. fp_key old \<noteq> fp_key current) history)"

text \<open>The explanation of this miss, and the history left for the next.\<close>

definition remember_identity :: "fingerprint list \<Rightarrow> fingerprint \<Rightarrow> string \<times> fingerprint list" where
  "remember_identity history current = (explain_identity history current, next_history history current)"

section \<open>Argument groups\<close>

definition first_part :: "string \<Rightarrow> string" where
  "first_part value = hd (split_on (\<lambda>c. c = CHR ''='') value)"

fun argument_pairs :: "string list \<Rightarrow> (string \<times> string) list" where
  "argument_pairs [] = []"
| "argument_pairs (arg # rest) =
     (if arg = ''-C'' \<or> arg = ''-L'' then
        (case rest of
           [] \<Rightarrow> [(''argument '' @ arg @ '' '', [])]
         | value # rest' \<Rightarrow> (''argument '' @ arg @ '' '' @ first_part value, value) # argument_pairs rest')
      else if prefix ''-C'' arg \<or> prefix ''-L'' arg then
        (''argument '' @ take 2 arg @ '' '' @ first_part (drop 2 arg), drop 2 arg) # argument_pairs rest
      else if prefix ''-'' arg then
        (case split_once (CHR ''='') arg of
           Some (name, value) \<Rightarrow> (''argument '' @ name, value) # argument_pairs rest
         | None \<Rightarrow>
             (case rest of
                [] \<Rightarrow> [(''argument '' @ arg, [])]
              | after # rest' \<Rightarrow>
                  if \<not> prefix ''-'' after \<and> \<not> suffix ''.rs'' after
                  then (''argument '' @ arg, after) # argument_pairs rest'
                  else (''argument '' @ arg, []) # argument_pairs rest))
      else (''source argument'', arg) # argument_pairs rest)"

definition group_arguments :: "(string \<times> string) list \<Rightarrow> (string \<times> string list) list" where
  "group_arguments ps =
     fold (\<lambda>(label, value) gs.
       bt_insert label ((case map_of gs label of Some vs \<Rightarrow> vs | None \<Rightarrow> []) @ [value]) gs) ps []"

text \<open>\<open>H\<close> is the digest, \<open>J\<close> the JSON of a list of strings.\<close>

definition argument_components :: "(string \<Rightarrow> string) \<Rightarrow> (string list \<Rightarrow> string) \<Rightarrow> string list \<Rightarrow>
    (string \<Rightarrow> string) \<Rightarrow> (string \<times> string) list" where
  "argument_components H J args f =
     map (\<lambda>(name, values). (name, H (J values)))
       (group_arguments (map (\<lambda>(label, value). (label, f value)) (argument_pairs args)))"

end
