(* ===== verification/Cli_Link.thy ===== *)
theory Cli_Link
  imports Cli_Host
begin

text \<open>
  The files a link reads (\<open>link.rs\<close>): the linker command rustc prints, the programs and libraries
  it names, what a C driver adds, and the files linker scripts refer to. Searches keep every file a
  request could resolve to.
\<close>

datatype link_error =
    UnterminatedString | UnterminatedEscape | BadUnicodeEscape | UnsupportedEscape char
  | UnrecognizedSyntax string | NoProgram | LinkerNotFound | DriverFailed | LinkerUnresolved

section \<open>The printed linker command\<close>

text \<open>\<open>u32::from_str_radix(_, 16)\<close> and the UTF-8 encoding of \<open>char::from_u32\<close>.\<close>

definition hex_value :: "char \<Rightarrow> nat option" where
  "hex_value c =
     (if is_digit c then Some (of_char c - 48)
      else if byte_in c 97 102 then Some (of_char c - 87)
      else if byte_in c 65 70 then Some (of_char c - 55) else None)"

definition u32_from_hex :: "string \<Rightarrow> nat option" where
  "u32_from_hex s =
     (let ds = (case s of c # rest \<Rightarrow> if c = CHR ''+'' then rest else s | [] \<Rightarrow> []);
          vs = map hex_value ds
      in if ds = [] \<or> None \<in> set vs then None
         else let n = foldl (\<lambda>n v. 16 * n + the v) 0 vs in if n < 2 ^ 32 then Some n else None)"

definition encode_char :: "nat \<Rightarrow> string option" where
  "encode_char n =
     (if n < 0x80 then Some [char_of n]
      else if n < 0x800 then Some [char_of (0xC0 + n div 64), char_of (0x80 + n mod 64)]
      else if 0xD800 \<le> n \<and> n \<le> 0xDFFF then None
      else if n < 0x10000 then
        Some [char_of (0xE0 + n div 4096), char_of (0x80 + n div 64 mod 64), char_of (0x80 + n mod 64)]
      else if n < 0x110000 then
        Some [char_of (0xF0 + n div 262144), char_of (0x80 + n div 4096 mod 64),
          char_of (0x80 + n div 64 mod 64), char_of (0x80 + n mod 64)]
      else None)"

definition simple_escape :: "char \<Rightarrow> char option" where
  "simple_escape c =
     (if c = CHR ''n'' then Some lf else if c = CHR ''t'' then Some (CHR 0x09)
      else if c = CHR ''r'' then Some cr else if c = CHR ''0'' then Some (CHR 0x00)
      else if c = CHR 0x5C \<or> c = CHR 0x22 \<or> c = CHR 0x27 then Some c else None)"

definition prepend :: "string \<Rightarrow> link_error + (string \<times> string) \<Rightarrow> link_error + (string \<times> string)" where
  "prepend w r = r_bind r (\<lambda>(value, remainder). Inr (w @ value, remainder))"

text \<open>What an escape stands for, after its backslash, and the text after it.\<close>

definition read_escape :: "string \<Rightarrow> link_error + (string \<times> string)" where
  "read_escape text =
     (case text of
        [] \<Rightarrow> Inl UnterminatedEscape
      | e # after \<Rightarrow>
          (case simple_escape e of
             Some x \<Rightarrow> Inr ([x], after)
           | None \<Rightarrow>
               if e \<noteq> CHR ''u'' then Inl (UnsupportedEscape e)
               else if after = [] \<or> hd after \<noteq> CHR 0x7B then Inl BadUnicodeEscape
               else (case Option.bind (u32_from_hex (takeWhile (\<lambda>d. d \<noteq> CHR 0x7D) (tl after))) encode_char of
                       None \<Rightarrow> Inl BadUnicodeEscape
                     | Some w \<Rightarrow> Inr (w, tl (dropWhile (\<lambda>d. d \<noteq> CHR 0x7D) (tl after))))))"

lemma read_escape_shorter: "read_escape s = Inr (w, rest) \<Longrightarrow> length rest < length s"
  using length_dropWhile_le [of "\<lambda>d. d \<noteq> CHR 0x7D" "tl (tl s)"]
  by (auto simp: read_escape_def split: list.splits option.splits if_splits)

text \<open>The quoted text after its opening quote, and what follows the closing quote.\<close>

function read_quoted :: "string \<Rightarrow> link_error + (string \<times> string)" where
  "read_quoted [] = Inl UnterminatedString"
| "read_quoted (c # rest) =
     (if c = CHR 0x22 then Inr ([], rest)
      else if c = CHR 0x5C then
        (case read_escape rest of
           Inl e \<Rightarrow> Inl e
         | Inr (w, after) \<Rightarrow> prepend w (read_quoted after))
      else prepend [c] (read_quoted rest))"
  by pat_completeness auto
termination
  by (relation "measure length") (auto dest: read_escape_shorter)

lemma prepend_ok [simp]: "prepend w r = Inr (v, q) \<longleftrightarrow> (\<exists>v'. r = Inr (v', q) \<and> v = w @ v')"
  by (cases r) (auto simp: prepend_def)

lemma read_quoted_shorter: "read_quoted s = Inr (v, rest) \<Longrightarrow> length rest < length s"
proof (induction s arbitrary: v rest rule: read_quoted.induct)
  case (2 c s)
  show ?case
  proof (cases "read_escape s")
    case (Inr p)
    then obtain w after where "read_escape s = Inr (w, after)" by (cases p) auto
    moreover from this have "length after < length s" by (rule read_escape_shorter)
    ultimately show ?thesis using 2 by (fastforce split: if_splits)
  next
    case (Inl e)
    then show ?thesis using 2 by (auto split: if_splits)
  qed
qed simp

lemma strip_start_length: "length (strip_start ws s) \<le> length s"
proof (induction ws s rule: strip_start.induct)
  case (1 ws s)
  then show ?case by (subst strip_start.simps) (fastforce split: option.splits)
qed

record link_command =
  lc_env :: "(string \<times> string) list"
  lc_program :: string
  lc_args :: "string list"

text \<open>The loop of \<open>parse_link_command\<close>; \<open>p\<close> is the program once it has been read.\<close>

definition word_of :: "string \<Rightarrow> string" where
  "word_of rest = takeWhile (\<lambda>c. c \<noteq> CHR '' '' \<and> c \<noteq> CHR 0x22) rest"

definition word_rest :: "string \<Rightarrow> string" where
  "word_rest rest = dropWhile (\<lambda>c. c \<noteq> CHR '' '' \<and> c \<noteq> CHR 0x22) rest"

lemma quoted_argument: "read_quoted (tl rest) = Inr (v, r) \<Longrightarrow> length (trim_start r) < length rest"
  using read_quoted_shorter [of "tl rest" v r] strip_start_length [of white_space r]
  by (cases rest) (auto simp: trim_start_def)

lemma quoted_value: "read_quoted (tl (word_rest rest)) = Inr (v, r) \<Longrightarrow> length (trim_start r) < length rest"
  using quoted_argument [of "word_rest rest" v r] length_dropWhile_le [of _ rest]
  by (fastforce simp: word_rest_def dest: order.strict_trans2)

function link_loop :: "(string \<times> string) list \<Rightarrow> string option \<Rightarrow> string list \<Rightarrow> string \<Rightarrow> link_error + link_command" where
  "link_loop env p args rest =
     (if rest = [] then
        (case p of None \<Rightarrow> Inl NoProgram
         | Some program \<Rightarrow> Inr \<lparr>lc_env = env, lc_program = program, lc_args = args\<rparr>)
      else if hd rest = CHR 0x22 then
        (case read_quoted (tl rest) of
           Inl e \<Rightarrow> Inl e
         | Inr (value, remainder) \<Rightarrow>
             (case p of
                None \<Rightarrow> link_loop env (Some value) args (trim_start remainder)
              | Some _ \<Rightarrow> link_loop env p (args @ [value]) (trim_start remainder)))
      else if suffix ''='' (word_of rest) \<and> word_rest rest \<noteq> [] \<and> hd (word_rest rest) = CHR 0x22 \<and> p = None then
        (case read_quoted (tl (word_rest rest)) of
           Inl e \<Rightarrow> Inl e
         | Inr (value, remainder) \<Rightarrow> link_loop (env @ [(butlast (word_of rest), value)]) p args (trim_start remainder))
      else Inl (UnrecognizedSyntax (word_of rest)))"
  by pat_completeness auto
termination
  by (relation "measure (\<lambda>(env, p, args, rest). length rest)") (auto simp: quoted_argument quoted_value)

declare link_loop.simps [simp del]

definition parse_link_command :: "string \<Rightarrow> link_error + link_command" where
  "parse_link_command text = link_loop [] None [] (trim text)"

section \<open>Finding programs\<close>

definition executable_names :: "machine \<Rightarrow> string \<Rightarrow> string list" where
  "executable_names h program =
     (if ho_windows h \<and> \<not> suffix ''.exe'' (to_ascii_lowercase program) then [program @ ''.exe'', program] else [program])"

text \<open>\<open>std::env::split_paths\<close> on Unix.\<close>

definition split_paths :: "string \<Rightarrow> string list" where
  "split_paths value = split_on (\<lambda>c. c = CHR '':'') value"

definition resolve_program :: "machine \<Rightarrow> string \<Rightarrow> string \<Rightarrow> string \<Rightarrow> string option" where
  "resolve_program h program path_env cwd =
     (if length (components program) > 1 \<or> is_absolute program
      then (let path = path_join cwd program in if ho_is_file h path then ho_canonical h path else None)
      else (case find (ho_is_file h)
              (concat (map (\<lambda>dir. map (path_join dir) (executable_names h program)) (split_paths path_env))) of
              None \<Rightarrow> None
            | Some path \<Rightarrow> ho_canonical h path))"

definition sysroot_tool :: "machine \<Rightarrow> string \<Rightarrow> string \<Rightarrow> string option" where
  "sysroot_tool h program sysroot =
     (if length (components program) > 1 then None
      else let rustlib = path_join (path_join sysroot ''lib'') ''rustlib''
           in case ho_dir h rustlib of
                None \<Rightarrow> None
              | Some hosts \<Rightarrow>
                  (case find (ho_is_file h)
                     (concat (map (\<lambda>host. concat (map (\<lambda>dir. map (path_join dir) (executable_names h program))
                        [path_join (path_join rustlib host) ''bin'',
                         path_join (path_join (path_join rustlib host) ''bin'') ''gcc-ld''])) hosts)) of
                     None \<Rightarrow> None
                   | Some path \<Rightarrow> ho_canonical h path))"

definition is_c_driver :: "string \<Rightarrow> bool" where
  "is_c_driver program =
     (let name = to_ascii_lowercase (case path_file_name program of Some n \<Rightarrow> if utf8 n then n else [] | None \<Rightarrow> []);
          name = (if suffix ''.exe'' name then take (length name - 4) name else name)
      in list_ex (\<lambda>driver. name = driver \<or> suffix (''-'' @ driver) name)
           [''cc'', ''gcc'', ''clang'', ''c++'', ''g++'', ''clang++'']
         \<or> prefix ''gcc-'' name \<or> prefix ''clang-'' name)"

text \<open>
  \<open>run\<close> is the outcome of starting a program with one argument: success and its standard output, or
  \<open>None\<close> when it cannot be started.
\<close>

type_synonym runs = "string \<Rightarrow> string \<Rightarrow> (bool \<times> string) option"

fun unique_dirs :: "machine \<Rightarrow> string list \<Rightarrow> string list \<Rightarrow> string list" where
  "unique_dirs h seen [] = []"
| "unique_dirs h seen (dir # dirs) =
     (let key = (case ho_canonical h dir of Some p \<Rightarrow> p | None \<Rightarrow> dir)
      in if ho_is_dir h dir \<and> \<not> list_ex (path_eq key) seen then dir # unique_dirs h (key # seen) dirs
         else unique_dirs h seen dirs)"

definition driver_search_dirs :: "machine \<Rightarrow> runs \<Rightarrow> string \<Rightarrow> link_error + string list" where
  "driver_search_dirs h run program =
     (case run program ''-print-search-dirs'' of
        None \<Rightarrow> Inl DriverFailed
      | Some (success, text) \<Rightarrow>
          if \<not> success then Inl DriverFailed
          else Inr (unique_dirs h [] (concat (map split_paths
            (map (dropWhile (\<lambda>c. c = CHR ''='')) (List.map_filter (strip_prefix ''libraries: '') (str_lines text)))))))"

definition print_prog_name :: "machine \<Rightarrow> runs \<Rightarrow> string \<Rightarrow> string \<Rightarrow> string \<Rightarrow> string option" where
  "print_prog_name h run driver path_env name =
     (case run driver (''-print-prog-name='' @ name) of
        None \<Rightarrow> None
      | Some (_, stdout) \<Rightarrow>
          if \<not> utf8 stdout then None
          else let value = trim stdout
               in if is_absolute value \<and> ho_is_file h value then Some value
                  else resolve_program h value path_env ''/'')"

definition or_else :: "'a option \<Rightarrow> 'a option \<Rightarrow> 'a option" where
  "or_else a b = (case a of Some x \<Rightarrow> Some x | None \<Rightarrow> b)"

definition chosen_linker :: "machine \<Rightarrow> runs \<Rightarrow> string \<Rightarrow> string option \<Rightarrow> string list \<Rightarrow> string \<Rightarrow> string option" where
  "chosen_linker h run driver fuse_ld driver_dirs path_env =
     (case fuse_ld of
        Some name \<Rightarrow>
          if is_absolute name then Some name
          else or_else (find (ho_is_file h)
                 (concat (map (\<lambda>dir. [path_join dir (''ld.'' @ name), path_join dir name]) driver_dirs)))
               (or_else (resolve_program h (''ld.'' @ name) path_env ''/'') (resolve_program h name path_env ''/''))
      | None \<Rightarrow> or_else (find (ho_is_file h) (map (\<lambda>dir. path_join dir ''ld'') driver_dirs))
                 (print_prog_name h run driver path_env ''ld''))"

definition linker_tools :: "machine \<Rightarrow> runs \<Rightarrow> string \<Rightarrow> string option \<Rightarrow> string list \<Rightarrow> string \<Rightarrow> link_error + string list" where
  "linker_tools h run driver fuse_ld driver_dirs path_env =
     (case chosen_linker h run driver fuse_ld driver_dirs path_env of
        None \<Rightarrow> Inl LinkerUnresolved
      | Some path \<Rightarrow>
          Inr ((case print_prog_name h run driver path_env ''collect2'' of None \<Rightarrow> [] | Some c \<Rightarrow> [c])
            @ [case ho_canonical h path of Some p \<Rightarrow> p | None \<Rightarrow> path]))"

section \<open>Linker scripts\<close>

text \<open>\<open>split\<close> at white space and at the characters of \<open>(),\<close>, each a separator string of its own.\<close>

function split_at :: "string list \<Rightarrow> string \<Rightarrow> string list" where
  "split_at seps s =
     (case find (\<lambda>w. w \<noteq> [] \<and> prefix w s) seps of
        Some w \<Rightarrow> [] # split_at seps (drop (length w) s)
      | None \<Rightarrow>
          (case s of
             [] \<Rightarrow> [[]]
           | c # rest \<Rightarrow> (case split_at seps rest of [] \<Rightarrow> [[c]] | x # xs \<Rightarrow> (c # x) # xs)))"
  by pat_completeness auto
termination
proof (relation "measure (\<lambda>(seps, s). length s)")
  fix seps :: "string list" and s w :: string
  assume "find (\<lambda>w. w \<noteq> [] \<and> prefix w s) seps = Some w"
  then have "w \<noteq> []" and "prefix w s" by (auto simp: find_Some_iff)
  then show "((seps, drop (length w) s), seps, s) \<in> measure (\<lambda>(seps, s). length s)"
    by (auto simp: prefix_def)
qed auto

declare split_at.simps [simp del]

definition linker_script_references :: "machine \<Rightarrow> string \<Rightarrow> string list" where
  "linker_script_references h path =
     (case ho_read h path of
        None \<Rightarrow> []
      | Some text \<Rightarrow>
          if length text > 64 * 1024 \<or> \<not> utf8 text
             \<or> \<not> list_ex (\<lambda>p. prefix p (trim_start text)) [''/*'', ''GROUP'', ''INPUT'', ''OUTPUT_FORMAT'', ''SEARCH_DIR'']
          then []
          else filter (prefix ''/'') (split_at (white_space @ [''('', '')'', '','']) text))"

section \<open>Library requests\<close>

record library_request =
  lr_name :: string
  lr_verbatim :: bool
  lr_msvc :: bool

definition unix_request :: "string \<Rightarrow> library_request" where
  "unix_request v =
     (case strip_prefix '':'' v of
        Some name \<Rightarrow> \<lparr>lr_name = name, lr_verbatim = True, lr_msvc = False\<rparr>
      | None \<Rightarrow> \<lparr>lr_name = v, lr_verbatim = False, lr_msvc = False\<rparr>)"

definition msvc_request :: "string \<Rightarrow> library_request" where
  "msvc_request v = \<lparr>lr_name = v, lr_verbatim = False, lr_msvc = True\<rparr>"

definition file_names :: "library_request \<Rightarrow> string list" where
  "file_names r =
     (if lr_verbatim r then [lr_name r]
      else if lr_msvc r then
        (if suffix ''.lib'' (to_ascii_lowercase (lr_name r)) then [lr_name r]
         else [lr_name r @ ''.lib'', lr_name r])
      else map (\<lambda>e. ''lib'' @ lr_name r @ e) [''.so'', ''.a'', ''.dylib'', ''.tbd''])"

section \<open>Linker arguments\<close>

definition strip_msvc_option :: "string \<Rightarrow> string \<Rightarrow> string \<Rightarrow> string option" where
  "strip_msvc_option piece upper option =
     (if prefix (''/'' @ option) upper \<or> prefix (''-'' @ option) upper
      then Some (drop (length option + 1) piece) else None)"

definition split_linker_argument :: "string \<Rightarrow> string list" where
  "split_linker_argument arg =
     (case strip_prefix ''-Wl,'' arg of Some xs \<Rightarrow> split_on (\<lambda>c. c = CHR '','') xs | None \<Rightarrow> [arg])"

definition path_like_values :: "string \<Rightarrow> string list" where
  "path_like_values piece =
     filter (\<lambda>v. v \<noteq> [] \<and> \<not> prefix ''-'' v)
       ([piece]
        @ (case split_once (CHR ''='') piece of None \<Rightarrow> [] | Some (_, v) \<Rightarrow> [v])
        @ (case Option.bind (strip_prefix ''/'' piece) (split_once (CHR '':'')) of
             None \<Rightarrow> [] | Some (option, v) \<Rightarrow> if option \<noteq> [] \<and> \<not> list_ex is_sep option then [v] else [])
        @ concat (map (\<lambda>p. case strip_prefix p piece of None \<Rightarrow> [] | Some v \<Rightarrow> if v \<noteq> [] then [v] else [])
            [''-T'', ''-Wl,-T'']))"

definition add_path :: "string \<Rightarrow> string list \<Rightarrow> string list" where
  "add_path p ps = (if list_ex (path_eq p) ps then ps else ps @ [p])"

definition add_file :: "machine \<Rightarrow> string \<Rightarrow> string list \<Rightarrow> string list" where
  "add_file h p ps = (if ho_is_file h p then add_path p ps else ps)"

record link_context =
  lx_cwd :: string
  lx_msvc :: bool
  lx_sysroot :: string
  lx_outputs :: "string \<Rightarrow> bool"

record link_state =
  ls_files :: "string list"
  ls_search :: "string list"
  ls_libraries :: "library_request list"
  ls_output :: "string option"
  ls_fuse_ld :: "string option"
  ls_driver_dirs :: "string list"
  ls_previous :: "string option"

definition take_value :: "link_context \<Rightarrow> string \<Rightarrow> string \<Rightarrow> link_state \<Rightarrow> link_state" where
  "take_value x flag piece s =
     (let v = path_join (lx_cwd x) piece; s = s\<lparr>ls_previous := None\<rparr>
      in if flag = ''-L'' then s\<lparr>ls_search := ls_search s @ [v]\<rparr>
         else if flag = ''-l'' then s\<lparr>ls_libraries := ls_libraries s @ [unix_request piece]\<rparr>
         else if flag = ''-o'' then s\<lparr>ls_output := Some v\<rparr>
         else s\<lparr>ls_driver_dirs := ls_driver_dirs s @ [v]\<rparr>)"

definition unix_option :: "link_context \<Rightarrow> string \<Rightarrow> link_state \<Rightarrow> link_state" where
  "unix_option x piece s =
     (case strip_prefix ''-L'' piece of
        Some dir \<Rightarrow> s\<lparr>ls_search := ls_search s @ [path_join (lx_cwd x) dir]\<rparr>
      | None \<Rightarrow>
          (case strip_prefix ''-l'' piece of
             Some name \<Rightarrow> s\<lparr>ls_libraries := ls_libraries s @ [unix_request name]\<rparr>
           | None \<Rightarrow>
               (case strip_prefix ''-B'' piece of
                  Some dir \<Rightarrow> s\<lparr>ls_driver_dirs := ls_driver_dirs s @ [path_join (lx_cwd x) dir]\<rparr>
                | None \<Rightarrow>
                    (case strip_prefix ''-fuse-ld='' piece of
                       Some name \<Rightarrow> s\<lparr>ls_fuse_ld := Some name\<rparr> | None \<Rightarrow> s))))"

definition msvc_option :: "machine \<Rightarrow> link_context \<Rightarrow> string \<Rightarrow> link_state \<Rightarrow> link_state" where
  "msvc_option h x piece s =
     (let upper = to_ascii_uppercase piece;
          s = (case strip_msvc_option piece upper ''LIBPATH:'' of
                 Some dir \<Rightarrow> s\<lparr>ls_search := ls_search s @ [path_join (lx_cwd x) dir]\<rparr>
               | None \<Rightarrow>
                   (case strip_msvc_option piece upper ''DEFAULTLIB:'' of
                      Some name \<Rightarrow> s\<lparr>ls_libraries := ls_libraries s @ [msvc_request name]\<rparr>
                    | None \<Rightarrow>
                        if suffix ''.LIB'' upper \<and> \<not> prefix ''/'' piece \<and> \<not> prefix ''-'' piece
                           \<and> \<not> ho_is_file h (path_join (lx_cwd x) piece)
                        then s\<lparr>ls_libraries := ls_libraries s @ [msvc_request piece]\<rparr> else s))
      in fold (\<lambda>option s. case strip_msvc_option piece upper option of
                 Some path \<Rightarrow> s\<lparr>ls_output := Some (path_join (lx_cwd x) path)\<rparr> | None \<Rightarrow> s)
           [''OUT:'', ''PDB:'', ''IMPLIB:''] s)"

definition piece_step :: "machine \<Rightarrow> link_context \<Rightarrow> string \<Rightarrow> link_state \<Rightarrow> link_state" where
  "piece_step h x piece s =
     (case ls_previous s of
        Some flag \<Rightarrow> take_value x flag piece s
      | None \<Rightarrow>
          if piece \<in> set [''-L'', ''-l'', ''-o'', ''-B''] then s\<lparr>ls_previous := Some piece\<rparr>
          else let s = unix_option x piece s;
                   s = (if lx_msvc x then msvc_option h x piece s else s)
               in s\<lparr>ls_files := fold (\<lambda>c. add_file h (path_join (lx_cwd x) c)) (path_like_values piece) (ls_files s)\<rparr>)"

definition scan_arguments :: "machine \<Rightarrow> link_context \<Rightarrow> string list \<Rightarrow> string \<Rightarrow> link_state" where
  "scan_arguments h x args program =
     fold (piece_step h x) (concat (map split_linker_argument args))
       \<lparr>ls_files = [program], ls_search = [], ls_libraries = [], ls_output = None, ls_fuse_ld = None,
        ls_driver_dirs = [], ls_previous = None\<rparr>"

section \<open>The inputs of a link\<close>

definition c_runtime_objects :: "string list" where
  "c_runtime_objects = [''crt1.o'', ''Scrt1.o'', ''rcrt1.o'', ''crti.o'', ''crtn.o'', ''crtbegin.o'',
     ''crtbeginS.o'', ''crtbeginT.o'', ''crtend.o'', ''crtendS.o'']"

definition command_env :: "machine \<Rightarrow> link_command \<Rightarrow> string \<Rightarrow> string option" where
  "command_env h command name =
     (case find (\<lambda>(n, _). eq_ignore_ascii_case n name) (lc_env command) of
        Some (_, v) \<Rightarrow> Some v | None \<Rightarrow> env_var h name)"

definition driver_inputs :: "machine \<Rightarrow> runs \<Rightarrow> string \<Rightarrow> string \<Rightarrow> link_state \<Rightarrow> link_error + link_state" where
  "driver_inputs h run program path_env s =
     r_bind (driver_search_dirs h run program) (\<lambda>dirs.
       let runtime = fold (add_file h) (concat (map (\<lambda>obj. map (\<lambda>dir. path_join dir obj) dirs) c_runtime_objects))
             (ls_files s)
       in r_bind (linker_tools h run program (ls_fuse_ld s) (ls_driver_dirs s) path_env) (\<lambda>tools.
            Inr (s\<lparr>ls_search := ls_search s @ dirs, ls_files := fold add_path tools runtime\<rparr>)))"

definition library_files :: "machine \<Rightarrow> string list \<Rightarrow> library_request list \<Rightarrow> string list \<Rightarrow> string list" where
  "library_files h search libraries fs =
     fold (add_file h)
       (concat (map (\<lambda>library. concat (map (\<lambda>dir. map (path_join dir) (file_names library)) search)) libraries)) fs"

definition script_files :: "machine \<Rightarrow> string list \<Rightarrow> string list" where
  "script_files h fs = fold (add_file h) (concat (map (linker_script_references h) fs)) fs"

definition link_inputs :: "machine \<Rightarrow> runs \<Rightarrow> link_command \<Rightarrow> link_context \<Rightarrow> link_error + string list" where
  "link_inputs h run command x =
     (let path_env = (case command_env h command ''PATH'' of Some v \<Rightarrow> v | None \<Rightarrow> [])
      in r_bind (case or_else (resolve_program h (lc_program command) path_env (lx_cwd x))
                        (sysroot_tool h (lc_program command) (lx_sysroot x)) of
                   None \<Rightarrow> Inl LinkerNotFound | Some p \<Rightarrow> Inr p) (\<lambda>program.
         let s = scan_arguments h x (lc_args command) program
         in r_bind (if \<not> lx_msvc x \<and> is_c_driver program then driver_inputs h run program path_env s else Inr s) (\<lambda>s.
            let extra = (case command_env h command (if lx_msvc x then ''LIB'' else ''LIBRARY_PATH'') of
                           Some v \<Rightarrow> split_paths v | None \<Rightarrow> []);
                search = ls_search s @ extra @ (if lx_msvc x then [lx_cwd x] else []);
                fs = script_files h (library_files h search (ls_libraries s) (ls_files s))
            in Inr (filter (\<lambda>path. \<not> (case ls_output s of None \<Rightarrow> False | Some w \<Rightarrow> path_eq w path) \<and> \<not> lx_outputs x path)
                 (sort_key components fs)))))"

end
