(* ===== verification/Cli_Identity.thy ===== *)
theory Cli_Identity
  imports Cli_Roots Cli_Diagnostics Cli_Link
begin

text \<open>
  The identity of a compile (\<open>build_identity\<close> in \<open>main.rs\<close>): the fields hashed into its static key,
  the components kept to explain a miss, and the checkout facts candidates are compared with.
  \<open>L\<close> holds BLAKE3, \<open>J\<close> is the JSON of a list of strings, \<open>D\<close> the digest \<open>digests.file\<close> gives of a
  file.
\<close>

section \<open>Arguments\<close>

text \<open>
  Incremental directories and terminal widths are left out, arguments that hold paths are
  normalized; \<open>pv\<close> is \<open>path_value\<close>.
\<close>

definition is_path_argument :: "string option \<Rightarrow> bool \<Rightarrow> string \<Rightarrow> bool" where
  "is_path_argument source pv arg \<longleftrightarrow>
     pv \<or> source = Some arg \<or> prefix ''--out-dir='' arg \<or> prefix ''--extern='' arg \<or> prefix ''-Ldependency='' arg"

fun normalize_arguments :: "(string \<Rightarrow> string) \<Rightarrow> string option \<Rightarrow> bool \<Rightarrow> string list \<Rightarrow> string list" where
  "normalize_arguments f source pv [] = []"
| "normalize_arguments f source pv (arg # rest) =
     (if arg = ''-C'' \<and> (case rest of v # _ \<Rightarrow> prefix ''incremental='' v | [] \<Rightarrow> False)
      then normalize_arguments f source pv (tl rest)
      else if prefix ''-Cincremental='' arg then normalize_arguments f source pv rest
      else if arg = ''--diagnostic-width'' then normalize_arguments f source pv (tl rest)
      else if prefix ''--diagnostic-width='' arg then normalize_arguments f source pv rest
      else (if is_path_argument source pv arg then f arg else arg)
        # normalize_arguments f source (arg \<in> set [''--out-dir'', ''--extern'', ''-L'']) rest)"

definition crate_root :: "invocation \<Rightarrow> string option" where
  "crate_root iv = (case iv_inputs iv of [] \<Rightarrow> None | p # _ \<Rightarrow> Some p)"

definition normalized_compiler_arguments :: "invocation \<Rightarrow> normalizer \<Rightarrow> string list" where
  "normalized_compiler_arguments iv N = normalize_arguments (normalize N) (crate_root iv) False (iv_args iv)"

section \<open>Native libraries\<close>

datatype identity_error =
    NoWorkingDirectory | CompilerVersionFailed | NoDigest string | BadInput input_error
  | LibraryNotFound string

definition library_file_names :: "naming \<Rightarrow> static_library \<Rightarrow> string list" where
  "library_file_names naming library =
     (if sl_verbatim library then [sl_name library]
      else if na_msvc naming then [sl_name library @ ''.lib'']
      else [''lib'' @ sl_name library @ ''.a'', sl_name library @ ''.lib''])"

definition library_candidates :: "machine \<Rightarrow> invocation \<Rightarrow> string \<Rightarrow> static_library \<Rightarrow> string list" where
  "library_candidates h iv workspace library =
     filter (ho_is_file h)
       (concat (map (\<lambda>dir. map (\<lambda>name. absolute_path (path_join dir name) workspace)
          (library_file_names (iv_naming iv) library)) (iv_native_search iv)))"

definition resolve_library :: "machine \<Rightarrow> invocation \<Rightarrow> string \<Rightarrow> static_library \<Rightarrow> identity_error + string list" where
  "resolve_library h iv workspace library =
     (let found = library_candidates h iv workspace library
      in if found = [] then Inl (LibraryNotFound (sl_name library)) else Inr found)"

definition resolve_static_libraries :: "machine \<Rightarrow> invocation \<Rightarrow> string \<Rightarrow> identity_error + string list" where
  "resolve_static_libraries h iv workspace =
     (if iv_kind iv \<noteq> Library \<or> iv_static_libraries iv = [] then Inr []
      else r_bind (map_result (resolve_library h iv workspace) (iv_static_libraries iv)) (\<lambda>fs. Inr (concat fs)))"

section \<open>The compiler\<close>

text \<open>
  \<open>rustc -vV\<close> memoized per binary: \<open>meta\<close> is the length and modification time of a file, \<open>run\<close> the
  output of a successful run, \<open>memos\<close> the files below \<open>compilers-v1\<close> by name.
\<close>

definition compiler_memo_key :: "(string \<Rightarrow> string) \<Rightarrow> machine \<Rightarrow> (string \<Rightarrow> (nat \<times> nat) option) \<Rightarrow> string \<Rightarrow> string option" where
  "compiler_memo_key H h meta rustc =
     (let proxy = (case path_parent rustc of None \<Rightarrow> True
            | Some dir \<Rightarrow> ho_exists h (path_join dir (''rustup'' @ (if ho_windows h then ''.exe'' else []))))
      in if proxy \<or> \<not> is_absolute rustc then None
         else map_option (\<lambda>(len, modified).
           H (rustc @ [CHR 0x00] @ dec_string len @ [CHR 0x00] @ dec_string modified)) (meta rustc))"

definition compiler_identity :: "string option \<Rightarrow> (string \<Rightarrow> string option) \<Rightarrow> string option \<Rightarrow>
    (identity_error + string) \<times> (string \<Rightarrow> string option)" where
  "compiler_identity memo memos run =
     (case Option.bind memo memos of
        Some stdout \<Rightarrow> if stdout \<noteq> [] then (Inr stdout, memos)
          else (case run of None \<Rightarrow> (Inl CompilerVersionFailed, memos)
                | Some out \<Rightarrow> (Inr out, memos(the memo \<mapsto> out)))
      | None \<Rightarrow>
          (case run of None \<Rightarrow> (Inl CompilerVersionFailed, memos)
           | Some out \<Rightarrow> (Inr out, (case memo of None \<Rightarrow> memos | Some k \<Rightarrow> memos(k \<mapsto> out)))))"

section \<open>The static key\<close>

definition hash_field :: "string \<times> string \<Rightarrow> string" where
  "hash_field = (\<lambda>(name, bytes). le64 (length name) @ name @ le64 (length bytes) @ bytes)"

definition dep_info_format :: string where
  "dep_info_format = ''rustc-space-escape-v5-structured-dep-info''"

definition remap_scheme :: string where
  "remap_scheme = ''remap-v2:$CARGO_HOME=/bellows/cargo-home;$CHECKOUT=/bellows/checkout;'' @
     ''$WORKSPACE=<checkout- or cargo-home-relative>;$TARGET=/bellows/target;$PROFILE=/bellows/profile''"

definition linker_on_path :: "machine \<Rightarrow> (string \<Rightarrow> string option) \<Rightarrow> string \<Rightarrow> path_use \<Rightarrow>
    identity_error + (string \<times> string) list" where
  "linker_on_path h D workspace u =
     (case u of
        Linker program \<Rightarrow>
          (case resolve_program h program (case env_var h ''PATH'' of Some p \<Rightarrow> p | None \<Rightarrow> []) workspace of
             Some path \<Rightarrow> r_bind (ok_or (D path) (NoDigest path)) (\<lambda>d. Inr [(program, program @ '':'' @ d)])
           | None \<Rightarrow> Inr [(program, program @ '':not on PATH'')])
      | _ \<Rightarrow> Inr [])"

definition input_field :: "machine \<Rightarrow> (string \<Rightarrow> string option) \<Rightarrow> normalizer \<Rightarrow> string \<Rightarrow> string \<Rightarrow>
    identity_error + (string \<times> string)" where
  "input_field h D N workspace path =
     r_bind (map_err BadInput (canonical_compiler_input h (absolute_path path workspace))) (\<lambda>absolute.
       r_bind (ok_or (D absolute) (NoDigest absolute)) (\<lambda>d. Inr (normalize N absolute, d)))"

definition input_fields :: "machine \<Rightarrow> (string \<Rightarrow> string option) \<Rightarrow> normalizer \<Rightarrow> invocation \<Rightarrow> string \<Rightarrow>
    identity_error + (string \<times> string) list" where
  "input_fields h D N iv workspace =
     r_bind (resolve_static_libraries h iv workspace) (\<lambda>libraries.
       map_result (input_field h D N workspace) (sort_paths (iv_inputs iv @ libraries)))"

definition static_fields :: "output_kind \<Rightarrow> string \<Rightarrow> string list \<Rightarrow> (string \<times> string) list \<Rightarrow>
    (string \<times> string) list \<Rightarrow> (string \<times> string) list \<Rightarrow> (string \<times> string) list" where
  "static_fields kind compiler args environment linker inputs =
     [(''protocol'', dec_string protocol_version), (''compiler'', compiler), (''dep-info-format'', dep_info_format),
      (''output-kind'', output_kind_name kind)]
     @ map (Pair ''arg'') args
     @ [(''remap'', remap_scheme)]
     @ map (\<lambda>(name, value). (''env:'' @ name, value)) environment
     @ map (\<lambda>(program, found). (''linker-on-path'', found)) linker
     @ map (\<lambda>(path, digest). (''input:'' @ path, digest)) inputs"

definition static_key_of :: "'b lib \<Rightarrow> (string \<times> string) list \<Rightarrow> string" where
  "static_key_of L fs = l_hash L (concat (map hash_field fs))"

section \<open>Components kept for diagnostics\<close>

definition identity_components :: "'b lib \<Rightarrow> (string list \<Rightarrow> string) \<Rightarrow> output_kind \<Rightarrow> string \<Rightarrow> string list \<Rightarrow>
    (string \<times> string) list \<Rightarrow> (string \<times> string) list \<Rightarrow> (string \<times> string) list \<Rightarrow> (string \<times> string) list" where
  "identity_components L J kind compiler args environment linker inputs =
     fold (\<lambda>(name, digest). bt_insert name digest)
       ([(''argument order'', l_hash L (J args)),
         (''compiler version changed'', l_hash L compiler),
         (''protocol changed'', l_hash L (dec_string protocol_version)),
         (''dependency parser changed'', l_hash L dep_info_format),
         (''output kind changed'', l_hash L (output_kind_name kind))]
        @ map (\<lambda>(name, value). (''environment changed: '' @ name, l_hash L value)) environment
        @ map (\<lambda>(program, found). (''linker on PATH changed: '' @ program, l_hash L found)) linker
        @ map (\<lambda>(path, digest). (''explicit input changed: '' @ path, digest)) inputs)
       (argument_components (l_hash L) J args (\<lambda>s. s))"

section \<open>Stable empty directories\<close>

definition user_cache_root :: "machine \<Rightarrow> string option" where
  "user_cache_root h =
     (case env_var h ''XDG_CACHE_HOME'' of
        Some root \<Rightarrow> Some (path_join root ''bellows'')
      | None \<Rightarrow>
          (case env_var h ''LOCALAPPDATA'' of
             Some root \<Rightarrow> Some (path_join root ''Bellows'')
           | None \<Rightarrow> map_option (\<lambda>home. path_join home ''.cache/bellows'') (env_var h ''HOME'')))"

text \<open>\<open>mk\<close> says whether \<open>create_dir_all\<close> succeeds for a path.\<close>

definition stable_override :: "'b lib \<Rightarrow> machine \<Rightarrow> (string \<Rightarrow> bool) \<Rightarrow> normalizer \<Rightarrow> string \<Rightarrow>
    string \<times> string \<Rightarrow> (string \<times> string) list \<Rightarrow> (string \<times> string) list" where
  "stable_override L h mk R root = (\<lambda>(name, value) overrides.
     let normalized = normalize R value;
         stable = path_join root (take 32 (l_hash L normalized))
     in if prefix ''CARGO_'' name \<or> \<not> (prefix ''$TARGET'' normalized \<or> prefix ''$PROFILE'' normalized)
           \<or> ho_dir h value \<noteq> Some [] \<or> \<not> mk stable
        then overrides else bt_insert name stable overrides)"

definition stable_empty_directories :: "'b lib \<Rightarrow> machine \<Rightarrow> (string \<Rightarrow> bool) \<Rightarrow> invocation \<Rightarrow> normalizer \<Rightarrow>
    (string \<times> string) list" where
  "stable_empty_directories L h mk iv R =
     (if \<not> iv_proc_macro_crate iv then []
      else case user_cache_root h of
        None \<Rightarrow> []
      | Some root \<Rightarrow> fold (stable_override L h mk R (path_join root ''stable-dirs-v1'')) (ho_env h) [])"

section \<open>The identity\<close>

record identity =
  id_static_key :: string
  id_normalizer :: normalizer
  id_root_normalizer :: normalizer
  id_workspace :: string
  id_fingerprint :: fingerprint
  id_diagnostic_group :: string
  id_pins :: "(string \<times> string) list"
  id_virtual_env :: "(string \<times> string) list"
  id_checkout :: "string option"
  id_diagnostic_width :: "string option"

definition identity_pins :: "machine \<Rightarrow> string \<Rightarrow> string \<Rightarrow> normalizer \<Rightarrow> (string \<times> string) list" where
  "identity_pins h workspace out_dir R =
     [(pin_prefix @ ''$WORKSPACE'', workspace)]
     @ (case target_root h workspace out_dir of
          None \<Rightarrow> [] | Some target \<Rightarrow> [(pin_prefix @ ''$TARGET'', canonical_base h target)])
     @ (case spellings R ''$CHECKOUT'' of
          [] \<Rightarrow> [] | checkout # _ \<Rightarrow> [(pin_prefix @ ''$CHECKOUT'', checkout)])"

definition build_identity :: "'b lib \<Rightarrow> (string list \<Rightarrow> string) \<Rightarrow> (string \<Rightarrow> string option) \<Rightarrow> machine \<Rightarrow>
    (string \<Rightarrow> bool) \<Rightarrow> identity_error + string \<Rightarrow> invocation \<Rightarrow> identity_error + identity" where
  "build_identity L J D h mk version iv =
     r_bind (ok_or (Option.bind (ho_cwd h) (ho_canonical h)) NoWorkingDirectory) (\<lambda>workspace.
     let source = crate_root iv;
         N = normalizer_for h workspace (iv_out_dir iv) source;
         R = new_normalizer (root_bases h workspace (iv_out_dir iv) source)
     in r_bind version (\<lambda>compiler.
     let args = normalized_compiler_arguments iv N;
         u = path_use_of h iv (host_triple compiler);
         environment = compile_environment h N u
     in r_bind (linker_on_path h D workspace u) (\<lambda>linker.
        r_bind (input_fields h D N iv workspace) (\<lambda>inputs.
        let key = static_key_of L (static_fields (iv_kind iv) compiler args environment linker inputs)
        in Inr \<lparr>id_static_key = key, id_normalizer = N, id_root_normalizer = R, id_workspace = workspace,
             id_fingerprint = \<lparr>fp_key = key,
               fp_components = identity_components L J (iv_kind iv) compiler args environment linker inputs\<rparr>,
             id_diagnostic_group = iv_crate_name iv @ '':'' @
               (case source of None \<Rightarrow> [] | Some p \<Rightarrow> normalize N (absolute_path p workspace)),
             id_pins = identity_pins h workspace (iv_out_dir iv) R,
             id_virtual_env = stable_empty_directories L h mk iv R,
             id_checkout = compile_checkout h workspace source,
             id_diagnostic_width = diagnostic_width (iv_args iv)\<rparr>))))"

end
