(* ===== verification/Cli_Streams.thy ===== *)
theory Cli_Streams
  imports Cli_Identity
begin

text \<open>
  What a compile prints (\<open>main.rs\<close>): the relay that turns virtual paths back into this checkout's
  while rustc runs, the rewriting of stored streams and dep-info on capture and on replay, the
  \<open>env!\<close> values of replayed dep-info, and the check for checkout paths in outputs (\<open>leak.rs\<close>, its
  Unix reading). JSON parsing and printing are the arguments \<open>P\<close> and \<open>Q\<close>.
\<close>

section \<open>JSON\<close>

datatype json =
    J_null | J_bool bool | J_number string | J_string string | J_array "json list"
  | J_object "(string \<times> json) list"

text \<open>\<open>visit\<close>: every string value, not the keys.\<close>

primrec visit :: "(string \<Rightarrow> string) \<Rightarrow> json \<Rightarrow> json" where
  "visit f J_null = J_null"
| "visit f (J_bool b) = J_bool b"
| "visit f (J_number n) = J_number n"
| "visit f (J_string s) = J_string (f s)"
| "visit f (J_array vs) = J_array (map (visit f) vs)"
| "visit f (J_object es) = J_object (map (map_prod (\<lambda>k. k) (visit f)) es)"

fun is_object :: "json \<Rightarrow> bool" where
  "is_object (J_object es) = True"
| "is_object v = False"

definition parse_object :: "(string \<Rightarrow> json option) \<Rightarrow> string \<Rightarrow> json option" where
  "parse_object P text = (case P text of None \<Rightarrow> None | Some v \<Rightarrow> if is_object v then Some v else None)"

section \<open>Stored streams\<close>

definition convert :: "normalizer \<Rightarrow> bool \<Rightarrow> string \<Rightarrow> string" where
  "convert N back = (if back then localize N else normalize N)"

definition convert_bytes :: "normalizer \<Rightarrow> bool \<Rightarrow> string \<Rightarrow> string" where
  "convert_bytes N back = (if back then localize_bytes N else normalize_bytes N)"

definition transform_stream_line :: "(string \<Rightarrow> json option) \<Rightarrow> (json \<Rightarrow> string) \<Rightarrow> normalizer \<Rightarrow> bool \<Rightarrow> string \<Rightarrow> string" where
  "transform_stream_line P Q N back line =
     (case parse_object P line of
        Some v \<Rightarrow> Q (visit (convert N back) v)
          @ (if suffix [cr, lf] line then [cr, lf] else if suffix [lf] line then [lf] else [])
      | None \<Rightarrow> convert_bytes N back line)"

definition transform_compiler_stream :: "(string \<Rightarrow> json option) \<Rightarrow> (json \<Rightarrow> string) \<Rightarrow> string \<Rightarrow> normalizer \<Rightarrow> bool \<Rightarrow> string" where
  "transform_compiler_stream P Q bytes N back = concat (map (transform_stream_line P Q N back) (split_inclusive bytes))"

definition transform_dep_info :: "string \<Rightarrow> normalizer \<Rightarrow> bool \<Rightarrow> string" where
  "transform_dep_info bytes N back = (if utf8 bytes then rewrite_dep_info (convert N back) bytes else bytes)"

text \<open>\<open>trim_ascii\<close>\<close>

definition is_ascii_space :: "char \<Rightarrow> bool" where
  "is_ascii_space c \<longleftrightarrow> of_char c \<in> {9, 10, 12, 13, 32 :: nat}"

definition trim_ascii :: "string \<Rightarrow> string" where
  "trim_ascii s = rev (dropWhile is_ascii_space (rev (dropWhile is_ascii_space s)))"

definition artifact_notice :: string where
  "artifact_notice = [CHR 0x7B, CHR 0x22] @ ''$message_type'' @ [CHR 0x22] @ '':'' @ [CHR 0x22] @ ''artifact'' @ [CHR 0x22]"

definition has_rendered_diagnostics :: "string \<Rightarrow> bool" where
  "has_rendered_diagnostics stream \<longleftrightarrow>
     list_ex (\<lambda>line. trim_ascii line \<noteq> [] \<and> \<not> prefix artifact_notice (trim_ascii line))
       (split_on (\<lambda>c. c = lf) stream)"

section \<open>Environment values in dep-info\<close>

fun escape_dep_env :: "string \<Rightarrow> string" where
  "escape_dep_env [] = []"
| "escape_dep_env (c # s) =
     (if c = lf then [backslash, CHR ''n''] else if c = cr then [backslash, CHR ''r'']
      else if c = backslash then [backslash, backslash] else [c]) @ escape_dep_env s"

definition localize_env_line :: "(string \<Rightarrow> string option) \<Rightarrow> string list \<Rightarrow> string \<Rightarrow> string" where
  "localize_env_line value normalized line =
     (let body = trim_end_matches (\<lambda>c. c = cr \<or> c = lf) line;
          ending = drop (length body) line;
          rewritten = Option.bind (Option.bind (strip_prefix ''# env-dep:'' body) (split_once (CHR ''='')))
            (\<lambda>(name, _). if name \<notin> set normalized then None
               else map_option (\<lambda>v. ''# env-dep:'' @ name @ ''='' @ escape_dep_env v) (value name))
      in (case rewritten of Some r \<Rightarrow> r | None \<Rightarrow> body) @ ending)"

definition normalized_names :: "action_candidate \<Rightarrow> string list" where
  "normalized_names c = map ei_name (filter ei_normalized (ac_env c))"

definition localize_env_deps :: "(string \<Rightarrow> string option) \<Rightarrow> string \<Rightarrow> action_candidate \<Rightarrow> string" where
  "localize_env_deps value dep_info c =
     (if normalized_names c = [] \<or> \<not> utf8 dep_info then dep_info
      else concat (map (localize_env_line value (normalized_names c)) (split_inclusive dep_info)))"

section \<open>Virtual paths\<close>

text \<open>The spellings \<open>remap_plan\<close> may use, and the one Cargo uses.\<close>

definition usable :: "machine \<Rightarrow> string list \<Rightarrow> string list" where
  "usable h sp = filter (\<lambda>s. \<not> (verbatim s \<or> ho_windows h \<and> CHR ''/'' \<in> set s)) sp"

definition as_given :: "machine \<Rightarrow> string list \<Rightarrow> string option" where
  "as_given h sp =
     or_else (find (\<lambda>s. case ho_canonical h s of None \<Rightarrow> False | Some c \<Rightarrow> ordinary_spelling c \<noteq> s) sp)
       (case sp of [] \<Rightarrow> None | s # _ \<Rightarrow> Some s)"

definition canonical_of :: "machine \<Rightarrow> string list \<Rightarrow> string option" where
  "canonical_of h sp = find_map (ho_canonical h) sp"

fun component_text :: "path_component \<Rightarrow> string" where
  "component_text RootDir = ''/''"
| "component_text CurDir = ''.''"
| "component_text ParentDir = ''..''"
| "component_text (Normal w) = w"

definition relative_parts :: "string \<Rightarrow> string \<Rightarrow> string list option" where
  "relative_parts path root =
     (if path_starts_with path root then Some (map component_text (drop (length (components root)) (components path)))
      else None)"

definition under_virtual :: "machine \<Rightarrow> string \<Rightarrow> string list \<Rightarrow> string" where
  "under_virtual h base parts = join (if ho_windows h then [backslash] else ''/'') (base # parts)"

definition workspace_virtual :: "machine \<Rightarrow> string \<Rightarrow> string option \<Rightarrow> string option \<Rightarrow> string" where
  "workspace_virtual h workspace checkout cargo =
     (case Option.bind checkout (relative_parts workspace) of
        Some parts \<Rightarrow> under_virtual h ''/bellows/checkout'' parts
      | None \<Rightarrow>
          (case Option.bind cargo (relative_parts workspace) of
             Some parts \<Rightarrow> under_virtual h ''/bellows/cargo-home'' parts
           | None \<Rightarrow> if checkout = None then ''/bellows/checkout'' else ''/bellows/workspace''))"

definition remap_plan :: "machine \<Rightarrow> identity \<Rightarrow> (string \<times> string) list" where
  "remap_plan h I =
     (let cargo_home = usable h (spellings (id_normalizer I) ''$CARGO_HOME'');
          checkout = usable h (spellings (id_root_normalizer I) ''$CHECKOUT'');
          root = canonical_of h checkout;
          given = (\<lambda>token. as_given h (usable h (spellings (id_root_normalizer I) token)))
      in List.map_filter (\<lambda>(sp, v). map_option (\<lambda>s. (s, v)) sp)
           [(as_given h cargo_home, ''/bellows/cargo-home''),
            (or_else (Option.bind root (given_spelling h (id_workspace I))) (as_given h checkout), ''/bellows/checkout''),
            (or_else (ho_cwd h) (given ''$WORKSPACE''),
             workspace_virtual h (id_workspace I) root (canonical_of h cargo_home)),
            (given ''$TARGET'', ''/bellows/target''),
            (given ''$PROFILE'', ''/bellows/profile'')])"

definition virtual_roots :: "machine \<Rightarrow> identity \<Rightarrow> (string \<times> string) list" where
  "virtual_roots h I = dedup_by fst (sort_key (\<lambda>(v, real). - int (length v)) (map (\<lambda>(real, v). (v, real)) (remap_plan h I)))"

definition replace_roots :: "(string \<times> string) list \<Rightarrow> string \<Rightarrow> string" where
  "replace_roots roots text = fold (\<lambda>(v, real) text. str_replace v real text) roots text"

definition devirtualize_line :: "(string \<Rightarrow> json option) \<Rightarrow> (json \<Rightarrow> string) \<Rightarrow> (string \<times> string) list \<Rightarrow> string \<Rightarrow> string" where
  "devirtualize_line P Q roots line =
     (if \<not> list_ex (\<lambda>(v, _). str_contains line v) roots then line
      else let body = (case strip_suffix1 lf line of Some b \<Rightarrow> b | None \<Rightarrow> line);
               body = (case strip_suffix1 cr body of Some b \<Rightarrow> b | None \<Rightarrow> body)
           in case parse_object P body of
                Some v \<Rightarrow> Q (visit (replace_roots roots) v) @ drop (length body) line
              | None \<Rightarrow> if utf8 line then replace_roots roots line else line)"

section \<open>The relay\<close>

text \<open>
  \<open>tee_devirtualized\<close> reads chunks; every complete line is rewritten and passed on, an incomplete
  one waits. \<open>f\<close> is the rewriting of a line.
\<close>

function drain_lines :: "(string \<Rightarrow> string) \<Rightarrow> string \<Rightarrow> string \<times> string" where
  "drain_lines f pending =
     (if lf \<in> set pending then
        (let line = takeWhile (\<lambda>c. c \<noteq> lf) pending @ [lf];
             (out, rest) = drain_lines f (tl (dropWhile (\<lambda>c. c \<noteq> lf) pending))
         in (f line @ out, rest))
      else ([], pending))"
  by pat_completeness auto
termination
proof (relation "measure (\<lambda>(f, p). length p)")
  fix f :: "string \<Rightarrow> string" and pending
  assume "lf \<in> set pending"
  then have "dropWhile (\<lambda>c. c \<noteq> lf) pending \<noteq> []" by (simp add: dropWhile_eq_Nil_conv)
  moreover have "length (dropWhile (\<lambda>c. c \<noteq> lf) pending) \<le> length pending" by (rule length_dropWhile_le)
  ultimately show "((f, tl (dropWhile (\<lambda>c. c \<noteq> lf) pending)), f, pending) \<in> measure (\<lambda>(f, p). length p)"
    by (cases "dropWhile (\<lambda>c. c \<noteq> lf) pending") auto
qed simp

declare drain_lines.simps [simp del]

fun tee_chunks :: "(string \<Rightarrow> string) \<Rightarrow> string list \<Rightarrow> string \<Rightarrow> string" where
  "tee_chunks f [] pending = (if pending = [] then [] else f pending)"
| "tee_chunks f (chunk # chunks) pending =
     (let (out, rest) = drain_lines f (pending @ chunk) in out @ tee_chunks f chunks rest)"

definition tee_devirtualized :: "(string \<Rightarrow> json option) \<Rightarrow> (json \<Rightarrow> string) \<Rightarrow> (string \<times> string) list \<Rightarrow> string list \<Rightarrow> string" where
  "tee_devirtualized P Q roots chunks = tee_chunks (devirtualize_line P Q roots) chunks []"

section \<open>Checkout paths in outputs\<close>

definition min_needle :: nat where "min_needle = 6"

record scanner =
  sc_needles :: "string list"
  sc_always :: bool

definition add_root :: "scanner \<Rightarrow> string \<Rightarrow> scanner" where
  "add_root sc given =
     (let root = trim_end_matches is_sep given
      in if length root < min_needle then sc\<lparr>sc_always := True\<rparr>
         else sc\<lparr>sc_needles := set_insert root (sc_needles sc)\<rparr>)"

definition new_scanner :: "string list \<Rightarrow> scanner" where
  "new_scanner roots = foldl add_root \<lparr>sc_needles = [], sc_always = False\<rparr> roots"

definition leaks :: "scanner \<Rightarrow> string \<Rightarrow> bool" where
  "leaks sc bytes \<longleftrightarrow> sc_always sc \<or> list_ex (str_contains bytes) (sc_needles sc)"

definition module_extensions :: "string list" where
  "module_extensions = [''.o'', ''.obj'', ''.rlib'', ''.lib'', ''.a'', ''.res'', ''.exe'', ''.dll'', ''.pdb'', ''.exp'']"

definition is_linker_bookkeeping :: "string \<Rightarrow> string \<Rightarrow> bool" where
  "is_linker_bookkeeping text root \<longleftrightarrow>
     (let lower = to_ascii_lowercase text
      in trim_end_matches is_sep lower = trim_end_matches is_sep root
         \<or> str_contains lower ''/out:'' \<or> list_ex (\<lambda>e. suffix e lower) module_extensions)"

text \<open>\<open>find_iter\<close>: the occurrences from left to right, without overlaps, as what is before and after each start.\<close>

function occurrences :: "string \<Rightarrow> string \<Rightarrow> string \<Rightarrow> (string \<times> string) list" where
  "occurrences needle before hay =
     (if needle \<noteq> [] \<and> prefix needle hay
      then (before, hay) # occurrences needle (before @ needle) (drop (length needle) hay)
      else (case hay of [] \<Rightarrow> [] | c # rest \<Rightarrow> occurrences needle (before @ [c]) rest))"
  by pat_completeness auto
termination
  by (relation "measure (\<lambda>(n, b, h). length h)") (auto simp: prefix_def)

declare occurrences.simps [simp del]

definition is_printable :: "char \<Rightarrow> bool" where
  "is_printable c \<longleftrightarrow> byte_in c 32 126"

definition printable_around :: "string \<times> string \<Rightarrow> string" where
  "printable_around = (\<lambda>(before, hay). rev (takeWhile is_printable (rev before)) @ takeWhile is_printable hay)"

definition leaks_in_program_database :: "scanner \<Rightarrow> string \<Rightarrow> bool" where
  "leaks_in_program_database sc bytes \<longleftrightarrow>
     sc_always sc
     \<or> list_ex (\<lambda>needle.
          if CHR 0x00 \<in> set needle then str_contains bytes needle
          else list_ex (\<lambda>p. \<not> is_linker_bookkeeping (printable_around p) needle) (occurrences needle [] bytes))
        (sc_needles sc)"

end
