(* ===== verification/Cli_Candidates.thy ===== *)
theory Cli_Candidates
  imports Cli_Streams Store
begin

text \<open>
  Candidates of the static key (\<open>main.rs\<close>): whether one may serve this compile, fetching and
  verifying its blobs, restoring its outputs, and the search through the candidates of an index.
  \<open>dig\<close> is \<open>build_script::input_digest\<close>.
\<close>

section \<open>Validation\<close>

definition diagnostic_width_input :: string where
  "diagnostic_width_input = ''@bellows:diagnostic-width''"

definition any_diagnostic_width :: string where "any_diagnostic_width = ''*''"

definition width_of :: "identity \<Rightarrow> string" where
  "width_of I = (case id_diagnostic_width I of Some w \<Rightarrow> w | None \<Rightarrow> ''absent'')"

definition env_value :: "machine \<Rightarrow> identity \<Rightarrow> string \<Rightarrow> string option" where
  "env_value h I name = or_else (map_of (id_virtual_env I) name) (env_var h name)"

definition pin_value :: "identity \<Rightarrow> string \<Rightarrow> string option" where
  "pin_value I name = map_option snd (find (\<lambda>(pin, _). pin = name) (id_pins I))"

datatype reject =
    BadManifest check_error | WidthChanged | EnvChanged string | PinChanged string
  | OtherCheckout string | InputDisappeared string | InputChanged string

definition width_matches :: "'b lib \<Rightarrow> identity \<Rightarrow> env_input list \<Rightarrow> bool" where
  "width_matches L I env \<longleftrightarrow>
     (case find (\<lambda>e. ei_name e = diagnostic_width_input) env of
        Some e \<Rightarrow> list_ex (\<lambda>v. ei_value_digest e = Some (l_hash L v)) [any_diagnostic_width, width_of I]
      | None \<Rightarrow> id_diagnostic_width I = None)"

definition is_pin :: "env_input \<Rightarrow> bool" where
  "is_pin e \<longleftrightarrow> prefix pin_prefix (ei_name e)"

text \<open>What the variable of a recorded environment input is now.\<close>

definition actual_env :: "'b lib \<Rightarrow> machine \<Rightarrow> identity \<Rightarrow> env_input \<Rightarrow> env_input" where
  "actual_env L h I e =
     (case env_value h I (ei_name e) of
        Some v \<Rightarrow>
          if ei_normalized e then env_capture_normalized L (ei_name e) (normalize (id_root_normalizer I) v)
          else env_capture L (ei_name e) (Some v)
      | None \<Rightarrow> env_capture L (ei_name e) None)"

definition check_env_input :: "'b lib \<Rightarrow> machine \<Rightarrow> identity \<Rightarrow> env_input \<Rightarrow> reject + unit" where
  "check_env_input L h I e =
     (if is_pin e then
        (case pin_value I (ei_name e) of
           None \<Rightarrow> Inl (EnvChanged (ei_name e))
         | Some v \<Rightarrow> ensure (ei_value_digest (env_capture L (ei_name e) (Some v)) = ei_value_digest e) (PinChanged (ei_name e)))
      else ensure (ei_value_digest (actual_env L h I e) = ei_value_digest e) (EnvChanged (ei_name e)))"

text \<open>Named variables before pins.\<close>

definition ordered_env :: "env_input list \<Rightarrow> env_input list" where
  "ordered_env env =
     (let es = filter (\<lambda>e. ei_name e \<noteq> diagnostic_width_input) env
      in filter (\<lambda>e. \<not> is_pin e) es @ filter is_pin es)"

definition check_digest :: "(string \<Rightarrow> string option) \<Rightarrow> string \<Rightarrow> file_input \<Rightarrow> reject + unit" where
  "check_digest dig path f =
     (case dig path of
        None \<Rightarrow> Inl (InputDisappeared (fi_path f))
      | Some actual \<Rightarrow> ensure (actual = fi_digest f) (InputChanged (fi_path f)))"

definition input_location :: "identity \<Rightarrow> string \<Rightarrow> string" where
  "input_location I path = absolute_path (localize (id_normalizer I) path) (id_workspace I)"

definition check_file :: "machine \<Rightarrow> (string \<Rightarrow> string option) \<Rightarrow> identity \<Rightarrow> file_input \<Rightarrow> reject + unit" where
  "check_file h dig I f =
     (let path = input_location I (fi_path f)
      in r_then (ensure (\<not> (outside_checkout_roots (fi_path f) \<and> foreign_checkout h path (id_checkout I)))
           (OtherCheckout (fi_path f)))
         (check_digest dig path f))"

definition check_host_file :: "machine \<Rightarrow> (string \<Rightarrow> string option) \<Rightarrow> identity \<Rightarrow> file_input \<Rightarrow> reject + unit" where
  "check_host_file h dig I f =
     r_then (ensure (\<not> foreign_checkout h (fi_path f) (id_checkout I)) (OtherCheckout (fi_path f)))
       (check_digest dig (fi_path f) f)"

definition validate_candidate :: "'b lib \<Rightarrow> machine \<Rightarrow> (string \<Rightarrow> string option) \<Rightarrow> action_candidate \<Rightarrow>
    identity \<Rightarrow> reject + unit" where
  "validate_candidate L h dig c I =
     r_then (map_err BadManifest (validate_candidate_manifest L c))
     (r_then (ensure (width_matches L I (ac_env c)) WidthChanged)
     (r_then (check_all (check_env_input L h I) (ordered_env (ac_env c)))
     (r_then (check_all (check_file h dig I) (ac_files c))
       (check_all (check_host_file h dig I) (ac_host_files c)))))"

section \<open>Messages\<close>

text \<open>\<open>S\<close> renders a manifest error.\<close>

fun reject_message :: "(check_error \<Rightarrow> string) \<Rightarrow> reject \<Rightarrow> string" where
  "reject_message S (BadManifest e) = S e"
| "reject_message S WidthChanged =
     ''environment changed: diagnostic width (cached diagnostics were rendered for another terminal width)''"
| "reject_message S (EnvChanged name) = ''environment changed: '' @ name"
| "reject_message S (PinChanged name) =
     ''environment changed: '' @ name @ '' (the cached output embeds another checkout'' @ [CHR 0x27] @ ''s path)''"
| "reject_message S (OtherCheckout path) = ''input changed: '' @ path @ '' belongs to another checkout''"
| "reject_message S (InputDisappeared path) = ''input disappeared: '' @ path"
| "reject_message S (InputChanged path) = ''input changed: '' @ path"

definition rejection :: "reject + unit \<Rightarrow> reject option" where
  "rejection r = (case r of Inl e \<Rightarrow> Some e | Inr _ \<Rightarrow> None)"

definition explain_candidates :: "'b lib \<Rightarrow> (check_error \<Rightarrow> string) \<Rightarrow> machine \<Rightarrow> (string \<Rightarrow> string option) \<Rightarrow>
    identity \<Rightarrow> action_candidate list \<Rightarrow> string" where
  "explain_candidates L S h dig I cs =
     (if cs = [] then ''no candidate for this static identity''
      else case List.map_filter (\<lambda>c. rejection (validate_candidate L h dig c I)) cs of
        r # _ \<Rightarrow> reject_message S r
      | [] \<Rightarrow> ''candidate artifacts unavailable or restore failed; see corrupt event for the blob/path error'')"

definition hit_detail :: "string \<Rightarrow> invocation \<Rightarrow> action_candidate \<Rightarrow> string" where
  "hit_detail pre iv c =
     pre @ '' ('' @ output_kind_name (iv_kind iv) @ '' output''
     @ (if ac_proc_macros c = [] then [] else ''; proc macros: '' @ join '', '' (ac_proc_macros c)) @ '')''"

section \<open>Fetching blobs\<close>

text \<open>\<open>get\<close> is the body of a successful blob request.\<close>

definition remote_blob :: "'b lib \<Rightarrow> (string \<Rightarrow> string option) \<Rightarrow> string \<Rightarrow> string option" where
  "remote_blob L get digest =
     (case get digest of None \<Rightarrow> None | Some bytes \<Rightarrow> if l_hash L bytes = digest then Some bytes else None)"

fun all_some :: "('a \<Rightarrow> 'b option) \<Rightarrow> 'a list \<Rightarrow> 'b list option" where
  "all_some f [] = Some []"
| "all_some f (x # xs) =
     (case f x of None \<Rightarrow> None | Some y \<Rightarrow> (case all_some f xs of None \<Rightarrow> None | Some ys \<Rightarrow> Some (y # ys)))"

fun unique_digests :: "string \<Rightarrow> string set \<Rightarrow> string list \<Rightarrow> string list" where
  "unique_digests blank seen [] = []"
| "unique_digests blank seen (d # ds) =
     (if d = blank \<or> d \<in> seen then unique_digests blank seen ds
      else d # unique_digests blank (insert d seen) ds)"

text \<open>
  Handing the fetched blobs out in request order: the last use of a digest takes it from the map.
  \<open>None\<close> is a panic of one of the two \<open>expect\<close>s.
\<close>

fun hand_out :: "string \<Rightarrow> (string \<Rightarrow> nat) \<Rightarrow> (string \<Rightarrow> string option) \<Rightarrow> string list \<Rightarrow> string list option" where
  "hand_out blank remaining by_digest [] = Some []"
| "hand_out blank remaining by_digest (d # ds) =
     (if d = blank then map_option (Cons []) (hand_out blank remaining by_digest ds)
      else (case by_digest d of
              None \<Rightarrow> None
            | Some bytes \<Rightarrow>
                if remaining d = 0 then None
                else map_option (Cons bytes)
                  (hand_out blank (remaining(d := remaining d - 1))
                    (if remaining d - 1 = 0 then by_digest(d := None) else by_digest) ds)))"

datatype fetch = Fetch_failed | Fetch_panic | Fetched "string list"

definition remote_blobs :: "'b lib \<Rightarrow> (string \<Rightarrow> string option) \<Rightarrow> string list \<Rightarrow> fetch" where
  "remote_blobs L get digests =
     (let blank = l_hash L []; unique = unique_digests blank {} digests
      in case all_some (remote_blob L get) unique of
           None \<Rightarrow> Fetch_failed
         | Some fetched \<Rightarrow>
             (case hand_out blank (\<lambda>d. length (filter ((=) d) digests)) (map_of (zip unique fetched)) digests of
                None \<Rightarrow> Fetch_panic | Some blobs \<Rightarrow> Fetched blobs))"

section \<open>Restoring\<close>

datatype restore_error =
    InvalidManifest check_error | MissingOutput string | UnexpectedOutput string | BlobsUnavailable
  | WrongBlobCount nat nat | StreamLength

text \<open>
  What a restore writes: the outputs in order (destination, bytes, executable), the digests it
  remembers, and the two replayed streams.
\<close>

record restored =
  rd_outputs :: "(string \<times> string \<times> bool) list"
  rd_remembered :: "(string \<times> string) list"
  rd_stdout :: string
  rd_stderr :: string

definition missing_expected :: "invocation \<Rightarrow> action_candidate \<Rightarrow> string \<Rightarrow> bool" where
  "missing_expected iv c expected \<longleftrightarrow>
     expected \<notin> ar_file_name ` set (ac_artifacts c)
     \<and> \<not> (suffix ''.rmeta'' expected \<and> list_ex (suffix ''.rlib'') (iv_expected iv))"

definition allowed_output :: "invocation \<Rightarrow> string \<Rightarrow> bool" where
  "allowed_output iv name \<longleftrightarrow>
     (case iv_kind iv of Library \<Rightarrow> name \<in> set (iv_expected iv) | Linked \<Rightarrow> owns_output iv name)"

definition output_bytes :: "machine \<Rightarrow> identity \<Rightarrow> action_candidate \<Rightarrow> string \<Rightarrow> string \<Rightarrow> string" where
  "output_bytes h I c name stored =
     (if suffix ''.d'' name
      then localize_env_deps (env_value h I) (transform_dep_info stored (id_normalizer I) True) c
      else stored)"

definition requested_digests :: "action_candidate \<Rightarrow> string list" where
  "requested_digests c = map ar_digest (ac_artifacts c) @ [sa_digest (ac_stdout c), sa_digest (ac_stderr c)]"

definition write_outputs :: "(string \<Rightarrow> json option) \<Rightarrow> (json \<Rightarrow> string) \<Rightarrow> machine \<Rightarrow> invocation \<Rightarrow> identity \<Rightarrow>
    action_candidate \<Rightarrow> string list \<Rightarrow> restored" where
  "write_outputs P Q h iv I c blobs =
     (let n = length (ac_artifacts c); pairs = zip (ac_artifacts c) (take n blobs)
      in \<lparr>rd_outputs = map (\<lambda>(a, stored). (path_join (iv_out_dir iv) (ar_file_name a),
             output_bytes h I c (ar_file_name a) stored, ar_executable a)) pairs,
          rd_remembered = map (\<lambda>(a, _). (path_join (iv_out_dir iv) (ar_file_name a), ar_digest a))
            (filter (\<lambda>(a, _). \<not> suffix ''.d'' (ar_file_name a)) pairs),
          rd_stdout = transform_compiler_stream P Q (blobs ! n) (id_normalizer I) True,
          rd_stderr = transform_compiler_stream P Q (blobs ! (n + 1)) (id_normalizer I) True\<rparr>)"

definition restore_with :: "'b lib \<Rightarrow> (string \<Rightarrow> json option) \<Rightarrow> (json \<Rightarrow> string) \<Rightarrow> machine \<Rightarrow> invocation \<Rightarrow> identity \<Rightarrow>
    action_candidate \<Rightarrow> (string list \<Rightarrow> string list option) \<Rightarrow> restore_error + restored" where
  "restore_with L P Q h iv I c fetch =
     r_then (map_err InvalidManifest (validate_candidate_manifest L c))
     (r_then (check_all (\<lambda>e. ensure (\<not> missing_expected iv c e) (MissingOutput e)) (iv_expected iv))
     (r_then (check_all (\<lambda>a. ensure (allowed_output iv (ar_file_name a)) (UnexpectedOutput (ar_file_name a))) (ac_artifacts c))
       (case fetch (requested_digests c) of
          None \<Rightarrow> Inl BlobsUnavailable
        | Some blobs \<Rightarrow>
            let n = length (ac_artifacts c)
            in if length blobs \<noteq> n + 2 then Inl (WrongBlobCount (length blobs) (n + 2))
               else if length (blobs ! n) \<noteq> sa_len (ac_stdout c) \<or> length (blobs ! (n + 1)) \<noteq> sa_len (ac_stderr c)
               then Inl StreamLength
               else Inr (write_outputs P Q h iv I c blobs))))"

section \<open>Searching an index\<close>

text \<open>
  What the wrapper does besides writing outputs: events, uses reported to the server, blobs and
  candidates kept in the local store, uses recorded there, leases, running rustc (captured or passed
  through), and storing a captured result locally or on the server.
\<close>

datatype act =
    Event string "string option" string | Report_use string string | Keep_blob string string
  | Keep_candidate action_candidate | Local_use string string | Acquire string | Release string string
  | Run_compiler | Pass_through | Keep_result action_candidate | Publish_result action_candidate

definition used_report :: "action_candidate \<Rightarrow> act" where
  "used_report c = Report_use (ac_static_key c) (ac_action_key c)"

definition remote_fetch :: "'b lib \<Rightarrow> (string \<Rightarrow> string option) \<Rightarrow> string list \<Rightarrow> string list option" where
  "remote_fetch L get digests = (case remote_blobs L get digests of Fetched blobs \<Rightarrow> Some blobs | _ \<Rightarrow> None)"

definition restore :: "'b lib \<Rightarrow> (string \<Rightarrow> json option) \<Rightarrow> (json \<Rightarrow> string) \<Rightarrow> machine \<Rightarrow> invocation \<Rightarrow> identity \<Rightarrow>
    action_candidate \<Rightarrow> (string \<Rightarrow> string option) \<Rightarrow> restore_error + restored" where
  "restore L P Q h iv I c get = restore_with L P Q h iv I c (remote_fetch L get)"

fun read_stored_blobs :: "'b lib \<Rightarrow> 'b store \<Rightarrow> string list \<Rightarrow> store_error + string list" where
  "read_stored_blobs L st [] = Inr []"
| "read_stored_blobs L st (d # ds) =
     r_bind (read_blob L d st) (\<lambda>b. r_bind (read_stored_blobs L st ds) (\<lambda>bs. Inr (b # bs)))"

definition stored_fetch :: "'b lib \<Rightarrow> 'b store \<Rightarrow> string list \<Rightarrow> string list option" where
  "stored_fetch L st digests = (case read_stored_blobs L st digests of Inr blobs \<Rightarrow> Some blobs | Inl _ \<Rightarrow> None)"

definition restore_l1 :: "'b lib \<Rightarrow> (string \<Rightarrow> json option) \<Rightarrow> (json \<Rightarrow> string) \<Rightarrow> machine \<Rightarrow> invocation \<Rightarrow> identity \<Rightarrow>
    action_candidate \<Rightarrow> 'b store \<Rightarrow> restore_error + restored" where
  "restore_l1 L P Q h iv I c st = restore_with L P Q h iv I c (stored_fetch L st)"

text \<open>The blobs \<open>restore\<close> keeps in the local store: it fetches only once the manifest fits.\<close>

definition kept_blobs :: "'b lib \<Rightarrow> (string \<Rightarrow> string option) \<Rightarrow> bool \<Rightarrow> restore_error + restored \<Rightarrow> action_candidate \<Rightarrow> act list" where
  "kept_blobs L get l1 r c =
     (let keep = (case r of Inr _ \<Rightarrow> True | Inl (WrongBlobCount _ _) \<Rightarrow> True | Inl StreamLength \<Rightarrow> True | _ \<Rightarrow> False)
      in if l1 \<and> keep
         then (case remote_fetch L get (requested_digests c) of
                 None \<Rightarrow> [] | Some blobs \<Rightarrow> map (\<lambda>(d, b). Keep_blob d b) (zip (requested_digests c) blobs))
         else [])"

fun try_candidates :: "'b lib \<Rightarrow> (check_error \<Rightarrow> string) \<Rightarrow> (restore_error \<Rightarrow> string) \<Rightarrow> (string \<Rightarrow> json option) \<Rightarrow> (json \<Rightarrow> string) \<Rightarrow>
    machine \<Rightarrow> (string \<Rightarrow> string option) \<Rightarrow> (string \<Rightarrow> string option) \<Rightarrow> bool \<Rightarrow> invocation \<Rightarrow> identity \<Rightarrow>
    action_candidate list \<Rightarrow> act list \<times> (action_candidate \<times> restored) option" where
  "try_candidates L S T P Q h dig get l1 iv I [] = ([], None)"
| "try_candidates L S T P Q h dig get l1 iv I (c # cs) =
     (let key = Some (ac_action_key c) in
      case validate_candidate L h dig c I of
        Inl reason \<Rightarrow>
          (let (acts, r) = try_candidates L S T P Q h dig get l1 iv I cs
           in (Event ''candidate_rejected'' key (reject_message S reason) # acts, r))
      | Inr _ \<Rightarrow>
          (let tried = restore L P Q h iv I c get;
               first = used_report c # kept_blobs L get l1 tried c
           in case tried of
                Inr out \<Rightarrow>
                  (first @ (if l1 then [Keep_candidate c] else [])
                     @ [Event ''hit'' key (hit_detail ''restored remote compiler result'' iv c)], Some (c, out))
              | Inl e \<Rightarrow>
                  (let (acts, r) = try_candidates L S T P Q h dig get l1 iv I cs
                   in (first @ Event ''corrupt'' key (''candidate rejected during restore: '' @ T e) # acts, r))))"

text \<open>\<open>st\<close> is the local store; \<open>remote\<close> says whether there is a server.\<close>

fun try_l1_candidates :: "'b lib \<Rightarrow> (check_error \<Rightarrow> string) \<Rightarrow> (restore_error \<Rightarrow> string) \<Rightarrow> (string \<Rightarrow> json option) \<Rightarrow> (json \<Rightarrow> string) \<Rightarrow>
    machine \<Rightarrow> (string \<Rightarrow> string option) \<Rightarrow> 'b store \<Rightarrow> bool \<Rightarrow> invocation \<Rightarrow> identity \<Rightarrow>
    action_candidate list \<Rightarrow> act list \<times> (action_candidate \<times> restored) option" where
  "try_l1_candidates L S T P Q h dig st remote iv I [] = ([], None)"
| "try_l1_candidates L S T P Q h dig st remote iv I (c # cs) =
     (let key = Some (ac_action_key c) in
      case validate_candidate L h dig c I of
        Inl reason \<Rightarrow>
          (let (acts, r) = try_l1_candidates L S T P Q h dig st remote iv I cs
           in (Event ''candidate_rejected'' key (''local cache: '' @ reject_message S reason) # acts, r))
      | Inr _ \<Rightarrow>
          (let first = (if remote then [used_report c] else [])
           in case restore_l1 L P Q h iv I c st of
                Inr out \<Rightarrow>
                  (first @ [Local_use (ac_static_key c) (ac_action_key c),
                     Event ''l1_hit'' key (hit_detail ''restored runner-local compiler result'' iv c)], Some (c, out))
              | Inl e \<Rightarrow>
                  (let (acts, r) = try_l1_candidates L S T P Q h dig st remote iv I cs
                   in (first @ Event ''corrupt'' key (''L1 candidate rejected: L1: '' @ T e) # acts, r))))"

end
