(* ===== verification/Cli_Wrapper.thy ===== *)
theory Cli_Wrapper
  imports Cli_Candidates
begin

text \<open>
  The compiler wrapper (\<open>rustc_wrapper\<close>, \<open>cache_or_compile\<close> in \<open>main.rs\<close>): analyse, look the compile
  up locally and on the server, wait for another runner's lease, compile, store. What the server, the
  stores, rustc and the clock answer is in a record; the result is the list of what was done and the
  outcome.
\<close>

section \<open>Configuration\<close>

datatype timeout_error = NotMilliseconds | OutOfRange

definition bounded_timeout :: "string option \<Rightarrow> nat \<Rightarrow> nat \<Rightarrow> nat \<Rightarrow> timeout_error + nat" where
  "bounded_timeout v default_ms minimum_ms maximum_ms =
     r_bind (case v of None \<Rightarrow> Inr default_ms | Some s \<Rightarrow> ok_or (u64_from_str s) NotMilliseconds) (\<lambda>ms.
       if minimum_ms \<le> ms \<and> ms \<le> maximum_ms then Inr ms else Inl OutOfRange)"

text \<open>\<open>BELLOWS_FETCH_CONCURRENCY\<close>; \<open>usize\<close> has 64 bits.\<close>

definition fetch_concurrency :: "machine \<Rightarrow> timeout_error + nat" where
  "fetch_concurrency h =
     (case env_var h ''BELLOWS_FETCH_CONCURRENCY'' of
        None \<Rightarrow> Inr 16
      | Some s \<Rightarrow> r_bind (ok_or (u64_from_str s) NotMilliseconds) (\<lambda>n.
          if 1 \<le> n \<and> n \<le> 64 then Inr n else Inl OutOfRange))"

section \<open>Answers\<close>

record captured =
  cp_candidate :: action_candidate
  cp_blobs :: "(string \<times> string) list"
  cp_pinned :: bool

datatype local_cache = Disabled | Unopened | Opened "action_candidate list option"

datatype lease_reply = Owned string | Wait nat | Lease_error

datatype compile_result = Compile_error | Compile_exit nat "captured option"

datatype publish_reply = Published | Too_large | Publish_failed

text \<open>One round of the wait loop: the clocks its condition reads, and the two answers.\<close>

record round =
  rn_elapsed :: nat
  rn_now :: nat
  rn_index :: "action_candidate list option"
  rn_reply :: lease_reply

record answers =
  an_local_only :: bool
  an_remote_valid :: bool
  an_local :: local_cache
  an_hint :: string
  an_index :: "action_candidate list option"
  an_lease :: lease_reply
  an_max_wait :: "string option"
  an_rounds :: "round list"
  an_compile :: compile_result
  an_read_only :: bool
  an_cache_ok :: bool
  an_publish :: publish_reply

text \<open>
  What the searches are run with: the digests and renderings, the blobs of the server and of the
  local store.
\<close>

record 'b tools =
  to_lib :: "'b lib"
  to_show_check :: "check_error \<Rightarrow> string"
  to_show_restore :: "restore_error \<Rightarrow> string"
  to_parse :: "string \<Rightarrow> json option"
  to_print :: "json \<Rightarrow> string"
  to_digest :: "string \<Rightarrow> string option"
  to_get :: "string \<Rightarrow> string option"
  to_store :: "'b store"

type_synonym found = "(action_candidate \<times> restored) option"

definition search_remote :: "'b tools \<Rightarrow> machine \<Rightarrow> bool \<Rightarrow> invocation \<Rightarrow> identity \<Rightarrow> action_candidate list \<Rightarrow> act list \<times> found" where
  "search_remote t h l1 iv I cs = try_candidates (to_lib t) (to_show_check t) (to_show_restore t) (to_parse t) (to_print t)
     h (to_digest t) (to_get t) l1 iv I cs"

definition search_local :: "'b tools \<Rightarrow> machine \<Rightarrow> bool \<Rightarrow> invocation \<Rightarrow> identity \<Rightarrow> action_candidate list \<Rightarrow> act list \<times> found" where
  "search_local t h remote iv I cs = try_l1_candidates (to_lib t) (to_show_check t) (to_show_restore t) (to_parse t) (to_print t)
     h (to_digest t) (to_store t) remote iv I cs"

section \<open>Waiting for a lease\<close>

text \<open>\<open>checked\<close> holds the action keys already rejected; the loop ends with a result, with the lease, or without.\<close>

datatype waited = Found action_candidate restored | Got string | Failed | Timed_out

text \<open>\<open>retain\<close> with \<open>insert\<close>: only candidates whose key was not seen before.\<close>

fun retain_new :: "string set \<Rightarrow> action_candidate list \<Rightarrow> action_candidate list \<times> string set" where
  "retain_new checked [] = ([], checked)"
| "retain_new checked (c # cs) =
     (if ac_action_key c \<in> checked then retain_new checked cs
      else (let (fresh, checked') = retain_new (insert (ac_action_key c) checked) cs in (c # fresh, checked')))"

fun wait_loop :: "'b tools \<Rightarrow> machine \<Rightarrow> bool \<Rightarrow> invocation \<Rightarrow> identity \<Rightarrow> nat \<Rightarrow> nat \<Rightarrow> string set \<Rightarrow> round list \<Rightarrow>
    act list \<times> waited" where
  "wait_loop t h l1 iv I max_wait expires checked [] = ([], Timed_out)"
| "wait_loop t h l1 iv I max_wait expires checked (r # rs) =
     (if \<not> (rn_elapsed r < max_wait \<and> rn_now r < expires) then ([], Timed_out)
      else
        let (fresh, checked') = (case rn_index r of None \<Rightarrow> ([], checked) | Some cs \<Rightarrow> retain_new checked cs);
            (acts, found) = search_remote t h l1 iv I fresh
        in case found of
             Some (c, out) \<Rightarrow>
               (acts @ [Event ''single_flight'' None ''restored result published by lease owner''], Found c out)
           | None \<Rightarrow>
               (let acts' = acts @ [Acquire (id_static_key I)] in
                case rn_reply r of
                  Owned token \<Rightarrow>
                    (acts' @ [Event ''lease_acquired'' None
                       ''acquired released lease; no published candidate matches this invocation''], Got token)
                | Wait _ \<Rightarrow>
                    (let (more, w) = wait_loop t h l1 iv I max_wait expires checked' rs in (acts' @ more, w))
                | Lease_error \<Rightarrow>
                    (acts' @ [Event ''fallback'' None ''lease unavailable while waiting''], Failed)))"

section \<open>Miss\<close>

definition miss_reasons :: "'b tools \<Rightarrow> machine \<Rightarrow> identity \<Rightarrow> answers \<Rightarrow> action_candidate list \<Rightarrow> action_candidate list \<Rightarrow> string list" where
  "miss_reasons t h I a local_index index =
     (let explain = explain_candidates (to_lib t) (to_show_check t) h (to_digest t) I in
      (if local_index \<noteq> [] then [''local cache: '' @ explain local_index] else [])
      @ (if index \<noteq> [] then [''remote cache: '' @ explain index] else [])
      @ (if \<not> an_local_only a \<and> an_index a = None
         then [''remote unavailable (see fallback event for request error)''] else [])
      @ (if an_local a = Unopened then [''local cache unavailable (see fallback event)''] else [])
      @ (if local_index = [] \<and> index = [] then [an_hint a] else []))"

text \<open>The lease a miss compiles under, if any; \<open>Inl\<close> is a result found while waiting.\<close>

definition acquire_or_wait :: "'b tools \<Rightarrow> machine \<Rightarrow> bool \<Rightarrow> invocation \<Rightarrow> identity \<Rightarrow> answers \<Rightarrow> action_candidate list \<Rightarrow>
    act list \<times> ((action_candidate \<times> restored) + string option)" where
  "acquire_or_wait t h l1 iv I a index =
     (if an_local_only a \<or> an_index a = None then ([], Inr None)
      else let asked = Acquire (id_static_key I) in
        case an_lease a of
          Owned token \<Rightarrow> ([asked], Inr (Some token))
        | Lease_error \<Rightarrow> ([asked, Event ''fallback'' None ''lease unavailable''], Inr None)
        | Wait expires \<Rightarrow>
            let limit = bounded_timeout (an_max_wait a) 30000 0 600000;
                (acts, w) = wait_loop t h l1 iv I (case limit of Inr ms \<Rightarrow> ms | Inl _ \<Rightarrow> 0) expires
                  (ac_action_key ` set index) (an_rounds a);
                begun = [asked, Event ''wait'' None ''another runner owns this cold action'']
                  @ (case limit of Inr _ \<Rightarrow> [] | Inl _ \<Rightarrow> [Event ''fallback'' None ''invalid single-flight wait limit'']) @ acts
            in case w of
                 Found c out \<Rightarrow> (begun, Inl (c, out))
               | Got token \<Rightarrow> (begun, Inr (Some token))
               | Failed \<Rightarrow> (begun, Inr None)
               | Timed_out \<Rightarrow>
                   (begun @ [Event ''fallback'' None ''single-flight wait timed out; compiling locally''], Inr None))"

section \<open>Storing\<close>

definition scope_text :: "invocation \<Rightarrow> captured \<Rightarrow> string" where
  "scope_text iv cap =
     (if cp_pinned cap
      then '' ('' @ output_kind_name (iv_kind iv) @ '' output, pinned to this checkout: it embeds the workspace or target path)''
      else '' ('' @ output_kind_name (iv_kind iv) @ '' output, shareable across checkouts)'')"

definition store_result :: "invocation \<Rightarrow> answers \<Rightarrow> captured \<Rightarrow> act list" where
  "store_result iv a cap =
     (let c = cp_candidate cap; opened = (case an_local a of Opened _ \<Rightarrow> True | _ \<Rightarrow> False)
      in (if opened then
            (if an_cache_ok a
             then [Keep_result c] @ (if an_local_only a
               then [Event ''store'' (Some (ac_action_key c)) (''stored compiler result'' @ scope_text iv cap)] else [])
             else [Event ''fallback'' None ''L1 publication failed''])
          else [])
         @ (if \<not> an_local_only a \<and> an_index a \<noteq> None then
              (case an_publish a of
                 Published \<Rightarrow> [Publish_result c,
                   Event ''store'' (Some (ac_action_key c)) (''published compiler result'' @ scope_text iv cap)]
               | Too_large \<Rightarrow> [Event ''not_stored'' None (''compiled but not stored remotely: an output exceeds the server'' @
                   [CHR 0x27] @ ''s blob size limit (kept in the local cache)'')]
               | Publish_failed \<Rightarrow> [Event ''fallback'' None ''upload failed after successful local compile''])
            else []))"

definition release_owned :: "identity \<Rightarrow> string option \<Rightarrow> act list" where
  "release_owned I token = (case token of None \<Rightarrow> [] | Some tok \<Rightarrow> [Release (id_static_key I) tok])"

datatype outcome = Restored action_candidate restored | Compiled nat | Passed | Error

definition compile_and_store :: "invocation \<Rightarrow> identity \<Rightarrow> answers \<Rightarrow> string option \<Rightarrow> act list \<times> outcome" where
  "compile_and_store iv I a token =
     (case an_compile a of
        Compile_error \<Rightarrow> (Run_compiler # release_owned I token, Error)
      | Compile_exit status captured \<Rightarrow>
          (Run_compiler
             # (if status = 0 \<and> \<not> an_read_only a
                then (case captured of None \<Rightarrow> [] | Some cap \<Rightarrow> store_result iv a cap) else [])
             @ release_owned I token, Compiled status))"

section \<open>The wrapper\<close>

definition local_search :: "'b tools \<Rightarrow> machine \<Rightarrow> invocation \<Rightarrow> identity \<Rightarrow> answers \<Rightarrow> act list \<times> found \<times> action_candidate list" where
  "local_search t h iv I a =
     (case an_local a of
        Disabled \<Rightarrow> ([], None, [])
      | Unopened \<Rightarrow> ([Event ''fallback'' None ''L1 is unavailable''], None, [])
      | Opened None \<Rightarrow> ([Event ''fallback'' None ''L1 index is unavailable or corrupt''], None, [])
      | Opened (Some cs) \<Rightarrow>
          (let (acts, found) = search_local t h (\<not> an_local_only a) iv I cs in (acts, found, cs)))"

definition remote_search :: "'b tools \<Rightarrow> machine \<Rightarrow> invocation \<Rightarrow> identity \<Rightarrow> answers \<Rightarrow> act list \<times> found \<times> action_candidate list" where
  "remote_search t h iv I a =
     (if an_local_only a then ([], None, [])
      else case an_index a of
        None \<Rightarrow> ([Event ''fallback'' None ''remote unavailable''], None, [])
      | Some cs \<Rightarrow>
          (let (acts, found) = search_remote t h (case an_local a of Opened _ \<Rightarrow> True | _ \<Rightarrow> False) iv I cs
           in (acts, found, cs)))"

definition miss :: "'b tools \<Rightarrow> machine \<Rightarrow> invocation \<Rightarrow> identity \<Rightarrow> answers \<Rightarrow> action_candidate list \<Rightarrow> action_candidate list \<Rightarrow>
    act list \<times> outcome" where
  "miss t h iv I a local_index index =
     (let l1 = (case an_local a of Opened _ \<Rightarrow> True | _ \<Rightarrow> False);
          missed = Event ''miss'' None (join ''; '' (miss_reasons t h I a local_index index));
          (acts, lease) = acquire_or_wait t h l1 iv I a index
      in case lease of
           Inl (c, out) \<Rightarrow> (missed # acts, Restored c out)
         | Inr token \<Rightarrow> (let (more, result) = compile_and_store iv I a token in (missed # acts @ more, result)))"

definition look_up :: "'b tools \<Rightarrow> machine \<Rightarrow> invocation \<Rightarrow> identity \<Rightarrow> answers \<Rightarrow> act list \<times> outcome" where
  "look_up t h iv I a =
     (let (acts, found, local_index) = local_search t h iv I a in
      case found of
        Some (c, out) \<Rightarrow> (acts, Restored c out)
      | None \<Rightarrow>
          (let (acts', found', index) = remote_search t h iv I a in
           case found' of
             Some (c, out) \<Rightarrow> (acts @ acts', Restored c out)
           | None \<Rightarrow> (let (more, result) = miss t h iv I a local_index index in (acts @ acts' @ more, result))))"

definition cache_or_compile :: "'b tools \<Rightarrow> machine \<Rightarrow> (invocation \<Rightarrow> identity_error + identity) \<Rightarrow> answers \<Rightarrow>
    string list \<Rightarrow> act list \<times> outcome" where
  "cache_or_compile t h build a raw =
     (case analyze h raw of
        Inl reason \<Rightarrow> ([Event ''bypass'' None (bypass_message reason), Pass_through], Passed)
      | Inr iv \<Rightarrow>
          (case build iv of
             Inl e \<Rightarrow> ([Event ''fallback'' None ''identity'', Pass_through], Passed)
           | Inr I \<Rightarrow>
               if \<not> an_local_only a \<and> \<not> an_remote_valid a
               then ([Event ''fallback'' None ''invalid remote configuration'', Pass_through], Passed)
               else look_up t h iv I a))"

text \<open>An error of the pipeline runs the official rustc once more.\<close>

definition rustc_wrapper :: "'b tools \<Rightarrow> machine \<Rightarrow> (invocation \<Rightarrow> identity_error + identity) \<Rightarrow> answers \<Rightarrow>
    string list \<Rightarrow> act list \<times> outcome" where
  "rustc_wrapper t h build a raw =
     (let (acts, result) = cache_or_compile t h build a raw
      in if result = Error
         then (acts @ [Event ''fallback'' None ''cache pipeline failed; retrying official rustc'', Pass_through], Passed)
         else (acts, result))"

end
