(* ===== verification/Cli_Candidate_Props.thy ===== *)
theory Cli_Candidate_Props
  imports Cli_Candidates Core_Records_Props Store_Props
begin

text \<open>
  What a restored result is worth: the batch fetch returns exactly the requested blobs, a source of
  verified blobs is a locale with the server and the local store as its two instances, and a restore
  writes what its manifest names. A candidate passes validation exactly when every recorded input is
  what it was.
\<close>

section \<open>The batch fetch\<close>

lemma all_some_eq: "all_some f xs = (if \<forall>x \<in> set xs. f x \<noteq> None then Some (map (\<lambda>x. the (f x)) xs) else None)"
  by (induction xs) (auto split: option.splits)

lemma set_unique_digests: "set (unique_digests blank seen ds) = set ds - insert blank seen"
  by (induction ds arbitrary: seen) auto

lemma distinct_unique_digests: "distinct (unique_digests blank seen ds)"
  by (induction ds arbitrary: seen) (auto simp: set_unique_digests)

lemma map_of_zip_map: "x \<in> set xs \<Longrightarrow> map_of (zip xs (map g xs)) x = Some (g x)"
  by (induction xs) auto

text \<open>While a digest is still wanted its blob is in the map, so neither \<open>expect\<close> can fail.\<close>

lemma hand_out_eq:
  assumes "\<forall>d. d \<noteq> blank \<longrightarrow> remaining d = length (filter ((=) d) ds)"
    and "\<forall>d \<in> set ds. d \<noteq> blank \<longrightarrow> by_digest d = Some (g d)"
  shows "hand_out blank remaining by_digest ds = Some (map (\<lambda>d. if d = blank then [] else g d) ds)"
  using assms
proof (induction ds arbitrary: remaining by_digest)
  case (Cons d ds)
  show ?case
  proof (cases "d = blank")
    case True
    then show ?thesis using Cons.prems by (simp add: Cons.IH)
  next
    case False
    let ?left = "remaining(d := remaining d - 1)"
    let ?by = "if remaining d - 1 = 0 then by_digest(d := None) else by_digest"
    have n: "remaining d = Suc (length (filter ((=) d) ds))" using Cons.prems(1) False by simp
    have gone: "remaining d - 1 = 0 \<Longrightarrow> d \<notin> set ds" using n by (auto simp: filter_empty_conv)
    have "hand_out blank ?left ?by ds = Some (map (\<lambda>d. if d = blank then [] else g d) ds)"
    proof (rule Cons.IH)
      show "\<forall>e. e \<noteq> blank \<longrightarrow> ?left e = length (filter ((=) e) ds)"
        using Cons.prems(1) n by (auto simp: fun_upd_apply)
      show "\<forall>e \<in> set ds. e \<noteq> blank \<longrightarrow> ?by e = Some (g e)"
        using Cons.prems(2) gone by auto
    qed
    then show ?thesis using False Cons.prems(2) n by simp
  qed
qed simp

definition blob_of :: "'b lib \<Rightarrow> (string \<Rightarrow> string option) \<Rightarrow> string \<Rightarrow> string option" where
  "blob_of L get d = (if d = l_hash L [] then Some [] else remote_blob L get d)"

lemma remote_blobs_eq:
  "remote_blobs L get ds =
     (if \<forall>d \<in> set ds. blob_of L get d \<noteq> None then Fetched (map (\<lambda>d. the (blob_of L get d)) ds) else Fetch_failed)"
proof (cases "\<forall>d \<in> set ds. blob_of L get d \<noteq> None")
  case True
  let ?b = "l_hash L []" let ?u = "unique_digests ?b {} ds" let ?g = "\<lambda>d. the (remote_blob L get d)"
  have got: "all_some (remote_blob L get) ?u = Some (map ?g ?u)"
  proof -
    have "remote_blob L get d \<noteq> None" if "d \<in> set ds" "d \<noteq> ?b" for d
      using bspec [OF True that(1)] that(2) by (simp add: blob_of_def)
    then show ?thesis by (auto simp: all_some_eq set_unique_digests)
  qed
  have "hand_out ?b (\<lambda>d. length (filter ((=) d) ds)) (map_of (zip ?u (map ?g ?u))) ds
      = Some (map (\<lambda>d. if d = ?b then [] else ?g d) ds)"
    by (rule hand_out_eq) (auto simp: set_unique_digests intro!: map_of_zip_map)
  moreover have "map (\<lambda>d. if d = ?b then [] else ?g d) ds = map (\<lambda>d. the (blob_of L get d)) ds"
    by (simp add: blob_of_def)
  ultimately show ?thesis using True got by (simp add: remote_blobs_def Let_def)
next
  case False
  then have "all_some (remote_blob L get) (unique_digests (l_hash L []) {} ds) = None"
    by (force simp: all_some_eq set_unique_digests blob_of_def split: if_splits)
  then show ?thesis using False by (simp add: remote_blobs_def Let_def)
qed

text \<open>
  The parallel batch fetch is the plain one-by-one fetch: deduplicating the digests, never
  requesting the empty blob and moving each blob out of the map at its last use changes nothing, the
  blobs come back in request order, and neither \<open>expect\<close> panics.
\<close>

theorem remote_blobs_exact:
  "remote_blobs L get digests =
     (case all_some (\<lambda>d. if d = l_hash L [] then Some [] else remote_blob L get d) digests of
        Some blobs \<Rightarrow> Fetched blobs | None \<Rightarrow> Fetch_failed)"
  by (simp add: remote_blobs_eq all_some_eq blob_of_def)

section \<open>Verified blobs\<close>

locale verified_blobs =
  fixes digest_of :: "string \<Rightarrow> string" and fetch :: "string list \<Rightarrow> string list option"
  assumes verified: "fetch ds = Some bs \<Longrightarrow> map digest_of bs = ds"
begin

lemma fetched_length: "fetch ds = Some bs \<Longrightarrow> length bs = length ds"
  using verified [of ds bs] by (metis length_map)

lemma fetched_nth: "fetch ds = Some bs \<Longrightarrow> i < length ds \<Longrightarrow> digest_of (bs ! i) = ds ! i"
  using verified [of ds bs] fetched_length [of ds bs] by (metis nth_map)

end

lemma remote_fetch_verified: "remote_fetch L get ds = Some bs \<Longrightarrow> map (l_hash L) bs = ds"
proof -
  assume a: "remote_fetch L get ds = Some bs"
  then have all: "\<forall>d \<in> set ds. blob_of L get d \<noteq> None" and bs: "bs = map (\<lambda>d. the (blob_of L get d)) ds"
    by (auto simp: remote_fetch_def remote_blobs_eq split: fetch.splits if_splits)
  have "l_hash L (the (blob_of L get d)) = d" if "d \<in> set ds" for d
    using all that by (auto simp: blob_of_def remote_blob_def split: option.splits if_splits)
  then show ?thesis by (simp add: bs map_idI)
qed

lemma read_stored_blobs_verified: "read_stored_blobs L st ds = Inr bs \<Longrightarrow> map (l_hash L) bs = ds"
  by (induction ds arbitrary: bs) (auto simp: read_blob_ok)

interpretation from_server: verified_blobs "l_hash L" "remote_fetch L get" for L :: "'b lib" and get
  by unfold_locales (rule remote_fetch_verified)

interpretation from_store: verified_blobs "l_hash L" "stored_fetch L st" for L :: "'b lib" and st :: "'b store"
  by unfold_locales (auto simp: stored_fetch_def read_stored_blobs_verified split: sum.splits)

section \<open>What a restore writes\<close>

text \<open>One output of a restore, for the artifact it belongs to.\<close>

definition output_ok :: "'b lib \<Rightarrow> machine \<Rightarrow> invocation \<Rightarrow> identity \<Rightarrow> action_candidate \<Rightarrow> artifact \<Rightarrow>
    string \<times> string \<times> bool \<Rightarrow> bool" where
  "output_ok L h iv I c a w =
     (case w of (path, bytes, executable) \<Rightarrow>
        allowed_output iv (ar_file_name a) \<and> CHR ''/'' \<notin> set (ar_file_name a)
        \<and> path = path_join (iv_out_dir iv) (ar_file_name a) \<and> executable = ar_executable a
        \<and> (\<exists>stored. l_hash L stored = ar_digest a \<and> bytes = output_bytes h I c (ar_file_name a) stored))"

definition restored_ok :: "'b lib \<Rightarrow> (string \<Rightarrow> json option) \<Rightarrow> (json \<Rightarrow> string) \<Rightarrow> machine \<Rightarrow> invocation \<Rightarrow> identity \<Rightarrow>
    action_candidate \<Rightarrow> restored \<Rightarrow> bool" where
  "restored_ok L P Q h iv I c out \<longleftrightarrow>
     candidate_ok L c
     \<and> list_all2 (output_ok L h iv I c) (ac_artifacts c) (rd_outputs out)
     \<and> (\<forall>e \<in> set (iv_expected iv). path_join (iv_out_dir iv) e \<in> fst ` set (rd_outputs out)
          \<or> suffix ''.rmeta'' e \<and> list_ex (suffix ''.rlib'') (iv_expected iv))
     \<and> (\<forall>(p, d) \<in> set (rd_remembered out). \<exists>b x. (p, b, x) \<in> set (rd_outputs out) \<and> l_hash L b = d)
     \<and> (\<exists>o1. l_hash L o1 = sa_digest (ac_stdout c) \<and> length o1 = sa_len (ac_stdout c)
          \<and> rd_stdout out = transform_compiler_stream P Q o1 (id_normalizer I) True)
     \<and> (\<exists>o2. l_hash L o2 = sa_digest (ac_stderr c) \<and> length o2 = sa_len (ac_stderr c)
          \<and> rd_stderr out = transform_compiler_stream P Q o2 (id_normalizer I) True)"

lemma candidate_ok_names: "candidate_ok L c \<Longrightarrow> a \<in> set (ac_artifacts c) \<Longrightarrow> CHR ''/'' \<notin> set (ar_file_name a)"
  by (auto simp: candidate_ok_def)

lemma candidate_ok_digest: "validate_candidate_manifest L c = Inr () \<Longrightarrow> candidate_ok L c"
  by (simp add: candidate_manifest_ok)

lemma replayed_streams:
  "rd_stdout (write_outputs P Q h iv I c blobs) =
     transform_compiler_stream P Q (blobs ! length (ac_artifacts c)) (id_normalizer I) True"
  "rd_stderr (write_outputs P Q h iv I c blobs) =
     transform_compiler_stream P Q (blobs ! (length (ac_artifacts c) + 1)) (id_normalizer I) True"
  by (simp_all add: write_outputs_def Let_def)

context verified_blobs
begin

lemma written_outputs:
  assumes "fetch (requested_digests c) = Some blobs" and "digest_of = l_hash L"
    and "\<forall>a \<in> set (ac_artifacts c). allowed_output iv (ar_file_name a) \<and> CHR ''/'' \<notin> set (ar_file_name a)"
  shows "list_all2 (output_ok L h iv I c) (ac_artifacts c) (rd_outputs (write_outputs P Q h iv I c blobs))"
proof (rule list_all2_all_nthI)
  have len: "length blobs = length (ac_artifacts c) + 2"
    using fetched_length [OF assms(1)] by (simp add: requested_digests_def)
  then show "length (ac_artifacts c) = length (rd_outputs (write_outputs P Q h iv I c blobs))"
    by (simp add: write_outputs_def Let_def)
  fix n assume n: "n < length (ac_artifacts c)"
  have "l_hash L (blobs ! n) = ar_digest (ac_artifacts c ! n)"
    using fetched_nth [OF assms(1), of n] n by (simp add: assms(2) requested_digests_def nth_append)
  then show "output_ok L h iv I c (ac_artifacts c ! n) (rd_outputs (write_outputs P Q h iv I c blobs) ! n)"
    using n len assms(3) by (auto simp: write_outputs_def Let_def output_ok_def)
qed

lemma remembered_outputs:
  assumes "fetch (requested_digests c) = Some blobs" and "digest_of = l_hash L"
    and r: "(p, d) \<in> set (rd_remembered (write_outputs P Q h iv I c blobs))"
  shows "\<exists>b x. (p, b, x) \<in> set (rd_outputs (write_outputs P Q h iv I c blobs)) \<and> l_hash L b = d"
proof -
  let ?n = "length (ac_artifacts c)"
  obtain a stored where m: "(a, stored) \<in> set (zip (ac_artifacts c) (take ?n blobs))"
    and pd: "\<not> suffix ''.d'' (ar_file_name a)" "p = path_join (iv_out_dir iv) (ar_file_name a)" "d = ar_digest a"
    using r by (auto simp: write_outputs_def Let_def)
  then obtain i where i: "i < ?n" "a = ac_artifacts c ! i" "stored = blobs ! i" by (auto simp: set_zip)
  then have "l_hash L stored = ar_digest a"
    using fetched_nth [OF assms(1), of i] by (simp add: assms(2) requested_digests_def nth_append)
  moreover have "(p, stored, ar_executable a) \<in> set (rd_outputs (write_outputs P Q h iv I c blobs))"
    using m pd by (force simp: write_outputs_def Let_def output_bytes_def)
  ultimately show ?thesis using pd by blast
qed

lemma output_destinations:
  assumes "fetch (requested_digests c) = Some blobs"
  shows "fst ` set (rd_outputs (write_outputs P Q h iv I c blobs)) = path_join (iv_out_dir iv) ` ar_file_name ` set (ac_artifacts c)"
proof -
  let ?n = "length (ac_artifacts c)"
  have len: "length (take ?n blobs) = ?n"
    using fetched_length [OF assms(1)] by (simp add: requested_digests_def)
  have "map fst (rd_outputs (write_outputs P Q h iv I c blobs))
      = map (\<lambda>a. path_join (iv_out_dir iv) (ar_file_name a)) (map fst (zip (ac_artifacts c) (take ?n blobs)))"
    by (simp add: write_outputs_def Let_def split_def)
  also have "map fst (zip (ac_artifacts c) (take ?n blobs)) = ac_artifacts c"
    by (rule map_fst_zip) (simp only: len)
  finally have "map fst (rd_outputs (write_outputs P Q h iv I c blobs))
      = map (\<lambda>a. path_join (iv_out_dir iv) (ar_file_name a)) (ac_artifacts c)" .
  from arg_cong [OF this, of set] show ?thesis by (simp add: image_image)
qed

lemma restore_with_ok:
  assumes r: "restore_with L P Q h iv I c fetch = Inr out" and hash: "digest_of = l_hash L"
  shows "restored_ok L P Q h iv I c out"
proof -
  let ?n = "length (ac_artifacts c)"
  from r obtain blobs where ok: "candidate_ok L c"
    and expected: "\<forall>e \<in> set (iv_expected iv). \<not> missing_expected iv c e"
    and allowed: "\<forall>a \<in> set (ac_artifacts c). allowed_output iv (ar_file_name a)"
    and got: "fetch (requested_digests c) = Some blobs"
    and streams: "length (blobs ! ?n) = sa_len (ac_stdout c)" "length (blobs ! (?n + 1)) = sa_len (ac_stderr c)"
    and out: "out = write_outputs P Q h iv I c blobs"
    by (auto simp: restore_with_def candidate_manifest_ok Let_def split: option.splits if_splits)
  have "list_all2 (output_ok L h iv I c) (ac_artifacts c) (rd_outputs out)"
    unfolding out by (rule written_outputs [OF got hash]) (use allowed ok candidate_ok_names in blast)
  moreover have "path_join (iv_out_dir iv) e \<in> fst ` set (rd_outputs out)
      \<or> suffix ''.rmeta'' e \<and> list_ex (suffix ''.rlib'') (iv_expected iv)" if "e \<in> set (iv_expected iv)" for e
    using expected that unfolding out output_destinations [OF got] missing_expected_def by blast
  moreover have "l_hash L (blobs ! ?n) = sa_digest (ac_stdout c)" "l_hash L (blobs ! (?n + 1)) = sa_digest (ac_stderr c)"
    using fetched_nth [OF got, of ?n] fetched_nth [OF got, of "?n + 1"]
    by (simp_all add: hash requested_digests_def nth_append)
  ultimately show ?thesis
    using ok streams remembered_outputs [OF got hash] unfolding restored_ok_def out
    by (auto simp: replayed_streams)
qed

end

text \<open>
  C10. Whichever store the blobs come from, a restore that succeeds writes exactly the outputs of a
  well-formed manifest: one per artifact, under the output directory, with no separator in its name,
  allowed for this unit, with the artifact's mode and bytes of the artifact's digest (localized for a
  dep-info file); every expected output is there (metadata may be folded into the rlib); every digest
  it remembers is the digest of the bytes written; and the replayed streams have the recorded digests
  and lengths.
\<close>

theorem restore_sound:
  assumes "restore L P Q h iv I c get = Inr out \<or> restore_l1 L P Q h iv I c st = Inr out"
  shows "restored_ok L P Q h iv I c out"
  using assms from_server.restore_with_ok from_store.restore_with_ok
  unfolding restore_def restore_l1_def by blast

section \<open>Validation\<close>

text \<open>The recorded inputs of a candidate are what they were, checked in no particular order.\<close>

definition env_current :: "'b lib \<Rightarrow> machine \<Rightarrow> identity \<Rightarrow> env_input \<Rightarrow> bool" where
  "env_current L h I e \<longleftrightarrow>
     (if prefix pin_prefix (ei_name e)
      then (\<exists>v. pin_value I (ei_name e) = Some v \<and> ei_value_digest (env_capture L (ei_name e) (Some v)) = ei_value_digest e)
      else ei_value_digest (actual_env L h I e) = ei_value_digest e)"

definition file_current :: "machine \<Rightarrow> (string \<Rightarrow> string option) \<Rightarrow> identity \<Rightarrow> file_input \<Rightarrow> bool" where
  "file_current h dig I f \<longleftrightarrow>
     dig (input_location I (fi_path f)) = Some (fi_digest f)
     \<and> \<not> (outside_checkout_roots (fi_path f) \<and> foreign_checkout h (input_location I (fi_path f)) (id_checkout I))"

definition host_file_current :: "machine \<Rightarrow> (string \<Rightarrow> string option) \<Rightarrow> identity \<Rightarrow> file_input \<Rightarrow> bool" where
  "host_file_current h dig I f \<longleftrightarrow>
     dig (fi_path f) = Some (fi_digest f) \<and> \<not> foreign_checkout h (fi_path f) (id_checkout I)"

definition inputs_current :: "'b lib \<Rightarrow> machine \<Rightarrow> (string \<Rightarrow> string option) \<Rightarrow> action_candidate \<Rightarrow> identity \<Rightarrow> bool" where
  "inputs_current L h dig c I \<longleftrightarrow>
     candidate_ok L c \<and> width_matches L I (ac_env c)
     \<and> (\<forall>e \<in> set (ac_env c). ei_name e \<noteq> diagnostic_width_input \<longrightarrow> env_current L h I e)
     \<and> (\<forall>f \<in> set (ac_files c). file_current h dig I f)
     \<and> (\<forall>f \<in> set (ac_host_files c). host_file_current h dig I f)"

lemma set_ordered_env: "set (ordered_env env) = {e \<in> set env. ei_name e \<noteq> diagnostic_width_input}"
  by (auto simp: ordered_env_def Let_def)

lemma check_env_input_ok: "check_env_input L h I e = Inr () \<longleftrightarrow> env_current L h I e"
  by (auto simp: check_env_input_def env_current_def is_pin_def split: option.splits)

lemma check_digest_ok: "check_digest dig p f = Inr () \<longleftrightarrow> dig p = Some (fi_digest f)"
  by (auto simp: check_digest_def split: option.splits)

lemma check_file_ok: "check_file h dig I f = Inr () \<longleftrightarrow> file_current h dig I f"
  by (auto simp: check_file_def file_current_def Let_def check_digest_ok)

lemma check_host_file_ok: "check_host_file h dig I f = Inr () \<longleftrightarrow> host_file_current h dig I f"
  by (auto simp: check_host_file_def host_file_current_def check_digest_ok)

lemma validated_iff: "validate_candidate L h dig c I = Inr () \<longleftrightarrow> inputs_current L h dig c I"
  by (auto simp: validate_candidate_def inputs_current_def candidate_manifest_ok set_ordered_env
      check_env_input_ok check_file_ok check_host_file_ok)


text \<open>An accepted candidate's action key is the key of the present contents of what it lists.\<close>

definition present_file :: "(string \<Rightarrow> string option) \<Rightarrow> (string \<Rightarrow> string) \<Rightarrow> file_input \<Rightarrow> file_input" where
  "present_file dig location f = f\<lparr>fi_digest := the (dig (location (fi_path f)))\<rparr>"

lemma accepted_key_is_present:
  assumes "validate_candidate L h dig c I = Inr ()"
  shows "ac_action_key c = compiler_action_key L (ac_static_key c)
     (map (present_file dig (input_location I)) (ac_files c))
     (map (present_file dig (\<lambda>p. p)) (ac_host_files c)) (ac_env c)"
proof -
  note cur = assms [unfolded validated_iff inputs_current_def]
  have "map (present_file dig (input_location I)) (ac_files c) = ac_files c"
    using cur by (intro map_idI) (auto simp: present_file_def file_current_def)
  moreover have "map (present_file dig (\<lambda>p. p)) (ac_host_files c) = ac_host_files c"
    using cur by (intro map_idI) (auto simp: present_file_def host_file_current_def)
  ultimately show ?thesis using cur by (simp add: candidate_ok_def)
qed

section \<open>Examples\<close>

definition ex_blobs :: "ex_doc store" where
  "ex_blobs = empty_store\<lparr>st_blobs := [ex_key \<mapsto> \<lparr>bf_bytes = ''data'', bf_modified = 5\<rparr>]\<rparr>"

definition ex_rlib_unit :: invocation where
  "ex_rlib_unit = \<lparr>iv_rustc = ''rustc'', iv_args = [], iv_crate_name = ''a'', iv_out_dir = ''/w/target'', iv_kind = Library,
     iv_naming = \<lparr>na_exe_suffix = [], na_dll_prefix = ''lib'', na_dll_suffix = ''.so'', na_msvc = False\<rparr>,
     iv_stems = [''a''], iv_expected = [''a.rlib'', ''a.rmeta''], iv_inputs = [], iv_proc_macros = [],
     iv_incremental = None, iv_unit = ''a'', iv_proc_macro_crate = False, iv_static_libraries = [],
     iv_native_search = [], iv_response_file = False\<rparr>"

definition ex_identity :: identity where
  "ex_identity = \<lparr>id_static_key = ex_key, id_normalizer = [], id_root_normalizer = [], id_workspace = ''/w'',
     id_fingerprint = \<lparr>fp_key = ex_key, fp_components = []\<rparr>, id_diagnostic_group = [], id_pins = [], id_virtual_env = [], id_checkout = None,
     id_diagnostic_width = None\<rparr>"

definition ex_host :: machine where
  "ex_host = \<lparr>ho_read = \<lambda>p. None, ho_is_file = \<lambda>p. False, ho_exists = \<lambda>p. False, ho_canonical = \<lambda>p. Some p,
     ho_links = \<lambda>p. Some False, ho_is_dir = \<lambda>p. False, ho_dir = \<lambda>p. None, ho_env = [], ho_cwd = Some ''/w'',
     ho_windows = False, ho_msvc = False, ho_apple = False\<rparr>"

lemma ex_plain_fields:
  "ac_artifacts ex_plain = [ex_artifact ''a.rlib'']" "ac_stdout ex_plain = \<lparr>sa_digest = ex_key, sa_len = 4\<rparr>"
  "ac_stderr ex_plain = \<lparr>sa_digest = ex_key, sa_len = 4\<rparr>" "ac_env ex_plain = []" "ac_files ex_plain = []"
  "ac_host_files ex_plain = []"
  by (simp_all add: ex_plain_def ex_candidate_def)

lemma ex_read_blob: "read_blob ex_codec ex_key ex_blobs = Inr ''data''"
  by (simp add: read_blob_ok ex_blobs_def ex_codec_def)

lemma ex_restored:
  "restore_l1 ex_codec P Q ex_host ex_rlib_unit ex_identity ex_plain ex_blobs =
     Inr (write_outputs P Q ex_host ex_rlib_unit ex_identity ex_plain [''data'', ''data'', ''data''])"
proof -
  have m: "validate_candidate_manifest ex_codec ex_plain = Inr ()"
    by (simp add: candidate_manifest_ok ex_candidates_ok)
  have f: "stored_fetch ex_codec ex_blobs (requested_digests ex_plain) = Some [''data'', ''data'', ''data'']"
    by (simp add: stored_fetch_def requested_digests_def ex_plain_fields ex_artifact_def ex_read_blob ex_key_def [symmetric])
  show ?thesis unfolding restore_l1_def restore_with_def m f
    by (simp add: ex_plain_fields missing_expected_def ex_rlib_unit_def allowed_output_def ex_artifact_def suffix_def Let_def)
qed

theorem restore_sound_witness:
  "restored_ok ex_codec (\<lambda>s. None) (\<lambda>j. []) ex_host ex_rlib_unit ex_identity ex_plain
     (write_outputs (\<lambda>s. None) (\<lambda>j. []) ex_host ex_rlib_unit ex_identity ex_plain [''data'', ''data'', ''data''])"
  by (rule restore_sound [OF disjI2, OF ex_restored])

lemma ex_validated: "validate_candidate ex_codec ex_host dig ex_plain ex_identity = Inr ()"
  by (simp add: validated_iff inputs_current_def ex_candidates_ok ex_plain_fields width_matches_def ex_identity_def)

end
