(* ===== verification/Cli_Invocation_Props.thy ===== *)
theory Cli_Invocation_Props
  imports Cli_Invocation
begin

text \<open>
  What an accepted command line guarantees: every output it must produce is one the invocation owns_output,
  nothing unmodelled is in its arguments, and a response file written for rustc is read back as the
  same arguments.
\<close>

section \<open>Accepted command lines\<close>

text \<open>The facts \<open>analyze\<close> has established when it returns an invocation.\<close>

lemma analyze_ok:
  assumes "analyze h raw = Inr iv"
  obtains rustc given args types emit extra where
    "raw = rustc # given" "expand_response_files h given = Inr args" "check_arguments h args = Inr ()"
    "types = crate_types args" "emit_kinds args = Inr emit" "\<not> has_unmodeled_codegen_inputs args"
    "iv_args iv = args" "iv_kind iv = kind_of emit types" "iv_rustc iv = rustc"
    "iv_kind iv = Linked \<Longrightarrow> plain_driver (driver_name rustc)"
    "iv_unit iv = iv_crate_name iv @ extra" "iv_stems iv = [iv_unit iv, ''lib'' @ iv_unit iv]"
    "iv_expected iv = expected_names (naming_for_target h (option_value args ''--target'')) (iv_unit iv) emit types"
proof (cases raw)
  case Nil
  then show thesis using assms by (simp add: analyze_def)
next
  case (Cons rustc given)
  with assms obtain args crate_name ns ls out_dir extra source externs macros emit where
    "expand_response_files h given = Inr args" "check_arguments h args = Inr ()" "emit_kinds args = Inr emit"
    "\<not> has_unmodeled_codegen_inputs args"
    "kind_of emit (crate_types args) \<noteq> Linked \<or> plain_driver (driver_name rustc)"
    "iv = \<lparr>iv_rustc = rustc, iv_args = args, iv_crate_name = crate_name, iv_out_dir = out_dir,
       iv_kind = kind_of emit (crate_types args), iv_naming = naming_for_target h (option_value args ''--target''),
       iv_stems = [crate_name @ extra, ''lib'' @ crate_name @ extra],
       iv_expected = expected_names (naming_for_target h (option_value args ''--target'')) (crate_name @ extra) emit (crate_types args),
       iv_inputs = source # externs, iv_proc_macros = macros, iv_incremental = codegen_value args ''incremental'',
       iv_unit = crate_name @ extra, iv_proc_macro_crate = ''proc-macro'' \<in> set (crate_types args),
       iv_static_libraries = ls, iv_native_search = ns, iv_response_file = list_ex (prefix ''@'') given\<rparr>"
    by (auto simp: analyze_def Let_def split: prod.splits)
  then show thesis using Cons that [of rustc given args "crate_types args" emit extra] by auto
qed

lemma owns_stem: "stem \<in> set (iv_stems iv) \<Longrightarrow> owns_output iv stem"
  by (auto simp: owns_output_def list_ex_iff strip_prefix_def)

lemma owns_dotted: "stem \<in> set (iv_stems iv) \<Longrightarrow> owns_output iv (stem @ CHR ''.'' # ext)"
  by (auto simp: owns_output_def list_ex_iff strip_prefix_def)

text \<open>A suffix is empty or starts with a dot, a library prefix is empty or \<open>lib\<close>.\<close>

lemma naming_cases:
  "na_exe_suffix (naming_for_target h t) \<in> {[], ''.wasm'', ''.exe''}"
  "na_dll_prefix (naming_for_target h t) \<in> {[], ''lib''}"
  "na_dll_suffix (naming_for_target h t) \<in> {''.wasm'', ''.dll'', ''.dylib'', ''.so''}"
  by (auto simp: naming_for_target_def Let_def split: option.splits prod.splits)

lemma expected_cases:
  assumes "n \<in> set (expected_names naming unit emit types)"
  obtains "n = unit @ ''.d''" | "n = ''lib'' @ unit @ ''.rmeta''" | "n = ''lib'' @ unit @ ''.rlib''"
    | "n = unit @ na_exe_suffix naming" | "n = na_dll_prefix naming @ unit @ na_dll_suffix naming"
  using assms by (auto simp: expected_names_def split: if_splits)

lemma expected_owned:
  assumes "analyze h raw = Inr iv" "n \<in> set (iv_expected iv)"
  shows "owns_output iv n"
proof -
  from assms(1) obtain naming emit types where
    stems: "iv_stems iv = [iv_unit iv, ''lib'' @ iv_unit iv]"
    and ex: "n \<in> set (expected_names naming (iv_unit iv) emit types)"
    and exe: "na_exe_suffix naming \<in> {[], ''.wasm'', ''.exe''}"
    and dll: "na_dll_prefix naming \<in> {[], ''lib''}" "na_dll_suffix naming \<in> {''.wasm'', ''.dll'', ''.dylib'', ''.so''}"
    using naming_cases assms(2) by (elim analyze_ok) metis
  let ?unit = "iv_unit iv"
  have unit: "owns_output iv (?unit @ CHR ''.'' # ext)" "owns_output iv ?unit"
    and lib: "owns_output iv (''lib'' @ ?unit @ CHR ''.'' # ext)" for ext
    using owns_dotted [of ?unit iv ext] owns_stem [of ?unit iv] owns_dotted [of "''lib'' @ ?unit" iv ext] stems by auto
  from ex show ?thesis
  proof (cases rule: expected_cases)
    case 4
    then show ?thesis using exe unit by auto
  next
    case 5
    then show ?thesis using dll unit lib by auto
  qed (use unit lib in auto)
qed

lemma dep_info_expected: "analyze h raw = Inr iv \<Longrightarrow> iv_unit iv @ ''.d'' \<in> set (iv_expected iv)"
  by (erule analyze_ok) (simp add: expected_names_def)

lemma accepted_arguments:
  assumes "check_arguments h args = Inr ()"
  shows "option_value args ''--sysroot'' = None" "unmodeled_unstable_flag args = None" "\<not> save_temps args"
  using assms by (auto simp: check_arguments_def split: option.splits)

text \<open>
  A command line the wrapper accepts is fully described: every output the compile must produce is one the
  invocation owns_output, dep-info is among them, only rustc itself links, and no custom sysroot, unknown unstable
  flag, temporary output or external codegen input is left in its arguments.
\<close>

theorem analyzed_outputs_are_owned:
  assumes "analyze h raw = Inr iv"
  shows "list_all (owns_output iv) (iv_expected iv) \<and> iv_unit iv @ ''.d'' \<in> set (iv_expected iv)
    \<and> (iv_kind iv = Linked \<longrightarrow> plain_driver (driver_name (iv_rustc iv)))
    \<and> option_value (iv_args iv) ''--sysroot'' = None \<and> unmodeled_unstable_flag (iv_args iv) = None
    \<and> \<not> save_temps (iv_args iv) \<and> \<not> has_unmodeled_codegen_inputs (iv_args iv)"
  using assms expected_owned [OF assms] dep_info_expected [OF assms]
  by (elim analyze_ok) (auto simp: list_all_iff accepted_arguments)

section \<open>Response files\<close>

lemma utf8_append: "utf8 a \<Longrightarrow> utf8 b \<Longrightarrow> utf8 (a @ b)"
proof (induction a rule: utf8.induct)
  case (2 x s)
  consider (one) "byte_in x 0 127" | (two) "\<not> byte_in x 0 127" "byte_in x 194 223"
    | (three) "\<not> byte_in x 0 127" "\<not> byte_in x 194 223" "byte_in x 224 239"
    | (four) "\<not> byte_in x 0 127" "\<not> byte_in x 194 223" "\<not> byte_in x 224 239" "byte_in x 240 244"
    using "2.prems" by (simp split: if_splits)
  then show ?case
  proof cases
    case one
    then show ?thesis using 2 by simp
  next
    case two
    then obtain c t where "s = c # t" "byte_in c 128 191" "utf8 t"
      using "2.prems" by (cases s) (simp_all del: not_le)
    then show ?thesis using two "2.IH"(2) [OF two] "2.prems" by simp
  next
    case three
    then obtain c d t where "s = c # d # t" "second_byte_ok x c" "byte_in d 128 191" "utf8 t"
      using "2.prems" by (simp del: not_le split: list.splits)
    then show ?thesis using three "2.IH"(3) [OF three] "2.prems" by simp
  next
    case four
    then obtain c d e t where "s = c # d # e # t" "second_byte_ok x c" "byte_in d 128 191" "byte_in e 128 191" "utf8 t"
      using "2.prems" by (simp del: not_le split: list.splits)
    then show ?thesis using four "2.IH"(4) [OF four] "2.prems" by simp
  qed
qed simp

lemma utf8_join: "list_all utf8 ws \<Longrightarrow> utf8 sep \<Longrightarrow> utf8 (join sep ws)"
proof -
  assume ws: "list_all utf8 ws" and sep: "utf8 sep"
  have "utf8 (concat (map (\<lambda>x. sep @ x) rest))" if "list_all utf8 rest" for rest
    using that sep by (induction rest) (auto intro!: utf8_append)
  then show ?thesis using ws by (cases ws) (auto simp: join_def intro!: utf8_append)
qed

lemma join_Cons: "rest \<noteq> [] \<Longrightarrow> join sep (w # rest) = w @ sep @ join sep rest"
  by (cases rest) (auto simp: join_def)

lemma split_inclusive_last: "w \<noteq> [] \<Longrightarrow> lf \<notin> set w \<Longrightarrow> split_inclusive w = [w]"
proof (induction w)
  case (Cons c w)
  then show ?case by (cases "w = []") auto
qed simp

lemma str_lines_last: "w \<noteq> [] \<Longrightarrow> lf \<notin> set w \<Longrightarrow> str_lines w = [w]"
  by (auto simp: str_lines_def split_inclusive_last strip_eol_def strip_suffix1_def dest: last_in_set)

lemma str_lines_join:
  assumes "\<forall>a \<in> set args. lf \<notin> set a \<and> (a = [] \<or> last a \<noteq> cr)" "args = [] \<or> last args \<noteq> []"
  shows "str_lines (join [lf] args) = args"
  using assms
proof (induction args)
  case (Cons w rest)
  show ?case
  proof (cases "rest = []")
    case True
    then show ?thesis using Cons.prems by (simp add: join_def str_lines_last)
  next
    case False
    then have "join [lf] (w # rest) = w @ lf # join [lf] rest" by (simp add: join_Cons)
    then show ?thesis using Cons False by (simp add: str_lines_line)
  qed
qed (simp add: join_def)

text \<open>
  When a compile goes through a response file, expanding that file gives back exactly the arguments, as long
  as none ends in a carriage return and the last is not empty.
\<close>

theorem response_file_roundtrip:
  assumes "rustc_command iv args = Inr text" and "ho_read h path = Some text" and "\<not> prefix ''shell:'' path"
    and "list_all (\<lambda>a. utf8 a \<and> (a = [] \<or> last a \<noteq> cr)) args" and "args = [] \<or> last args \<noteq> []"
  shows "expand_argument h (''@'' @ path) = Inr args"
proof -
  have joined: "text = join [lf] args" and lf: "\<forall>a \<in> set args. lf \<notin> set a"
    using assms(1) by (auto simp: rustc_command_def list_ex_iff split: if_splits)
  have "utf8 [lf]" by (rule utf8_ascii) (simp add: lf_def)
  moreover have "list_all utf8 args" using assms(4) by (simp add: list_all_iff)
  ultimately have "utf8 text" using joined utf8_join by blast
  moreover have "str_lines text = args"
    using str_lines_join [of args] assms(4,5) lf joined by (simp add: list_all_iff)
  ultimately show ?thesis
    using assms(2,3) by (simp add: expand_argument_def strip_prefix_def read_to_string_def)
qed

section \<open>Examples\<close>

definition ex_machine :: machine where
  "ex_machine = \<lparr>ho_read = (\<lambda>p. if p = ''/tmp/args'' then Some (''--crate-name'' @ [lf] @ ''demo'') else None),
     ho_is_file = (\<lambda>p. False), ho_exists = (\<lambda>p. p = ''src/lib.rs''), ho_canonical = (\<lambda>p. Some p),
     ho_links = (\<lambda>p. Some False), ho_is_dir = (\<lambda>p. False), ho_dir = (\<lambda>p. None), ho_env = [], ho_cwd = Some ''/w'',
     ho_windows = False, ho_msvc = False, ho_apple = False\<rparr>"

definition ex_raw :: "string list" where
  "ex_raw = [''rustc'', ''--crate-name'', ''demo'', ''src/lib.rs'', ''--crate-type'', ''lib'',
     ''--emit=dep-info,metadata,link'', ''-C'', ''extra-filename=-abc'', ''--out-dir'', ''/w/target/debug/deps'']"

definition ex_invocation :: invocation where
  "ex_invocation = \<lparr>iv_rustc = ''rustc'', iv_args = tl ex_raw, iv_crate_name = ''demo'',
     iv_out_dir = ''/w/target/debug/deps'', iv_kind = Library,
     iv_naming = \<lparr>na_exe_suffix = [], na_dll_prefix = ''lib'', na_dll_suffix = ''.so'', na_msvc = False\<rparr>,
     iv_stems = [''demo-abc'', ''libdemo-abc''],
     iv_expected = [''demo-abc.d'', ''libdemo-abc.rlib'', ''libdemo-abc.rmeta''], iv_inputs = [''src/lib.rs''],
     iv_proc_macros = [], iv_incremental = None, iv_unit = ''demo-abc'', iv_proc_macro_crate = False,
     iv_static_libraries = [], iv_native_search = [], iv_response_file = False\<rparr>"

lemma ex_analyze: "analyze ex_machine ex_raw = Inr ex_invocation"
  by code_simp

theorem analyzed_outputs_are_owned_witness:
  "list_all (owns_output ex_invocation) (iv_expected ex_invocation) \<and> unmodeled_unstable_flag (iv_args ex_invocation) = None"
  using analyzed_outputs_are_owned [OF ex_analyze] by simp

theorem response_file_roundtrip_witness:
  "expand_argument ex_machine (''@'' @ ''/tmp/args'') = Inr [''--crate-name'', ''demo'']"
  by (rule response_file_roundtrip [of "ex_invocation\<lparr>iv_response_file := True\<rparr>" _ "''--crate-name'' @ [lf] @ ''demo''"]; code_simp)

end
