(* ===== verification/Cli_Wrapper_Props.thy ===== *)
theory Cli_Wrapper_Props
  imports Cli_Wrapper Cli_Candidate_Props Cli_Invocation_Props
begin

text \<open>
  What the wrapper does, whatever the server, the stores, rustc and the clock answer: a result it
  restores was validated, a lease it is granted is given back exactly once, rustc runs unless a cached
  result was restored, only a successful result is stored, and waiting ends.
\<close>

section \<open>Effects\<close>

text \<open>What matters outside the process: leases, compiler runs, stored results.\<close>

fun effect :: "act \<Rightarrow> bool" where
  "effect (Acquire k) = True"
| "effect (Release k t) = True"
| "effect Run_compiler = True"
| "effect Pass_through = True"
| "effect (Keep_result c) = True"
| "effect (Publish_result c) = True"
| "effect _ = False"

definition effects :: "act list \<Rightarrow> act list" where "effects = filter effect"

lemma effects_simps [simp]:
  "effects [] = []" "effects (xs @ ys) = effects xs @ effects ys"
  "effects (a # xs) = (if effect a then a # effects xs else effects xs)"
  by (simp_all add: effects_def)

lemma kept_blobs_quiet [simp]: "effects (kept_blobs L get l1 r c) = []"
proof -
  have "effects (map (\<lambda>(d, b). Keep_blob d b) xs) = []" for xs by (induction xs) auto
  then show ?thesis by (simp add: kept_blobs_def Let_def split: option.split)
qed

lemma used_report_quiet [simp]: "\<not> effect (used_report c)"
  by (simp add: used_report_def)

text \<open>A search has no effect of its own, and what it finds is one of the candidates, validated and restored.\<close>

definition sound_hit :: "'b tools \<Rightarrow> machine \<Rightarrow> invocation \<Rightarrow> identity \<Rightarrow> action_candidate \<Rightarrow> restored \<Rightarrow> bool" where
  "sound_hit t h iv I c out \<longleftrightarrow>
     inputs_current (to_lib t) h (to_digest t) c I
     \<and> restored_ok (to_lib t) (to_parse t) (to_print t) h iv I c out"

lemma restore_ok: "restore L P Q h iv I c get = Inr out \<Longrightarrow> restored_ok L P Q h iv I c out"
  unfolding restore_def by (rule from_server.restore_with_ok) simp_all

lemma restore_l1_ok: "restore_l1 L P Q h iv I c st = Inr out \<Longrightarrow> restored_ok L P Q h iv I c out"
  unfolding restore_l1_def by (rule from_store.restore_with_ok) simp_all

lemma try_candidates_result:
  "try_candidates L S T P Q h dig get l1 iv I cs = (acts, r) \<Longrightarrow>
     effects acts = [] \<and> (\<forall>c out. r = Some (c, out) \<longrightarrow>
       c \<in> set cs \<and> inputs_current L h dig c I \<and> restored_ok L P Q h iv I c out)"
  by (induction cs arbitrary: acts r)
    (auto simp: Let_def restore_ok validated_iff split: sum.splits prod.splits if_splits)

lemma try_l1_candidates_result:
  "try_l1_candidates L S T P Q h dig st remote iv I cs = (acts, r) \<Longrightarrow>
     effects acts = [] \<and> (\<forall>c out. r = Some (c, out) \<longrightarrow>
       c \<in> set cs \<and> inputs_current L h dig c I \<and> restored_ok L P Q h iv I c out)"
  by (induction cs arbitrary: acts r)
    (auto simp: Let_def restore_l1_ok validated_iff split: sum.splits prod.splits if_splits)

lemma search_remote_result:
  "search_remote t h l1 iv I cs = (acts, r) \<Longrightarrow>
     effects acts = [] \<and> (\<forall>c out. r = Some (c, out) \<longrightarrow> c \<in> set cs \<and> sound_hit t h iv I c out)"
  unfolding search_remote_def sound_hit_def by (drule try_candidates_result) blast

lemma search_local_result:
  "search_local t h remote iv I cs = (acts, r) \<Longrightarrow>
     effects acts = [] \<and> (\<forall>c out. r = Some (c, out) \<longrightarrow> c \<in> set cs \<and> sound_hit t h iv I c out)"
  unfolding search_local_def sound_hit_def by (drule try_l1_candidates_result) blast

section \<open>Waiting\<close>

text \<open>The tokens among the server's lease replies.\<close>

fun granted :: "lease_reply list \<Rightarrow> string list" where
  "granted [] = []"
| "granted (Owned tok # rs) = tok # granted rs"
| "granted (_ # rs) = granted rs"

lemma retain_new_subset: "fst (retain_new checked cs) = fresh \<Longrightarrow> set fresh \<subseteq> set cs"
  by (induction cs arbitrary: checked fresh) (fastforce simp: Let_def split_def split: if_splits)+

lemma wait_loop_result:
  "wait_loop t h l1 iv I max_wait expires checked rs = (acts, w) \<Longrightarrow>
     \<exists>n \<le> length rs. effects acts = replicate n (Acquire (id_static_key I))
       \<and> granted (take n (map rn_reply rs)) = (case w of Got tok \<Rightarrow> [tok] | _ \<Rightarrow> [])
       \<and> (\<forall>c out. w = Found c out \<longrightarrow> sound_hit t h iv I c out)"
proof (induction rs arbitrary: checked acts w)
  case Nil
  then show ?case by auto
next
  case (Cons r rs)
  show ?case
  proof (cases "rn_elapsed r < max_wait \<and> rn_now r < expires")
    case False
    with Cons.prems have "acts = []" "w = Timed_out" by auto
    then show ?thesis by (intro exI [of _ 0]) auto
  next
    case True
    obtain fresh checked' where f: "(case rn_index r of None \<Rightarrow> ([], checked) | Some cs \<Rightarrow> retain_new checked cs) = (fresh, checked')"
      by fastforce
    obtain as found where s: "search_remote t h l1 iv I fresh = (as, found)" by fastforce
    note quiet = search_remote_result [OF s]
    show ?thesis
    proof (cases found)
      case (Some co)
      then obtain c out where co: "found = Some (c, out)" by (cases co) auto
      with Cons.prems True f s have "acts = as @ [Event ''single_flight'' None ''restored result published by lease owner'']"
        "w = Found c out" by auto
      then show ?thesis using quiet co by (intro exI [of _ 0]) auto
    next
      case None
      show ?thesis
      proof (cases "rn_reply r")
        case (Owned tok)
        then show ?thesis using Cons.prems True f s None quiet by (intro exI [of _ 1]) auto
      next
        case Lease_error
        then show ?thesis using Cons.prems True f s None quiet by (intro exI [of _ 1]) auto
      next
        case (Wait e)
        obtain more v where m: "wait_loop t h l1 iv I max_wait expires checked' rs = (more, v)" by fastforce
        with Cons.prems True f s None Wait have a: "acts = as @ [Acquire (id_static_key I)] @ more" "w = v" by auto
        from Cons.IH [OF m] obtain n where "n \<le> length rs" "effects more = replicate n (Acquire (id_static_key I))"
          "granted (take n (map rn_reply rs)) = (case v of Got tok \<Rightarrow> [tok] | _ \<Rightarrow> [])"
          "\<forall>c out. v = Found c out \<longrightarrow> sound_hit t h iv I c out" by blast
        then show ?thesis using a quiet Wait by (intro exI [of _ "Suc n"]) auto
      qed
    qed
  qed
qed

section \<open>Leases\<close>

text \<open>The replies in the order the wrapper asks for them.\<close>

definition replies :: "answers \<Rightarrow> lease_reply list" where
  "replies a = an_lease a # map rn_reply (an_rounds a)"

lemma acquire_or_wait_result:
  assumes "acquire_or_wait t h l1 iv I a index = (acts, r)"
  shows "\<exists>n. effects acts = replicate n (Acquire (id_static_key I))
    \<and> granted (take n (replies a)) = (case r of Inr (Some tok) \<Rightarrow> [tok] | _ \<Rightarrow> [])
    \<and> (\<forall>c out. r = Inl (c, out) \<longrightarrow> sound_hit t h iv I c out)"
proof (cases "an_local_only a \<or> an_index a = None")
  case True
  with assms have "acts = []" "r = Inr None" by (auto simp: acquire_or_wait_def)
  then show ?thesis by (intro exI [of _ 0]) auto
next
  case False
  show ?thesis
  proof (cases "an_lease a")
    case (Owned tok)
    then show ?thesis using assms False
      by (intro exI [of _ 1]) (auto simp: acquire_or_wait_def replies_def Let_def)
  next
    case Lease_error
    then show ?thesis using assms False
      by (intro exI [of _ 1]) (auto simp: acquire_or_wait_def replies_def Let_def)
  next
    case (Wait expires)
    let ?limit = "case bounded_timeout (an_max_wait a) 30000 0 600000 of Inr ms \<Rightarrow> ms | Inl _ \<Rightarrow> 0"
    obtain as w where l: "wait_loop t h l1 iv I ?limit expires (ac_action_key ` set index) (an_rounds a) = (as, w)" by fastforce
    from wait_loop_result [OF this] obtain n where
      n: "n \<le> length (an_rounds a)" "effects as = replicate n (Acquire (id_static_key I))"
        "granted (take n (map rn_reply (an_rounds a))) = (case w of Got tok \<Rightarrow> [tok] | _ \<Rightarrow> [])"
        "\<forall>c out. w = Found c out \<longrightarrow> sound_hit t h iv I c out" by blast
    have "effects acts = Acquire (id_static_key I) # effects as"
      "r = (case w of Found c out \<Rightarrow> Inl (c, out) | Got tok \<Rightarrow> Inr (Some tok) | _ \<Rightarrow> Inr None)"
      using assms False Wait l by (auto simp: acquire_or_wait_def Let_def split: waited.splits sum.splits)
    then show ?thesis using n Wait by (intro exI [of _ "Suc n"]) (auto simp: replies_def split: waited.splits)
  qed
qed

text \<open>What is stored after a successful compile.\<close>

definition stored :: "answers \<Rightarrow> act list" where
  "stored a =
     (case an_compile a of
        Compile_exit 0 (Some cap) \<Rightarrow>
          if an_read_only a then []
          else (if an_cache_ok a \<and> (\<exists>i. an_local a = Opened i) then [Keep_result (cp_candidate cap)] else [])
            @ (if \<not> an_local_only a \<and> an_index a \<noteq> None \<and> an_publish a = Published
               then [Publish_result (cp_candidate cap)] else [])
      | _ \<Rightarrow> [])"

lemma store_result_effects:
  "effects (store_result iv a cap) =
     (if an_cache_ok a \<and> (\<exists>i. an_local a = Opened i) then [Keep_result (cp_candidate cap)] else [])
     @ (if \<not> an_local_only a \<and> an_index a \<noteq> None \<and> an_publish a = Published
        then [Publish_result (cp_candidate cap)] else [])"
  by (auto simp: store_result_def Let_def split: local_cache.split publish_reply.split)

lemma compile_and_store_effects:
  assumes "compile_and_store iv I a token = (acts, r)"
  shows "effects acts = Run_compiler # stored a @ release_owned I token
    \<and> r = (case an_compile a of Compile_error \<Rightarrow> Error | Compile_exit s cap \<Rightarrow> Compiled s)"
proof -
  have "effects (release_owned I token) = release_owned I token" by (simp add: release_owned_def split: option.split)
  then show ?thesis using assms
    by (auto simp: compile_and_store_def stored_def store_result_effects
        split: compile_result.splits option.splits nat.splits if_splits)
qed

section \<open>The wrapper\<close>

text \<open>
  The effects of a whole run under a static key: \<open>n\<close> requests for the lease, the compile and what it
  stores, and the release of what was granted.
\<close>

definition run_effects :: "answers \<Rightarrow> string \<Rightarrow> nat \<Rightarrow> act list" where
  "run_effects a key n =
     replicate n (Acquire key) @ Run_compiler # stored a @ map (Release key) (granted (take n (replies a)))"

fun run_ok :: "'b tools \<Rightarrow> machine \<Rightarrow> invocation \<Rightarrow> identity \<Rightarrow> answers \<Rightarrow> act list \<Rightarrow> nat \<Rightarrow> outcome \<Rightarrow> bool" where
  "run_ok t h iv I a es n (Restored c out) \<longleftrightarrow>
     es = replicate n (Acquire (id_static_key I)) \<and> granted (take n (replies a)) = [] \<and> sound_hit t h iv I c out"
| "run_ok t h iv I a es n (Compiled s) \<longleftrightarrow>
     es = run_effects a (id_static_key I) n \<and> (\<exists>cap. an_compile a = Compile_exit s cap)"
| "run_ok t h iv I a es n Error \<longleftrightarrow> es = run_effects a (id_static_key I) n \<and> an_compile a = Compile_error"
| "run_ok t h iv I a es n Passed \<longleftrightarrow> False"

lemma miss_ok:
  assumes "miss t h iv I a li ri = (acts, r)"
  shows "\<exists>n. run_ok t h iv I a (effects acts) n r"
proof -
  let ?l1 = "case an_local a of Opened _ \<Rightarrow> True | _ \<Rightarrow> False"
  obtain as lease where l: "acquire_or_wait t h ?l1 iv I a ri = (as, lease)" by fastforce
  from acquire_or_wait_result [OF this] obtain n where n: "effects as = replicate n (Acquire (id_static_key I))"
    "granted (take n (replies a)) = (case lease of Inr (Some tok) \<Rightarrow> [tok] | _ \<Rightarrow> [])"
    "\<forall>c out. lease = Inl (c, out) \<longrightarrow> sound_hit t h iv I c out" by blast
  show ?thesis
  proof (cases lease)
    case (Inl co)
    then show ?thesis using assms l n by (cases co) (auto simp: miss_def Let_def intro!: exI [of _ n])
  next
    case (Inr token)
    obtain more w where c: "compile_and_store iv I a token = (more, w)" by fastforce
    note e = compile_and_store_effects [OF c]
    have "release_owned I token = map (Release (id_static_key I)) (granted (take n (replies a)))"
      using n(2) Inr by (simp add: release_owned_def split: option.splits)
    moreover have "acts = Event ''miss'' None (join ''; '' (miss_reasons t h I a li ri)) # as @ more" "r = w"
      using assms l c Inr by (auto simp: miss_def Let_def)
    ultimately show ?thesis using n e
      by (intro exI [of _ n]) (auto simp: run_effects_def split: compile_result.splits)
  qed
qed

lemma run_ok_hit: "effects as = [] \<Longrightarrow> sound_hit t h iv I c out \<Longrightarrow> \<exists>n. run_ok t h iv I a (effects as) n (Restored c out)"
  by (intro exI [of _ 0]) simp

lemma local_search_result:
  "local_search t h iv I a = (acts, r, cs) \<Longrightarrow>
     effects acts = [] \<and> (\<forall>c out. r = Some (c, out) \<longrightarrow> sound_hit t h iv I c out)"
  by (auto simp: local_search_def dest!: search_local_result split: local_cache.splits option.splits prod.splits)

lemma remote_search_result:
  "remote_search t h iv I a = (acts, r, cs) \<Longrightarrow>
     effects acts = [] \<and> (\<forall>c out. r = Some (c, out) \<longrightarrow> sound_hit t h iv I c out)"
  by (auto simp: remote_search_def dest!: search_remote_result split: option.splits prod.splits if_splits)

lemma look_up_ok:
  assumes "look_up t h iv I a = (acts, r)"
  shows "\<exists>n. run_ok t h iv I a (effects acts) n r"
proof -
  obtain as found li where l: "local_search t h iv I a = (as, found, li)" by (metis prod.exhaust)
  note lr = local_search_result [OF l]
  show ?thesis
  proof (cases found)
    case (Some co)
    then show ?thesis using assms l lr by (cases co) (auto simp: look_up_def intro!: run_ok_hit)
  next
    case None
    obtain bs found' ri where q: "remote_search t h iv I a = (bs, found', ri)" by (metis prod.exhaust)
    note rr = remote_search_result [OF q]
    show ?thesis
    proof (cases found')
      case (Some co)
      then show ?thesis using assms l None lr q rr
        by (cases co) (auto simp: look_up_def intro!: exI [of _ 0])
    next
      case no: None
      obtain more w where m: "miss t h iv I a li ri = (more, w)" by fastforce
      from miss_ok [OF this] show ?thesis using assms l None lr q rr no m by (auto simp: look_up_def)
    qed
  qed
qed

text \<open>Every run is a pass-through, or a look-up under its identity, or one whose capture failed and that reran rustc.\<close>

lemma wrapper_cases:
  assumes "rustc_wrapper t h build a raw = (acts, r)"
  obtains (passed) "effects acts = [Pass_through]" "r = Passed"
  | (run) iv I n where "analyze h raw = Inr iv" "build iv = Inr I" "run_ok t h iv I a (effects acts) n r" "r \<noteq> Error"
  | (retried) key n where "effects acts = run_effects a key n @ [Pass_through]" "r = Passed" "an_compile a = Compile_error"
proof (cases "analyze h raw")
  case (Inl e)
  then show ?thesis using assms passed by (auto simp: rustc_wrapper_def cache_or_compile_def)
next
  case iv: (Inr iv)
  show ?thesis
  proof (cases "build iv")
    case (Inl e)
    then show ?thesis using assms iv passed by (auto simp: rustc_wrapper_def cache_or_compile_def)
  next
    case I: (Inr I)
    show ?thesis
    proof (cases "\<not> an_local_only a \<and> \<not> an_remote_valid a")
      case True
      then show ?thesis using assms iv I passed by (auto simp: rustc_wrapper_def cache_or_compile_def)
    next
      case False
      obtain as w where l: "look_up t h iv I a = (as, w)" by fastforce
      from look_up_ok [OF this] obtain n where ok: "run_ok t h iv I a (effects as) n w" by blast
      have c: "cache_or_compile t h build a raw = (as, w)"
        using False iv I l by (auto simp: cache_or_compile_def)
      show ?thesis
      proof (cases "w = Error")
        case True
        then have "effects acts = run_effects a (id_static_key I) n @ [Pass_through]" "r = Passed" "an_compile a = Compile_error"
          using assms c ok by (auto simp: rustc_wrapper_def)
        then show ?thesis by (rule retried)
      next
        case False
        then show ?thesis using assms c iv I ok by (intro run [of iv I n]) (auto simp: rustc_wrapper_def)
      qed
    qed
  qed
qed


text \<open>Tokens given back, and requests made.\<close>

fun released :: "act list \<Rightarrow> string list" where
  "released [] = []"
| "released (Release k tok # as) = tok # released as"
| "released (_ # as) = released as"

fun asked :: "act list \<Rightarrow> nat" where
  "asked [] = 0"
| "asked (Acquire k # as) = Suc (asked as)"
| "asked (_ # as) = asked as"

lemma released_append [simp]: "released (as @ bs) = released as @ released bs"
  by (induction as rule: released.induct) auto

lemma asked_append [simp]: "asked (as @ bs) = asked as + asked bs"
  by (induction as rule: asked.induct) auto

lemma released_effects: "released (effects as) = released as"
  by (induction as rule: released.induct) auto

lemma asked_effects: "asked (effects as) = asked as"
  by (induction as rule: asked.induct) auto

lemma asked_replicate [simp]: "asked (replicate n (Acquire k)) = n" "released (replicate n (Acquire k)) = []"
  by (induction n) auto

lemma released_tokens [simp]: "released (map (Release k) ts) = ts" "asked (map (Release k) ts) = 0"
  by (induction ts) auto

lemma stored_silent [simp]: "released (stored a) = []" "asked (stored a) = 0"
  by (auto simp: stored_def split: compile_result.split nat.split option.split)

lemma asked_run [simp]:
  "asked (run_effects a key n) = n" "released (run_effects a key n) = granted (take n (replies a))"
  by (simp_all add: run_effects_def)

text \<open>The wrapper's effects split at its releases: the requests, rustc and what is stored come before.\<close>

definition ends_released :: "answers \<Rightarrow> act list \<Rightarrow> bool" where
  "ends_released a acts \<longleftrightarrow>
     (\<exists>before key after. effects acts = before @ map (Release key) (granted (take (asked acts) (replies a))) @ after
        \<and> released before = [] \<and> set after \<subseteq> {Pass_through})"

lemma ends_releasedI:
  assumes "effects acts = before @ map (Release key) (granted (take (asked acts) (replies a))) @ after"
    and "released before = []" and "set after \<subseteq> {Pass_through}"
  shows "ends_released a acts"
  using assms unfolding ends_released_def by blast

text \<open>
  C7. Every lease the server grants is given back exactly once, and no other: whatever the outcome, the tokens
  the wrapper releases are those among the replies to its requests, they come after rustc and after everything
  it stores, and only the rerun of the official rustc follows them.
\<close>

theorem leases_released:
  "released (fst (rustc_wrapper t h build a raw)) = granted (take (asked (fst (rustc_wrapper t h build a raw))) (replies a))
   \<and> ends_released a (fst (rustc_wrapper t h build a raw))"
proof -
  obtain acts r where w: "rustc_wrapper t h build a raw = (acts, r)" by fastforce
  have "released acts = granted (take (asked acts) (replies a)) \<and> ends_released a acts"
  proof (rule wrapper_cases [OF w])
    assume e: "effects acts = [Pass_through]"
    then have "released acts = []" "asked acts = 0"
      using released_effects [of acts] asked_effects [of acts] by auto
    then show ?thesis using e by (auto intro: ends_releasedI [of acts "[]" "[]"])
  next
    fix iv I n assume ok: "run_ok t h iv I a (effects acts) n r" and "r \<noteq> Error"
    let ?k = "id_static_key I"
    consider c out where "r = Restored c out" | s where "r = Compiled s"
      using ok \<open>r \<noteq> Error\<close> by (cases r) auto
    then show ?thesis
    proof cases
      case 1
      with ok have e: "effects acts = replicate n (Acquire ?k)" "granted (take n (replies a)) = []" by auto
      then have "asked acts = n" "released acts = []"
        using released_effects [of acts] asked_effects [of acts] by auto
      then show ?thesis using e by (auto intro: ends_releasedI [of acts "replicate n (Acquire ?k)" ?k a "[]"])
    next
      case 2
      with ok have e: "effects acts = run_effects a ?k n" by auto
      then have n: "asked acts = n" "released acts = granted (take n (replies a))"
        using released_effects [of acts] asked_effects [of acts] by auto
      have "ends_released a acts"
        by (rule ends_releasedI [of acts "replicate n (Acquire ?k) @ Run_compiler # stored a" ?k a "[]"])
          (simp_all add: e n run_effects_def)
      then show ?thesis using n by simp
    qed
  next
    fix key n assume e: "effects acts = run_effects a key n @ [Pass_through]"
    then have n: "asked acts = n" "released acts = granted (take n (replies a))"
      using released_effects [of acts] asked_effects [of acts] by auto
    have "ends_released a acts"
      by (rule ends_releasedI [of acts "replicate n (Acquire key) @ Run_compiler # stored a" key a "[Pass_through]"])
        (simp_all add: e n run_effects_def)
    then show ?thesis using n by simp
  qed
  then show ?thesis by (simp add: w)
qed

text \<open>How often rustc runs captured, and how often it is passed through.\<close>

definition compiles :: "act list \<Rightarrow> nat" where
  "compiles acts = length (filter (\<lambda>x. x = Run_compiler) (effects acts))"

definition passes :: "act list \<Rightarrow> nat" where
  "passes acts = length (filter (\<lambda>x. x = Pass_through) (effects acts))"

lemma filter_map_Release [simp]:
  "filter (\<lambda>x. x = Run_compiler) (map (Release k) ts) = []" "filter (\<lambda>x. x = Pass_through) (map (Release k) ts) = []"
  by (induction ts) auto

lemma filter_stored [simp]:
  "filter (\<lambda>x. x = Run_compiler) (stored a) = []" "filter (\<lambda>x. x = Pass_through) (stored a) = []"
  by (auto simp: stored_def split: compile_result.split nat.split option.split)

lemma filter_replicate_Acquire [simp]:
  "filter (\<lambda>x. x = Run_compiler) (replicate n (Acquire k)) = []" "filter (\<lambda>x. x = Pass_through) (replicate n (Acquire k)) = []"
  by (induction n) auto

text \<open>
  C21. A build always gets a result. The wrapper restores a hit without running rustc, or runs it once and
  returns its status, or passes the command through once; a failure of the pipeline is never the answer, it
  reruns the official rustc.
\<close>

theorem always_a_result:
  "case rustc_wrapper t h build a raw of
     (acts, Restored c out) \<Rightarrow> compiles acts = 0 \<and> passes acts = 0
   | (acts, Compiled status) \<Rightarrow> compiles acts = 1 \<and> passes acts = 0 \<and> (\<exists>cap. an_compile a = Compile_exit status cap)
   | (acts, Passed) \<Rightarrow> compiles acts \<le> 1 \<and> passes acts = 1 \<and> last (effects acts) = Pass_through
   | (acts, Error) \<Rightarrow> False"
proof -
  obtain acts r where w: "rustc_wrapper t h build a raw = (acts, r)" by fastforce
  show ?thesis unfolding w
    by (rule wrapper_cases [OF w]) (auto simp: compiles_def passes_def run_effects_def split: outcome.split)
qed


section \<open>Waiting ends\<close>

text \<open>The loop sleeps at least 50 ms between two evaluations of its condition, on a clock that never goes back.\<close>

fun spaced :: "nat \<Rightarrow> round list \<Rightarrow> bool" where
  "spaced earliest [] = True"
| "spaced earliest (r # rs) = (earliest \<le> rn_elapsed r \<and> spaced (rn_elapsed r + 50) rs)"

lemma spaced_mono: "spaced e rs \<Longrightarrow> e' \<le> e \<Longrightarrow> spaced e' rs"
  by (cases rs) auto

lemma bounded_timeout_range: "lo \<le> d \<Longrightarrow> d \<le> hi \<Longrightarrow> bounded_timeout v d lo hi = Inr ms \<Longrightarrow> lo \<le> ms \<and> ms \<le> hi"
  by (auto simp: bounded_timeout_def ok_or_def split: option.splits if_splits)

lemma wait_loop_enough:
  "spaced e (rs @ later) \<Longrightarrow> max_wait \<le> e + 50 * length rs \<Longrightarrow>
     wait_loop t h l1 iv I max_wait expires checked (rs @ later) = wait_loop t h l1 iv I max_wait expires checked rs"
proof (induction rs arbitrary: e checked)
  case Nil
  then show ?case by (cases later) auto
next
  case (Cons r rs)
  have "wait_loop t h l1 iv I max_wait expires k (rs @ later) = wait_loop t h l1 iv I max_wait expires k rs" for k
    by (rule Cons.IH [of "rn_elapsed r + 50"]) (use Cons.prems in auto)
  then show ?case by (simp only: append_Cons wait_loop.simps)
qed

lemma miss_reasons_rounds [simp]: "miss_reasons t h I (an_rounds_update f a) li ri = miss_reasons t h I a li ri"
  by (simp add: miss_reasons_def)

lemma compile_rounds [simp]: "compile_and_store iv I (an_rounds_update f a) token = compile_and_store iv I a token"
proof -
  have "store_result iv (an_rounds_update f a) cap = store_result iv a cap" for cap
    by (simp add: store_result_def Let_def split: local_cache.split publish_reply.split)
  then show ?thesis by (simp add: compile_and_store_def split: compile_result.split option.split)
qed

lemma search_rounds [simp]:
  "local_search t h iv I (an_rounds_update f a) = local_search t h iv I a"
  "remote_search t h iv I (an_rounds_update f a) = remote_search t h iv I a"
  by (simp_all add: local_search_def remote_search_def cong del: local_cache.case_cong_weak option.case_cong_weak)

lemma acquire_enough:
  assumes "spaced 0 (an_rounds a @ later)" and "12000 \<le> length (an_rounds a)"
  shows "acquire_or_wait t h l1 iv I (a\<lparr>an_rounds := an_rounds a @ later\<rparr>) ri = acquire_or_wait t h l1 iv I a ri"
proof -
  let ?limit = "case bounded_timeout (an_max_wait a) 30000 0 600000 of Inr ms \<Rightarrow> ms | Inl _ \<Rightarrow> 0"
  have "?limit \<le> 600000"
    using bounded_timeout_range [of 0 30000 600000 "an_max_wait a"] by (auto split: sum.split)
  then have "wait_loop t h l1 iv I ?limit e k (an_rounds a @ later) = wait_loop t h l1 iv I ?limit e k (an_rounds a)" for e k
    using assms by (intro wait_loop_enough [of 0]) auto
  then show ?thesis by (simp add: acquire_or_wait_def Let_def cong del: lease_reply.case_cong_weak)
qed


section \<open>Examples\<close>

text \<open>A compile whose result the local store holds.\<close>

definition ex_stored :: action_candidate where
  "ex_stored = ex_plain\<lparr>ac_artifacts := [ex_artifact ''demo-abc.d'', ex_artifact ''libdemo-abc.rlib'']\<rparr>"

definition ex_tools :: "ex_doc tools" where
  "ex_tools = \<lparr>to_lib = ex_codec, to_show_check = \<lambda>e. [], to_show_restore = \<lambda>e. [], to_parse = \<lambda>s. None,
     to_print = \<lambda>j. [], to_digest = \<lambda>p. None, to_get = \<lambda>d. None, to_store = ex_blobs\<rparr>"

definition ex_answers :: "answers" where
  "ex_answers = \<lparr>an_local_only = False, an_remote_valid = True, an_local = Opened (Some [ex_stored]), an_hint = [],
     an_index = Some [], an_lease = Owned ''token'', an_max_wait = None, an_rounds = [], an_compile = Compile_exit 0 None,
     an_read_only = False, an_cache_ok = True, an_publish = Published\<rparr>"

lemma ex_stored_ok: "candidate_ok ex_codec ex_stored"
proof -
  have "artifacts_ok [ex_artifact ''demo-abc.d'', ex_artifact ''libdemo-abc.rlib'']"
    using ex_key_ok by (simp add: artifacts_ok_def ex_artifact_def clean_def is_sep_def dotted_def ex_key_def)
  then show ?thesis using ex_candidates_ok(1)
    by (simp add: candidate_ok_def ex_stored_def max_candidate_artifacts_def ex_artifact_def)
qed

lemma ex_stored_fields:
  "ac_artifacts ex_stored = [ex_artifact ''demo-abc.d'', ex_artifact ''libdemo-abc.rlib'']"
  "ac_stdout ex_stored = ac_stdout ex_plain" "ac_stderr ex_stored = ac_stderr ex_plain" "ac_env ex_stored = []"
  "ac_files ex_stored = []" "ac_host_files ex_stored = []"
  by (simp_all add: ex_stored_def ex_plain_fields)

abbreviation ex_restored_out :: restored where
  "ex_restored_out \<equiv> write_outputs (\<lambda>s. None) (\<lambda>j. []) ex_machine ex_invocation ex_identity ex_stored
     [''data'', ''data'', ''data'', ''data'']"

lemma ex_stored_restored:
  "restore_l1 ex_codec (\<lambda>s. None) (\<lambda>j. []) ex_machine ex_invocation ex_identity ex_stored ex_blobs = Inr ex_restored_out"
proof -
  have m: "validate_candidate_manifest ex_codec ex_stored = Inr ()"
    by (simp add: candidate_manifest_ok ex_stored_ok)
  have f: "stored_fetch ex_codec ex_blobs (requested_digests ex_stored) = Some [''data'', ''data'', ''data'', ''data'']"
    by (simp add: stored_fetch_def requested_digests_def ex_stored_fields ex_plain_fields ex_artifact_def ex_read_blob
        ex_key_def [symmetric])
  show ?thesis unfolding restore_l1_def restore_with_def m f
    by (simp add: ex_stored_fields ex_plain_fields missing_expected_def ex_invocation_def allowed_output_def ex_artifact_def
        suffix_def Let_def)
qed

lemma ex_stored_validated: "validate_candidate ex_codec ex_machine dig ex_stored ex_identity = Inr ()"
  by (simp add: validated_iff inputs_current_def ex_stored_ok ex_stored_fields width_matches_def ex_identity_def)

lemma ex_hit:
  "\<exists>acts. rustc_wrapper ex_tools ex_machine (\<lambda>iv. Inr ex_identity) ex_answers ex_raw = (acts, Restored ex_stored ex_restored_out)"
proof -
  have "\<exists>acts. search_local ex_tools ex_machine remote ex_invocation ex_identity [ex_stored]
      = (acts, Some (ex_stored, ex_restored_out))" for remote
    by (simp add: search_local_def ex_tools_def ex_stored_validated ex_stored_restored)
  then obtain acts where "search_local ex_tools ex_machine True ex_invocation ex_identity [ex_stored]
      = (acts, Some (ex_stored, ex_restored_out))" by blast
  then show ?thesis
    by (simp add: rustc_wrapper_def cache_or_compile_def ex_analyze look_up_def local_search_def ex_answers_def)
qed


text \<open>A compile under a lease whose result is published.\<close>

definition ex_captured :: captured where
  "ex_captured = \<lparr>cp_candidate = ex_plain, cp_blobs = [], cp_pinned = False\<rparr>"

definition ex_cold :: answers where
  "ex_cold = ex_answers\<lparr>an_local := Disabled, an_compile := Compile_exit 0 (Some ex_captured)\<rparr>"

lemma ex_published:
  "\<exists>acts r. rustc_wrapper ex_tools ex_machine (\<lambda>iv. Inr ex_identity) ex_cold ex_raw = (acts, r)
     \<and> Publish_result ex_plain \<in> set acts"
  by (simp add: rustc_wrapper_def cache_or_compile_def ex_analyze look_up_def local_search_def remote_search_def
      search_remote_def ex_cold_def ex_answers_def miss_def acquire_or_wait_def compile_and_store_def store_result_def
      ex_captured_def Let_def)


definition ex_round :: "nat \<Rightarrow> round" where
  "ex_round k = \<lparr>rn_elapsed = 50 * k, rn_now = 50 * k, rn_index = None, rn_reply = Wait 1000000\<rparr>"

lemma ex_rounds_spaced: "spaced (50 * i) (map ex_round [i..<i + n])"
proof (induction n arbitrary: i)
  case (Suc n)
  have "[i..<i + Suc n] = i # [Suc i..<Suc i + n]" by (simp add: upt_conv_Cons)
  then show ?case using Suc.IH [of "Suc i"] by (simp add: ex_round_def add.commute del: upt_Suc)
qed simp

lemma ex_rounds_split: "map ex_round [0..<12000] @ map ex_round [12000..<12005] = map ex_round [0..<12005]"
  using upt_add_eq_append [of 0 12000 5] by simp


end
