(* ===== verification/Cli_Identity_Props.thy ===== *)
theory Cli_Identity_Props
  imports Cli_Identity Core_Records_Props Cli_Invocation_Props
begin

text \<open>
  What a static key commits to, and what it leaves out on purpose: the incremental directory, the
  terminal width, and the shell a compile was started from.
\<close>

section \<open>Framing\<close>

definition small_field :: "string \<times> string \<Rightarrow> bool" where
  "small_field f \<longleftrightarrow> length (fst f) \<le> u64_max \<and> length (snd f) \<le> u64_max"

lemma hash_field_inj:
  assumes "hash_field f @ x = hash_field g @ y" "small_field f" "small_field g"
  shows "f = g \<and> x = y"
proof -
  obtain n a m b where f: "f = (n, a)" and g: "g = (m, b)" by (cases f; cases g) auto
  have eq: "le64 (length n) @ n @ le64 (length a) @ a @ x = le64 (length m) @ m @ le64 (length b) @ b @ y"
    using assms(1) by (simp add: hash_field_def f g)
  then have "le64 (length n) = le64 (length m)" and r: "n @ le64 (length a) @ a @ x = m @ le64 (length b) @ b @ y"
    by (simp_all add: append_eq_append_conv)
  then have "length n = length m" using le64_inj assms(2,3) by (simp add: small_field_def f g)
  with r have "n = m" and r': "le64 (length a) @ a @ x = le64 (length b) @ b @ y"
    by (simp_all add: append_eq_append_conv)
  from r' have "le64 (length a) = le64 (length b)" and r'': "a @ x = b @ y"
    by (simp_all add: append_eq_append_conv)
  then have "length a = length b" using le64_inj assms(2,3) by (simp add: small_field_def f g)
  with r'' \<open>n = m\<close> show ?thesis by (simp add: append_eq_append_conv f g)
qed

lemma hash_field_nonempty: "hash_field f \<noteq> []"
  by (cases f) (simp add: hash_field_def le64_def)

lemma hash_fields_inj:
  assumes "concat (map hash_field fs) = concat (map hash_field gs)" "list_all small_field fs" "list_all small_field gs"
  shows "fs = gs"
  using assms
proof (induction fs arbitrary: gs)
  case Nil
  then show ?case using hash_field_nonempty by (cases gs) auto
next
  case (Cons f fs)
  then obtain g gs' where gs: "gs = g # gs'" using hash_field_nonempty by (cases gs) auto
  then have "f = g \<and> concat (map hash_field fs) = concat (map hash_field gs')"
    using Cons.prems by (intro hash_field_inj) auto
  then show ?case using Cons gs by auto
qed

section \<open>The fields of a static key\<close>

lemma segment_eq:
  assumes "xs @ r = ys @ s" "list_all p xs" "list_all p ys" "r = [] \<or> \<not> p (hd r)" "s = [] \<or> \<not> p (hd s)"
  shows "xs = ys \<and> r = s"
proof -
  have "takeWhile p (xs @ r) = xs" "takeWhile p (ys @ s) = ys"
    using assms(2-5) by (cases r; cases s; simp add: list_all_iff takeWhile_append)+
  with assms(1) show ?thesis by auto
qed

lemma output_kind_name_inj: "output_kind_name k = output_kind_name k' \<Longrightarrow> k = k'"
  by (cases k; cases k') auto

lemma map_prefix_inj: "map (\<lambda>(n, v). (p @ n, v)) xs = map (\<lambda>(n, v). (p @ n, v)) ys \<Longrightarrow> xs = ys"
proof (induction xs arbitrary: ys)
  case (Cons x xs)
  then show ?case by (cases ys) (auto split: prod.splits)
qed simp

lemma static_fields_inj:
  assumes eq: "static_fields k c a e l i = static_fields k' c' a' e' l' i'"
  shows "k = k' \<and> c = c' \<and> a = a' \<and> e = e' \<and> map snd l = map snd l' \<and> i = i'"
proof -
  let ?env = "map (\<lambda>(name, v). (''env:'' @ name, v))" and ?link = "map (\<lambda>(program :: string, found). (''linker-on-path'', found))"
  let ?in = "map (\<lambda>(path, digest). (''input:'' @ path, digest))" and ?remap = "(''remap'', remap_scheme)"
  from eq have kc: "output_kind_name k = output_kind_name k'" "c = c'"
    and r1: "map (Pair ''arg'') a @ ?remap # ?env e @ ?link l @ ?in i = map (Pair ''arg'') a' @ ?remap # ?env e' @ ?link l' @ ?in i'"
    by (simp_all add: static_fields_def)
  have "map (Pair ''arg'') a = map (Pair ''arg'') a' \<and> ?remap # ?env e @ ?link l @ ?in i = ?remap # ?env e' @ ?link l' @ ?in i'"
    by (rule segment_eq [OF r1, of "\<lambda>f. fst f = ''arg''"]) (auto simp: list_all_iff)
  then have args: "a = a'" and r2: "?env e @ ?link l @ ?in i = ?env e' @ ?link l' @ ?in i'"
    by (auto simp: map_injective inj_on_def)
  have "?env e = ?env e' \<and> ?link l @ ?in i = ?link l' @ ?in i'"
    by (rule segment_eq [OF r2, of "\<lambda>f. prefix ''env:'' (fst f)"])
      (auto simp: list_all_iff neq_Nil_conv hd_append hd_map split: prod.splits)
  then have env: "e = e'" and r3: "?link l @ ?in i = ?link l' @ ?in i'"
    using map_prefix_inj [of "''env:''" e e'] by blast+
  have "?link l = ?link l' \<and> ?in i = ?in i'"
    by (rule segment_eq [OF r3, of "\<lambda>f. fst f = ''linker-on-path''"])
      (auto simp: list_all_iff hd_map split: prod.splits)
  moreover have "map snd l = map snd (?link l)" for l by (induction l) auto
  ultimately have "map snd l = map snd l'" "i = i'"
    using map_prefix_inj [of "''input:''" i i'] by (metis, blast)
  with kc args env show ?thesis by (simp add: output_kind_name_inj)
qed

text \<open>
  C20. A static key commits to everything hashed into it: two compiles with the same key have the same output
  kind, compiler version, normalized arguments, keyed environment, linker on \<open>PATH\<close> and input paths with
  their digests, or the two different byte strings collide under BLAKE3. No field can run into the next.
\<close>

theorem static_key_commits:
  fixes k c a e l i k' c' a' e' l' i'
  defines "F \<equiv> static_fields k c a e l i" and "G \<equiv> static_fields k' c' a' e' l' i'"
  assumes "static_key_of L F = static_key_of L G" and "list_all small_field F" and "list_all small_field G"
  shows "(k = k' \<and> c = c' \<and> a = a' \<and> e = e' \<and> map snd l = map snd l' \<and> i = i')
     \<or> (concat (map hash_field F) \<noteq> concat (map hash_field G)
        \<and> l_hash L (concat (map hash_field F)) = l_hash L (concat (map hash_field G)))"
proof (cases "concat (map hash_field F) = concat (map hash_field G)")
  case True
  then have "F = G" by (rule hash_fields_inj [OF _ assms(4,5)])
  then show ?thesis using static_fields_inj unfolding F_def G_def by blast
next
  case False
  then show ?thesis using assms(3) by (simp add: static_key_of_def)
qed

section \<open>Scratch arguments\<close>

definition scratch :: "string list \<Rightarrow> bool" where
  "scratch x \<longleftrightarrow> (\<exists>v. x = [''-C'', ''incremental='' @ v] \<or> x = [''-Cincremental='' @ v]
     \<or> x = [''--diagnostic-width'', v] \<or> x = [''--diagnostic-width='' @ v])"

lemma normalize_scratch:
  assumes "scratch x" "as = [] \<or> last as \<notin> {''-C'', ''--diagnostic-width''}"
  shows "normalize_arguments f source pv (as @ x @ bs) = normalize_arguments f source pv (as @ bs)"
  using assms(2)
proof (induction f source pv as rule: normalize_arguments.induct)
  case (1 f source pv)
  show ?case using assms(1) by (auto simp: scratch_def)
next
  case (2 f source pv arg rest)
  show ?case
  proof (cases "rest = []")
    case True
    then have "arg \<noteq> ''-C''" "arg \<noteq> ''--diagnostic-width''" using "2.prems" by auto
    then show ?thesis using 2 True by simp
  next
    case False
    then obtain v vs where rest: "rest = v # vs" by (cases rest) auto
    have "tl rest = [] \<or> last (tl rest) \<notin> {''-C'', ''--diagnostic-width''}"
      "last rest \<notin> {''-C'', ''--diagnostic-width''}"
      using "2.prems" rest by (cases vs; simp)+
    then show ?thesis
      using "2.IH" rest by (simp del: normalize_arguments.simps add: normalize_arguments.simps(2) [of f source pv arg])
  qed
qed

text \<open>
  The incremental directory and the terminal width leave no trace in the keyed arguments: inserting either
  option, in any of its spellings, anywhere in a command line gives the same normalized arguments, so an
  incremental and a plain compile of one crate share one identity.
\<close>

theorem scratch_arguments_not_keyed:
  assumes "iv_args iv = as @ bs" and "scratch x" and "as = [] \<or> last as \<notin> {''-C'', ''--diagnostic-width''}"
  shows "normalized_compiler_arguments (iv\<lparr>iv_args := as @ x @ bs\<rparr>) N = normalized_compiler_arguments iv N"
  using assms by (simp add: normalized_compiler_arguments_def crate_root_def normalize_scratch)

section \<open>The environment\<close>

lemma map_of_fold_insert:
  "map_of (fold (\<lambda>(name, v). bt_insert name (g v)) kvs m) name =
     (case map_of (rev kvs) name of Some v \<Rightarrow> Some (g v) | None \<Rightarrow> map_of m name)"
  by (induction kvs arbitrary: m) (auto simp: map_add_def split: option.splits)

lemma bt_wf_fold_insert: "bt_wf m \<Longrightarrow> bt_wf (fold (\<lambda>(name, v). bt_insert name (g v)) kvs m)"
  by (induction kvs arbitrary: m) (auto simp: bt_wf_insert)

lemma rebuild_assoc: "distinct (map fst xs) \<Longrightarrow> map (\<lambda>k. (k, the (map_of xs k))) (map fst xs) = xs"
  unfolding map_map by (rule map_idI) (auto simp: comp_def)

lemma bt_wf_eqI:
  assumes "bt_wf m" "bt_wf n" "map_of m = map_of n"
  shows "m = n"
proof -
  have "fst ` set m = fst ` set n" using assms(3) by (metis dom_map_of_conv_image_fst)
  then have "map fst m = map fst n"
    using assms(1,2) by (intro strict_sorted_equal) (simp_all add: bt_wf_def)
  then show ?thesis
    using rebuild_assoc [OF bt_wf_distinct [OF assms(1)]] rebuild_assoc [OF bt_wf_distinct [OF assms(2)]] assms(3) by simp
qed

text \<open>What a Unix compile's keyed environment holds for a name: the last value \<open>env::vars\<close> lists, normalized.\<close>

definition keyed_name :: "path_use \<Rightarrow> string \<Rightarrow> bool" where
  "keyed_name u name \<longleftrightarrow> is_relevant_environment_name name \<and> name \<notin> set shell_environment
     \<and> (name = ''PATH'' \<longrightarrow> u = Whole_Path)"

lemma map_of_filter_names:
  "map_of (rev (filter (\<lambda>(n, v). p n) kvs)) name = (if p name then map_of (rev kvs) name else None)"
  by (induction kvs) (auto simp: map_add_def split: option.splits)

lemma map_of_fold_remove: "map_of (fold bt_remove names m) name = (if name \<in> set names then None else map_of m name)"
  by (induction names arbitrary: m) auto

lemma bt_wf_fold_remove: "bt_wf m \<Longrightarrow> bt_wf (fold bt_remove names m)"
  by (induction names arbitrary: m) (auto simp: bt_wf_remove)

lemma compile_environment_lookup:
  assumes "\<not> ho_windows h"
  shows "map_of (compile_environment h N u) name =
    (if keyed_name u name then map_option (normalize N) (map_of (rev (ho_env h)) name) else None)"
  using assms
  by (auto simp: compile_environment_def without_shell_def relevant_environment_def relevant_environment_of_def
      Let_def map_of_fold_remove map_of_fold_insert map_of_filter_names keyed_name_def
      split: option.splits)

lemma compile_environment_wf: "bt_wf (compile_environment h N u)"
  by (auto simp: compile_environment_def without_shell_def relevant_environment_def relevant_environment_of_def
      Let_def intro!: bt_wf_remove bt_wf_fold_remove bt_wf_fold_insert)

text \<open>
  The shell a build was started from does not change the keyed environment: two environments that agree on
  the relevant variables other than \<open>HOME\<close>, \<open>LANG\<close>, \<open>LC_ALL\<close> and \<open>TZ\<close> (and \<open>PATH\<close>, unless a linker may
  search it) give the same entries, in whatever order they are listed.
\<close>

theorem shell_does_not_change_key:
  assumes "\<not> ho_windows h" and "\<not> ho_windows h'"
    and "\<forall>name. keyed_name u name \<longrightarrow> map_of (rev (ho_env h)) name = map_of (rev (ho_env h')) name"
  shows "compile_environment h N u = compile_environment h' N u"
  using assms by (intro bt_wf_eqI compile_environment_wf) (auto simp: fun_eq_iff compile_environment_lookup)

section \<open>Windows names\<close>

lemma upper_of_lower: "ascii_upper (ascii_lower c) = ascii_upper c"
  by (auto simp: ascii_upper_def ascii_lower_def)

lemma same_upper: "to_ascii_lowercase a = to_ascii_lowercase b \<Longrightarrow> to_ascii_uppercase a = to_ascii_uppercase b"
proof -
  assume eq: "to_ascii_lowercase a = to_ascii_lowercase b"
  have "to_ascii_uppercase x = map ascii_upper (to_ascii_lowercase x)" for x
    by (simp add: to_ascii_uppercase_def to_ascii_lowercase_def comp_def upper_of_lower)
  then show ?thesis using eq by simp
qed

lemma environment_spelling_cong: "eq_ignore_ascii_case a b \<Longrightarrow> environment_spelling a = environment_spelling b"
  using same_upper [of a b] by (simp add: environment_spelling_def eq_ignore_ascii_case_def split: option.split)

section \<open>Examples\<close>

theorem static_key_commits_witness:
  "static_key_of ex_lib (static_fields Library ''v'' [''a'', ''b''] [] [] [])
     \<noteq> static_key_of ex_lib (static_fields Library ''v'' [''ab''] [] [] [])"
  using static_key_commits [of ex_lib Library "''v''" "[''a'', ''b'']" "[]" "[]" "[]" Library "''v''" "[''ab'']" "[]" "[]" "[]"]
  by (auto simp: ex_lib_def small_field_def static_fields_def u64_max_def dec_string.simps protocol_version_def digit_char_def
      dep_info_format_def remap_scheme_def static_key_of_def)

theorem scratch_arguments_not_keyed_witness:
  "normalized_compiler_arguments
     (ex_invocation\<lparr>iv_args := take 1 (tl ex_raw) @ [''-C'', ''incremental=/w/inc''] @ drop 1 (tl ex_raw)\<rparr>) []
   = normalized_compiler_arguments ex_invocation []"
  by (rule scratch_arguments_not_keyed) (auto simp: ex_invocation_def ex_raw_def scratch_def)

definition ex_shell :: machine where
  "ex_shell = ex_machine\<lparr>ho_env := [(''LANG'', ''C''), (''CC'', ''gcc''), (''HOME'', ''/home/u'')]\<rparr>"

definition ex_other_shell :: machine where
  "ex_other_shell = ex_machine\<lparr>ho_env := [(''CC'', ''gcc''), (''TZ'', ''UTC'')]\<rparr>"

theorem shell_does_not_change_key_witness:
  "compile_environment ex_shell [] No_Path = compile_environment ex_other_shell [] No_Path"
  by (rule shell_does_not_change_key)
    (auto simp: ex_shell_def ex_other_shell_def ex_machine_def keyed_name_def shell_environment_def)

end
