(* ===== verification/Cli_Capture.thy ===== *)
theory Cli_Capture
  imports Cli_Wrapper Cli_Archive
begin

text \<open>
  Capturing a successful compile (\<open>compile_and_capture\<close>, \<open>capture_outputs\<close> in \<open>main.rs\<close>): the
  arguments rustc runs with, the outputs it left, the checkout roots they embed, the inputs and
  environment recorded with them, and the candidate these make.
\<close>

section \<open>Errors\<close>

text \<open>The constructors down to \<open>TooManyInputs\<close> are \<open>NotStored\<close>: the result is deliberately not kept.\<close>

datatype capture_error =
    ReusedSession | NonFileOutput string | ReadsOtherCheckout string | ChangedDuringCompile string
  | UndeclaredMember string | TooManyInputs
  | OutputAbsent string | OutputUnreadable string | DirectoryUnreadable | DepInfoNotUtf8 | NoDepInfo
  | BadArchive ar_error | LibraryProblem identity_error | InputGone string
  | BadCompilerInput input_error | NoInputDigest string | BadLinkCommand link_error
  | NoSysroot | BadCandidate check_error

fun deliberate :: "capture_error \<Rightarrow> bool" where
  "deliberate ReusedSession = True"
| "deliberate (NonFileOutput n) = True"
| "deliberate (ReadsOtherCheckout p) = True"
| "deliberate (ChangedDuringCompile p) = True"
| "deliberate (UndeclaredMember n) = True"
| "deliberate TooManyInputs = True"
| "deliberate _ = False"

section \<open>Arguments of the compile\<close>

definition unit_incremental :: "invocation \<Rightarrow> identity \<Rightarrow> string option" where
  "unit_incremental iv I =
     map_option (\<lambda>dir. path_join (absolute_path dir (id_workspace I))
        (iv_crate_name iv @ ''-bellows''
          @ (case strip_prefix (iv_crate_name iv) (iv_unit iv) of Some extra \<Rightarrow> extra | None \<Rightarrow> [])))
       (iv_incremental iv)"

definition reused_session :: "machine \<Rightarrow> invocation \<Rightarrow> identity \<Rightarrow> bool" where
  "reused_session h iv I =
     (case unit_incremental iv I of
        None \<Rightarrow> False
      | Some dir \<Rightarrow> (case ho_dir h dir of Some (e # es) \<Rightarrow> True | _ \<Rightarrow> False))"

fun rewrite_incremental :: "string option \<Rightarrow> bool \<Rightarrow> string list \<Rightarrow> string list" where
  "rewrite_incremental dir rewrite_next [] = []"
| "rewrite_incremental dir rewrite_next (arg # args) =
     (let replacement = map_option (\<lambda>d. ''incremental='' @ d) dir
      in if rewrite_next \<and> prefix ''incremental='' arg
         then (case replacement of Some r \<Rightarrow> r | None \<Rightarrow> arg) # rewrite_incremental dir False args
         else if prefix ''-Cincremental='' arg
         then (''-C'' @ (case replacement of Some r \<Rightarrow> r | None \<Rightarrow> drop 2 arg)) # rewrite_incremental dir False args
         else arg # rewrite_incremental dir (arg = ''-C'') args)"

text \<open>\<open>record\<close> is the file rustc writes the linker command to.\<close>

definition compile_arguments :: "machine \<Rightarrow> invocation \<Rightarrow> identity \<Rightarrow> string \<Rightarrow> string list" where
  "compile_arguments h iv I record =
     rewrite_incremental (unit_incremental iv I) False (iv_args iv)
     @ concat (map (\<lambda>(sp, v). [''--remap-path-prefix'', sp @ ''='' @ v]) (remap_plan h I))
     @ (if iv_kind iv = Linked then [''--print=link-args='' @ record] else [])"

section \<open>Timestamps\<close>

text \<open>In nanoseconds since the epoch; \<open>stamps\<close> gives modification and change time, \<open>None\<close> without metadata.\<close>

type_synonym stamps = "string \<Rightarrow> (nat option \<times> nat option) option"

definition timestamp_slack :: "nat \<Rightarrow> nat" where
  "timestamp_slack stamp = (if stamp mod 1000000000 = 0 then 2000000000 else 50000000)"

definition stamp_recent :: "nat \<Rightarrow> nat option \<Rightarrow> bool" where
  "stamp_recent started stamp =
     (case stamp of None \<Rightarrow> True | Some t \<Rightarrow> started \<le> t + timestamp_slack t)"

definition changed_during_compile :: "stamps \<Rightarrow> nat \<Rightarrow> string \<Rightarrow> bool" where
  "changed_during_compile stamps started path =
     (case stamps path of
        None \<Rightarrow> True
      | Some (modified, changed) \<Rightarrow> stamp_recent started modified \<or> stamp_recent started changed)"

section \<open>Outputs\<close>

text \<open>An entry of the output directory: name, whether it is a regular file, modification time.\<close>

type_synonym dir_entry = "string \<times> bool \<times> nat option"

definition fresh_entry :: "invocation \<Rightarrow> nat \<Rightarrow> dir_entry \<Rightarrow> bool" where
  "fresh_entry iv started = (\<lambda>(name, is_file, modified).
     utf8 name \<and> owns_output iv name \<and> (case modified of None \<Rightarrow> False | Some t \<Rightarrow> started \<le> t + 2000000000))"

definition discover_linked_outputs :: "invocation \<Rightarrow> nat \<Rightarrow> dir_entry list option \<Rightarrow> capture_error + string list" where
  "discover_linked_outputs iv started entries =
     r_bind (ok_or entries DirectoryUnreadable) (\<lambda>es.
       let fresh = filter (fresh_entry iv started) es;
           names = sort (remdups (map fst fresh))
       in r_then (check_all (\<lambda>(name, is_file, _). ensure is_file (NonFileOutput name)) fresh)
         (r_then (check_all (\<lambda>e. ensure (e \<in> set names) (OutputAbsent e)) (iv_expected iv))
           (Inr names)))"

section \<open>Members of an rlib\<close>

definition foreign_member :: "string \<Rightarrow> bool" where
  "foreign_member name \<longleftrightarrow> name \<noteq> ''lib.rmeta'' \<and> \<not> suffix ''.rcgu.o'' name \<and> \<not> prefix ''/'' name"

definition archive_names :: "machine \<Rightarrow> (string \<Rightarrow> string) \<Rightarrow> string \<Rightarrow> string list" where
  "archive_names h lossy path =
     (case ho_read h path of
        None \<Rightarrow> []
      | Some bytes \<Rightarrow> (case member_names lossy bytes of Inr names \<Rightarrow> names | Inl _ \<Rightarrow> []))"

definition searched_archive_members :: "machine \<Rightarrow> (string \<Rightarrow> string) \<Rightarrow> string list \<Rightarrow> string list" where
  "searched_archive_members h lossy dirs =
     map to_ascii_lowercase (concat (map (archive_names h lossy) (filter (ho_is_file h)
       (concat (map (\<lambda>dir. case ho_dir h dir of None \<Rightarrow> [] | Some ns \<Rightarrow> map (path_join dir) ns) dirs)))))"

definition is_dll :: "string \<Rightarrow> bool" where
  "is_dll name \<longleftrightarrow> suffix ''.dll'' (to_ascii_lowercase name)"

definition check_bundled_members :: "machine \<Rightarrow> (string \<Rightarrow> string) \<Rightarrow> invocation \<Rightarrow> string \<Rightarrow> string \<Rightarrow> capture_error + unit" where
  "check_bundled_members h lossy iv rlib workspace =
     r_bind (map_err BadArchive (member_names lossy rlib)) (\<lambda>names.
       let declared = concat (map (archive_names h lossy)
             (case resolve_static_libraries h iv workspace of Inr libs \<Rightarrow> libs | Inl _ \<Rightarrow> []));
           undeclared = filter (\<lambda>n. n \<notin> set declared) (sort (remdups (filter foreign_member names)));
           searched = (if list_ex is_dll undeclared then searched_archive_members h lossy (iv_native_search iv) else [])
       in case find (\<lambda>n. \<not> is_dll n \<or> to_ascii_lowercase n \<in> set searched) undeclared of
            Some n \<Rightarrow> Inl (UndeclaredMember n)
          | None \<Rightarrow> Inr ())"

section \<open>Reading the outputs\<close>

definition leak_tokens :: "string list" where
  "leak_tokens = [''$CHECKOUT'', ''$WORKSPACE'', ''$TARGET'']"

definition scanner_for :: "identity \<Rightarrow> string \<Rightarrow> scanner" where
  "scanner_for I token = new_scanner (spellings (id_root_normalizer I) token)"

definition program_database :: "invocation \<Rightarrow> string \<Rightarrow> bool" where
  "program_database iv name \<longleftrightarrow>
     iv_kind iv = Linked \<and> list_ex (\<lambda>e. suffix e (to_ascii_lowercase name)) [''.pdb'', ''.exp'', ''.lib'']"

definition leaked_tokens :: "invocation \<Rightarrow> identity \<Rightarrow> string \<Rightarrow> string \<Rightarrow> string list" where
  "leaked_tokens iv I name raw =
     filter (\<lambda>token. if program_database iv name then leaks_in_program_database (scanner_for I token) raw
        else leaks (scanner_for I token) raw) leak_tokens"

record captured_output =
  ou_name :: string
  ou_raw :: string
  ou_stored :: string
  ou_executable :: bool

text \<open>\<open>exec\<close> is \<open>is_executable\<close>.\<close>

definition read_output :: "machine \<Rightarrow> (string \<Rightarrow> string) \<Rightarrow> (string \<Rightarrow> bool option) \<Rightarrow> invocation \<Rightarrow> identity \<Rightarrow>
    string list \<Rightarrow> string \<Rightarrow> capture_error + captured_output list" where
  "read_output h lossy exec iv I names name =
     (let path = path_join (iv_out_dir iv) name in
      if \<not> ho_is_file h path then
        (if suffix ''.rmeta'' name \<and> list_ex (suffix ''.rlib'') names then Inr [] else Inl (OutputAbsent path))
      else r_bind (ok_or (ho_read h path) (OutputUnreadable path)) (\<lambda>raw.
        r_then (if suffix ''.d'' name then ensure (utf8 raw) DepInfoNotUtf8
                else if suffix ''.rlib'' name then check_bundled_members h lossy iv raw (id_workspace I) else Inr ())
        (r_bind (ok_or (exec path) (OutputUnreadable path)) (\<lambda>x.
          Inr [\<lparr>ou_name = name, ou_raw = raw,
            ou_stored = (if suffix ''.d'' name then transform_dep_info raw (id_normalizer I) False else raw),
            ou_executable = x\<rparr>]))))"

definition leaked_roots :: "invocation \<Rightarrow> identity \<Rightarrow> captured_output list \<Rightarrow> string list" where
  "leaked_roots iv I outs =
     filter (\<lambda>token. list_ex (\<lambda>w. \<not> suffix ''.d'' (ou_name w) \<and> token \<in> set (leaked_tokens iv I (ou_name w) (ou_raw w))) outs)
       leak_tokens"

section \<open>Inputs\<close>

definition record_input :: "machine \<Rightarrow> (string \<Rightarrow> string option) \<Rightarrow> stamps \<Rightarrow> nat \<Rightarrow> identity \<Rightarrow> string \<Rightarrow>
    capture_error + (file_input list \<times> file_input list)" where
  "record_input h D stamps started I absolute =
     (let normalized = normalize (id_normalizer I) absolute in
      r_then (ensure (\<not> (outside_checkout_roots normalized \<and> foreign_checkout h absolute (id_checkout I)))
        (ReadsOtherCheckout absolute))
      (r_then (ensure ((prefix ''$TARGET'' normalized \<or> prefix ''$PROFILE'' normalized)
          \<or> \<not> changed_during_compile stamps started absolute) (ChangedDuringCompile absolute))
      (r_bind (ok_or (D absolute) (NoInputDigest absolute)) (\<lambda>digest.
        if validate_normalized_input_path normalized = Inr ()
        then Inr ([\<lparr>fi_path = normalized, fi_digest = digest\<rparr>], [])
        else Inr ([], [\<lparr>fi_path = absolute, fi_digest = digest\<rparr>])))))"

definition dependency_input :: "machine \<Rightarrow> identity \<Rightarrow> string \<Rightarrow> capture_error + string" where
  "dependency_input h I path =
     (let absolute = absolute_path path (id_workspace I)
      in r_then (ensure (ho_is_file h absolute) (InputGone absolute))
           (map_err BadCompilerInput (canonical_compiler_input h absolute)))"

text \<open>This unit's own outputs, which the linker command names.\<close>

definition own_output :: "invocation \<Rightarrow> string \<Rightarrow> bool" where
  "own_output iv path \<longleftrightarrow>
     (case path_parent path of None \<Rightarrow> False | Some d \<Rightarrow> path_eq d (iv_out_dir iv))
     \<and> (case path_file_name path of None \<Rightarrow> False | Some n \<Rightarrow> utf8 n \<and> owns_output iv n)"

text \<open>The files a link read, outside the toolchain; \<open>sysroot\<close> is what rustc printed.\<close>

definition linker_inputs :: "machine \<Rightarrow> runs \<Rightarrow> string option \<Rightarrow> invocation \<Rightarrow> identity \<Rightarrow> string \<Rightarrow> capture_error + string list" where
  "linker_inputs h run sysroot iv I text =
     r_bind (map_err BadLinkCommand (parse_link_command text)) (\<lambda>command.
     r_bind (ok_or sysroot NoSysroot) (\<lambda>given.
       let root = canonical_base h given;
           x = \<lparr>lx_cwd = id_workspace I, lx_msvc = na_msvc (iv_naming iv), lx_sysroot = root, lx_outputs = own_output iv\<rparr>
       in r_bind (map_err BadLinkCommand (link_inputs h run command x)) (\<lambda>fs.
            Inr (filter (\<lambda>p. \<not> path_starts_with p root)
              (map (\<lambda>p. canonical_base h (absolute_path p (id_workspace I))) fs)))))"

definition sort_inputs :: "file_input list \<Rightarrow> file_input list" where
  "sort_inputs fs = dedup_by fi_path (sort_key fi_path fs)"

definition own_inputs :: "machine \<Rightarrow> (string \<Rightarrow> string option) \<Rightarrow> stamps \<Rightarrow> nat \<Rightarrow> identity \<Rightarrow> string list \<Rightarrow>
    capture_error + (file_input list \<times> file_input list) list" where
  "own_inputs h D stamps started I paths =
     map_result (\<lambda>path. r_bind (dependency_input h I path) (record_input h D stamps started I)) (sort_paths paths)"

definition link_file_inputs :: "machine \<Rightarrow> (string \<Rightarrow> string option) \<Rightarrow> stamps \<Rightarrow> nat \<Rightarrow> runs \<Rightarrow> string option \<Rightarrow>
    invocation \<Rightarrow> identity \<Rightarrow> string option \<Rightarrow> capture_error + (file_input list \<times> file_input list) list" where
  "link_file_inputs h D stamps started run sysroot iv I link_text =
     (case link_text of
        None \<Rightarrow> Inr []
      | Some text \<Rightarrow>
          r_bind (linker_inputs h run sysroot iv I text) (map_result (record_input h D stamps started I)))"

section \<open>Environment\<close>

definition names_leaked_root :: "string list \<Rightarrow> string \<Rightarrow> bool" where
  "names_leaked_root leaked normalized \<longleftrightarrow>
     list_ex (\<lambda>token. str_contains normalized token
       \<or> token = ''$TARGET'' \<and> str_contains normalized ''$PROFILE'') leaked"

definition capture_env :: "'b lib \<Rightarrow> machine \<Rightarrow> identity \<Rightarrow> string list \<Rightarrow> string \<Rightarrow> env_input" where
  "capture_env L h I leaked name =
     (case env_value h I name of
        Some v \<Rightarrow>
          (let normalized = normalize (id_root_normalizer I) v
           in if normalized \<noteq> v \<and> \<not> names_leaked_root leaked normalized
              then env_capture_normalized L name normalized else env_capture L name (Some v))
      | None \<Rightarrow> env_capture L name None)"

definition leaked_pins :: "'b lib \<Rightarrow> identity \<Rightarrow> string list \<Rightarrow> env_input list" where
  "leaked_pins L I leaked =
     map (\<lambda>(name, v). env_capture L name (Some v))
       (filter (\<lambda>(name, _). list_ex (\<lambda>token. suffix token name) leaked) (id_pins I))"

definition recorded_width :: "identity \<Rightarrow> string \<Rightarrow> string \<Rightarrow> string" where
  "recorded_width I stdout stderr =
     (if has_rendered_diagnostics stdout \<or> has_rendered_diagnostics stderr then width_of I else any_diagnostic_width)"

definition capture_environment :: "'b lib \<Rightarrow> machine \<Rightarrow> identity \<Rightarrow> string list \<Rightarrow> string list \<Rightarrow> string \<Rightarrow> string \<Rightarrow> env_input list" where
  "capture_environment L h I leaked dep_names stdout stderr =
     dedup_by ei_name (sort_key ei_name
       (map (capture_env L h I leaked) dep_names @ leaked_pins L I leaked
        @ [env_capture L diagnostic_width_input (Some (recorded_width I stdout stderr))]))"

section \<open>The candidate\<close>

text \<open>What the capture is run with besides the machine.\<close>

record 'b capture_tools =
  ct_lib :: "'b lib"
  ct_parse :: "string \<Rightarrow> json option"
  ct_print :: "json \<Rightarrow> string"
  ct_lossy :: "string \<Rightarrow> string"
  ct_exec :: "string \<Rightarrow> bool option"
  ct_file_digest :: "string \<Rightarrow> string option"
  ct_stamps :: stamps
  ct_run :: runs
  ct_sysroot :: "string option"
  ct_now_ms :: nat

definition output_names :: "invocation \<Rightarrow> nat \<Rightarrow> dir_entry list option \<Rightarrow> capture_error + string list" where
  "output_names iv started entries =
     (case iv_kind iv of Library \<Rightarrow> Inr (iv_expected iv) | Linked \<Rightarrow> discover_linked_outputs iv started entries)"

definition is_cardinality :: "check_error \<Rightarrow> bool" where
  "is_cardinality e \<longleftrightarrow> e = CandidateTooBig"

definition make_candidate :: "'b lib \<Rightarrow> (string \<Rightarrow> json option) \<Rightarrow> (json \<Rightarrow> string) \<Rightarrow> nat \<Rightarrow> invocation \<Rightarrow> identity \<Rightarrow> captured_output list \<Rightarrow>
    file_input list \<Rightarrow> file_input list \<Rightarrow> env_input list \<Rightarrow> string \<Rightarrow> string \<Rightarrow> action_candidate" where
  "make_candidate L P Q now iv I outs files host_files env stdout stderr =
     (let out = transform_compiler_stream P Q stdout (id_normalizer I) False;
          err = transform_compiler_stream P Q stderr (id_normalizer I) False
      in \<lparr>ac_protocol = protocol_version, ac_static_key = id_static_key I,
          ac_action_key = compiler_action_key L (id_static_key I) files host_files env,
          ac_crate_name = iv_crate_name iv, ac_created_ms = now, ac_files = files, ac_host_files = host_files,
          ac_env = env,
          ac_artifacts = map (\<lambda>w. \<lparr>ar_file_name = ou_name w, ar_digest = l_hash L (ou_stored w),
            ar_executable = ou_executable w\<rparr>) outs,
          ac_stdout = \<lparr>sa_digest = l_hash L out, sa_len = length out\<rparr>,
          ac_stderr = \<lparr>sa_digest = l_hash L err, sa_len = length err\<rparr>,
          ac_proc_macros = iv_proc_macros iv\<rparr>)"

definition capture_blobs :: "'b lib \<Rightarrow> (string \<Rightarrow> json option) \<Rightarrow> (json \<Rightarrow> string) \<Rightarrow> identity \<Rightarrow> captured_output list \<Rightarrow> string \<Rightarrow> string \<Rightarrow>
    (string \<times> string) list" where
  "capture_blobs L P Q I outs stdout stderr =
     fold (\<lambda>b. bt_insert (l_hash L b) b)
       (map ou_stored outs @ [transform_compiler_stream P Q stdout (id_normalizer I) False,
          transform_compiler_stream P Q stderr (id_normalizer I) False]) []"

definition capture_outputs :: "'b capture_tools \<Rightarrow> machine \<Rightarrow> invocation \<Rightarrow> identity \<Rightarrow> string \<Rightarrow> string \<Rightarrow> nat \<Rightarrow>
    dir_entry list option \<Rightarrow> string option \<Rightarrow> capture_error + captured" where
  "capture_outputs t h iv I stdout stderr started entries link_text =
     (let L = ct_lib t; P = ct_parse t; Q = ct_print t in
      r_bind (output_names iv started entries) (\<lambda>names.
      r_bind (map_result (read_output h (ct_lossy t) (ct_exec t) iv I names) names) (\<lambda>rs.
      let outs = concat rs; leaked = leaked_roots iv I outs in
      r_bind (ok_or (find_map (\<lambda>w. if suffix ''.d'' (ou_name w) then Some (ou_raw w) else None) (rev outs)) NoDepInfo) (\<lambda>dep_text.
      let (dep_files, dep_env) = parse_dep_info dep_text in
      r_bind (map_err LibraryProblem (resolve_static_libraries h iv (id_workspace I))) (\<lambda>libraries.
      r_bind (own_inputs h (ct_file_digest t) (ct_stamps t) started I (iv_inputs iv @ dep_files @ libraries)) (\<lambda>own.
      r_bind (link_file_inputs h (ct_file_digest t) (ct_stamps t) started (ct_run t) (ct_sysroot t) iv I link_text) (\<lambda>linked.
      let files = sort_inputs (concat (map fst (own @ linked)));
          host_files = sort_inputs (concat (map snd (own @ linked)));
          env = capture_environment L h I leaked (map fst dep_env) stdout stderr;
          c = make_candidate L P Q (ct_now_ms t) iv I outs files host_files env stdout stderr
      in case validate_candidate_manifest L c of
           Inl e \<Rightarrow> Inl (if is_cardinality e then TooManyInputs else BadCandidate e)
         | Inr _ \<Rightarrow> Inr \<lparr>cp_candidate = c, cp_blobs = capture_blobs L P Q I outs stdout stderr,
             cp_pinned = (leaked \<noteq> [])\<rparr>)))))))"

text \<open>The whole of \<open>compile_and_capture\<close> after rustc has exited with \<open>status\<close>.\<close>

definition capture_compile :: "'b capture_tools \<Rightarrow> machine \<Rightarrow> invocation \<Rightarrow> identity \<Rightarrow> bool \<Rightarrow> nat \<Rightarrow> string \<Rightarrow> string \<Rightarrow> nat \<Rightarrow>
    dir_entry list option \<Rightarrow> string option \<Rightarrow> act list \<times> captured option" where
  "capture_compile t h iv I reused status stdout stderr started entries link_text =
     (if status \<noteq> 0 then ([], None)
      else case (if reused then Inl ReusedSession
                 else capture_outputs t h iv I stdout stderr started entries link_text) of
        Inr cap \<Rightarrow> ([], Some cap)
      | Inl e \<Rightarrow> ([if deliberate e then Event ''not_stored'' None ''compiled but not stored''
                   else Event ''fallback'' None ''capture skipped after successful rustc''], None))"

end
