(* ===== verification/Cli_Streams_Props.thy ===== *)
theory Cli_Streams_Props
  imports Cli_Streams
begin

text \<open>
  The relay of a diagnostic stream rewrites lines, however the pipe cuts them, and the scanner of an
  output reports exactly the roots its bytes contain.
\<close>

section \<open>The relay\<close>

lemma drain_lines_spec:
  "drain_lines f pending = (out, rest) \<Longrightarrow>
     lf \<notin> set rest \<and> (\<exists>whole. pending = whole @ rest \<and> out = concat (map f (split_inclusive whole))
       \<and> (\<forall>s. split_inclusive (whole @ s) = split_inclusive whole @ split_inclusive s))"
proof (induction f pending arbitrary: out rest rule: drain_lines.induct)
  case (1 f pending)
  show ?case
  proof (cases "lf \<in> set pending")
    case False
    with "1.prems" have "out = []" "rest = pending" by (auto simp: drain_lines.simps)
    then show ?thesis using False by auto
  next
    case True
    let ?line = "takeWhile (\<lambda>c. c \<noteq> lf) pending" let ?tail = "tl (dropWhile (\<lambda>c. c \<noteq> lf) pending)"
    obtain o2 where d: "drain_lines f ?tail = (o2, rest)" and out: "out = f (?line @ [lf]) @ o2"
      using "1.prems" True by (subst (asm) drain_lines.simps) (auto simp: Let_def split: prod.splits)
    have ne: "dropWhile (\<lambda>c. c \<noteq> lf) pending \<noteq> []" using True by (simp add: dropWhile_eq_Nil_conv)
    then have "hd (dropWhile (\<lambda>c. c \<noteq> lf) pending) = lf" using hd_dropWhile [OF ne] by simp
    then have p: "pending = ?line @ lf # ?tail"
      using ne by (metis list.collapse takeWhile_dropWhile_id)
    have no: "lf \<notin> set ?line" by (auto dest: set_takeWhileD)
    from "1.IH" [OF True refl, of "fst (drain_lines f ?tail)" "snd (drain_lines f ?tail)"] d
    obtain whole where w: "lf \<notin> set rest" "?tail = whole @ rest" "o2 = concat (map f (split_inclusive whole))"
      "\<forall>s. split_inclusive (whole @ s) = split_inclusive whole @ split_inclusive s"
      by (auto simp: d)
    have "split_inclusive ((?line @ lf # whole) @ s) = split_inclusive (?line @ lf # whole) @ split_inclusive s" for s
      using no w(4) by (simp add: split_inclusive_line)
    moreover have "out = concat (map f (split_inclusive (?line @ lf # whole)))"
      using no w(3) out by (simp add: split_inclusive_line)
    ultimately show ?thesis using w(1,2) p by (metis append.assoc append_Cons)
  qed
qed

lemma split_inclusive_no_lf: "lf \<notin> set s \<Longrightarrow> s \<noteq> [] \<Longrightarrow> split_inclusive s = [s]"
proof (induction s)
  case (Cons c s)
  then show ?case by (cases "s = []") auto
qed simp

lemma tee_chunks_lines:
  "lf \<notin> set pending \<Longrightarrow> tee_chunks f chunks pending = concat (map f (split_inclusive (pending @ concat chunks)))"
proof (induction chunks arbitrary: pending)
  case Nil
  then show ?case by (simp add: split_inclusive_no_lf)
next
  case (Cons chunk chunks)
  obtain out rest where d: "drain_lines f (pending @ chunk) = (out, rest)" by fastforce
  from drain_lines_spec [OF d] obtain whole where "lf \<notin> set rest" "pending @ chunk = whole @ rest"
    "out = concat (map f (split_inclusive whole))"
    "\<forall>s. split_inclusive (whole @ s) = split_inclusive whole @ split_inclusive s" by blast
  moreover from this have "pending @ concat (chunk # chunks) = whole @ rest @ concat chunks"
    by (metis append.assoc concat.simps(2))
  ultimately show ?case using d by (simp only: tee_chunks.simps Cons.IH Let_def prod.case map_append concat_append simp_thms)
qed

text \<open>
  The relay's output depends only on the bytes of the stream: however the pipe splits it into chunks, what
  reaches the terminal is every line of the stream rewritten on its own, the last one too when it is not ended.
\<close>

theorem tee_rewrites_lines:
  "tee_devirtualized P Q roots chunks = concat (map (devirtualize_line P Q roots) (split_inclusive (concat chunks)))"
  by (simp add: tee_devirtualized_def tee_chunks_lines)

section \<open>Checkout paths in outputs\<close>

lemma foldl_add_root:
  "leaks (foldl add_root sc roots) bytes \<longleftrightarrow>
     leaks sc bytes \<or> (\<exists>r \<in> set roots. length (trim_end_matches is_sep r) < min_needle
       \<or> str_contains bytes (trim_end_matches is_sep r))"
proof (induction roots arbitrary: sc)
  case (Cons r roots)
  have "leaks (add_root sc r) bytes \<longleftrightarrow> leaks sc bytes \<or> length (trim_end_matches is_sep r) < min_needle
      \<or> str_contains bytes (trim_end_matches is_sep r)"
    by (auto simp: add_root_def Let_def leaks_def list_ex_iff set_insert_def set_insort_key)
  then show ?case by (auto simp: Cons.IH)
qed simp

lemma leaks_iff:
  "leaks (new_scanner roots) bytes \<longleftrightarrow>
     (\<exists>r \<in> set roots. length (trim_end_matches is_sep r) < min_needle \<or> str_contains bytes (trim_end_matches is_sep r))"
  unfolding new_scanner_def foldl_add_root by (simp add: leaks_def)

end
