(* ===== verification/Cli_Capture_Props.thy ===== *)
theory Cli_Capture_Props
  imports Cli_Capture Cli_Candidate_Props Cli_Streams_Props
begin

text \<open>
  What a captured result records: blobs from which a restore writes the very outputs of the compile,
  every input with the digest of a file that did not change, and a pin for every root an output embeds.
\<close>

section \<open>Taking a capture apart\<close>

lemma map_result_ok: "map_result f xs = Inr ys \<Longrightarrow> list_all2 (\<lambda>x y. f x = Inr y) xs ys"
  by (induction xs arbitrary: ys) auto

lemma map_result_in: "map_result f xs = Inr ys \<Longrightarrow> y \<in> set ys \<Longrightarrow> \<exists>x \<in> set xs. f x = Inr y"
  by (induction xs arbitrary: ys) auto

lemma map_result_all: "map_result f xs = Inr ys \<Longrightarrow> x \<in> set xs \<Longrightarrow> \<exists>y \<in> set ys. f x = Inr y"
  by (induction xs arbitrary: ys) auto

lemma ok_or_ok [simp]: "ok_or v e = Inr x \<longleftrightarrow> v = Some x"
  by (simp add: ok_or_def split: option.split)

text \<open>An output as it was read back after the compile.\<close>

definition output_read :: "machine \<Rightarrow> (string \<Rightarrow> bool option) \<Rightarrow> invocation \<Rightarrow> identity \<Rightarrow> captured_output \<Rightarrow> bool" where
  "output_read h exec iv I w \<longleftrightarrow>
     ho_read h (path_join (iv_out_dir iv) (ou_name w)) = Some (ou_raw w)
     \<and> exec (path_join (iv_out_dir iv) (ou_name w)) = Some (ou_executable w)
     \<and> ou_stored w = (if suffix ''.d'' (ou_name w) then transform_dep_info (ou_raw w) (id_normalizer I) False else ou_raw w)"

lemma read_output_in:
  "read_output h lossy exec iv I names name = Inr ws \<Longrightarrow> w \<in> set ws \<Longrightarrow> ou_name w = name \<and> output_read h exec iv I w"
  by (auto simp: read_output_def output_read_def Let_def split: if_splits)

lemma read_output_Nil:
  "read_output h lossy exec iv I names name = Inr [] \<Longrightarrow>
     suffix ''.rmeta'' name \<and> list_ex (suffix ''.rlib'') names \<and> \<not> ho_is_file h (path_join (iv_out_dir iv) name)"
  by (auto simp: read_output_def Let_def split: if_splits)

lemma capture_outputs_cases:
  assumes "capture_outputs t h iv I stdout stderr started entries link_text = Inr cap"
  obtains names rs dep_files dep_env libraries own linked c where
    "output_names iv started entries = Inr names"
    "map_result (read_output h (ct_lossy t) (ct_exec t) iv I names) names = Inr rs"
    "\<exists>w \<in> set (concat rs). suffix ''.d'' (ou_name w) \<and> parse_dep_info (ou_raw w) = (dep_files, dep_env)"
    "resolve_static_libraries h iv (id_workspace I) = Inr libraries"
    "own_inputs h (ct_file_digest t) (ct_stamps t) started I (iv_inputs iv @ dep_files @ libraries) = Inr own"
    "link_file_inputs h (ct_file_digest t) (ct_stamps t) started (ct_run t) (ct_sysroot t) iv I link_text = Inr linked"
    "c = make_candidate (ct_lib t) (ct_parse t) (ct_print t) (ct_now_ms t) iv I (concat rs)
       (sort_inputs (concat (map fst (own @ linked)))) (sort_inputs (concat (map snd (own @ linked))))
       (capture_environment (ct_lib t) h I (leaked_roots iv I (concat rs)) (map fst dep_env) stdout stderr) stdout stderr"
    "candidate_ok (ct_lib t) c"
    "cap = \<lparr>cp_candidate = c, cp_blobs = capture_blobs (ct_lib t) (ct_parse t) (ct_print t) I (concat rs) stdout stderr,
       cp_pinned = (leaked_roots iv I (concat rs) \<noteq> [])\<rparr>"
proof -
  let ?read = "\<lambda>names. map_result (read_output h (ct_lossy t) (ct_exec t) iv I names) names"
  from assms obtain names rs dep_text where n: "output_names iv started entries = Inr names" "?read names = Inr rs"
    and d: "find_map (\<lambda>w. if suffix ''.d'' (ou_name w) then Some (ou_raw w) else None) (rev (concat rs)) = Some dep_text"
    by (auto simp: capture_outputs_def Let_def)
  obtain dep_files dep_env where p: "parse_dep_info dep_text = (dep_files, dep_env)" by fastforce
  from assms n d p obtain libraries own linked where
    l: "resolve_static_libraries h iv (id_workspace I) = Inr libraries"
      "own_inputs h (ct_file_digest t) (ct_stamps t) started I (iv_inputs iv @ dep_files @ libraries) = Inr own"
      "link_file_inputs h (ct_file_digest t) (ct_stamps t) started (ct_run t) (ct_sysroot t) iv I link_text = Inr linked"
    by (auto simp: capture_outputs_def Let_def)
  have w: "\<exists>w \<in> set (concat rs). suffix ''.d'' (ou_name w) \<and> parse_dep_info (ou_raw w) = (dep_files, dep_env)"
  proof -
    have "find_map (\<lambda>w. if suffix ''.d'' (ou_name w) then Some (ou_raw w) else None) xs = Some x \<Longrightarrow>
        \<exists>w \<in> set xs. suffix ''.d'' (ou_name w) \<and> ou_raw w = x" for xs x
      by (induction xs) (auto split: if_splits)
    from this [OF d] p show ?thesis by auto
  qed
  show ?thesis
    by (rule that [OF n w l refl])
      (use assms n d p l in \<open>auto simp: capture_outputs_def Let_def candidate_manifest_ok split: sum.splits\<close>)
qed

lemma captured_output:
  assumes "map_result (read_output h lossy exec iv I names) names = Inr rs" and "w \<in> set (concat rs)"
  shows "ou_name w \<in> set names \<and> output_read h exec iv I w"
proof -
  obtain ws where ws: "ws \<in> set rs" "w \<in> set ws" using assms(2) by auto
  with map_result_in [OF assms(1)] obtain name where "name \<in> set names"
    "read_output h lossy exec iv I names name = Inr ws" by blast
  then show ?thesis using read_output_in ws(2) by blast
qed

lemma named_output:
  assumes "map_result (read_output h lossy exec iv I names) names = Inr rs" and "name \<in> set names"
  shows "name \<in> ou_name ` set (concat rs) \<or> suffix ''.rmeta'' name \<and> list_ex (suffix ''.rlib'') names
    \<and> \<not> ho_is_file h (path_join (iv_out_dir iv) name)"
proof -
  obtain ws where ws: "ws \<in> set rs" "read_output h lossy exec iv I names name = Inr ws"
    using map_result_all [OF assms] by blast
  show ?thesis
  proof (cases ws)
    case Nil
    then show ?thesis using read_output_Nil ws(2) by blast
  next
    case (Cons w _)
    then have "ou_name w = name" using read_output_in [OF ws(2), of w] by simp
    then show ?thesis using ws(1) Cons by force
  qed
qed

section \<open>Stored and restored\<close>

text \<open>The bytes of a capture whose digests a restore relies on.\<close>

definition stream_blobs :: "'b capture_tools \<Rightarrow> identity \<Rightarrow> string \<Rightarrow> string \<Rightarrow> string list" where
  "stream_blobs t I stdout stderr =
     [transform_compiler_stream (ct_parse t) (ct_print t) stdout (id_normalizer I) False,
      transform_compiler_stream (ct_parse t) (ct_print t) stderr (id_normalizer I) False]"

definition captured_bytes :: "'b capture_tools \<Rightarrow> machine \<Rightarrow> invocation \<Rightarrow> identity \<Rightarrow> string \<Rightarrow> string \<Rightarrow> string set" where
  "captured_bytes t h iv I stdout stderr =
     insert [] (set (stream_blobs t I stdout stderr)
       \<union> {b. \<exists>w. output_read h (ct_exec t) iv I w \<and> b = ou_stored w})"

lemma map_of_fold_blobs:
  "inj_on hash (set bl) \<Longrightarrow> b \<in> set bl \<Longrightarrow> map_of (fold (\<lambda>b. bt_insert (hash b) b) bl []) (hash b) = Some b"
proof (induction bl rule: rev_induct)
  case (snoc x bl)
  show ?case
  proof (cases "hash b = hash x")
    case True
    then have "b = x" using snoc.prems by (auto simp: inj_on_def)
    then show ?thesis by simp
  next
    case False
    then have "b \<in> set bl" using snoc.prems(2) by auto
    then show ?thesis using snoc False by (simp add: inj_on_def)
  qed
qed simp

lemma fetched_capture:
  assumes "inj_on (l_hash L) (insert [] (set bl))"
  shows "remote_fetch L (map_of (fold (\<lambda>b. bt_insert (l_hash L b) b) bl [])) (map (l_hash L) bl) = Some bl"
proof -
  let ?get = "map_of (fold (\<lambda>b. bt_insert (l_hash L b) b) bl [])"
  have "blob_of L ?get (l_hash L b) = Some b" if "b \<in> set bl" for b
  proof (cases "l_hash L b = l_hash L []")
    case True
    then have "b = []" using assms that by (auto simp: inj_on_def)
    then show ?thesis by (simp add: blob_of_def)
  next
    case False
    moreover have "inj_on (l_hash L) (set bl)" using assms by (simp add: inj_on_def)
    ultimately show ?thesis using map_of_fold_blobs [of "l_hash L" bl b] that by (simp add: blob_of_def remote_blob_def)
  qed
  then have "\<forall>d \<in> set (map (l_hash L) bl). blob_of L ?get d \<noteq> None"
    and "map (\<lambda>d. the (blob_of L ?get d)) (map (l_hash L) bl) = bl"
    by (auto intro!: map_idI)
  then show ?thesis by (simp add: remote_fetch_def remote_blobs_eq)
qed

lemma make_candidate_fields:
  "ac_artifacts (make_candidate L P Q now iv I outs fs hs env so se) =
     map (\<lambda>w. \<lparr>ar_file_name = ou_name w, ar_digest = l_hash L (ou_stored w), ar_executable = ou_executable w\<rparr>) outs"
  "ac_stdout (make_candidate L P Q now iv I outs fs hs env so se) =
     (let b = transform_compiler_stream P Q so (id_normalizer I) False in \<lparr>sa_digest = l_hash L b, sa_len = length b\<rparr>)"
  "ac_stderr (make_candidate L P Q now iv I outs fs hs env so se) =
     (let b = transform_compiler_stream P Q se (id_normalizer I) False in \<lparr>sa_digest = l_hash L b, sa_len = length b\<rparr>)"
  "ac_env (make_candidate L P Q now iv I outs fs hs env so se) = env"
  "ac_files (make_candidate L P Q now iv I outs fs hs env so se) = fs"
  "ac_host_files (make_candidate L P Q now iv I outs fs hs env so se) = hs"
  by (simp_all add: make_candidate_def Let_def)

lemma written_captures:
  assumes "ac_artifacts c = map (\<lambda>w. \<lparr>ar_file_name = ou_name w, ar_digest = l_hash L (ou_stored w),
      ar_executable = ou_executable w\<rparr>) outs"
  shows "rd_outputs (write_outputs P Q h iv I c (map ou_stored outs @ xs)) = map (\<lambda>w.
    (path_join (iv_out_dir iv) (ou_name w), output_bytes h I c (ou_name w) (ou_stored w), ou_executable w)) outs"
  by (simp add: write_outputs_def Let_def assms zip_map_map zip_same_conv_map)

text \<open>What the directory listing calls a file is one.\<close>

definition listing_agrees :: "machine \<Rightarrow> invocation \<Rightarrow> dir_entry list option \<Rightarrow> bool" where
  "listing_agrees h iv entries \<longleftrightarrow>
     (case entries of None \<Rightarrow> True
      | Some es \<Rightarrow> list_all (\<lambda>(name, is_file, _). \<not> is_file \<or> ho_is_file h (path_join (iv_out_dir iv) name)) es)"

lemma discovered:
  assumes "discover_linked_outputs iv started entries = Inr names"
  shows "set (iv_expected iv) \<subseteq> set names"
    and "n \<in> set names \<Longrightarrow> owns_output iv n \<and> (\<exists>es m. entries = Some es \<and> (n, True, m) \<in> set es)"
proof -
  from assms obtain es where es: "entries = Some es"
    "\<forall>x \<in> set (filter (fresh_entry iv started) es). fst (snd x)"
    "\<forall>e \<in> set (iv_expected iv). e \<in> set names"
    "names = sort (remdups (map fst (filter (fresh_entry iv started) es)))"
    by (force simp: discover_linked_outputs_def Let_def split_def)
  then show "set (iv_expected iv) \<subseteq> set names" by blast
  assume "n \<in> set names"
  with es(4) obtain x where x: "x \<in> set es" "fresh_entry iv started x" "n = fst x" by auto
  then have "x \<in> set (filter (fresh_entry iv started) es)" by simp
  with es(2) have "fst (snd x)" by (rule bspec)
  with x have "(n, True, snd (snd x)) \<in> set es" by (metis prod.collapse)
  moreover have "owns_output iv n" using x by (cases x) (auto simp: fresh_entry_def)
  ultimately show "owns_output iv n \<and> (\<exists>es m. entries = Some es \<and> (n, True, m) \<in> set es)" using es(1) by blast
qed

lemma output_names_ok:
  assumes n: "output_names iv started entries = Inr names"
  shows "set (iv_expected iv) \<subseteq> set names" "a \<in> set names \<Longrightarrow> allowed_output iv a"
    "iv_kind iv = Library \<Longrightarrow> names = iv_expected iv"
  using assms discovered [of iv started entries names]
  by (auto simp: output_names_def allowed_output_def split: output_kind.splits)

lemma listed_output:
  assumes "output_names iv started entries = Inr names" and "listing_agrees h iv entries"
    and "iv_kind iv = Linked" and "a \<in> set names"
  shows "ho_is_file h (path_join (iv_out_dir iv) a)"
proof -
  obtain es m where "entries = Some es" "(a, True, m) \<in> set es"
    using assms discovered(2) [of iv started entries names a] by (auto simp: output_names_def)
  then show ?thesis using assms(2) by (auto simp: listing_agrees_def list_all_iff)
qed

text \<open>
  C4. What a compile left is what a later hit puts back: from the captured blobs alone, a restore of the captured
  candidate for the same unit succeeds, and writes for every output other than the dep-info file the very
  bytes and mode read from the output directory after rustc.
\<close>

theorem capture_restores:
  assumes cap: "capture_outputs t h iv I stdout stderr started entries link_text = Inr cap"
    and "inj_on (l_hash (ct_lib t)) (captured_bytes t h iv I stdout stderr)"
    and "listing_agrees h iv entries"
  shows "\<exists>out. restore (ct_lib t) P Q h iv I (cp_candidate cap) (map_of (cp_blobs cap)) = Inr out
    \<and> (\<forall>(path, bytes, executable) \<in> set (rd_outputs out).
         suffix ''.d'' path \<or> ho_read h path = Some bytes \<and> ct_exec t path = Some executable)"
proof (rule capture_outputs_cases [OF cap])
  fix names rs dep_files dep_env libraries own linked c
  assume names: "output_names iv started entries = Inr names"
    and rs: "map_result (read_output h (ct_lossy t) (ct_exec t) iv I names) names = Inr rs"
    and c: "c = make_candidate (ct_lib t) (ct_parse t) (ct_print t) (ct_now_ms t) iv I (concat rs)
       (sort_inputs (concat (map fst (own @ linked)))) (sort_inputs (concat (map snd (own @ linked))))
       (capture_environment (ct_lib t) h I (leaked_roots iv I (concat rs)) (map fst dep_env) stdout stderr) stdout stderr"
    and ok: "candidate_ok (ct_lib t) c"
    and made: "cap = \<lparr>cp_candidate = c, cp_blobs = capture_blobs (ct_lib t) (ct_parse t) (ct_print t) I (concat rs) stdout stderr,
       cp_pinned = (leaked_roots iv I (concat rs) \<noteq> [])\<rparr>"
  let ?L = "ct_lib t" let ?outs = "concat rs" let ?bl = "map ou_stored ?outs @ stream_blobs t I stdout stderr"
  have reads: "ou_name w \<in> set names \<and> output_read h (ct_exec t) iv I w" if "w \<in> set ?outs" for w
    using captured_output [OF rs that] .
  have arts: "ac_artifacts c = map (\<lambda>w. \<lparr>ar_file_name = ou_name w, ar_digest = l_hash ?L (ou_stored w),
      ar_executable = ou_executable w\<rparr>) ?outs"
    by (simp add: c make_candidate_fields)
  have "set ?bl \<subseteq> captured_bytes t h iv I stdout stderr"
    using reads by (auto simp: captured_bytes_def)
  moreover have "[] \<in> captured_bytes t h iv I stdout stderr" by (simp add: captured_bytes_def)
  ultimately have inj: "inj_on (l_hash ?L) (insert [] (set ?bl))"
    by (intro inj_on_subset [OF assms(2)] insert_subsetI)
  have wanted: "requested_digests c = map (l_hash ?L) ?bl"
    by (simp add: requested_digests_def arts comp_def c make_candidate_fields stream_blobs_def Let_def)
  have "cp_blobs cap = fold (\<lambda>b. bt_insert (l_hash ?L b) b) ?bl []"
    by (simp add: made capture_blobs_def stream_blobs_def)
  then have got: "remote_fetch ?L (map_of (cp_blobs cap)) (requested_digests c) = Some ?bl"
    using fetched_capture [OF inj] by (simp add: wanted)
  have manifest: "validate_candidate_manifest ?L c = Inr ()" using ok by (simp add: candidate_manifest_ok)
  have supplied: "\<not> missing_expected iv c e" if e: "e \<in> set (iv_expected iv)" for e
  proof -
    have "e \<in> set names" using output_names_ok(1) [OF names] e by blast
    from named_output [OF rs this] show ?thesis
    proof
      assume "e \<in> ou_name ` set ?outs"
      then show ?thesis by (auto simp: missing_expected_def arts image_image)
    next
      assume absent: "suffix ''.rmeta'' e \<and> list_ex (suffix ''.rlib'') names \<and> \<not> ho_is_file h (path_join (iv_out_dir iv) e)"
      then have "iv_kind iv = Library"
        using listed_output [OF names assms(3) _ \<open>e \<in> set names\<close>] by (cases "iv_kind iv") auto
      then show ?thesis using absent output_names_ok(3) [OF names] by (simp add: missing_expected_def)
    qed
  qed
  have allowed: "\<forall>a \<in> set (ac_artifacts c). allowed_output iv (ar_file_name a)"
    using reads output_names_ok(2) [OF names] by (auto simp: arts)
  have n: "length (ac_artifacts c) = length ?outs" by (simp add: arts)
  have "restore ?L P Q h iv I c (map_of (cp_blobs cap)) = Inr (write_outputs P Q h iv I c ?bl)"
    unfolding restore_def restore_with_def manifest got
    using supplied allowed by (simp add: n nth_append stream_blobs_def c make_candidate_fields Let_def)
  moreover have "suffix ''.d'' path \<or> ho_read h path = Some bytes \<and> ct_exec t path = Some executable"
    if r: "(path, bytes, executable) \<in> set (rd_outputs (write_outputs P Q h iv I c ?bl))" for path bytes executable
  proof -
    obtain w where w: "w \<in> set ?outs" "path = path_join (iv_out_dir iv) (ou_name w)"
      "bytes = output_bytes h I c (ou_name w) (ou_stored w)" "executable = ou_executable w"
      using r unfolding written_captures [OF arts] by auto
    show ?thesis
    proof (cases "suffix ''.d'' (ou_name w)")
      case True
      then show ?thesis using w(2) by (auto simp: path_join_def suffix_def split: if_splits)
    next
      case False
      then show ?thesis using w reads [OF w(1)] by (simp add: output_read_def output_bytes_def)
    qed
  qed
  ultimately show ?thesis by (auto simp: made)
qed

section \<open>Inputs\<close>

text \<open>A recorded input: the digest of a file that is this checkout's, or nobody's, and did not change since rustc started.\<close>

definition input_recorded :: "'b capture_tools \<Rightarrow> machine \<Rightarrow> nat \<Rightarrow> identity \<Rightarrow> string \<Rightarrow> file_input \<Rightarrow> bool" where
  "input_recorded t h started I absolute f \<longleftrightarrow>
     (let normalized = normalize (id_normalizer I) absolute in
      fi_path f \<in> {normalized, absolute} \<and> ct_file_digest t absolute = Some (fi_digest f)
      \<and> (prefix ''$TARGET'' normalized \<or> prefix ''$PROFILE'' normalized \<or> \<not> changed_during_compile (ct_stamps t) started absolute)
      \<and> \<not> (outside_checkout_roots normalized \<and> foreign_checkout h absolute (id_checkout I)))"

lemma record_input_ok:
  fixes t :: "'b capture_tools"
  assumes "record_input h (ct_file_digest t) (ct_stamps t) started I absolute = Inr (fs, hs)"
  shows "\<exists>f. fs @ hs = [f] \<and> input_recorded t h started I absolute f"
  using assms by (auto simp: record_input_def input_recorded_def Let_def split: if_splits)

lemma sort_inputs_subset: "set (sort_inputs fs) \<subseteq> set fs"
  using set_dedup_by [of fi_path "sort_key fi_path fs"] by (simp add: sort_inputs_def)

lemma sort_inputs_paths: "fi_path ` set (sort_inputs fs) = fi_path ` set fs"
  by (simp add: sort_inputs_def image_dedup_by)

lemma sort_paths_kept: "p \<in> set ps \<Longrightarrow> \<exists>q \<in> set (sort_paths ps). components q = components p"
proof -
  assume "p \<in> set ps"
  then have "components p \<in> components ` set (sort_paths ps)" by (simp add: sort_paths_def image_dedup_by)
  then show ?thesis by force
qed

text \<open>The path a recorded input may stand under.\<close>

definition stands_for :: "identity \<Rightarrow> string \<Rightarrow> action_candidate \<Rightarrow> bool" where
  "stands_for I absolute c \<longleftrightarrow>
     (\<exists>f \<in> set (ac_files c) \<union> set (ac_host_files c). fi_path f \<in> {normalize (id_normalizer I) absolute, absolute})"

definition covers :: "machine \<Rightarrow> identity \<Rightarrow> action_candidate \<Rightarrow> string \<Rightarrow> bool" where
  "covers h I c p \<longleftrightarrow>
     (\<exists>q absolute. components q = components p \<and> dependency_input h I q = Inr absolute \<and> stands_for I absolute c)"

lemma stands_forI:
  fixes t :: "'b capture_tools"
  assumes "ac_files c = sort_inputs (concat (map fst rs))" and "ac_host_files c = sort_inputs (concat (map snd rs))"
    and "r \<in> set rs" and "record_input h (ct_file_digest t) (ct_stamps t) started I absolute = Inr r"
  shows "stands_for I absolute c"
proof -
  obtain f where f: "fst r @ snd r = [f]" "input_recorded t h started I absolute f"
    using assms(4) record_input_ok [of h t started I absolute "fst r" "snd r"] by auto
  then have "f \<in> set (fst r) \<union> set (snd r)" by (metis list.set_intros(1) set_append)
  then have "fi_path f \<in> fi_path ` (set (ac_files c) \<union> set (ac_host_files c))"
    using assms(1-3) by (auto simp: image_Un sort_inputs_paths)
  then obtain g where "g \<in> set (ac_files c) \<union> set (ac_host_files c)" "fi_path g = fi_path f" by force
  then show ?thesis using f(2) unfolding stands_for_def input_recorded_def Let_def by auto
qed

lemma own_inputs_cover:
  fixes t :: "'b capture_tools"
  assumes "own_inputs h (ct_file_digest t) (ct_stamps t) started I ps = Inr own"
    and "ac_files c = sort_inputs (concat (map fst (own @ linked)))"
    and "ac_host_files c = sort_inputs (concat (map snd (own @ linked)))" and "p \<in> set ps"
  shows "covers h I c p"
proof -
  obtain q where q: "q \<in> set (sort_paths ps)" "components q = components p" using sort_paths_kept [OF assms(4)] by blast
  obtain r where r: "r \<in> set own"
    "r_bind (dependency_input h I q) (record_input h (ct_file_digest t) (ct_stamps t) started I) = Inr r"
    using map_result_all [OF assms(1) [unfolded own_inputs_def] q(1)] by blast
  then obtain absolute where a: "dependency_input h I q = Inr absolute"
    "record_input h (ct_file_digest t) (ct_stamps t) started I absolute = Inr r" by auto
  have "stands_for I absolute c" by (rule stands_forI [OF assms(2,3) _ a(2)]) (simp add: r(1))
  then show ?thesis using q(2) a(1) unfolding covers_def by blast
qed

lemma recorded_from:
  assumes "own_inputs h (ct_file_digest t) (ct_stamps t) started I ps = Inr own"
    and "link_file_inputs h (ct_file_digest t) (ct_stamps t) started run sysroot iv I link_text = Inr linked"
    and "r \<in> set (own @ linked)"
  shows "\<exists>absolute. record_input h (ct_file_digest t) (ct_stamps t) started I absolute = Inr r"
  using assms map_result_in by (fastforce simp: own_inputs_def link_file_inputs_def split: option.splits)

lemma names_recorded: "ei_name ` set (capture_environment L h I leaked names so se) =
    set names \<union> ei_name ` set (leaked_pins L I leaked) \<union> {diagnostic_width_input}"
proof -
  have "ei_name (capture_env L h I leaked n) = n" for n
    by (auto simp: capture_env_def env_capture_def env_capture_normalized_def Let_def split: option.split)
  then show ?thesis
    by (simp add: capture_environment_def image_dedup_by image_Un image_image env_capture_def insert_commute Un_assoc)
qed

text \<open>What a candidate records of a compile: the inputs it lists, those it must list, and the linker's.\<close>

definition inputs_complete :: "'b capture_tools \<Rightarrow> machine \<Rightarrow> invocation \<Rightarrow> identity \<Rightarrow> nat \<Rightarrow> string option \<Rightarrow>
    action_candidate \<Rightarrow> bool" where
  "inputs_complete t h iv I started link_text c \<longleftrightarrow>
     (\<forall>f \<in> set (ac_files c) \<union> set (ac_host_files c). \<exists>absolute. input_recorded t h started I absolute f)
     \<and> (\<exists>dep_info dep_files dep_env name libraries. suffix ''.d'' name
          \<and> ho_read h (path_join (iv_out_dir iv) name) = Some dep_info \<and> parse_dep_info dep_info = (dep_files, dep_env)
          \<and> resolve_static_libraries h iv (id_workspace I) = Inr libraries
          \<and> (\<forall>p \<in> set (iv_inputs iv @ dep_files @ libraries). covers h I c p)
          \<and> fst ` set dep_env \<subseteq> ei_name ` set (ac_env c))
     \<and> (case link_text of None \<Rightarrow> True
         | Some text \<Rightarrow> (\<exists>paths. linker_inputs h (ct_run t) (ct_sysroot t) iv I text = Inr paths
             \<and> (\<forall>absolute \<in> set paths. stands_for I absolute c)))"

text \<open>
  C19. The record of a compile leaves no input out and takes in none that changed: every source and library of the
  command line, every file and variable the dep-info names and every file the linker read is recorded, and
  every recorded digest is that of a file which lies in no other checkout and which, unless it is this build's
  own output, was not modified after rustc started.
\<close>

theorem captured_inputs_complete:
  assumes cap: "capture_outputs t h iv I stdout stderr started entries link_text = Inr cap"
  shows "inputs_complete t h iv I started link_text (cp_candidate cap)"
proof (rule capture_outputs_cases [OF cap])
  fix names rs dep_files dep_env libraries own linked c
  assume rs: "map_result (read_output h (ct_lossy t) (ct_exec t) iv I names) names = Inr rs"
    and dep: "\<exists>w \<in> set (concat rs). suffix ''.d'' (ou_name w) \<and> parse_dep_info (ou_raw w) = (dep_files, dep_env)"
    and libs: "resolve_static_libraries h iv (id_workspace I) = Inr libraries"
    and own: "own_inputs h (ct_file_digest t) (ct_stamps t) started I (iv_inputs iv @ dep_files @ libraries) = Inr own"
    and linked: "link_file_inputs h (ct_file_digest t) (ct_stamps t) started (ct_run t) (ct_sysroot t) iv I link_text = Inr linked"
    and c: "c = make_candidate (ct_lib t) (ct_parse t) (ct_print t) (ct_now_ms t) iv I (concat rs)
       (sort_inputs (concat (map fst (own @ linked)))) (sort_inputs (concat (map snd (own @ linked))))
       (capture_environment (ct_lib t) h I (leaked_roots iv I (concat rs)) (map fst dep_env) stdout stderr) stdout stderr"
    and made: "cap = \<lparr>cp_candidate = c, cp_blobs = capture_blobs (ct_lib t) (ct_parse t) (ct_print t) I (concat rs) stdout stderr,
       cp_pinned = (leaked_roots iv I (concat rs) \<noteq> [])\<rparr>"
  have fs: "ac_files c = sort_inputs (concat (map fst (own @ linked)))"
    "ac_host_files c = sort_inputs (concat (map snd (own @ linked)))" by (simp_all add: c make_candidate_fields)
  have "\<exists>absolute. input_recorded t h started I absolute f" if f: "f \<in> set (ac_files c) \<union> set (ac_host_files c)" for f
  proof -
    have "f \<in> set (concat (map fst (own @ linked))) \<union> set (concat (map snd (own @ linked)))"
      using f sort_inputs_subset unfolding fs by blast
    then obtain r where r: "r \<in> set (own @ linked)" "f \<in> set (fst r @ snd r)" by auto
    then obtain absolute where "record_input h (ct_file_digest t) (ct_stamps t) started I absolute = Inr r"
      using recorded_from [OF own linked] by blast
    then obtain g where "fst r @ snd r = [g]" "input_recorded t h started I absolute g"
      using record_input_ok [of h t started I absolute "fst r" "snd r"] by auto
    moreover from this(1) r(2) have "f = g" by simp
    ultimately show ?thesis by blast
  qed
  moreover obtain w where w: "w \<in> set (concat rs)" "suffix ''.d'' (ou_name w)" "parse_dep_info (ou_raw w) = (dep_files, dep_env)"
    using dep by blast
  then have "ho_read h (path_join (iv_out_dir iv) (ou_name w)) = Some (ou_raw w)"
    using captured_output [OF rs] by (simp add: output_read_def)
  moreover have "\<forall>p \<in> set (iv_inputs iv @ dep_files @ libraries). covers h I c p"
    using own_inputs_cover [OF own fs] by blast
  moreover have "fst ` set dep_env \<subseteq> ei_name ` set (ac_env c)"
    by (auto simp: c make_candidate_fields names_recorded)
  moreover have "\<exists>paths. linker_inputs h (ct_run t) (ct_sysroot t) iv I line = Inr paths
      \<and> (\<forall>absolute \<in> set paths. stands_for I absolute c)" if l: "link_text = Some line" for line
  proof -
    obtain paths where p: "linker_inputs h (ct_run t) (ct_sysroot t) iv I line = Inr paths"
      "map_result (record_input h (ct_file_digest t) (ct_stamps t) started I) paths = Inr linked"
      using linked l by (auto simp: link_file_inputs_def)
    have "stands_for I absolute c" if a: "absolute \<in> set paths" for absolute
    proof -
      obtain r where "r \<in> set linked" "record_input h (ct_file_digest t) (ct_stamps t) started I absolute = Inr r"
        using map_result_all [OF p(2) a] by blast
      then show ?thesis by (intro stands_forI [OF fs]) auto
    qed
    then show ?thesis using p(1) by blast
  qed
  ultimately show ?thesis using w(2,3) libs unfolding inputs_complete_def made
    by (auto split: option.split)
qed

section \<open>Pins\<close>

lemma pin_names_differ: "pin_prefix @ token \<noteq> diagnostic_width_input"
  by (simp add: pin_prefix_def diagnostic_width_input_def)

lemma recorded_pin:
  assumes "token \<in> set leaked" and "(pin_prefix @ token, v) \<in> set (id_pins I)" and "distinct (map fst (id_pins I))"
    and "pin_prefix @ token \<notin> set names"
  shows "\<exists>e \<in> set (capture_environment L h I leaked names so se).
    ei_name e = pin_prefix @ token \<and> ei_value_digest e = Some (l_hash L v)"
proof -
  let ?es = "map (capture_env L h I leaked) names @ leaked_pins L I leaked
      @ [env_capture L diagnostic_width_input (Some (recorded_width I so se))]"
  have pin: "env_capture L (pin_prefix @ token) (Some v) \<in> set (leaked_pins L I leaked)"
    using assms(1,2) by (force simp: leaked_pins_def list_ex_iff suffix_def)
  then have "pin_prefix @ token \<in> ei_name ` set (leaked_pins L I leaked)" by (force simp: env_capture_def)
  then have "pin_prefix @ token \<in> ei_name ` set (capture_environment L h I leaked names so se)"
    by (simp add: names_recorded)
  then obtain e where e: "e \<in> set (capture_environment L h I leaked names so se)" "ei_name e = pin_prefix @ token"
    by force
  then have "e \<in> set ?es"
    using set_dedup_by [of ei_name "sort_key ei_name ?es"] by (auto simp: capture_environment_def)
  moreover have "ei_name (capture_env L h I leaked n) = n" for n
    by (auto simp: capture_env_def env_capture_def env_capture_normalized_def Let_def split: option.split)
  ultimately have "e \<in> set (leaked_pins L I leaked)"
    using e(2) assms(4) pin_names_differ [of token] by (auto simp: env_capture_def)
  then obtain w where "(pin_prefix @ token, w) \<in> set (id_pins I)" "e = env_capture L (pin_prefix @ token) (Some w)"
    using e(2) by (auto simp: leaked_pins_def env_capture_def)
  moreover from this(1) have "w = v" using assms(2,3) by (metis eq_key_imp_eq_value)
  ultimately show ?thesis using e(1) by (force simp: env_capture_def)
qed

text \<open>The root a path of another checkout would stand in for.\<close>

definition embeds_root :: "machine \<Rightarrow> invocation \<Rightarrow> identity \<Rightarrow> string \<Rightarrow> string \<Rightarrow> bool" where
  "embeds_root h iv I token name \<longleftrightarrow>
     token \<in> set leak_tokens \<and> \<not> suffix ''.d'' name \<and> \<not> program_database iv name
     \<and> (\<exists>bytes root. ho_read h (path_join (iv_out_dir iv) name) = Some bytes
          \<and> root \<in> set (spellings (id_root_normalizer I) token) \<and> str_contains bytes (trim_end_matches is_sep root))"

definition names_pin :: "machine \<Rightarrow> invocation \<Rightarrow> string \<Rightarrow> bool" where
  "names_pin h iv token \<longleftrightarrow>
     (\<exists>name raw. ho_read h (path_join (iv_out_dir iv) name) = Some raw
        \<and> pin_prefix @ token \<in> fst ` set (snd (parse_dep_info raw)))"

text \<open>
  C12. A path of this checkout never reaches another one: when any output other than the dep-info file contains a
  spelling of the checkout, workspace or target root, the captured candidate is pinned, and an identity whose
  pin for that root has another digest rejects it, whatever else agrees. (The separate rules for a linker's
  program database are excluded, and a build that names a pin as an environment variable.)
\<close>

theorem embedded_root_is_pinned:
  assumes cap: "capture_outputs t h iv I stdout stderr started entries link_text = Inr cap"
    and a: "a \<in> set (ac_artifacts (cp_candidate cap))" and e: "embeds_root h iv I token (ar_file_name a)"
    and pins: "distinct (map fst (id_pins I))" "pin_value I (pin_prefix @ token) = Some v" "\<not> names_pin h iv token"
    and other: "map_option (l_hash (ct_lib t)) (pin_value J (pin_prefix @ token)) \<noteq> Some (l_hash (ct_lib t) v)"
  shows "cp_pinned cap \<and> validate_candidate (ct_lib t) h' dig (cp_candidate cap) J \<noteq> Inr ()"
proof (rule capture_outputs_cases [OF cap])
  fix names rs dep_files dep_env libraries own linked c
  assume rs: "map_result (read_output h (ct_lossy t) (ct_exec t) iv I names) names = Inr rs"
    and dep: "\<exists>w \<in> set (concat rs). suffix ''.d'' (ou_name w) \<and> parse_dep_info (ou_raw w) = (dep_files, dep_env)"
    and c: "c = make_candidate (ct_lib t) (ct_parse t) (ct_print t) (ct_now_ms t) iv I (concat rs)
       (sort_inputs (concat (map fst (own @ linked)))) (sort_inputs (concat (map snd (own @ linked))))
       (capture_environment (ct_lib t) h I (leaked_roots iv I (concat rs)) (map fst dep_env) stdout stderr) stdout stderr"
    and made: "cap = \<lparr>cp_candidate = c, cp_blobs = capture_blobs (ct_lib t) (ct_parse t) (ct_print t) I (concat rs) stdout stderr,
       cp_pinned = (leaked_roots iv I (concat rs) \<noteq> [])\<rparr>"
  obtain w where w: "w \<in> set (concat rs)" "ou_name w = ar_file_name a"
    using a unfolding made captured.simps c make_candidate_fields by fastforce
  then have read: "ho_read h (path_join (iv_out_dir iv) (ar_file_name a)) = Some (ou_raw w)"
    using captured_output [OF rs w(1)] by (simp add: output_read_def)
  then have "leaks (scanner_for I token) (ou_raw w)"
    using e by (auto simp: embeds_root_def scanner_for_def leaks_iff)
  then have "token \<in> set (leaked_tokens iv I (ou_name w) (ou_raw w))" "\<not> suffix ''.d'' (ou_name w)"
    using e w(2) by (auto simp: leaked_tokens_def embeds_root_def)
  then have leaked: "token \<in> set (leaked_roots iv I (concat rs))"
    using e w(1) unfolding leaked_roots_def list_ex_iff embeds_root_def set_filter by blast
  have "(pin_prefix @ token, v) \<in> set (id_pins I)"
    using pins(2) by (auto simp: pin_value_def dest!: find_Some_iff2)
  moreover have "pin_prefix @ token \<notin> set (map fst dep_env)"
  proof -
    obtain d where "d \<in> set (concat rs)" "parse_dep_info (ou_raw d) = (dep_files, dep_env)" using dep by blast
    then show ?thesis using captured_output [OF rs, of d] pins(3) by (force simp: names_pin_def output_read_def)
  qed
  ultimately obtain x where x: "x \<in> set (ac_env c)" "ei_name x = pin_prefix @ token"
    "ei_value_digest x = Some (l_hash (ct_lib t) v)"
    using recorded_pin [OF leaked _ pins(1), of v "map fst dep_env" "ct_lib t" h stdout stderr]
    unfolding c make_candidate_fields by blast
  have "\<not> env_current (ct_lib t) h' J x"
    using other x(2,3) by (auto simp: env_current_def env_capture_def)
  then have "validate_candidate (ct_lib t) h' dig c J \<noteq> Inr ()"
    using x(1,2) pin_names_differ [of token] unfolding validated_iff inputs_current_def by metis
  then show ?thesis using leaked by (auto simp: made)
qed

section \<open>Examples\<close>

text \<open>A metadata-only compile in \<open>/work/tree\<close> whose output embeds that path.\<close>

definition ex_pin :: string where "ex_pin = pin_prefix @ ''$WORKSPACE''"

definition ex_disk :: machine where
  "ex_disk = ex_host\<lparr>ho_read := (\<lambda>p. if p = ''/t/a.d'' then Some [] else if p = ''/t/a.rmeta'' then Some ''~/work/tree/y'' else None),
     ho_is_file := (\<lambda>p. p \<in> {''/t/a.d'', ''/t/a.rmeta''})\<rparr>"

definition ex_meta :: invocation where
  "ex_meta = ex_rlib_unit\<lparr>iv_out_dir := ''/t'', iv_expected := [''a.d'', ''a.rmeta'']\<rparr>"

definition ex_tree :: identity where
  "ex_tree = ex_identity\<lparr>id_root_normalizer := [(''$WORKSPACE'', ''/work/tree'')], id_pins := [(ex_pin, ''/work/tree'')]\<rparr>"

definition ex_other_tree :: identity where
  "ex_other_tree = ex_tree\<lparr>id_pins := [(ex_pin, ''/~other'')]\<rparr>"

definition ex_capture_tools :: "ex_doc capture_tools" where
  "ex_capture_tools = \<lparr>ct_lib = ex_codec, ct_parse = \<lambda>s. None, ct_print = \<lambda>j. [], ct_lossy = \<lambda>s. s,
     ct_exec = \<lambda>p. Some False, ct_file_digest = \<lambda>p. None, ct_stamps = \<lambda>p. None, ct_run = \<lambda>p q. None,
     ct_sysroot = None, ct_now_ms = 7\<rparr>"

lemma ex_reads: "map_result (read_output ex_disk (ct_lossy ex_capture_tools) (ct_exec ex_capture_tools) ex_meta ex_tree
    (iv_expected ex_meta)) (iv_expected ex_meta) = Inr [[\<lparr>ou_name = ''a.d'', ou_raw = [], ou_stored = [], ou_executable = False\<rparr>],
      [\<lparr>ou_name = ''a.rmeta'', ou_raw = ''~/work/tree/y'', ou_stored = ''~/work/tree/y'', ou_executable = False\<rparr>]]"
  by code_simp

abbreviation ex_outs :: "captured_output list" where
  "ex_outs \<equiv> [\<lparr>ou_name = ''a.d'', ou_raw = [], ou_stored = [], ou_executable = False\<rparr>,
      \<lparr>ou_name = ''a.rmeta'', ou_raw = ''~/work/tree/y'', ou_stored = ''~/work/tree/y'', ou_executable = False\<rparr>]"

lemma ex_leaked: "leaked_roots ex_meta ex_tree ex_outs = [''$WORKSPACE'']"
  by code_simp

lemma ex_env: "capture_environment ex_codec ex_disk ex_tree [''$WORKSPACE''] [] [] [] =
   [\<lparr>ei_name = diagnostic_width_input, ei_value_digest = Some ex_key, ei_normalized = False\<rparr>,
    \<lparr>ei_name = ex_pin, ei_value_digest = Some ex_key, ei_normalized = False\<rparr>]"
  by code_simp

lemma ex_codec_key: "key_ok (l_hash ex_codec b)"
  by (simp add: ex_codec_def)

definition ex_made :: action_candidate where
  "ex_made = make_candidate ex_codec (\<lambda>s. None) (\<lambda>j. []) 7 ex_meta ex_tree ex_outs [] []
     (capture_environment ex_codec ex_disk ex_tree [''$WORKSPACE''] [] [] []) [] []"

lemma ex_made_fields:
  "ac_env ex_made = [\<lparr>ei_name = diagnostic_width_input, ei_value_digest = Some ex_key, ei_normalized = False\<rparr>,
    \<lparr>ei_name = ex_pin, ei_value_digest = Some ex_key, ei_normalized = False\<rparr>]"
  "ac_files ex_made = []" "ac_host_files ex_made = []" "ac_proc_macros ex_made = []" "ac_crate_name ex_made = ''a''"
  "ac_protocol ex_made = protocol_version" "ac_static_key ex_made = ex_key"
  "map ar_file_name (ac_artifacts ex_made) = [''a.d'', ''a.rmeta'']"
  by (simp_all only: ex_made_def make_candidate_fields ex_env)
    (simp_all add: make_candidate_def Let_def ex_meta_def ex_rlib_unit_def ex_tree_def ex_identity_def)

lemma ex_made_ok: "candidate_ok ex_codec ex_made"
proof -
  have "clean ''a.d''" "clean ''a.rmeta''" by (simp_all add: clean_def is_sep_def dotted_def)
  then have "artifacts_ok (ac_artifacts ex_made)" "\<forall>a \<in> set (ac_artifacts ex_made). CHR ''/'' \<notin> set (ar_file_name a)"
    by (simp_all add: artifacts_ok_def ex_made_def make_candidate_def Let_def ex_codec_key)
  moreover have "env_ok (ac_env ex_made)"
    by (simp add: env_ok_def ex_made_fields ex_pin_def pin_prefix_def diagnostic_width_input_def)
  moreover have "key_ok (ac_action_key ex_made)" "key_ok (sa_digest (ac_stdout ex_made))" "key_ok (sa_digest (ac_stderr ex_made))"
    by (simp_all add: ex_made_def make_candidate_def Let_def compiler_action_key_def ex_codec_key)
  moreover have "ac_action_key ex_made = compiler_action_key ex_codec (ac_static_key ex_made) (ac_files ex_made)
      (ac_host_files ex_made) (ac_env ex_made)"
    by (simp add: ex_made_def make_candidate_def Let_def ex_tree_def ex_identity_def)
  moreover have "length (ac_artifacts ex_made) = 2"
    using arg_cong [OF ex_made_fields(8), of length] by simp
  ultimately show ?thesis
    by (simp add: candidate_ok_def ex_made_fields inputs_ok_def max_candidate_env_def max_candidate_artifacts_def)
qed

definition ex_cap :: captured where
  "ex_cap = \<lparr>cp_candidate = ex_made, cp_blobs = capture_blobs ex_codec (\<lambda>s. None) (\<lambda>j. []) ex_tree ex_outs [] [],
     cp_pinned = True\<rparr>"

lemma ex_capture: "capture_outputs ex_capture_tools ex_disk ex_meta ex_tree [] [] 0 None None = Inr ex_cap"
proof -
  have n: "output_names ex_meta 0 None = Inr (iv_expected ex_meta)"
    by (simp add: output_names_def ex_meta_def ex_rlib_unit_def)
  have l: "resolve_static_libraries ex_disk ex_meta (id_workspace ex_tree) = Inr []"
    by (simp add: resolve_static_libraries_def ex_meta_def ex_rlib_unit_def)
  have o: "own_inputs ex_disk D S n ex_tree [] = Inr []" for D S n
    by (simp add: own_inputs_def sort_paths_def)
  have d: "parse_dep_info [] = ([], [])" by code_simp
  have i: "iv_inputs ex_meta = []" by (simp add: ex_meta_def ex_rlib_unit_def)
  have m: "validate_candidate_manifest ex_codec ex_made = Inr ()" by (simp add: candidate_manifest_ok ex_made_ok)
  have t: "ct_lib ex_capture_tools = ex_codec" "ct_parse ex_capture_tools = (\<lambda>s. None)" "ct_print ex_capture_tools = (\<lambda>j. [])"
    "ct_now_ms ex_capture_tools = 7" by (simp_all add: ex_capture_tools_def)
  have s: "sort_inputs [] = []" by (simp add: sort_inputs_def)
  have made: "make_candidate ex_codec (\<lambda>s. None) (\<lambda>j. []) 7 ex_meta ex_tree ex_outs [] []
     (capture_environment ex_codec ex_disk ex_tree [''$WORKSPACE''] [] [] []) [] [] = ex_made" by (simp add: ex_made_def)
  show ?thesis unfolding capture_outputs_def Let_def n r_bind.simps ex_reads
    by (simp add: d l o i t s ex_leaked made m link_file_inputs_def suffix_def ex_cap_def)
qed

lemma ex_captured_bytes: "captured_bytes ex_capture_tools ex_disk ex_meta ex_tree [] [] \<subseteq> {[], ''~/work/tree/y''}"
proof -
  have "stream_blobs ex_capture_tools ex_tree [] [] = [[], []]" by code_simp
  moreover have "ou_stored w \<in> {[], ''~/work/tree/y''}"
    if "output_read ex_disk (ct_exec ex_capture_tools) ex_meta ex_tree w" for w
  proof -
    have "transform_dep_info [] (id_normalizer ex_tree) False = []"
      "transform_dep_info ''~/work/tree/y'' (id_normalizer ex_tree) False = ''~/work/tree/y''" by code_simp+
    then show ?thesis using that
      by (auto simp: output_read_def ex_disk_def split: if_splits)
  qed
  ultimately show ?thesis by (auto simp: captured_bytes_def)
qed

theorem capture_restores_witness:
  "\<exists>out. restore ex_codec (\<lambda>s. None) (\<lambda>j. []) ex_disk ex_meta ex_tree ex_made (map_of (cp_blobs ex_cap)) = Inr out"
proof -
  have "inj_on (l_hash ex_codec) {[], ''~/work/tree/y''}" by (simp add: ex_codec_def inj_on_def)
  then have "inj_on (l_hash (ct_lib ex_capture_tools)) (captured_bytes ex_capture_tools ex_disk ex_meta ex_tree [] [])"
    by (intro inj_on_subset [OF _ ex_captured_bytes]) (simp add: ex_capture_tools_def)
  from capture_restores [OF ex_capture this, of "\<lambda>s. None" "\<lambda>j. []"] show ?thesis
    by (auto simp: listing_agrees_def ex_capture_tools_def ex_cap_def)
qed

theorem captured_inputs_complete_witness:
  "inputs_complete ex_capture_tools ex_disk ex_meta ex_tree 0 None ex_made"
  using captured_inputs_complete [OF ex_capture] by (simp add: ex_cap_def)

theorem embedded_root_is_pinned_witness:
  "cp_pinned ex_cap \<and> validate_candidate ex_codec ex_host (\<lambda>p. None) ex_made ex_other_tree \<noteq> Inr ()"
proof -
  have "''a.rmeta'' \<in> set (map ar_file_name (ac_artifacts ex_made))" unfolding ex_made_fields by simp
  then have "\<exists>a \<in> set (ac_artifacts ex_made). ''a.rmeta'' = ar_file_name a" by (simp only: set_map image_iff)
  then obtain a where a: "a \<in> set (ac_artifacts ex_made)" "''a.rmeta'' = ar_file_name a" by (rule bexE)
  have "path_join (iv_out_dir ex_meta) ''a.rmeta'' = ''/t/a.rmeta''" by code_simp
  moreover have "spellings (id_root_normalizer ex_tree) ''$WORKSPACE'' = [''/work/tree'']" by code_simp
  moreover have "trim_end_matches is_sep ''/work/tree'' = ''/work/tree''" by code_simp
  moreover have "\<not> program_database ex_meta ''a.rmeta''" by (simp add: program_database_def ex_meta_def ex_rlib_unit_def)
  moreover have "''$WORKSPACE'' \<in> set leak_tokens" by (simp add: leak_tokens_def)
  moreover have "str_contains ''~/work/tree/y'' ''/work/tree''" by (simp add: sublist_code)
  ultimately have e: "embeds_root ex_disk ex_meta ex_tree ''$WORKSPACE'' ''a.rmeta''"
    unfolding embeds_root_def by (intro conjI exI [of _ "''~/work/tree/y''"] exI [of _ "''/work/tree''"])
      (simp_all add: ex_disk_def suffix_def)
  have "parse_dep_info [] = ([], [])" "parse_dep_info ''~/work/tree/y'' = ([], [])" by code_simp+
  then have n: "\<not> names_pin ex_disk ex_meta ''$WORKSPACE''"
    by (auto simp: names_pin_def ex_disk_def split: if_splits)
  show ?thesis
    using embedded_root_is_pinned [OF ex_capture, of a "''$WORKSPACE''" "''/work/tree''" ex_other_tree ex_host "\<lambda>p. None"]
      a(1) e [unfolded a(2)] n by (simp add: ex_cap_def ex_tree_def ex_other_tree_def ex_pin_def pin_value_def ex_capture_tools_def ex_codec_def)
qed

end
