(* ===== verification/Cli_Build_Script.thy ===== *)
theory Cli_Build_Script
  imports Cli_Capture
begin

text \<open>
  Cached build-script runs (\<open>build_script.rs\<close>): directory listings as inputs, the packed \<open>OUT_DIR\<close> tree,
  Cargo's rerun directives, the identity of a run, its capture and its restore. A directory is a tree
  whose links say what they resolve to.
\<close>

section \<open>Directories\<close>

datatype link_target = To_file string | To_dir bool | Nowhere

datatype entry = Plain string bool | Folder "(string \<times> entry) list" | Symlink link_target | Special

text \<open>\<open>is_file\<close> follows links; a link to a directory says whether that is marked as a cache.\<close>

fun entry_is_file :: "entry \<Rightarrow> bool" where
  "entry_is_file (Plain b x) = True"
| "entry_is_file (Symlink (To_file p)) = True"
| "entry_is_file _ = False"

definition is_cache_directory :: "(string \<times> entry) list \<Rightarrow> bool" where
  "is_cache_directory es \<longleftrightarrow> (case map_of es ''CACHEDIR.TAG'' of None \<Rightarrow> False | Some e \<Rightarrow> entry_is_file e)"

text \<open>\<open>None\<close> is a directory that cannot be read.\<close>

fun scratch_entry :: "entry \<Rightarrow> bool" where
  "scratch_entry (Folder es) = is_cache_directory es"
| "scratch_entry (Symlink (To_dir cache)) = cache"
| "scratch_entry _ = False"

definition tree_is_empty :: "(string \<times> entry) list option \<Rightarrow> bool" where
  "tree_is_empty out_dir = (case out_dir of None \<Rightarrow> True | Some es \<Rightarrow> list_all (\<lambda>(_, e). scratch_entry e) es)"

datatype script_error =
    TreeSymlink string | TreeTooLarge | RerunPathMissing string | InputChangedWhileRunning string
  | ReadsForeignCheckout string | OverExistingOutDir
  | InputUnreadable string | ScriptCandidate check_error

text \<open>The constructors of the first two lines are \<open>NotStored\<close>.\<close>

fun script_deliberate :: "script_error \<Rightarrow> bool" where
  "script_deliberate (TreeSymlink p) = True"
| "script_deliberate TreeTooLarge = True"
| "script_deliberate (RerunPathMissing p) = True"
| "script_deliberate (InputChangedWhileRunning p) = True"
| "script_deliberate (ReadsForeignCheckout p) = True"
| "script_deliberate OverExistingOutDir = True"
| "script_deliberate _ = False"

section \<open>The packed tree\<close>

type_synonym tree_file = "string \<times> bool \<times> string"

fun collect_tree :: "string \<Rightarrow> (string \<times> entry) list \<Rightarrow> script_error + tree_file list"
  and collect_entry :: "string \<Rightarrow> entry \<Rightarrow> script_error + tree_file list" where
  "collect_tree pre [] = Inr []"
| "collect_tree pre ((name, e) # es) =
     r_bind (collect_entry (pre @ name) e) (\<lambda>fs. r_bind (collect_tree pre es) (\<lambda>gs. Inr (fs @ gs)))"
| "collect_entry path (Plain bytes x) = Inr [(path, x, bytes)]"
| "collect_entry path (Symlink t) = Inl (TreeSymlink path)"
| "collect_entry path (Folder es) = (if is_cache_directory es then Inr [] else collect_tree (path @ ''/'') es)"
| "collect_entry path Special = Inr []"

definition tree_magic :: string where "tree_magic = ''BELLOWS-TREE-1'' @ [lf]"

definition max_tree_bytes :: nat where "max_tree_bytes = 512 * 1024 * 1024"

definition tree_header :: "tree_file \<Rightarrow> json" where
  "tree_header = (\<lambda>(path, executable, bytes).
     J_object [(''executable'', J_bool executable), (''len'', J_number (dec_string (length bytes))), (''path'', J_string path)])"

definition packed_file :: "(json \<Rightarrow> string) \<Rightarrow> tree_file \<Rightarrow> string" where
  "packed_file Q f = Q (tree_header f) @ [lf] @ snd (snd f)"

fun pack_files :: "(json \<Rightarrow> string) \<Rightarrow> string \<Rightarrow> tree_file list \<Rightarrow> script_error + string" where
  "pack_files Q archive [] = Inr archive"
| "pack_files Q archive (f # fs) =
     (let next = archive @ packed_file Q f
      in if length next > max_tree_bytes then Inl TreeTooLarge else pack_files Q next fs)"

definition pack_tree :: "(json \<Rightarrow> string) \<Rightarrow> (string \<times> entry) list \<Rightarrow> script_error + string" where
  "pack_tree Q es = r_bind (collect_tree [] es) (\<lambda>fs. pack_files Q tree_magic (sort_key fst fs))"

datatype tree_error = NotATree | TruncatedHeader | BadHeader | NoTreePath | UnsafeTreePath check_error | NoTreeLength | TruncatedEntry

definition json_field :: "string \<Rightarrow> json \<Rightarrow> json" where
  "json_field name v = (case v of J_object es \<Rightarrow> (case map_of es name of Some w \<Rightarrow> w | None \<Rightarrow> J_null) | _ \<Rightarrow> J_null)"

definition as_str :: "json \<Rightarrow> string option" where
  "as_str v = (case v of J_string s \<Rightarrow> Some s | _ \<Rightarrow> None)"

definition as_u64 :: "json \<Rightarrow> nat option" where
  "as_u64 v = (case v of J_number n \<Rightarrow> u64_from_str n | _ \<Rightarrow> None)"

definition as_bool :: "json \<Rightarrow> bool" where
  "as_bool v = (case v of J_bool b \<Rightarrow> b | _ \<Rightarrow> False)"

function unpack_files :: "(string \<Rightarrow> json option) \<Rightarrow> string \<Rightarrow> tree_error + tree_file list" where
  "unpack_files P rest =
     (if rest = [] then Inr []
      else if lf \<notin> set rest then Inl TruncatedHeader
      else case P (takeWhile (\<lambda>c. c \<noteq> lf) rest) of
        None \<Rightarrow> Inl BadHeader
      | Some header \<Rightarrow>
          r_bind (ok_or (as_str (json_field ''path'' header)) NoTreePath) (\<lambda>given.
          r_bind (map_err UnsafeTreePath (validate_relative_path given)) (\<lambda>path.
          r_bind (ok_or (as_u64 (json_field ''len'' header)) NoTreeLength) (\<lambda>len.
          let body = tl (dropWhile (\<lambda>c. c \<noteq> lf) rest)
          in if length body < len then Inl TruncatedEntry
             else r_bind (unpack_files P (drop len body)) (\<lambda>fs.
               Inr ((path, as_bool (json_field ''executable'' header), take len body) # fs))))))"
  by pat_completeness auto
termination
proof (relation "measure (\<lambda>(P, rest). length rest)")
  fix P :: "string \<Rightarrow> json option" and rest :: string and header given path len body
  assume "rest \<noteq> []" and b: "body = tl (dropWhile (\<lambda>c. c \<noteq> lf) rest)"
  have "length (dropWhile (\<lambda>c. c \<noteq> lf) rest) \<le> length rest" by (rule length_dropWhile_le)
  then have "length body < length rest" using \<open>rest \<noteq> []\<close> by (cases rest) (auto simp: b)
  then show "((P, drop len body), P, rest) \<in> measure (\<lambda>(P, rest). length rest)" by simp
qed simp

declare unpack_files.simps [simp del]

definition unpack_tree :: "(string \<Rightarrow> json option) \<Rightarrow> string \<Rightarrow> tree_error + tree_file list" where
  "unpack_tree P archive =
     (case strip_prefix tree_magic archive of None \<Rightarrow> Inl NotATree | Some rest \<Rightarrow> unpack_files P rest)"

section \<open>Cargo's rerun model\<close>

definition directive :: "string \<Rightarrow> string option" where
  "directive line = or_else (strip_prefix ''cargo::'' line) (strip_prefix ''cargo:'' line)"

fun declared_lines :: "string list \<Rightarrow> string list \<times> string list" where
  "declared_lines [] = ([], [])"
| "declared_lines (line # lines) =
     (let (files, env) = declared_lines lines
      in case directive line of
           None \<Rightarrow> (files, env)
         | Some d \<Rightarrow>
             (case strip_prefix ''rerun-if-changed='' d of
                Some path \<Rightarrow> (path # files, env)
              | None \<Rightarrow>
                  (case strip_prefix ''rerun-if-env-changed='' d of
                     Some name \<Rightarrow> (files, name # env) | None \<Rightarrow> (files, env))))"

definition declared_inputs :: "(string \<Rightarrow> string) \<Rightarrow> string \<Rightarrow> string list \<times> string list" where
  "declared_inputs lossy stdout = declared_lines (str_lines (lossy stdout))"

section \<open>Listings\<close>

definition skipped_directory :: "string option \<Rightarrow> (string \<times> entry) list \<Rightarrow> bool" where
  "skipped_directory name es \<longleftrightarrow> name \<in> {Some ''target'', Some ''.git''} \<or> is_cache_directory es"

text \<open>Relative path and kind of every entry the walk visits; \<open>pre\<close> is the path down to the directory.\<close>

fun listing_entries :: "string \<Rightarrow> (string \<times> entry) list \<Rightarrow> string list"
  and listing_entry :: "string \<Rightarrow> string \<Rightarrow> entry \<Rightarrow> string list" where
  "listing_entries pre [] = []"
| "listing_entries pre ((name, e) # es) = listing_entry (pre @ name) name e @ listing_entries pre es"
| "listing_entry path name (Folder es) =
     (''d '' @ path) # (if skipped_directory (Some name) es then [] else listing_entries (path @ ''/'') es)"
| "listing_entry path name (Symlink t) = [''l '' @ path]"
| "listing_entry path name (Plain b x) = [''f '' @ path]"
| "listing_entry path name Special = [''f '' @ path]"

definition listing_bytes :: "string list \<Rightarrow> string" where
  "listing_bytes ls = ''bellows-directory-listing-v1'' @ [CHR 0x00] @ concat (map (\<lambda>l. l @ [CHR 0x00]) (sort ls))"

definition directory_listing_digest :: "'b lib \<Rightarrow> string option \<Rightarrow> (string \<times> entry) list \<Rightarrow> string" where
  "directory_listing_digest L name es =
     l_hash L (listing_bytes (if skipped_directory name es then [] else listing_entries [] es))"

text \<open>A dangling link fails the walk.\<close>

fun walk_entries :: "string \<Rightarrow> (string \<times> entry) list \<Rightarrow> string list option"
  and walk_inputs :: "string \<Rightarrow> string option \<Rightarrow> entry \<Rightarrow> string list option" where
  "walk_entries dir [] = Some []"
| "walk_entries dir ((name, e) # es) =
     (case walk_inputs (path_join dir name) (Some name) e of
        None \<Rightarrow> None | Some fs \<Rightarrow> (case walk_entries dir es of None \<Rightarrow> None | Some gs \<Rightarrow> Some (fs @ gs)))"
| "walk_inputs path name (Folder es) = (if skipped_directory name es then Some [] else walk_entries path es)"
| "walk_inputs path name (Plain b x) = Some [path]"
| "walk_inputs path name (Symlink t) = (case t of To_file p \<Rightarrow> Some [p] | To_dir c \<Rightarrow> Some [] | Nowhere \<Rightarrow> None)"
| "walk_inputs path name Special = Some []"

end
