(* ===== verification/Cli_Script_Run.thy ===== *)
theory Cli_Script_Run
  imports Cli_Build_Script
begin

text \<open>
  A run of a build script (\<open>build_script.rs\<close>): the launcher put in the script's place, the identity
  of a run, what a successful run records, how a recorded run is restored, and \<open>cached_run\<close>, which
  ties them together.
\<close>

section \<open>The launcher\<close>

definition is_build_script_compile :: "string \<Rightarrow> string \<Rightarrow> bool" where
  "is_build_script_compile crate_name out_dir \<longleftrightarrow>
     prefix ''build_script_'' crate_name \<and> Option.bind (path_parent out_dir) path_file_name = Some ''build''"

definition unit_file :: "bool \<Rightarrow> string \<Rightarrow> string \<Rightarrow> string" where
  "unit_file windows crate_name extra = crate_name @ extra @ (if windows then ''.exe'' else [])"

text \<open>\<open>raw\<close> are the arguments after the compiler; one that is not UTF-8 ends it.\<close>

definition build_script_unit :: "machine \<Rightarrow> string list \<Rightarrow> (string \<times> string) option" where
  "build_script_unit h raw =
     (let args = tl raw in
      if \<not> list_all utf8 args then None
      else case (option_value args ''--crate-name'', option_value args ''--out-dir'') of
        (Some crate_name, Some out_dir) \<Rightarrow>
          if is_build_script_compile crate_name out_dir
             \<and> list_ex (\<lambda>emit. ''link'' \<in> set (split_on (\<lambda>c. c = CHR '','') emit)) (multi_option_values args ''--emit'')
          then Some (out_dir, unit_file (ho_windows h) crate_name
                 (case codegen_value args ''extra-filename'' of Some extra \<Rightarrow> extra | None \<Rightarrow> []))
          else None
      | _ \<Rightarrow> None)"

definition record_name :: string where "record_name = ''.bellows-build-script.json''"

definition real_prefix :: string where "real_prefix = ''.bellows-real-''"

text \<open>
  An output directory as its files by name: the bytes and the modification time. \<open>copied\<close>
  says whether copying the launcher and setting its time succeed, \<open>recorded\<close> whether writing the
  record does.
\<close>

type_synonym unit_dir = "string \<Rightarrow> (string \<times> nat) option"

definition install_launcher :: "(json \<Rightarrow> string) \<Rightarrow> bool \<Rightarrow> string \<Rightarrow> bool \<Rightarrow> bool \<Rightarrow> nat \<Rightarrow> string \<Rightarrow> unit_dir \<Rightarrow> unit_dir \<times> bool" where
  "install_launcher Q disabled launcher copied recorded now script dir =
     (if disabled then (dir, True)
      else case dir script of
        None \<Rightarrow> (dir, False)
      | Some (bytes, modified) \<Rightarrow>
          let real = real_prefix @ script;
              moved = dir(script := None, real \<mapsto> (bytes, modified));
              installed = moved(script \<mapsto> (launcher, modified))
          in if \<not> copied then (moved(script \<mapsto> (bytes, modified), real := None), False)
             else if \<not> recorded then (installed, False)
             else (installed(record_name \<mapsto> (Q (J_object [(''real'', J_string real)]), now)), True))"

definition remove_launcher :: "string \<Rightarrow> unit_dir \<Rightarrow> unit_dir" where
  "remove_launcher script dir =
     (if dir record_name = None then dir
      else dir(record_name := None, script := None, real_prefix @ script := None))"

text \<open>
  What \<open>rustc_wrapper\<close> does around a build-script compile: the old launcher goes first, the new one comes
  when rustc succeeded and left the script.
\<close>

definition launcher_around :: "machine \<Rightarrow> string list \<Rightarrow> (unit_dir \<Rightarrow> unit_dir \<times> bool) \<Rightarrow>
    (string \<Rightarrow> unit_dir \<Rightarrow> unit_dir \<times> bool) \<Rightarrow> unit_dir \<Rightarrow> unit_dir \<times> act list" where
  "launcher_around h raw compile install dir =
     (let (built, ok) = compile (case build_script_unit h raw of None \<Rightarrow> dir | Some (_, script) \<Rightarrow> remove_launcher script dir)
      in case build_script_unit h raw of
           None \<Rightarrow> (built, [])
         | Some (_, script) \<Rightarrow>
             if ok \<and> built script \<noteq> None
             then (let (installed, fine) = install script built
                   in (installed, if fine then [] else
                        [Event ''fallback'' None ''build-script launcher not installed; the script runs uncached'']))
             else (built, []))"

definition strip_suffix :: "string \<Rightarrow> string \<Rightarrow> string option" where
  "strip_suffix suf s = map_option rev (strip_prefix (rev suf) (rev s))"

definition launcher_name :: "string \<Rightarrow> bool" where
  "launcher_name name \<longleftrightarrow>
     (let stem = (case strip_suffix ''.exe'' name of Some s \<Rightarrow> s | None \<Rightarrow> name)
      in stem = ''build-script-build'' \<or> prefix ''build_script_'' stem)"

definition recorded_real :: "(string \<Rightarrow> json option) \<Rightarrow> string \<Rightarrow> string option" where
  "recorded_real P bytes =
     (case P bytes of
        Some v \<Rightarrow> (case json_field ''real'' v of J_string real \<Rightarrow> Some real | _ \<Rightarrow> None)
      | None \<Rightarrow> None)"

text \<open>The real script, when this process was started as a launcher.\<close>

definition launched_as :: "(string \<Rightarrow> json option) \<Rightarrow> machine \<Rightarrow> string list \<Rightarrow> string option" where
  "launched_as P h args =
     (case args of [] \<Rightarrow> None | program # _ \<Rightarrow>
      (case (path_file_name program, path_parent program) of
         (Some name, Some dir) \<Rightarrow>
           if \<not> utf8 name \<or> \<not> launcher_name name then None
           else (case Option.bind (ho_read h (path_join dir record_name)) (recorded_real P) of
             None \<Rightarrow> None
           | Some real \<Rightarrow>
               (case validate_relative_path real of
                  Inl _ \<Rightarrow> None
                | Inr path \<Rightarrow>
                    if length (components path) \<noteq> 1 \<or> \<not> prefix real_prefix real then None
                    else Some (path_join dir path)))
       | _ \<Rightarrow> None))"

section \<open>The identity of a run\<close>

definition script_drivers :: "machine \<Rightarrow> string list" where
  "script_drivers h = List.map_filter (env_var h) [''CC'', ''CXX'', ''AR''] @ [''cc'', ''c++'', ''ar'']"

definition tool_fields :: "machine \<Rightarrow> (string \<Rightarrow> string option) \<Rightarrow> string \<Rightarrow> string \<Rightarrow> identity_error + (string \<times> string) list" where
  "tool_fields h D workspace driver =
     (case resolve_program h driver (case env_var h ''PATH'' of Some p \<Rightarrow> p | None \<Rightarrow> []) workspace of
        None \<Rightarrow> Inr []
      | Some path \<Rightarrow> r_bind (ok_or (D path) (NoDigest path)) (\<lambda>d. Inr [(''tool'', driver), (''tool-digest'', d)]))"

definition script_fields :: "string \<Rightarrow> string list \<Rightarrow> string \<Rightarrow> string option \<Rightarrow> (string \<times> string) list \<Rightarrow>
    (string \<times> string) list \<Rightarrow> (string \<times> string) list" where
  "script_fields script args cwd rustc tools environment =
     [(''protocol'', dec_string protocol_version), (''kind'', ''build-script-run-v2''), (''script'', script)]
     @ map (Pair ''arg'') args
     @ [(''cwd'', cwd)]
     @ (case rustc of None \<Rightarrow> [] | Some version \<Rightarrow> [(''rustc'', version)])
     @ tools
     @ map (\<lambda>(name, value). (''env:'' @ name, value)) environment"

definition script_pins :: "string \<Rightarrow> normalizer \<Rightarrow> (string \<times> string) list" where
  "script_pins workspace R =
     (pin_prefix @ ''$WORKSPACE'', workspace)
     # concat (map (\<lambda>token. case spellings R token of [] \<Rightarrow> [] | root # _ \<Rightarrow> [(pin_prefix @ token, root)])
         [''$TARGET'', ''$CHECKOUT''])"

text \<open>\<open>version\<close> is \<open>compiler_identity\<close> of \<open>RUSTC\<close>.\<close>

definition script_identity :: "'b lib \<Rightarrow> (string \<Rightarrow> string option) \<Rightarrow> machine \<Rightarrow> identity_error + string \<Rightarrow>
    string \<Rightarrow> string list \<Rightarrow> string \<Rightarrow> string \<Rightarrow> identity_error + identity" where
  "script_identity L D h version real args out_dir crate_name =
     r_bind (ok_or (Option.bind (ho_cwd h) (ho_canonical h)) NoWorkingDirectory) (\<lambda>workspace.
     let N = normalizer_for h workspace out_dir None;
         R = new_normalizer (root_bases h workspace out_dir None)
     in r_bind (ok_or (D real) (NoDigest real)) (\<lambda>script.
        r_bind (case env_var h ''RUSTC'' of None \<Rightarrow> Inr None | Some _ \<Rightarrow> r_bind version (\<lambda>v. Inr (Some v))) (\<lambda>rustc.
        r_bind (map_result (tool_fields h D workspace) (script_drivers h)) (\<lambda>tools.
        let key = static_key_of L (script_fields script args (normalize N workspace) rustc (concat tools)
              (relevant_environment h N))
        in Inr \<lparr>id_static_key = key, id_normalizer = N, id_root_normalizer = R, id_workspace = workspace,
             id_fingerprint = \<lparr>fp_key = key, fp_components = []\<rparr>, id_diagnostic_group = crate_name,
             id_pins = script_pins workspace R, id_virtual_env = [], id_checkout = checkout_root h workspace,
             id_diagnostic_width = None\<rparr>))))"

section \<open>What a run records\<close>

definition tree_name :: string where "tree_name = ''out-dir.tree''"

definition listing_prefix :: string where "listing_prefix = ''BELLOWS_LISTING:''"

text \<open>
  What a capture and a restore see besides the machine: \<open>sd_entry\<close> is \<open>symlink_metadata\<close> with what
  lies below, \<open>sd_dir\<close> is \<open>read_dir\<close>, \<open>sd_digest\<close> the digest of a file.
\<close>

record script_disk =
  sd_entry :: "string \<Rightarrow> entry option"
  sd_dir :: "string \<Rightarrow> (string \<times> entry) list option"
  sd_digest :: "string \<Rightarrow> string option"
  sd_stamps :: stamps

definition listing_at :: "'b lib \<Rightarrow> script_disk \<Rightarrow> string \<Rightarrow> string option" where
  "listing_at L S path =
     (if path_file_name path \<in> {Some ''target'', Some ''.git''} then Some (directory_listing_digest L (Some ''.git'') [])
      else map_option (directory_listing_digest L (path_file_name path)) (sd_dir S path))"

definition input_digest :: "'b lib \<Rightarrow> script_disk \<Rightarrow> string \<Rightarrow> string option" where
  "input_digest L S path =
     (case sd_entry S path of None \<Rightarrow> None | Some (Folder es) \<Rightarrow> listing_at L S path | Some _ \<Rightarrow> sd_digest S path)"

definition walked :: "script_disk \<Rightarrow> string \<Rightarrow> script_error + string list" where
  "walked S path =
     r_bind (ok_or (sd_entry S path) (InputUnreadable path)) (\<lambda>e.
       ok_or (walk_inputs path (path_file_name path) e) (InputUnreadable path))"

definition declared_paths :: "machine \<Rightarrow> script_disk \<Rightarrow> string \<Rightarrow> string \<Rightarrow> script_error + string list" where
  "declared_paths h S workspace declared =
     (let path = path_join workspace declared in
      r_then (ensure (ho_exists h path) (RerunPathMissing declared))
        (r_bind (walked S path) (\<lambda>fs. Inr (case sd_entry S path of Some (Folder es) \<Rightarrow> fs @ [path] | _ \<Rightarrow> fs))))"

definition input_paths :: "machine \<Rightarrow> script_disk \<Rightarrow> string \<Rightarrow> string list \<Rightarrow> script_error + string list" where
  "input_paths h S workspace declared =
     (if declared = [] then r_bind (walked S workspace) (\<lambda>fs. Inr (sort_paths (fs @ [workspace])))
      else r_bind (map_result (declared_paths h S workspace) declared) (\<lambda>fss. Inr (sort_paths (concat fss))))"

text \<open>Whether an input changed while the script ran; the package directory is judged by its listing.\<close>

definition script_input_changed :: "'b lib \<Rightarrow> machine \<Rightarrow> script_disk \<Rightarrow> nat \<Rightarrow> identity \<Rightarrow> string option \<Rightarrow> string \<Rightarrow> bool" where
  "script_input_changed L h S started I package_listing absolute =
     (let normalized = normalize (id_normalizer I) absolute in
      if path_eq absolute (canonical_base h (id_workspace I)) \<and> ho_is_dir h absolute
      then package_listing = None \<or> listing_at L S absolute \<noteq> package_listing
      else \<not> (prefix ''$TARGET'' normalized \<or> prefix ''$PROFILE'' normalized)
           \<and> changed_during_compile (sd_stamps S) started absolute)"

type_synonym script_inputs = "file_input list \<times> file_input list \<times> env_input list"

definition script_input :: "'b lib \<Rightarrow> machine \<Rightarrow> script_disk \<Rightarrow> nat \<Rightarrow> identity \<Rightarrow> string option \<Rightarrow> string \<Rightarrow>
    script_error + script_inputs" where
  "script_input L h S started I package_listing path =
     (let absolute = canonical_base h path;
          normalized = normalize (id_normalizer I) absolute;
          portable = (validate_normalized_input_path normalized = Inr ())
      in r_then (ensure (\<not> script_input_changed L h S started I package_listing absolute) (InputChangedWhileRunning absolute))
      (r_then (ensure (prefix ''$'' normalized \<and> \<not> portable \<longrightarrow> sd_entry S absolute \<noteq> None) (InputUnreadable absolute))
      (if prefix ''$'' normalized \<and> \<not> portable \<and> (case sd_entry S absolute of Some (Folder es) \<Rightarrow> True | _ \<Rightarrow> False)
       then r_bind (ok_or (listing_at L S absolute) (InputUnreadable absolute)) (\<lambda>digest.
              Inr ([], [], [env_capture L (listing_prefix @ normalized) (Some digest)]))
       else r_then (ensure (\<not> (outside_checkout_roots normalized \<and> foreign_checkout h absolute (id_checkout I)))
              (ReadsForeignCheckout absolute))
            (r_bind (ok_or (input_digest L S absolute) (InputUnreadable absolute)) (\<lambda>digest.
              Inr (if portable then ([\<lparr>fi_path = normalized, fi_digest = digest\<rparr>], [], [])
                   else ([], [\<lparr>fi_path = absolute, fi_digest = digest\<rparr>], [])))))))"

definition script_leaks :: "identity \<Rightarrow> string \<Rightarrow> string list" where
  "script_leaks I tree = filter (\<lambda>token. leaks (scanner_for I token) tree) leak_tokens"

definition declared_env_input :: "'b lib \<Rightarrow> machine \<Rightarrow> identity \<Rightarrow> string list \<Rightarrow> string \<Rightarrow> env_input" where
  "declared_env_input L h I leaked name =
     (case env_var h name of
        Some v \<Rightarrow>
          (let normalized = normalize (id_root_normalizer I) v
           in if normalized \<noteq> v \<and> leaked = [] then env_capture_normalized L name normalized
              else env_capture L name (Some v))
      | None \<Rightarrow> env_capture L name None)"

definition script_candidate :: "'b lib \<Rightarrow> identity \<Rightarrow> string \<Rightarrow> nat \<Rightarrow> string \<Rightarrow> string \<Rightarrow> string \<Rightarrow>
    file_input list \<Rightarrow> file_input list \<Rightarrow> env_input list \<Rightarrow> action_candidate" where
  "script_candidate L I crate_name now tree out err files host_files env =
     \<lparr>ac_protocol = protocol_version, ac_static_key = id_static_key I,
      ac_action_key = compiler_action_key L (id_static_key I) files host_files env,
      ac_crate_name = crate_name, ac_created_ms = now, ac_files = files, ac_host_files = host_files, ac_env = env,
      ac_artifacts = [\<lparr>ar_file_name = tree_name, ar_digest = l_hash L tree, ar_executable = False\<rparr>],
      ac_stdout = \<lparr>sa_digest = l_hash L out, sa_len = length out\<rparr>,
      ac_stderr = \<lparr>sa_digest = l_hash L err, sa_len = length err\<rparr>,
      ac_proc_macros = []\<rparr>"

definition script_capture :: "'b capture_tools \<Rightarrow> machine \<Rightarrow> script_disk \<Rightarrow> identity \<Rightarrow> (string \<times> entry) list \<Rightarrow>
    string \<Rightarrow> string \<Rightarrow> string \<Rightarrow> nat \<Rightarrow> string option \<Rightarrow> script_error + captured" where
  "script_capture t h S I out_dir stdout stderr crate_name started package_listing =
     (let L = ct_lib t in
      r_bind (pack_tree (ct_print t) out_dir) (\<lambda>tree.
      let leaked = script_leaks I tree; (declared, names) = declared_inputs (ct_lossy t) stdout in
      r_bind (input_paths h S (id_workspace I) declared) (\<lambda>paths.
      r_bind (map_result (script_input L h S started I package_listing) paths) (\<lambda>ins.
      let files = sort_inputs (concat (map fst ins));
          host_files = sort_inputs (concat (map (fst \<circ> snd) ins));
          env = dedup_by ei_name (sort_key ei_name
            (map (declared_env_input L h I leaked) names @ concat (map (snd \<circ> snd) ins) @ leaked_pins L I leaked));
          out = normalize_bytes (id_normalizer I) stdout;
          err = normalize_bytes (id_normalizer I) stderr;
          c = script_candidate L I crate_name (ct_now_ms t) tree out err files host_files env
      in r_bind (map_err ScriptCandidate (validate_candidate_manifest L c)) (\<lambda>_.
           Inr \<lparr>cp_candidate = c, cp_blobs = fold (\<lambda>b. bt_insert (l_hash L b) b) [tree, out, err] [],
             cp_pinned = (leaked \<noteq> [])\<rparr>)))))"

section \<open>Restoring a run\<close>

text \<open>
  \<open>safe_destination\<close> and the write after it, on the tree below \<open>OUT_DIR\<close>: missing parents are made,
  a link or a file in the way of a parent and a link or a directory at the destination refuse it. A
  refusal leaves what was made so far.
\<close>

definition put_entry :: "string \<Rightarrow> entry \<Rightarrow> (string \<times> entry) list \<Rightarrow> (string \<times> entry) list" where
  "put_entry name e es = map (\<lambda>(n, f). (n, if n = name then e else f)) es"

fun place :: "bool \<Rightarrow> string \<Rightarrow> string list \<Rightarrow> (string \<times> entry) list \<Rightarrow> (string \<times> entry) list \<times> bool" where
  "place x bytes [] es = (es, False)"
| "place x bytes [n] es =
     (case map_of es n of
        None \<Rightarrow> (es @ [(n, Plain bytes x)], True)
      | Some (Folder sub) \<Rightarrow> (es, False)
      | Some (Symlink t) \<Rightarrow> (es, False)
      | Some _ \<Rightarrow> (put_entry n (Plain bytes x) es, True))"
| "place x bytes (n # m # ns) es =
     (case map_of es n of
        None \<Rightarrow> (let (sub, ok) = place x bytes (m # ns) [] in (es @ [(n, Folder sub)], ok))
      | Some (Folder sub) \<Rightarrow> (let (sub', ok) = place x bytes (m # ns) sub in (put_entry n (Folder sub') es, ok))
      | Some _ \<Rightarrow> (es, False))"

definition normal_parts :: "string \<Rightarrow> string list option" where
  "normal_parts relative =
     (if list_all is_normal (components relative)
      then Some (concat (map (\<lambda>c. case c of Normal w \<Rightarrow> [w] | _ \<Rightarrow> []) (components relative))) else None)"

fun place_files :: "tree_file list \<Rightarrow> (string \<times> entry) list \<Rightarrow> (string \<times> entry) list \<times> bool" where
  "place_files [] es = (es, True)"
| "place_files ((path, x, bytes) # fs) es =
     (case normal_parts path of
        None \<Rightarrow> (es, False)
      | Some parts \<Rightarrow> (let (es', ok) = place x bytes parts es in if ok then place_files fs es' else (es', False)))"

text \<open>What replacing the tree keeps: nested Cargo target directories.\<close>

definition kept_scratch :: "(string \<times> entry) list \<Rightarrow> (string \<times> entry) list" where
  "kept_scratch es = filter (\<lambda>(n, e). case e of Folder sub \<Rightarrow> is_cache_directory sub | _ \<Rightarrow> False) es"

datatype script_reject =
    BadRecord check_error | NotOneTree | NotTheTree string | NoBlobs | WrongNumberOfBlobs
  | BadTree tree_error | BadStreamLength | Unplaceable

definition recorded_tree :: "'b lib \<Rightarrow> (string \<Rightarrow> json option) \<Rightarrow> action_candidate \<Rightarrow> (string list \<Rightarrow> string list option) \<Rightarrow>
    script_reject + (tree_file list \<times> string \<times> string)" where
  "recorded_tree L P c fetch =
     r_then (map_err BadRecord (validate_candidate_manifest L c))
     (case ac_artifacts c of
        [a] \<Rightarrow>
          if ar_file_name a \<noteq> tree_name then Inl (NotTheTree (ar_file_name a))
          else (case fetch [ar_digest a, sa_digest (ac_stdout c), sa_digest (ac_stderr c)] of
            None \<Rightarrow> Inl NoBlobs
          | Some [archive, out, err] \<Rightarrow>
              r_bind (map_err BadTree (unpack_tree P archive)) (\<lambda>files.
                if length out \<noteq> sa_len (ac_stdout c) \<or> length err \<noteq> sa_len (ac_stderr c) then Inl BadStreamLength
                else Inr (files, out, err))
          | Some _ \<Rightarrow> Inl WrongNumberOfBlobs)
      | _ \<Rightarrow> Inl NotOneTree)"

text \<open>The directory afterwards, and the two replayed streams.\<close>

type_synonym out_dir = "(string \<times> entry) list option"

definition script_restore :: "'b lib \<Rightarrow> (string \<Rightarrow> json option) \<Rightarrow> identity \<Rightarrow> action_candidate \<Rightarrow>
    (string list \<Rightarrow> string list option) \<Rightarrow> out_dir \<Rightarrow> out_dir \<times> (script_reject + (string \<times> string))" where
  "script_restore L P I c fetch out_dir =
     (case recorded_tree L P c fetch of
        Inl e \<Rightarrow> (out_dir, Inl e)
      | Inr (files, out, err) \<Rightarrow>
          let (es, ok) = place_files files (case out_dir of None \<Rightarrow> [] | Some es \<Rightarrow> kept_scratch es)
          in (Some es, if ok then Inr (localize_bytes (id_normalizer I) out, localize_bytes (id_normalizer I) err)
                       else Inl Unplaceable))"

section \<open>A cached run\<close>

text \<open>
  \<open>Run_script\<close> is the run whose output is captured (and relayed), \<open>Plain_script\<close> the plain one.
\<close>

datatype script_act =
    S_event string "string option" string | S_report action_candidate | S_keep_blob string string
  | S_keep_candidate action_candidate | S_local_use action_candidate | Run_script | Plain_script
  | S_store action_candidate | S_upload action_candidate

record script_answers =
  sn_local :: "action_candidate list option option"
  sn_remote :: "action_candidate list option option"
  sn_out_dir :: out_dir
  sn_run :: "(nat \<times> string \<times> string) option"
  sn_after :: "(string \<times> entry) list"
  sn_started :: nat
  sn_read_only :: bool
  sn_put_ok :: bool
  sn_upload_ok :: bool
  sn_plain :: "nat option"

definition script_lookups :: "script_answers \<Rightarrow> (bool \<times> action_candidate) list" where
  "script_lookups a =
     (case sn_local a of Some (Some cs) \<Rightarrow> map (Pair False) cs | _ \<Rightarrow> [])
     @ (case sn_remote a of Some (Some cs) \<Rightarrow> map (Pair True) cs | _ \<Rightarrow> [])"

text \<open>The listings of root directories the candidates were recorded with, as of now.\<close>

definition add_listing :: "'b lib \<Rightarrow> script_disk \<Rightarrow> env_input \<Rightarrow> identity \<Rightarrow> identity" where
  "add_listing L S e I =
     (case strip_prefix listing_prefix (ei_name e) of
        None \<Rightarrow> I
      | Some root \<Rightarrow>
          if map_of (id_virtual_env I) (ei_name e) \<noteq> None then I
          else (case listing_at L S (localize (id_normalizer I) root) of
            None \<Rightarrow> I
          | Some d \<Rightarrow> I\<lparr>id_virtual_env := bt_insert (ei_name e) d (id_virtual_env I)\<rparr>))"

definition with_listings :: "'b lib \<Rightarrow> script_disk \<Rightarrow> action_candidate list \<Rightarrow> identity \<Rightarrow> identity" where
  "with_listings L S cs I = fold (add_listing L S) (concat (map ac_env cs)) I"

definition script_fetch :: "'b tools \<Rightarrow> bool \<Rightarrow> string list \<Rightarrow> string list option" where
  "script_fetch t remote = (if remote then remote_fetch (to_lib t) (to_get t) else stored_fetch (to_lib t) (to_store t))"

definition script_kept_blobs :: "'b tools \<Rightarrow> bool \<Rightarrow> bool \<Rightarrow> action_candidate \<Rightarrow> script_act list" where
  "script_kept_blobs t remote l1 c =
     (if \<not> (remote \<and> l1) then []
      else let digests = [ar_digest (hd (ac_artifacts c)), sa_digest (ac_stdout c), sa_digest (ac_stderr c)]
           in (case recorded_tree (to_lib t) (to_parse t) c (\<lambda>_. Some []) of
                 Inl WrongNumberOfBlobs \<Rightarrow>
                   (case script_fetch t True digests of None \<Rightarrow> [] | Some bs \<Rightarrow> map (\<lambda>(d, b). S_keep_blob d b) (zip digests bs))
               | _ \<Rightarrow> []))"

text \<open>A candidate that fails while it is restored may have changed \<open>OUT_DIR\<close>.\<close>

fun try_recorded :: "'b tools \<Rightarrow> machine \<Rightarrow> script_disk \<Rightarrow> identity \<Rightarrow> bool \<Rightarrow> bool \<Rightarrow> (bool \<times> action_candidate) list \<Rightarrow>
    out_dir \<Rightarrow> script_act list \<times> out_dir \<times> reject list \<times> (action_candidate \<times> string \<times> string) option" where
  "try_recorded t h S I l1 server [] out_dir = ([], out_dir, [], None)"
| "try_recorded t h S I l1 server ((remote, c) # cs) out_dir =
     (case validate_candidate (to_lib t) h (input_digest (to_lib t) S) c I of
        Inl reason \<Rightarrow>
          (let (acts, dir, reasons, found) = try_recorded t h S I l1 server cs out_dir
           in (acts, dir, reason # reasons, found))
      | Inr _ \<Rightarrow>
          (let first = (if server then [S_report c] else []) @ script_kept_blobs t remote l1 c in
           case script_restore (to_lib t) (to_parse t) I c (script_fetch t remote) out_dir of
             (dir, Inr (out, err)) \<Rightarrow>
               (first @ (if remote \<and> l1 then [S_keep_candidate c] else [])
                  @ (if \<not> remote \<and> l1 then [S_local_use c] else [])
                  @ [S_event (if remote then ''hit'' else ''l1_hit'') (Some (ac_action_key c))
                       ''restored build-script run (OUT_DIR and directives)''], dir, [], Some (c, out, err))
           | (dir, Inl e) \<Rightarrow>
               (let (acts, dir', reasons, found) = try_recorded t h S I l1 server cs dir
                in (first @ S_event ''corrupt'' (Some (ac_action_key c)) ''build-script candidate rejected during restore''
                      # acts, dir', reasons, found))))"

datatype script_outcome = Script_restored action_candidate string string | Script_ran nat | Script_failed

text \<open>Storing a captured run: an error of either store ends the cached run.\<close>

definition store_script :: "script_answers \<Rightarrow> captured \<Rightarrow> script_act list \<times> bool" where
  "store_script a cap =
     (let c = cp_candidate cap in
      if sn_local a \<noteq> None \<and> \<not> sn_put_ok a then ([], False)
      else let kept = (if sn_local a \<noteq> None then [S_store c] else []) in
        if sn_remote a \<noteq> None \<and> \<not> sn_upload_ok a then (kept, False)
        else (kept @ (if sn_remote a \<noteq> None then [S_upload c] else [])
           @ [S_event ''store'' (Some (ac_action_key c))
                (if cp_pinned cap
                 then ''stored build-script run (pinned to this checkout: it embeds the workspace or target path)''
                 else ''stored build-script run (shareable across checkouts)'')], True))"

definition after_script :: "'b capture_tools \<Rightarrow> machine \<Rightarrow> script_disk \<Rightarrow> identity \<Rightarrow> script_answers \<Rightarrow> string \<Rightarrow> bool \<Rightarrow>
    string option \<Rightarrow> nat \<Rightarrow> string \<Rightarrow> string \<Rightarrow> script_act list \<times> script_outcome" where
  "after_script k h S I a crate_name fresh package_listing status stdout stderr =
     (if status \<noteq> 0 then ([], Script_ran status)
      else if fresh \<and> sn_read_only a then ([], Script_ran status)
      else case (if \<not> fresh then Inl OverExistingOutDir
                 else script_capture k h S I (sn_after a) stdout stderr crate_name (sn_started a) package_listing) of
        Inl e \<Rightarrow>
          ([if script_deliberate e then S_event ''not_stored'' None ''ran but not stored''
            else S_event ''fallback'' None ''build-script capture skipped after a successful run''], Script_ran status)
      | Inr cap \<Rightarrow> (let (acts, ok) = store_script a cap in (acts, if ok then Script_ran status else Script_failed)))"

definition script_miss :: "(check_error \<Rightarrow> string) \<Rightarrow> reject list \<Rightarrow> string" where
  "script_miss render reasons =
     (case reasons of r # _ \<Rightarrow> ''build-script run: '' @ reject_message render r
      | [] \<Rightarrow> ''not cached yet: first build of this crate seen here (build-script run)'')"

text \<open>\<open>S\<close> is the disk before the run, \<open>S'\<close> the disk after it.\<close>

definition cached_run :: "'b tools \<Rightarrow> 'b capture_tools \<Rightarrow> machine \<Rightarrow> script_disk \<Rightarrow> script_disk \<Rightarrow>
    identity_error + identity \<Rightarrow> script_answers \<Rightarrow> string \<Rightarrow> script_act list \<times> out_dir \<times> script_outcome" where
  "cached_run t k h S S' built a crate_name =
     (case built of
        Inl e \<Rightarrow> ([], sn_out_dir a, Script_failed)
      | Inr I0 \<Rightarrow>
          let lookups = script_lookups a;
              I = with_listings (to_lib t) S (map snd lookups) I0;
              (acts, dir, reasons, found) =
                try_recorded t h S I (sn_local a \<noteq> None) (sn_remote a \<noteq> None) lookups (sn_out_dir a)
          in case found of
               Some (c, out, err) \<Rightarrow> (acts, dir, Script_restored c out err)
             | None \<Rightarrow>
                 (let begun = acts @ [S_event ''miss'' None (script_miss (to_show_check t) reasons)] in
                  case sn_run a of
                    None \<Rightarrow> (begun @ [Run_script], dir, Script_failed)
                  | Some (status, stdout, stderr) \<Rightarrow>
                      (let (more, result) = after_script k h S' I a crate_name (tree_is_empty dir)
                             (listing_at (to_lib t) S (id_workspace I)) status stdout stderr
                       in (begun @ Run_script # more, Some (sn_after a), result))))"

text \<open>An error of the cached run runs the script once more.\<close>

definition script_enabled :: "machine \<Rightarrow> bool" where
  "script_enabled h \<longleftrightarrow> env_var h ''OUT_DIR'' \<noteq> None \<and> env_var h ''BELLOWS_STATE_DIR'' \<noteq> None
     \<and> env_var h ''BELLOWS_BUILD_SCRIPTS'' \<noteq> Some ''0''"

definition script_crate_name :: "machine \<Rightarrow> string" where
  "script_crate_name h = ''build-script:'' @ (case env_var h ''CARGO_PKG_NAME'' of Some n \<Rightarrow> n | None \<Rightarrow> ''unknown'')"

definition run_script :: "'b tools \<Rightarrow> 'b capture_tools \<Rightarrow> machine \<Rightarrow> script_disk \<Rightarrow> script_disk \<Rightarrow>
    identity_error + identity \<Rightarrow> script_answers \<Rightarrow> script_act list \<times> script_outcome" where
  "run_script t k h S S' built a =
     (let plain = (case sn_plain a of Some status \<Rightarrow> Script_ran status | None \<Rightarrow> Script_failed) in
      if \<not> script_enabled h then ([Plain_script], plain)
      else let (acts, dir, result) = cached_run t k h S S' built a (script_crate_name h)
           in if result = Script_failed
              then (acts @ [S_event ''fallback'' None ''build-script cache failed; running the script'', Plain_script], plain)
              else (acts, result))"

end
