(* ===== verification/Cli_Tree_Props.thy ===== *)
theory Cli_Tree_Props
  imports Cli_Script_Run
begin

text \<open>
  Packed \<open>OUT_DIR\<close> trees: what packing and unpacking agree on, what placing the unpacked files
  builds, and the round trip of a whole directory through an archive.
\<close>

section \<open>Trees as the files they hold\<close>

definition name_ok :: "string \<Rightarrow> bool" where
  "name_ok n \<longleftrightarrow> n \<noteq> [] \<and> \<not> dotted n \<and> (\<forall>c \<in> set n. \<not> is_sep c)"

fun tree_ok :: "(string \<times> entry) list \<Rightarrow> bool"
  and entry_ok :: "entry \<Rightarrow> bool" where
  "tree_ok [] = True"
| "tree_ok ((n, e) # es) = (name_ok n \<and> n \<notin> fst ` set es \<and> entry_ok e \<and> tree_ok es)"
| "entry_ok (Folder es) = tree_ok es"
| "entry_ok _ = True"

fun file_at :: "string list \<Rightarrow> (string \<times> entry) list \<Rightarrow> (bool \<times> string) option" where
  "file_at [] es = None"
| "file_at [n] es = (case map_of es n of Some (Plain b x) \<Rightarrow> Some (x, b) | _ \<Rightarrow> None)"
| "file_at (n # m # ns) es =
     (case map_of es n of
        Some (Folder sub) \<Rightarrow> if is_cache_directory sub then None else file_at (m # ns) sub | _ \<Rightarrow> None)"

definition entry_at :: "string list \<Rightarrow> entry \<Rightarrow> (bool \<times> string) option" where
  "entry_at ps e =
     (case e of Plain b x \<Rightarrow> if ps = [] then Some (x, b) else None
      | Folder es \<Rightarrow> if is_cache_directory es then None else file_at ps es | _ \<Rightarrow> None)"

lemma file_at_Cons: "file_at (n # ps) es = (case map_of es n of None \<Rightarrow> None | Some e \<Rightarrow> entry_at ps e)"
  by (cases ps) (auto simp: entry_at_def split: option.split entry.split)

section \<open>Paths of a tree\<close>

definition path_of :: "string list \<Rightarrow> string" where
  "path_of ps = join ''/'' ps"

lemma path_of_single [simp]: "path_of [n] = n"
  by (simp add: path_of_def join_def)

lemma path_of_Cons: "ps \<noteq> [] \<Longrightarrow> path_of (n # ps) = n @ ''/'' @ path_of ps"
  by (cases ps) (simp_all add: path_of_def join_def)

lemma path_of_step: "path_of (n # ps) = n @ (if ps = [] then [] else ''/'' @ path_of ps)"
  by (simp add: path_of_Cons)

lemma split_path_of:
  "list_all name_ok ps \<Longrightarrow> ps \<noteq> [] \<Longrightarrow> split_on slash (path_of ps) = ps \<and> split_on is_sep (path_of ps) = ps"
proof (induction ps)
  case (Cons n ps)
  have n: "\<forall>c \<in> set n. \<not> is_sep c" "\<forall>c \<in> set n. \<not> slash c" using Cons.prems by (auto simp: name_ok_def is_sep_def)
  have s: "is_sep (CHR ''/'')" by (simp add: is_sep_def)
  show ?case
  proof (cases "ps = []")
    case True
    then show ?thesis using split_on_clean [OF n(1)] split_on_clean [OF n(2)] by simp
  next
    case False
    then show ?thesis
      using Cons split_on_field [OF n(1) s] split_on_field [OF n(2), of "CHR ''/''"] by (simp add: path_of_Cons)
  qed
qed simp

lemma path_of_clean: "list_all name_ok ps \<Longrightarrow> ps \<noteq> [] \<Longrightarrow> clean (path_of ps)"
  by (auto simp: clean_def split_path_of list_all_iff name_ok_def)

lemma normal_parts_path_of: "list_all name_ok ps \<Longrightarrow> ps \<noteq> [] \<Longrightarrow> normal_parts (path_of ps) = Some ps"
proof -
  assume a: "list_all name_ok ps" "ps \<noteq> []"
  have c: "components (path_of ps) = map Normal ps"
    using components_clean [OF path_of_clean [OF a]] split_path_of [OF a] by simp
  have "concat (map ((\<lambda>c. case c of Normal w \<Rightarrow> [w] | _ \<Rightarrow> []) \<circ> Normal) ps) = ps" by (induction ps) simp_all
  then show ?thesis by (simp add: normal_parts_def c list_all_iff)
qed

lemma path_of_inj:
  "list_all name_ok ps \<Longrightarrow> list_all name_ok qs \<Longrightarrow> ps \<noteq> [] \<Longrightarrow> qs \<noteq> [] \<Longrightarrow> path_of ps = path_of qs \<Longrightarrow> ps = qs"
  using split_path_of by metis

lemma file_at_parts: "tree_ok es \<Longrightarrow> file_at ps es = Some v \<Longrightarrow> list_all name_ok ps \<and> ps \<noteq> []"
proof (induction ps es rule: file_at.induct)
  case (2 n es)
  then show ?case by (induction es) (auto split: if_splits option.splits entry.splits)
next
  case (3 n m ns es)
  then obtain sub where sub: "map_of es n = Some (Folder sub)" "\<not> is_cache_directory sub" "file_at (m # ns) sub = Some v"
    by (auto split: option.splits entry.splits if_splits)
  have "name_ok n \<and> tree_ok sub" using 3(2) sub(1) by (induction es) (auto split: if_splits)
  then show ?case using 3(1) [OF sub(1) refl sub(2)] sub(3) by simp
qed simp

section \<open>Collecting\<close>

lemma collect_tree_files:
  "tree_ok es \<Longrightarrow> collect_tree pre es = Inr fs \<Longrightarrow>
     set fs = {(pre @ path_of ps, x, b) | ps x b. file_at ps es = Some (x, b)}"
  "entry_ok e \<Longrightarrow> collect_entry path e = Inr fs \<Longrightarrow>
     set fs = {(path @ (if ps = [] then [] else ''/'' @ path_of ps), x, b) | ps x b. entry_at ps e = Some (x, b)}"
proof (induction pre es and path e arbitrary: fs and fs rule: collect_tree_collect_entry.induct)
  case (1 pre)
  have "file_at ps [] = None" for ps by (cases ps) (auto simp: file_at_Cons)
  with 1 show ?case by simp
next
  case (2 pre n e es)
  then obtain f g where f: "collect_entry (pre @ n) e = Inr f" "collect_tree pre es = Inr g" "fs = f @ g" by auto
  note IH = "2.IH"(1) [OF _ f(1)] "2.IH"(2) [OF _ f(2)]
  have fresh: "map_of es n = None" using "2.prems"(1) by (auto simp: map_of_eq_None_iff)
  have at: "file_at ps ((n, e) # es) = Some v \<longleftrightarrow> (\<exists>qs. ps = n # qs \<and> entry_at qs e = Some v) \<or> file_at ps es = Some v" for ps v
    using fresh by (cases ps) (auto simp: file_at_Cons split: option.splits)
  have split: "{(pre @ path_of ps, x, b) | ps x b. file_at ps ((n, e) # es) = Some (x, b)}
     = {(pre @ path_of (n # qs), x, b) | qs x b. entry_at qs e = Some (x, b)}
       \<union> {(pre @ path_of ps, x, b) | ps x b. file_at ps es = Some (x, b)}"
    unfolding at by blast
  show ?case using IH "2.prems"(1) unfolding split f(3) path_of_step by simp
next
  case (3 path b x)
  then show ?case by (auto simp: entry_at_def)
next
  case (4 path t)
  then show ?case by simp
next
  case (5 path es)
  show ?case
  proof (cases "is_cache_directory es")
    case True
    then show ?thesis using 5(3) by (simp add: entry_at_def)
  next
    case False
    then have s: "set fs = {((path @ ''/'') @ path_of ps, x, b) | ps x b. file_at ps es = Some (x, b)}"
      using 5 by simp
    have "file_at ps es = Some v \<Longrightarrow> ps \<noteq> []" for ps v by (cases ps) simp_all
    then show ?thesis unfolding s using False by (fastforce simp: entry_at_def)
  qed
next
  case (6 path)
  then show ?case by (simp add: entry_at_def)
qed

lemma collect_tree_distinct:
  "tree_ok es \<Longrightarrow> collect_tree pre es = Inr fs \<Longrightarrow> distinct (map fst fs)"
  "entry_ok e \<Longrightarrow> collect_entry path e = Inr fs \<Longrightarrow> distinct (map fst fs)"
proof (induction pre es and path e arbitrary: fs and fs rule: collect_tree_collect_entry.induct)
  case (2 pre n e es)
  then obtain f g where f: "collect_entry (pre @ n) e = Inr f" "collect_tree pre es = Inr g" "fs = f @ g" by auto
  have ok: "entry_ok e" "tree_ok es" using "2.prems"(1) by simp_all
  have d: "distinct (map fst f)" "distinct (map fst g)"
    using "2.IH"(1) [OF _ f(1)] "2.IH"(2) [OF _ f(2)] "2.prems"(1) by simp_all
  have "False" if pf: "p \<in> fst ` set f" and pg: "p \<in> fst ` set g" for p
  proof -
    obtain qs v where q: "p = pre @ path_of (n # qs)" "entry_at qs e = Some v"
      using pf unfolding collect_tree_files(2) [OF ok(1) f(1)] by (auto simp: path_of_step)
    obtain ps w where p: "p = pre @ path_of ps" "file_at ps es = Some w"
      using pg unfolding collect_tree_files(1) [OF ok(2) f(2)] by auto
    have "file_at (n # qs) ((n, e) # es) = Some v" using q(2) by (simp add: file_at_Cons)
    then have "list_all name_ok (n # qs)" using file_at_parts "2.prems"(1) by blast
    moreover have ps: "list_all name_ok ps \<and> ps \<noteq> []" using file_at_parts p(2) "2.prems"(1) by simp blast
    ultimately have "ps = n # qs" using path_of_inj [of ps "n # qs"] p(1) q(1) by simp
    then have "map_of es n \<noteq> None" using p(2) by (auto simp: file_at_Cons split: option.splits)
    then show False using "2.prems"(1) by (simp add: map_of_eq_None_iff)
  qed
  then show ?case using d unfolding f(3) by auto
next
  case (5 path es)
  then show ?case by (simp split: if_splits)
qed simp_all

section \<open>Placing\<close>

text \<open>\<open>T\<close> holds part of the files of \<open>es\<close>, in the same places, and nothing else.\<close>

inductive below :: "(string \<times> entry) list \<Rightarrow> (string \<times> entry) list \<Rightarrow> bool" where
  below: "(\<And>n e. map_of T n = Some e \<Longrightarrow>
      (\<exists>b x. e = Plain b x \<and> map_of es n = Some (Plain b x))
      \<or> (\<exists>s s'. e = Folder s \<and> map_of es n = Some (Folder s') \<and> \<not> is_cache_directory s' \<and> below s s')) \<Longrightarrow> below T es"

inductive_cases belowE: "below T es"

lemma below_Nil [simp]: "below [] es"
  by (rule below.intros) simp

lemma map_of_put_entry: "map_of (put_entry n e es) k = (if k = n then map_option (\<lambda>_. e) (map_of es n) else map_of es k)"
  by (induction es) (auto simp: put_entry_def)

lemma belowD:
  "below T es \<Longrightarrow> map_of T n = Some e \<Longrightarrow>
     (\<exists>b x. e = Plain b x \<and> map_of es n = Some (Plain b x))
     \<or> (\<exists>s s'. e = Folder s \<and> map_of es n = Some (Folder s') \<and> \<not> is_cache_directory s' \<and> below s s')"
  by (erule belowE) blast

lemma below_not_cache: "below s s' \<Longrightarrow> \<not> is_cache_directory s' \<Longrightarrow> \<not> is_cache_directory s"
  by (erule belowE) (fastforce simp: is_cache_directory_def split: option.splits)

lemma below_update:
  assumes "below T es" and "\<And>k. map_of T' k = (if k = n then Some f else map_of T k)"
    and "(\<exists>b x. f = Plain b x \<and> map_of es n = Some (Plain b x))
      \<or> (\<exists>s s'. f = Folder s \<and> map_of es n = Some (Folder s') \<and> \<not> is_cache_directory s' \<and> below s s')"
  shows "below T' es"
proof (rule below.intros)
  fix k e
  assume k: "map_of T' k = Some e"
  show "(\<exists>b x. e = Plain b x \<and> map_of es k = Some (Plain b x))
      \<or> (\<exists>s s'. e = Folder s \<and> map_of es k = Some (Folder s') \<and> \<not> is_cache_directory s' \<and> below s s')"
  proof (cases "k = n")
    case True
    then show ?thesis using k assms(2) [of k] assms(3) by simp
  next
    case False
    then show ?thesis using k assms(2) [of k] belowD [OF assms(1)] by simp
  qed
qed

text \<open>\<open>T'\<close> is \<open>T\<close> with the file \<open>v\<close> at \<open>parts\<close>.\<close>

lemma place_below:
  "below T es \<Longrightarrow> file_at parts es = Some (x, b) \<Longrightarrow> place x b parts T = (T', ok) \<Longrightarrow>
     ok \<and> below T' es \<and> (\<forall>qs. file_at qs T' = (if qs = parts then Some (x, b) else file_at qs T))"
proof (induction x b parts T arbitrary: es T' ok rule: place.induct)
  case (1 x b T)
  then show ?case by simp
next
  case (2 x b n T)
  have n: "map_of es n = Some (Plain b x)" using 2(2) by (auto split: option.splits entry.splits)
  have T: "map_of T n = None \<or> map_of T n = Some (Plain b x)"
    using belowD [OF 2(1), of n] n by (cases "map_of T n") auto
  then have new: "map_of T' k = (if k = n then Some (Plain b x) else map_of T k)" and "ok" for k
    using 2(3) by (auto simp: map_of_put_entry map_add_def split: option.splits)
  have "below T' es"
    using below_update [OF 2(1) new] n by simp
  moreover have "file_at qs T' = (if qs = [n] then Some (x, b) else file_at qs T)" for qs
  proof (cases qs)
    case (Cons q rest)
    then show ?thesis using T by (auto simp: file_at_Cons new entry_at_def split: option.split)
  qed simp
  ultimately show ?case using \<open>ok\<close> by blast
next
  case (3 x b n m ns T)
  obtain s' where n: "map_of es n = Some (Folder s')" "\<not> is_cache_directory s'" "file_at (m # ns) s' = Some (x, b)"
    using 3(4) by (auto split: option.splits entry.splits if_splits)
  obtain s where s: "below s s'" "map_of T n = Some (Folder s) \<or> map_of T n = None \<and> s = []"
    using belowD [OF 3(3), of n] n(1) by (cases "map_of T n") auto
  obtain t ok' where t': "place x b (m # ns) s = (t, ok')" by fastforce
  have new: "ok' = ok \<and> T' = (if map_of T n = None then T @ [(n, Folder t)] else put_entry n (Folder t) T)"
    using s(2) 3(5) t' by auto
  have t: "place x b (m # ns) s = (t, ok)" "\<And>k. map_of T' k = (if k = n then Some (Folder t) else map_of T k)"
    using t' new s(2) by (auto simp: map_of_put_entry map_add_def split: option.split)
  have IH: "ok \<and> below t s' \<and> (\<forall>qs. file_at qs t = (if qs = m # ns then Some (x, b) else file_at qs s))"
    using s(2)
  proof
    assume "map_of T n = Some (Folder s)"
    then show ?thesis using 3(2) [OF _ refl s(1) n(3) t(1)] by simp
  next
    assume "map_of T n = None \<and> s = []"
    then show ?thesis using 3(1) [OF _ _ n(3)] s(1) t(1) by simp
  qed
  have "below T' es"
    using below_update [OF 3(3) t(2)] n IH by blast
  moreover have "file_at qs T' = (if qs = n # m # ns then Some (x, b) else file_at qs T)" for qs
  proof (cases qs)
    case (Cons q rest)
    have c: "\<not> is_cache_directory t" "\<not> is_cache_directory s"
      using below_not_cache IH s(1) n(2) by blast+
    have none: "file_at r [] = None" for r by (cases r) (simp_all add: file_at_Cons)
    show ?thesis unfolding Cons using s(2) IH c by (auto simp: file_at_Cons t(2) entry_at_def none)
  qed simp
  ultimately show ?case using IH by blast
qed

lemma tree_ok_snoc: "tree_ok (T @ [(n, e)]) \<longleftrightarrow> tree_ok T \<and> name_ok n \<and> n \<notin> fst ` set T \<and> entry_ok e"
  by (induction T) auto

lemma tree_ok_put: "tree_ok T \<Longrightarrow> entry_ok e \<Longrightarrow> tree_ok (put_entry n e T)"
proof -
  have "fst ` set (put_entry n e T) = fst ` set T" for T :: "(string \<times> entry) list" by (force simp: put_entry_def)
  then show "tree_ok T \<Longrightarrow> entry_ok e \<Longrightarrow> tree_ok (put_entry n e T)"
    by (induction T) (auto simp: put_entry_def)
qed

lemma tree_ok_lookup: "tree_ok T \<Longrightarrow> map_of T n = Some e \<Longrightarrow> entry_ok e"
  by (induction T) (auto split: if_splits)

lemma place_ok:
  "tree_ok T \<Longrightarrow> list_all name_ok parts \<Longrightarrow> place x b parts T = (T', ok) \<Longrightarrow> tree_ok T'"
proof (induction x b parts T arbitrary: T' ok rule: place.induct)
  case (1 x b T)
  then show ?case by simp
next
  case (2 x b n T)
  then show ?case
    by (auto simp: tree_ok_snoc tree_ok_put map_of_eq_None_iff split: option.splits entry.splits)
next
  case (3 x b n m ns T)
  show ?case
  proof (cases "map_of T n")
    case None
    then obtain sub where p: "place x b (m # ns) [] = (sub, ok)" "T' = T @ [(n, Folder sub)]"
      using 3(5) by (auto split: prod.splits)
    have "tree_ok sub" using 3(1) [OF None _ _ p(1)] 3(4) by simp
    then show ?thesis using 3(3,4) None p(2) by (simp add: tree_ok_snoc map_of_eq_None_iff)
  next
    case (Some e)
    show ?thesis
    proof (cases e)
      case (Folder sub)
      then obtain sub' where p: "place x b (m # ns) sub = (sub', ok)" "T' = put_entry n (Folder sub') T"
        using 3(5) Some by (auto split: prod.splits)
      have "tree_ok sub" using tree_ok_lookup [OF 3(3)] Some Folder by fastforce
      then have "tree_ok sub'" using 3(2) [OF Some Folder _ _ p(1)] 3(4) by simp
      then show ?thesis using 3(3) p(2) by (simp add: tree_ok_put)
    qed (use 3(3,5) Some in auto)
  qed
qed

lemma place_files_below:
  "below T es \<Longrightarrow> tree_ok T \<Longrightarrow> tree_ok es \<Longrightarrow>
     \<forall>(path, x, b) \<in> set fs. \<exists>ps. path = path_of ps \<and> file_at ps es = Some (x, b) \<Longrightarrow>
   \<exists>T'. place_files fs T = (T', True) \<and> below T' es \<and> tree_ok T'
     \<and> (\<forall>qs. file_at qs T' = (if \<exists>x b. (path_of qs, x, b) \<in> set fs \<and> file_at qs es = Some (x, b) then file_at qs es else file_at qs T))"
proof (induction fs arbitrary: T)
  case Nil
  then show ?case by simp
next
  case (Cons f fs)
  obtain path x b where f: "f = (path, x, b)" by (cases f)
  then obtain ps where ps: "path = path_of ps" "file_at ps es = Some (x, b)" using Cons.prems(4) by auto
  have ok: "list_all name_ok ps \<and> ps \<noteq> []" using file_at_parts Cons.prems(3) ps(2) by blast
  obtain T1 o1 where p: "place x b ps T = (T1, o1)" by fastforce
  have T1: "o1" "below T1 es" "\<And>qs. file_at qs T1 = (if qs = ps then Some (x, b) else file_at qs T)" "tree_ok T1"
    using place_below [OF Cons.prems(1) ps(2) p] place_ok [OF Cons.prems(2) _ p] ok by auto
  obtain T' where T': "place_files fs T1 = (T', True)" "below T' es" "tree_ok T'"
      "\<And>qs. file_at qs T' = (if \<exists>x b. (path_of qs, x, b) \<in> set fs \<and> file_at qs es = Some (x, b) then file_at qs es else file_at qs T1)"
    using Cons.IH [OF T1(2) T1(4) Cons.prems(3)] Cons.prems(4) by auto
  have "place_files (f # fs) T = (T', True)"
    using normal_parts_path_of [of ps] ok p T1(1) T'(1) by (simp add: f ps(1))
  moreover have "file_at qs T' = (if \<exists>x b. (path_of qs, x, b) \<in> set (f # fs) \<and> file_at qs es = Some (x, b)
      then file_at qs es else file_at qs T)" for qs
  proof -
    have "qs = ps" if "path_of qs = path_of ps" "file_at qs es = Some v" for v
      using path_of_inj [of qs ps] file_at_parts [OF Cons.prems(3) that(2)] ok that(1) by blast
    then show ?thesis using ps(2) by (auto simp: T'(4) T1(3) f ps(1))
  qed
  ultimately show ?case using T'(2,3) by blast
qed

lemma collect_total:
  "(\<And>n e path. (n, e) \<in> set T \<Longrightarrow> \<exists>fs. collect_entry path e = Inr fs) \<Longrightarrow> \<exists>fs. collect_tree pre T = Inr fs"
proof (induction T)
  case (Cons f T)
  obtain n e where f: "f = (n, e)" by (cases f)
  obtain a b where "collect_entry (pre @ n) e = Inr a" "collect_tree pre T = Inr b"
    using Cons f by (metis list.set_intros)
  then show ?case by (simp add: f)
qed simp

lemma tree_ok_map_of: "tree_ok T \<Longrightarrow> (n, e) \<in> set T \<Longrightarrow> map_of T n = Some e"
  by (induction T) force+

lemma collect_below: "below T es \<Longrightarrow> tree_ok T \<Longrightarrow> \<exists>fs. collect_tree pre T = Inr fs"
proof (induction arbitrary: pre rule: below.induct)
  case (below T es)
  show ?case
  proof (rule collect_total)
    fix n e path
    assume "(n, e) \<in> set T"
    then have m: "map_of T n = Some e" using tree_ok_map_of below.prems by blast
    then have ok: "entry_ok e" using tree_ok_lookup below.prems by blast
    show "\<exists>fs. collect_entry path e = Inr fs"
      using below.IH [OF m] ok by (elim disjE exE conjE) auto
  qed
qed

section \<open>Archives\<close>

lemma pack_files_append:
  "pack_files Q archive fs = Inr r \<Longrightarrow>
     r = archive @ concat (map (packed_file Q) fs) \<and> (\<forall>f \<in> set fs. length (snd (snd f)) \<le> max_tree_bytes)"
proof (induction fs arbitrary: archive)
  case (Cons f fs)
  have "pack_files Q (archive @ packed_file Q f) fs = Inr r" "length (archive @ packed_file Q f) \<le> max_tree_bytes"
    using Cons.prems by (simp_all add: Let_def split: if_splits)
  then have "r = (archive @ packed_file Q f) @ concat (map (packed_file Q) fs) \<and> (\<forall>g \<in> set fs. length (snd (snd g)) \<le> max_tree_bytes)"
    and "length (snd (snd f)) \<le> max_tree_bytes"
    using Cons.IH by (blast, simp add: packed_file_def)
  then show ?case by simp
qed simp

definition codec_of :: "(string \<Rightarrow> json option) \<Rightarrow> (json \<Rightarrow> string) \<Rightarrow> tree_file list \<Rightarrow> bool" where
  "codec_of P Q fs \<longleftrightarrow> (\<forall>f \<in> set fs. P (Q (tree_header f)) = Some (tree_header f) \<and> lf \<notin> set (Q (tree_header f)))"

lemma header_fields [simp]:
  "json_field ''path'' (tree_header (path, x, b)) = J_string path"
  "json_field ''len'' (tree_header (path, x, b)) = J_number (dec_string (length b))"
  "json_field ''executable'' (tree_header (path, x, b)) = J_bool x"
  by (simp_all add: json_field_def tree_header_def)

lemma unpack_packed:
  "codec_of P Q fs \<Longrightarrow> \<forall>f \<in> set fs. clean (fst f) \<and> length (snd (snd f)) \<le> u64_max \<Longrightarrow>
     unpack_files P (concat (map (packed_file Q) fs)) = Inr fs"
proof (induction fs)
  case Nil
  then show ?case by (simp add: unpack_files.simps)
next
  case (Cons f fs)
  obtain path x b where f: "f = (path, x, b)" by (cases f)
  let ?q = "Q (tree_header (path, x, b))" and ?r = "concat (map (packed_file Q) fs)"
  have q: "\<forall>c \<in> set ?q. c \<noteq> lf" "P ?q = Some (tree_header (path, x, b))"
    using Cons.prems(1) by (auto simp: codec_of_def f)
  have rest: "concat (map (packed_file Q) (f # fs)) = ?q @ lf # b @ ?r" by (simp add: packed_file_def f)
  have head: "takeWhile (\<lambda>c. c \<noteq> lf) (?q @ lf # b @ ?r) = ?q" "dropWhile (\<lambda>c. c \<noteq> lf) (?q @ lf # b @ ?r) = lf # b @ ?r"
    using q(1) by (simp_all add: takeWhile_append dropWhile_append)
  have IH: "unpack_files P ?r = Inr fs" using Cons by (simp add: codec_of_def)
  have v: "validate_relative_path path = Inr path" "u64_from_str (dec_string (length b)) = Some (length b)"
    using Cons.prems(2) by (simp_all add: validate_relative_path_ok u64_from_str_dec f)
  show ?case
    unfolding rest by (subst unpack_files.simps) (use IH q(2) v in \<open>simp add: head f as_str_def as_u64_def as_bool_def\<close>)
qed

section \<open>The round trip\<close>

lemma sort_files_unique:
  assumes "set fs = set gs" "distinct (map fst fs)" "distinct (map fst gs)"
  shows "sort_key fst fs = sort_key fst (gs :: tree_file list)"
proof (rule map_sorted_distinct_set_unique [of fst])
  show "inj_on fst (set (sort_key fst fs) \<union> set (sort_key fst gs))"
    using assms by (simp add: distinct_map)
  have "distinct (map fst (sort_key fst xs))" if "distinct (map fst xs)" for xs :: "tree_file list"
    using that by (simp add: distinct_map)
  then show "distinct (map fst (sort_key fst fs))" "distinct (map fst (sort_key fst gs))" using assms(2,3) by blast+
qed (use assms in simp_all)

text \<open>
  C18. A packed \<open>OUT_DIR\<close> comes back whole: unpacking the archive and placing its files in an empty
  directory succeeds, and packing that directory gives the same archive byte for byte, whatever
  order the two directories list their entries in. The tree has ordinary file names; scratch
  directories are not part of it.
\<close>

theorem restored_tree_repacks:
  assumes "tree_ok es" and "collect_tree [] es = Inr fs" and "codec_of P Q fs" and "pack_tree Q es = Inr archive"
  shows "\<exists>files es'. unpack_tree P archive = Inr files \<and> place_files files [] = (es', True) \<and> pack_tree Q es' = Inr archive"
proof -
  let ?fs = "sort_key fst fs"
  have pf: "pack_files Q tree_magic ?fs = Inr archive" using assms(2,4) by (simp add: pack_tree_def)
  have at: "set fs = {(path_of ps, x, b) | ps x b. file_at ps es = Some (x, b)}"
    using collect_tree_files(1) [OF assms(1,2)] by simp
  have "unpack_files P (concat (map (packed_file Q) ?fs)) = Inr ?fs"
  proof (rule unpack_packed)
    show "codec_of P Q ?fs" using assms(3) by (simp add: codec_of_def)
    have "clean (fst f)" if f: "f \<in> set fs" for f
    proof -
      obtain ps x b where "f = (path_of ps, x, b)" "file_at ps es = Some (x, b)" using f unfolding at by blast
      then show ?thesis using path_of_clean file_at_parts [OF assms(1)] by simp
    qed
    moreover have "max_tree_bytes \<le> u64_max" by (simp add: max_tree_bytes_def u64_max_def)
    ultimately show "\<forall>f \<in> set ?fs. clean (fst f) \<and> length (snd (snd f)) \<le> u64_max"
      using pack_files_append [OF pf] by (metis order_trans set_sort)
  qed
  then have u: "unpack_tree P archive = Inr ?fs"
    using pack_files_append [OF pf] by (simp add: unpack_tree_def strip_prefix_def)
  obtain T where T: "place_files ?fs [] = (T, True)" "below T es" "tree_ok T"
      "\<And>qs. file_at qs T = (if \<exists>x b. (path_of qs, x, b) \<in> set ?fs \<and> file_at qs es = Some (x, b) then file_at qs es else file_at qs [])"
  proof -
    have "\<forall>(path, x, b) \<in> set ?fs. \<exists>ps. path = path_of ps \<and> file_at ps es = Some (x, b)"
      unfolding set_sort at by blast
    from place_files_below [OF below_Nil _ assms(1) this] show thesis using that by (elim exE conjE meta_impE) simp_all
  qed
  have same: "file_at qs T = file_at qs es" for qs
  proof -
    have "file_at qs [] = None" by (cases qs) (simp_all add: file_at_Cons)
    then show ?thesis using at by (cases "file_at qs es") (auto simp: T(4))
  qed
  obtain gs where gs: "collect_tree [] T = Inr gs" using collect_below T(2,3) by blast
  have "set gs = set fs" using collect_tree_files(1) [OF T(3) gs] at by (simp add: same)
  then have "sort_key fst gs = ?fs"
    by (rule sort_files_unique [OF _ collect_tree_distinct(1) [OF T(3) gs] collect_tree_distinct(1) [OF assms(1,2)]])
  then have "pack_tree Q T = Inr archive" using gs pf by (simp add: pack_tree_def)
  then show ?thesis using u T(1) by blast
qed

end
