(* ===== verification/Cli_Script_Props.thy ===== *)
theory Cli_Script_Props
  imports Cli_Tree_Props Cli_Capture_Props
begin

text \<open>
  Cached build-script runs: what a restored run rests on, when a run is stored, that a failing store
  makes the script run again, what a listing commits to, and the launcher.
\<close>

section \<open>Searching\<close>

text \<open>\<open>dir\<close> and the streams are what candidate \<open>c\<close> recorded, over the scratch directories of \<open>before\<close>.\<close>

definition restored_from :: "'b tools \<Rightarrow> identity \<Rightarrow> bool \<Rightarrow> out_dir \<Rightarrow> action_candidate \<Rightarrow> string \<Rightarrow> string \<Rightarrow> bool" where
  "restored_from t I remote dir c out err \<longleftrightarrow>
     (\<exists>files o1 e1 before es.
        recorded_tree (to_lib t) (to_parse t) c (script_fetch t remote) = Inr (files, o1, e1)
        \<and> place_files files (case before of None \<Rightarrow> [] | Some old \<Rightarrow> kept_scratch old) = (es, True) \<and> dir = Some es
        \<and> out = localize_bytes (id_normalizer I) o1 \<and> err = localize_bytes (id_normalizer I) e1)"

definition served_by :: "'b tools \<Rightarrow> machine \<Rightarrow> script_disk \<Rightarrow> identity \<Rightarrow> (bool \<times> action_candidate) list \<Rightarrow>
    out_dir \<Rightarrow> action_candidate \<Rightarrow> string \<Rightarrow> string \<Rightarrow> bool" where
  "served_by t h S I lookups dir c out err \<longleftrightarrow>
     validate_candidate (to_lib t) h (input_digest (to_lib t) S) c I = Inr ()
     \<and> (\<exists>remote. (remote, c) \<in> set lookups \<and> restored_from t I remote dir c out err)"

lemma script_restore_ok:
  "script_restore (to_lib t) (to_parse t) I c (script_fetch t remote) before = (dir, Inr (out, err)) \<Longrightarrow>
     restored_from t I remote dir c out err"
  unfolding script_restore_def restored_from_def
  by (auto simp: Let_def split: sum.splits prod.splits if_splits)

lemma try_recorded_served:
  "try_recorded t h S I l1 server lookups dir = (acts, dir', reasons, Some (c, out, err)) \<Longrightarrow>
     served_by t h S I lookups dir' c out err"
proof (induction lookups arbitrary: dir acts reasons)
  case Nil
  then show ?case by simp
next
  case (Cons x lookups)
  obtain remote d where x: "x = (remote, d)" by (cases x)
  have mono: "served_by t h S I lookups dir' c out err \<Longrightarrow> served_by t h S I (x # lookups) dir' c out err"
    by (auto simp: served_by_def)
  show ?case
  proof (cases "validate_candidate (to_lib t) h (input_digest (to_lib t) S) d I")
    case (Inl reason)
    obtain a2 d2 r2 f2 where rec: "try_recorded t h S I l1 server lookups dir = (a2, d2, r2, f2)" by (metis prod_cases4)
    have "try_recorded t h S I l1 server lookups dir = (a2, dir', r2, Some (c, out, err))"
      using Cons.prems unfolding x by (simp add: Inl rec)
    then show ?thesis using Cons.IH mono by blast
  next
    case ok: (Inr u)
    obtain dir1 r where r: "script_restore (to_lib t) (to_parse t) I d (script_fetch t remote) dir = (dir1, r)" by fastforce
    show ?thesis
    proof (cases r)
      case (Inl e)
      obtain a2 d2 r2 f2 where rec: "try_recorded t h S I l1 server lookups dir1 = (a2, d2, r2, f2)" by (metis prod_cases4)
      have "try_recorded t h S I l1 server lookups dir1 = (a2, dir', r2, Some (c, out, err))"
        using Cons.prems unfolding x by (simp add: ok r Inl rec Let_def)
      then show ?thesis using Cons.IH mono by blast
    next
      case (Inr o2)
      obtain o1 e1 where o2: "o2 = (o1, e1)" by (cases o2)
      have eq: "c = d" "dir' = dir1" "o1 = out" "e1 = err"
        using Cons.prems unfolding x by (simp_all add: ok r Inr o2 Let_def)
      then have "restored_from t I remote dir' c out err" using script_restore_ok r Inr o2 by simp
      then show ?thesis using ok eq(1) by (auto simp: served_by_def x)
    qed
  qed
qed

lemma try_recorded_never_runs:
  "try_recorded t h S I l1 server lookups dir = (acts, r) \<Longrightarrow>
     Run_script \<notin> set acts \<and> Plain_script \<notin> set acts \<and> S_store c \<notin> set acts \<and> S_upload c \<notin> set acts"
proof (induction lookups arbitrary: dir acts r)
  case Nil
  then show ?case by simp
next
  case (Cons x lookups)
  obtain remote d where x: "x = (remote, d)" by (cases x)
  have k: "set (script_kept_blobs t remote l1 d) \<subseteq> {S_keep_blob a b | a b. True}"
    by (auto simp: script_kept_blobs_def Let_def split: option.splits sum.splits script_reject.splits)
  show ?case
  proof (cases "validate_candidate (to_lib t) h (input_digest (to_lib t) S) d I")
    case (Inl reason)
    then show ?thesis using Cons by (auto simp: x split: prod.splits)
  next
    case (Inr u)
    obtain dir1 r1 where r1: "script_restore (to_lib t) (to_parse t) I d (script_fetch t remote) dir = (dir1, r1)" by fastforce
    show ?thesis
    proof (cases r1)
      case (Inl e)
      then show ?thesis using Cons.prems Cons.IH [of dir1] Inr r1 k by (auto simp: x Let_def split: prod.splits)
    next
      case (Inr o2)
      then show ?thesis using Cons.prems \<open>validate_candidate _ _ _ _ _ = Inr u\<close> r1 k by (auto simp: x Let_def split: prod.splits)
    qed
  qed
qed

text \<open>The listing a root directory is looked up with is its listing now.\<close>

lemma with_listings_other: "id_normalizer (with_listings L S cs I) = id_normalizer I
     \<and> id_workspace (with_listings L S cs I) = id_workspace I"
proof -
  have "id_normalizer (fold (add_listing L S) es I) = id_normalizer I \<and> id_workspace (fold (add_listing L S) es I) = id_workspace I" for es
    by (induction es arbitrary: I) (auto simp: add_listing_def split: option.splits)
  then show ?thesis by (simp add: with_listings_def)
qed

definition listing_now :: "'b lib \<Rightarrow> script_disk \<Rightarrow> identity \<Rightarrow> string \<Rightarrow> string option" where
  "listing_now L S I name =
     (case strip_prefix listing_prefix name of None \<Rightarrow> None | Some root \<Rightarrow> listing_at L S (localize (id_normalizer I) root))"

lemma add_listings_value:
  "(\<forall>n. map_of (id_virtual_env I) n \<in> {None, listing_now L S I n}) \<Longrightarrow>
     (\<forall>n. map_of (id_virtual_env (fold (add_listing L S) es I)) n \<in> {None, listing_now L S I n})
     \<and> (\<forall>e \<in> set es. map_of (id_virtual_env (fold (add_listing L S) es I)) (ei_name e) = listing_now L S I (ei_name e))
     \<and> (\<forall>n v. map_of (id_virtual_env I) n = Some v \<longrightarrow> map_of (id_virtual_env (fold (add_listing L S) es I)) n = Some v)"
proof (induction es arbitrary: I)
  case Nil
  then show ?case by simp
next
  case (Cons e es)
  let ?J = "add_listing L S e I"
  have n: "id_normalizer ?J = id_normalizer I" by (auto simp: add_listing_def split: option.splits)
  have l: "listing_now L S ?J = listing_now L S I" by (auto simp: listing_now_def fun_eq_iff n split: option.split)
  have J: "map_of (id_virtual_env ?J) n = (if n = ei_name e \<and> map_of (id_virtual_env I) n = None then listing_now L S I n
      else map_of (id_virtual_env I) n)" for n
    by (auto simp: add_listing_def listing_now_def split: option.splits)
  have inv: "\<forall>n. map_of (id_virtual_env ?J) n \<in> {None, listing_now L S I n}"
    and e: "map_of (id_virtual_env ?J) (ei_name e) = listing_now L S I (ei_name e)"
    and keep: "map_of (id_virtual_env I) n = Some v \<Longrightarrow> map_of (id_virtual_env ?J) n = Some v" for n v
    unfolding J using Cons.prems by (simp_all, metis option.distinct(1))
  have IH: "(\<forall>n. map_of (id_virtual_env (fold (add_listing L S) es ?J)) n \<in> {None, listing_now L S I n})
     \<and> (\<forall>e \<in> set es. map_of (id_virtual_env (fold (add_listing L S) es ?J)) (ei_name e) = listing_now L S I (ei_name e))
     \<and> (\<forall>n v. map_of (id_virtual_env ?J) n = Some v \<longrightarrow> map_of (id_virtual_env (fold (add_listing L S) es ?J)) n = Some v)"
    using Cons.IH [of ?J] inv unfolding l by blast
  have "map_of (id_virtual_env (fold (add_listing L S) es ?J)) (ei_name e) = listing_now L S I (ei_name e)"
  proof (cases "listing_now L S I (ei_name e)")
    case None
    then show ?thesis using IH by (metis insertE singletonD)
  next
    case (Some v)
    then show ?thesis using IH e by simp
  qed
  then show ?case using IH keep by simp
qed

lemma with_listings_value:
  assumes "id_virtual_env I = []" "c \<in> set cs" "e \<in> set (ac_env c)"
  shows "env_value h (with_listings L S cs I) (ei_name e) = or_else (listing_now L S I (ei_name e)) (env_var h (ei_name e))"
proof -
  have "e \<in> set (concat (map ac_env cs))" using assms(2,3) by auto
  then have "map_of (id_virtual_env (fold (add_listing L S) (concat (map ac_env cs)) I)) (ei_name e) = listing_now L S I (ei_name e)"
    using add_listings_value [of I L S "concat (map ac_env cs)"] assms(1) by fastforce
  then show ?thesis by (simp add: env_value_def with_listings_def)
qed

section \<open>A restored run\<close>

abbreviation searched :: "'b tools \<Rightarrow> machine \<Rightarrow> script_disk \<Rightarrow> identity \<Rightarrow> script_answers \<Rightarrow>
    script_act list \<times> out_dir \<times> reject list \<times> (action_candidate \<times> string \<times> string) option" where
  "searched t h S I a \<equiv> try_recorded t h S (with_listings (to_lib t) S (map snd (script_lookups a)) I)
     (sn_local a \<noteq> None) (sn_remote a \<noteq> None) (script_lookups a) (sn_out_dir a)"

lemma cached_run_eq:
  assumes "searched t h S I a = (acts0, dir0, reasons, found)"
  shows "cached_run t k h S S' (Inr I) a name =
     (case found of
        Some (c, out, err) \<Rightarrow> (acts0, dir0, Script_restored c out err)
      | None \<Rightarrow>
          (let begun = acts0 @ [S_event ''miss'' None (script_miss (to_show_check t) reasons)] in
           case sn_run a of
             None \<Rightarrow> (begun @ [Run_script], dir0, Script_failed)
           | Some (status, stdout, stderr) \<Rightarrow>
               (let (later, result) = after_script k h S' (with_listings (to_lib t) S (map snd (script_lookups a)) I) a name
                      (tree_is_empty dir0) (listing_at (to_lib t) S (id_workspace I)) status stdout stderr
                in (begun @ Run_script # later, Some (sn_after a), result))))"
  using assms by (simp only: cached_run_def Let_def sum.case prod.case with_listings_other)

lemma after_script_restored: "after_script k h S I a name fresh listing status out err = (later, result) \<Longrightarrow>
    result \<noteq> Script_restored c o2 e2"
  by (auto simp: after_script_def Let_def split: if_splits sum.splits prod.splits)


section \<open>A stored run\<close>

text \<open>
  A run is recorded only when it can be repeated elsewhere: the script succeeded, its \<open>OUT_DIR\<close> held nothing
  but scratch directories when it started, after any restore that failed, and storing is not disabled; what is
  stored is what the capture made of the run's output and of the tree it left.
\<close>

theorem stored_run_started_empty:
  assumes run: "cached_run t k h S S' (Inr I) a name = (acts, dir, result)"
    and stored: "S_store c \<in> set acts \<or> S_upload c \<in> set acts"
  shows "\<exists>stdout stderr before J cap. sn_run a = Some (0, stdout, stderr) \<and> \<not> sn_read_only a \<and> tree_is_empty before
     \<and> script_capture k h S' J (sn_after a) stdout stderr name (sn_started a) (listing_at (to_lib t) S (id_workspace I)) = Inr cap
     \<and> cp_candidate cap = c"
proof -
  obtain acts0 dir0 reasons found where tried: "searched t h S I a = (acts0, dir0, reasons, found)" by (metis prod_cases4)
  note ran = run [unfolded cached_run_eq [OF tried] Let_def]
  have old: "S_store c \<notin> set acts0 \<and> S_upload c \<notin> set acts0" using try_recorded_never_runs [OF tried] by blast
  then have "found = None" using ran stored by (auto split: option.splits)
  with ran old stored obtain status stdout stderr more where r: "sn_run a = Some (status, stdout, stderr)"
    and more: "after_script k h S' (with_listings (to_lib t) S (map snd (script_lookups a)) I) a name (tree_is_empty dir0)
        (listing_at (to_lib t) S (id_workspace I)) status stdout stderr = (more, result)"
      "S_store c \<in> set more \<or> S_upload c \<in> set more"
    by (auto split: option.splits prod.splits)
  have "status = 0 \<and> \<not> sn_read_only a \<and> tree_is_empty dir0
    \<and> (\<exists>cap. script_capture k h S' (with_listings (to_lib t) S (map snd (script_lookups a)) I) (sn_after a) stdout stderr name
          (sn_started a) (listing_at (to_lib t) S (id_workspace I)) = Inr cap \<and> cp_candidate cap = c)"
    using more by (auto simp: after_script_def store_script_def Let_def split: if_splits sum.splits prod.splits)
  then show ?thesis using r by blast
qed


section \<open>Inputs of a run\<close>

text \<open>
  A watched directory reached through a link is walked as the link: nothing below it is recorded, so a later change
  there does not keep the run from being restored.
\<close>

lemma linked_directory_unwatched:
  "ho_exists h (path_join workspace declared) \<Longrightarrow> sd_entry S (path_join workspace declared) = Some (Symlink (To_dir cache)) \<Longrightarrow>
     input_paths h S workspace [declared] = Inr []"
  by (simp add: input_paths_def declared_paths_def walked_def sort_paths_def Let_def)

lemma in_concat_map: "i \<in> set is \<Longrightarrow> f \<in> set (g i) \<Longrightarrow> n f \<in> n ` set (concat (map g is))"
  by auto

lemma script_capture_cases:
  assumes "script_capture k h S I out_dir stdout stderr name started listing = Inr cap"
    and "declared_inputs (ct_lossy k) stdout = (declared, names)"
  obtains tree paths ins where "pack_tree (ct_print k) out_dir = Inr tree" "input_paths h S (id_workspace I) declared = Inr paths"
    "map_result (script_input (ct_lib k) h S started I listing) paths = Inr ins"
    "cp_candidate cap = script_candidate (ct_lib k) I name (ct_now_ms k) tree
       (normalize_bytes (id_normalizer I) stdout) (normalize_bytes (id_normalizer I) stderr)
       (sort_inputs (concat (map fst ins))) (sort_inputs (concat (map (fst \<circ> snd) ins)))
       (dedup_by ei_name (sort_key ei_name (map (declared_env_input (ct_lib k) h I (script_leaks I tree)) names
          @ concat (map (snd \<circ> snd) ins) @ leaked_pins (ct_lib k) I (script_leaks I tree))))"
  using assms by (auto simp: script_capture_def Let_def)


section \<open>Listings\<close>

lemma listing_records:
  "\<forall>l \<in> set ls. CHR 0x00 \<notin> set l \<Longrightarrow>
     split_on (\<lambda>c. c = CHR 0x00) (concat (map (\<lambda>l. l @ [CHR 0x00]) ls)) = ls @ [[]]"
proof (induction ls)
  case (Cons l ls)
  then have "\<forall>c \<in> set l. \<not> c = CHR 0x00" by auto
  then show ?case using Cons split_on_field [of l "\<lambda>c. c = CHR 0x00" "CHR 0x00"] by simp
qed simp


section \<open>The launcher\<close>

text \<open>
  A launcher only ever starts a file beside itself that Bellows moved aside: whatever its record says, the program
  is in the launcher's own directory, under a name that begins with the prefix of moved scripts.
\<close>

theorem launched_script_is_local:
  assumes "launched_as P h args = Some real"
  shows "\<exists>dir name. path_parent (hd args) = Some dir \<and> real = path_join dir name
     \<and> prefix real_prefix name \<and> CHR ''/'' \<notin> set name"
proof -
  obtain program rest where args: "args = program # rest" using assms by (cases args) (auto simp: launched_as_def)
  obtain dir name where d: "path_parent program = Some dir" "path_file_name program = Some name"
    using assms by (auto simp: launched_as_def args split: option.splits)
  obtain given path where v: "validate_relative_path given = Inr path" "length (components path) = 1" "prefix real_prefix given"
      "real = path_join dir path"
    using assms by (auto simp: launched_as_def args d split: if_splits option.splits sum.splits)
  then have "path = given \<and> clean given" using validate_relative_path_ok by blast
  then show ?thesis using v one_component [of given] by (auto simp: args d)
qed

text \<open>
  C35. Installing a launcher keeps the script and its timestamp: the compiled script lies unchanged under the name the
  record gives, the launcher carries the script's modification time, so Cargo sees nothing stale, and a launcher that
  cannot be written leaves the directory as it was. Removing it leaves neither launcher, script nor record.
\<close>

theorem launcher_keeps_script:
  assumes "dir script = Some (bytes, modified)" and "dir (real_prefix @ script) = None" and "script \<noteq> record_name"
    and "P (Q (J_object [(''real'', J_string (real_prefix @ script))])) = Some (J_object [(''real'', J_string (real_prefix @ script))])"
  shows "case install_launcher Q False launcher copied recorded now script dir of
       (dir', True) \<Rightarrow> dir' (real_prefix @ script) = Some (bytes, modified) \<and> dir' script = Some (launcher, modified)
         \<and> map_option (recorded_real P \<circ> fst) (dir' record_name) = Some (Some (real_prefix @ script))
         \<and> (\<forall>f \<in> {script, real_prefix @ script, record_name}. remove_launcher script dir' f = None)
     | (dir', False) \<Rightarrow> if copied then dir' script = Some (launcher, modified) \<and> dir' record_name = dir record_name else dir' = dir"
proof -
  have "script \<noteq> real_prefix @ script" "record_name \<noteq> real_prefix @ script"
    by (simp_all add: real_prefix_def record_name_def)
  then show ?thesis using assms
    by (auto simp: install_launcher_def Let_def recorded_real_def json_field_def remove_launcher_def fun_eq_iff)
qed

section \<open>Examples\<close>

text \<open>A script in \<open>/w\<close> that watches its own \<open>build.rs\<close>.\<close>

definition ex_run_host :: machine where
  "ex_run_host = ex_host\<lparr>ho_exists := (\<lambda>p. p = ''/w/build.rs''),
     ho_env := [(''OUT_DIR'', ''/o''), (''BELLOWS_STATE_DIR'', ''/s'')]\<rparr>"

definition ex_run_disk :: script_disk where
  "ex_run_disk = \<lparr>sd_entry = \<lambda>p. if p = ''/w/build.rs'' then Some (Plain [] False) else None, sd_dir = \<lambda>p. None,
     sd_digest = \<lambda>p. if p = ''/w/build.rs'' then Some ex_key else None, sd_stamps = \<lambda>p. Some (Some 5, Some 5)\<rparr>"

definition ex_watch :: string where "ex_watch = ''cargo:rerun-if-changed=build.rs'' @ [lf]"

definition ex_recorded :: "string \<Rightarrow> string \<Rightarrow> string \<Rightarrow> action_candidate" where
  "ex_recorded name out err = script_candidate ex_codec ex_identity name 7 tree_magic out err []
     [\<lparr>fi_path = ''/w/build.rs'', fi_digest = ex_key\<rparr>] []"

lemma ex_recorded_fields:
  "ac_env (ex_recorded name out err) = []" "ac_files (ex_recorded name out err) = []"
  "ac_host_files (ex_recorded name out err) = [\<lparr>fi_path = ''/w/build.rs'', fi_digest = ex_key\<rparr>]"
  "ac_artifacts (ex_recorded name out err) = [\<lparr>ar_file_name = tree_name, ar_digest = ex_key, ar_executable = False\<rparr>]"
  "ac_stdout (ex_recorded name out err) = \<lparr>sa_digest = l_hash ex_codec out, sa_len = length out\<rparr>"
  "ac_stderr (ex_recorded name out err) = \<lparr>sa_digest = l_hash ex_codec err, sa_len = length err\<rparr>"
  by (simp_all add: ex_recorded_def script_candidate_def ex_codec_def tree_magic_def lf_def)

lemma ex_recorded_ok:
  assumes "length name \<in> {1..256}"
  shows "candidate_ok ex_codec (ex_recorded name out err)"
proof -
  have "clean tree_name" "CHR ''/'' \<notin> set tree_name" by (simp_all add: clean_def is_sep_def dotted_def tree_name_def)
  moreover have "validate_host_input_path ''/w/build.rs'' = Inr ()" by code_simp
  moreover have "key_ok (compiler_action_key ex_codec a b c d)" for a b c d by (simp add: compiler_action_key_def ex_codec_key)
  moreover have "key_ok ex_key" using ex_codec_key [of "[]"] by (simp add: ex_codec_def)
  ultimately show ?thesis using assms
    by (simp add: candidate_ok_def ex_recorded_fields inputs_ok_def env_ok_def artifacts_ok_def ex_codec_key
        max_candidate_artifacts_def max_candidate_files_def)
      (simp add: ex_recorded_def script_candidate_def ex_identity_def)
qed

lemma ex_run_paths: "input_paths ex_run_host ex_run_disk ''/w'' [''build.rs''] = Inr [''/w/build.rs'']"
  by code_simp

lemma ex_run_input: "script_input ex_codec ex_run_host ex_run_disk 2000000000 ex_identity None ''/w/build.rs''
     = Inr ([], [\<lparr>fi_path = ''/w/build.rs'', fi_digest = ex_key\<rparr>], [])"
proof -
  have c: "canonical_base ex_run_host p = p" for p by (simp add: canonical_base_def ex_run_host_def ex_host_def)
  have n: "normalize (id_normalizer ex_identity) ''/w/build.rs'' = ''/w/build.rs''" by code_simp
  have v: "validate_normalized_input_path ''/w/build.rs'' \<noteq> Inr ()" by code_simp
  have e: "\<not> path_eq ''/w/build.rs'' ''/w''" by code_simp
  have g: "\<not> foreign_checkout ex_run_host ''/w/build.rs'' None" by code_simp
  have s: "\<not> changed_during_compile (sd_stamps ex_run_disk) 2000000000 ''/w/build.rs''"
    by (simp add: changed_during_compile_def ex_run_disk_def stamp_recent_def timestamp_slack_def)
  have d: "input_digest ex_codec ex_run_disk ''/w/build.rs'' = Some ex_key" "sd_entry ex_run_disk ''/w/build.rs'' = Some (Plain [] False)"
    by (simp_all add: input_digest_def ex_run_disk_def)
  have w: "id_workspace ex_identity = ''/w''" "id_checkout ex_identity = None" by (simp_all add: ex_identity_def)
  show ?thesis
    by (simp add: script_input_def Let_def c n v d w g script_input_changed_def e s)
qed

lemma ex_watch_declares: "declared_inputs (\<lambda>s. s) ex_watch = ([''build.rs''], [])"
  by code_simp

lemma ex_script_capture:
  assumes "length name \<in> {1..256}"
  shows "\<exists>cap. script_capture ex_capture_tools ex_run_host ex_run_disk ex_identity [] ex_watch [] name 2000000000 None = Inr cap
     \<and> cp_candidate cap = ex_recorded name ex_watch []"
proof -
  have t: "pack_tree Q [] = Inr tree_magic" for Q by (simp add: pack_tree_def)
  have l: "script_leaks ex_identity tree_magic = []" by code_simp
  have k: "ct_lib ex_capture_tools = ex_codec" "ct_lossy ex_capture_tools = (\<lambda>s. s)" "ct_now_ms ex_capture_tools = 7"
    by (simp_all add: ex_capture_tools_def)
  have w: "id_workspace ex_identity = ''/w''" by (simp add: ex_identity_def)
  have o: "normalize_bytes (id_normalizer ex_identity) ex_watch = ex_watch" "normalize_bytes (id_normalizer ex_identity) [] = []"
    by code_simp+
  have s: "sort_inputs [f] = [f]" "sort_inputs [] = []" "leaked_pins ex_codec ex_identity [] = []" for f
    by (simp_all add: sort_inputs_def leaked_pins_def ex_identity_def)
  have m: "validate_candidate_manifest ex_codec (ex_recorded name ex_watch []) = Inr ()"
    by (simp add: candidate_manifest_ok ex_recorded_ok [OF assms])
  show ?thesis
    unfolding script_capture_def Let_def t r_bind.simps k ex_watch_declares prod.case w ex_run_paths
    by (simp add: ex_run_input l o s m [unfolded ex_recorded_def] ex_recorded_def)
qed


definition ex_sources :: "(string \<times> entry) list" where
  "ex_sources = [(''b.rs'', Plain ''x'' False), (''d'', Folder [(''a'', Plain ''yy'' True)])]"

definition ex_packed :: "tree_file list" where
  "ex_packed = [(''b.rs'', False, ''x''), (''d/a'', True, ''yy'')]"

definition ex_print_header :: "json \<Rightarrow> string" where
  "ex_print_header j = (case as_str (json_field ''path'' j) of Some p \<Rightarrow> p | None \<Rightarrow> [])"

definition ex_parse_header :: "string \<Rightarrow> json option" where
  "ex_parse_header s = map_of (map (\<lambda>f. (fst f, tree_header f)) ex_packed) s"

theorem restored_tree_repacks_witness:
  "\<exists>archive files es'. unpack_tree ex_parse_header archive = Inr files \<and> place_files files [] = (es', True)
     \<and> pack_tree ex_print_header es' = Inr archive"
proof -
  have c: "collect_tree [] ex_sources = Inr ex_packed"
    by (simp add: ex_sources_def ex_packed_def is_cache_directory_def)
  have q: "ex_print_header (tree_header (p, x, b)) = p" for p x b by (simp add: ex_print_header_def as_str_def)
  have k: "codec_of ex_parse_header ex_print_header ex_packed"
    by (simp add: codec_of_def ex_packed_def q ex_parse_header_def lf_def)
  have t: "tree_ok ex_sources" by (simp add: ex_sources_def name_ok_def dotted_def is_sep_def)
  have s: "sort_key fst ex_packed = ex_packed" by (simp add: ex_packed_def)
  obtain archive where "pack_tree ex_print_header ex_sources = Inr archive"
    by (simp add: pack_tree_def c s) (simp add: ex_packed_def packed_file_def q tree_magic_def max_tree_bytes_def Let_def)
  from restored_tree_repacks [OF t c k this] show ?thesis by blast
qed

definition ex_tree_blobs :: "ex_doc store" where
  "ex_tree_blobs = empty_store\<lparr>st_blobs := [ex_key \<mapsto> \<lparr>bf_bytes = tree_magic, bf_modified = 5\<rparr>]\<rparr>"

definition ex_run_tools :: "ex_doc tools" where
  "ex_run_tools = \<lparr>to_lib = ex_codec, to_show_check = \<lambda>e. [], to_show_restore = \<lambda>e. [], to_parse = \<lambda>s. None,
     to_print = \<lambda>j. [], to_digest = \<lambda>p. None, to_get = \<lambda>d. None, to_store = ex_tree_blobs\<rparr>"

definition ex_answers :: "action_candidate list \<Rightarrow> bool \<Rightarrow> script_answers" where
  "ex_answers cs ok = \<lparr>sn_local = Some (Some cs), sn_remote = None, sn_out_dir = None, sn_run = Some (0, ex_watch, []),
     sn_after = [], sn_started = 2000000000, sn_read_only = False, sn_put_ok = ok, sn_upload_ok = True, sn_plain = Some 0\<rparr>"

definition ex_run :: action_candidate where "ex_run = ex_recorded ''a'' tree_magic tree_magic"

lemma ex_run_valid: "validate_candidate ex_codec ex_run_host (input_digest ex_codec ex_run_disk) ex_run ex_identity = Inr ()"
proof -
  have "\<not> foreign_checkout ex_run_host ''/w/build.rs'' None" by code_simp
  moreover have "input_digest ex_codec ex_run_disk ''/w/build.rs'' = Some ex_key" by (simp add: input_digest_def ex_run_disk_def)
  ultimately show ?thesis
    by (simp add: validated_iff inputs_current_def ex_recorded_ok ex_recorded_fields width_matches_def ex_run_def
        host_file_current_def) (simp add: ex_identity_def)
qed

lemma ex_run_restored: "script_restore ex_codec P ex_identity ex_run (stored_fetch ex_codec ex_tree_blobs) None
    = (Some [], Inr (localize_bytes (id_normalizer ex_identity) tree_magic, localize_bytes (id_normalizer ex_identity) tree_magic))"
proof -
  have r: "read_blob ex_codec ex_key ex_tree_blobs = Inr tree_magic"
    by (simp add: read_blob_ok ex_tree_blobs_def ex_codec_def tree_magic_def lf_def)
  have h: "l_hash ex_codec tree_magic = ex_key" by (simp add: ex_codec_def tree_magic_def lf_def)
  have u: "unpack_tree P tree_magic = Inr []" by (simp add: unpack_tree_def strip_prefix_def unpack_files.simps)
  have m: "validate_candidate_manifest ex_codec ex_run = Inr ()" by (simp add: candidate_manifest_ok ex_run_def ex_recorded_ok)
  have "recorded_tree ex_codec P ex_run (stored_fetch ex_codec ex_tree_blobs) = Inr ([], tree_magic, tree_magic)"
    unfolding recorded_tree_def m by (simp add: ex_run_def ex_recorded_fields h stored_fetch_def r u)
  then show ?thesis by (simp add: script_restore_def)
qed


lemma ex_first_run:
  "searched ex_run_tools ex_run_host ex_run_disk ex_identity (ex_answers [] ok) = ([], None, [], None)"
  "with_listings (to_lib ex_run_tools) ex_run_disk (map snd (script_lookups (ex_answers [] ok))) ex_identity = ex_identity"
  "listing_at (to_lib ex_run_tools) ex_run_disk (id_workspace ex_identity) = None"
proof -
  have "path_file_name (id_workspace ex_identity) = Some ''w''" by code_simp
  then show "listing_at (to_lib ex_run_tools) ex_run_disk (id_workspace ex_identity) = None"
    by (simp add: listing_at_def) (simp add: ex_run_disk_def)
qed (simp_all add: script_lookups_def ex_answers_def with_listings_def)

lemma ex_first_result:
  assumes "length name \<in> {1..256}"
  shows "\<exists>cap. cp_candidate cap = ex_recorded name ex_watch []
     \<and> after_script ex_capture_tools ex_run_host ex_run_disk ex_identity (ex_answers [] ok) name True None 0 ex_watch []
         = (let (acts, kept) = store_script (ex_answers [] ok) cap in (acts, if kept then Script_ran 0 else Script_failed))"
  using ex_script_capture [OF assms] by (auto simp: after_script_def ex_answers_def)

theorem stored_run_started_empty_witness:
  "\<exists>stdout stderr before. sn_run (ex_answers [] True) = Some (0, stdout, stderr) \<and> tree_is_empty before"
proof -
  obtain cap where cap: "cp_candidate cap = ex_recorded ''a'' ex_watch []"
      "after_script ex_capture_tools ex_run_host ex_run_disk ex_identity (ex_answers [] True) ''a'' True None 0 ex_watch []
         = (let (acts, kept) = store_script (ex_answers [] True) cap in (acts, if kept then Script_ran 0 else Script_failed))"
    using ex_first_result [of "''a''" True] by auto
  have f: "sn_run (ex_answers [] True) = Some (0, ex_watch, [])" "sn_local (ex_answers [] True) = Some (Some [])"
    "sn_remote (ex_answers [] True) = None" "sn_put_ok (ex_answers [] True)" by (simp_all add: ex_answers_def)
  have "\<exists>acts dir result. cached_run ex_run_tools ex_capture_tools ex_run_host ex_run_disk ex_run_disk (Inr ex_identity) (ex_answers [] True) ''a''
      = (acts, dir, result) \<and> S_store (ex_recorded ''a'' ex_watch []) \<in> set acts"
    unfolding cached_run_eq [OF ex_first_run(1)] Let_def ex_first_run(2,3)
    by (simp add: f cap tree_is_empty_def store_script_def Let_def)
  then obtain acts dir result where run: "cached_run ex_run_tools ex_capture_tools ex_run_host ex_run_disk ex_run_disk (Inr ex_identity)
      (ex_answers [] True) ''a'' = (acts, dir, result)" "S_store (ex_recorded ''a'' ex_watch []) \<in> set acts" by blast
  from stored_run_started_empty [OF run(1) disjI1 [OF run(2)]] show ?thesis by blast
qed



theorem launched_script_is_local_witness:
  "prefix real_prefix ''.bellows-real-build_script_build-1''"
proof -
  have "launched_as (\<lambda>s. Some (J_object [(''real'', J_string ''.bellows-real-build_script_build-1'')]))
      (ex_host\<lparr>ho_read := (\<lambda>p. Some [])\<rparr>) [''/t/build-script-build''] = Some ''/t/.bellows-real-build_script_build-1''"
    by code_simp
  from launched_script_is_local [OF this] show ?thesis by (simp add: real_prefix_def)
qed

theorem launcher_keeps_script_witness:
  "install_launcher (\<lambda>j. []) False ''bellows'' False True 9 ''build_script_build-1'' [''build_script_build-1'' \<mapsto> (''elf'', 3)]
     = ([''build_script_build-1'' \<mapsto> (''elf'', 3)], False)"
proof -
  from launcher_keeps_script [where P = "\<lambda>s. Some (J_object [(''real'', J_string (real_prefix @ ''build_script_build-1''))])" and dir = "[''build_script_build-1'' \<mapsto> (''elf'', 3)]" and script = "''build_script_build-1''"
      and Q = "\<lambda>j. []" and launcher = "''bellows''" and copied = False and recorded = True and now = 9]
  moreover have "\<not> snd (install_launcher (\<lambda>j. []) False ''bellows'' False True 9 ''build_script_build-1''
      [''build_script_build-1'' \<mapsto> (''elf'', 3)])" by (simp add: install_launcher_def Let_def)
  ultimately show ?thesis by (auto simp: real_prefix_def record_name_def split: prod.splits bool.splits)
qed

end
