(* ===== verification/Cli_Digests.thy ===== *)
theory Cli_Digests
  imports Cli_Host
begin

text \<open>
  Content digests memoized by file identity (\<open>digests.rs\<close>): which memo a file has, when one is written,
  and that a memoized digest is always the digest of the bytes the file has.
\<close>

section \<open>Memos\<close>

text \<open>
  Times in nanoseconds since the epoch, 0 where there is none; \<open>mt_ctime\<close> is the seconds and
  nanoseconds of the status change.
\<close>

record metadata =
  mt_len :: nat
  mt_modified :: nat
  mt_created :: nat
  mt_dev :: nat
  mt_ino :: nat
  mt_ctime :: "nat \<times> nat"

definition small_file :: nat where "small_file = 256 * 1024"

definition racy :: nat where "racy = 2000000000"

definition last_change :: "metadata \<Rightarrow> nat" where
  "last_change m = max (mt_modified m) (fst (mt_ctime m) * 1000000000 + snd (mt_ctime m))"

definition identity_fields :: "string \<Rightarrow> metadata \<Rightarrow> string list" where
  "identity_fields path m =
     [''v1'', path, dec_string (mt_len m), dec_string (mt_modified m), dec_string (mt_created m),
      dec_string (mt_dev m), dec_string (mt_ino m), dec_string (fst (mt_ctime m)), dec_string (snd (mt_ctime m))]"

definition identity_bytes :: "string \<Rightarrow> metadata \<Rightarrow> string" where
  "identity_bytes path m =
     concat (case identity_fields path m of [] \<Rightarrow> [] | f # fs \<Rightarrow> f # map (\<lambda>g. CHR 0x00 # g) fs)"

definition file_identity :: "(string \<Rightarrow> string) \<Rightarrow> string \<Rightarrow> metadata \<Rightarrow> string" where
  "file_identity H path m = H (identity_bytes path m)"

text \<open>The files below \<open>digests-v1\<close> by name: what they hold and when they were written.\<close>

type_synonym memos = "string \<Rightarrow> (string \<times> nat) option"

definition cached_digest :: "memos \<Rightarrow> string \<Rightarrow> string option" where
  "cached_digest ms key =
     (case ms key of
        None \<Rightarrow> None
      | Some (held, written) \<Rightarrow> if utf8 held \<and> validate_content_key (trim held) = Inr () then Some (trim held) else None)"

definition settled :: "nat \<Rightarrow> metadata \<Rightarrow> bool" where
  "settled now m \<longleftrightarrow> now > last_change m + racy"

text \<open>
  \<open>Digests::file\<close>: \<open>before\<close> and \<open>after\<close> are the metadata around the reading of \<open>bytes\<close>; \<open>written\<close> says
  whether writing a memo succeeds. \<open>None\<close> is a file that cannot be read.
\<close>

definition memo_step :: "(string \<Rightarrow> string) \<Rightarrow> nat \<Rightarrow> string \<Rightarrow> metadata \<Rightarrow> string \<Rightarrow> metadata option \<Rightarrow> memos \<Rightarrow> memos" where
  "memo_step H now path before bytes after ms =
     (if settled now before \<and> (case after of None \<Rightarrow> False | Some m \<Rightarrow> file_identity H path m = file_identity H path before)
      then ms(file_identity H path before \<mapsto> (H bytes, now)) else ms)"

definition digest_of_file :: "(string \<Rightarrow> string) \<Rightarrow> nat \<Rightarrow> string \<Rightarrow> metadata option \<Rightarrow> string option \<Rightarrow> metadata option \<Rightarrow>
    memos \<Rightarrow> string option \<times> memos" where
  "digest_of_file H now path before bytes after ms =
     (case before of
        None \<Rightarrow> (None, ms)
      | Some m \<Rightarrow>
          if mt_len m < small_file then (map_option H bytes, ms)
          else (case cached_digest ms (file_identity H path m) of
            Some d \<Rightarrow> (Some d, ms)
          | None \<Rightarrow>
              (case bytes of
                 None \<Rightarrow> (None, ms)
               | Some b \<Rightarrow> (Some (H b), memo_step H now path m b after ms))))"

definition remember :: "(string \<Rightarrow> string) \<Rightarrow> nat \<Rightarrow> string \<Rightarrow> metadata option \<Rightarrow> string \<Rightarrow> memos \<Rightarrow> memos" where
  "remember H now path after digest ms =
     (case after of
        None \<Rightarrow> ms
      | Some m \<Rightarrow>
          if mt_len m < small_file \<or> validate_content_key digest \<noteq> Inr () then ms
          else ms(file_identity H path m \<mapsto> (digest, now)))"

text \<open>\<open>marker\<close> is the time of the last pruning.\<close>

definition prune_memos :: "nat \<Rightarrow> nat \<Rightarrow> nat option \<Rightarrow> memos \<Rightarrow> memos \<times> nat option" where
  "prune_memos now max_age marker ms =
     (if (case marker of None \<Rightarrow> False | Some t \<Rightarrow> t \<le> now \<and> now - t < 24 * 60 * 60 * 1000000000) then (ms, marker)
      else (\<lambda>key. case ms key of None \<Rightarrow> None | Some (held, written) \<Rightarrow>
              if written \<le> now \<and> now - written > max_age then None else Some (held, written), Some now))"

section \<open>Identities\<close>

lemma identity_fields_inj:
  assumes "identity_fields p m = identity_fields q n"
  shows "p = q \<and> m = n"
  using assms by (auto simp: identity_fields_def dest!: dec_string_inj intro!: metadata.equality prod_eqI)

lemma joined_fields: "\<forall>f \<in> set fs. CHR 0x00 \<notin> set f \<Longrightarrow> fs \<noteq> [] \<Longrightarrow>
    split_on (\<lambda>c. c = CHR 0x00) (concat (case fs of [] \<Rightarrow> [] | f # fs \<Rightarrow> f # map (\<lambda>g. CHR 0x00 # g) fs)) = fs"
proof (induction fs)
  case (Cons f fs)
  have f: "\<forall>c \<in> set f. \<not> c = CHR 0x00" using Cons.prems(1) by auto
  show ?case
  proof (cases fs)
    case Nil
    then show ?thesis using split_on_clean [OF f] by simp
  next
    case (Cons g gs)
    then show ?thesis
      using Cons.IH Cons.prems(1) split_on_field [OF f, of "CHR 0x00"] by simp
  qed
qed simp

lemma identity_bytes_inj:
  assumes "CHR 0x00 \<notin> set p" "CHR 0x00 \<notin> set q" and eq: "identity_bytes p m = identity_bytes q n"
  shows "p = q \<and> m = n"
proof -
  have "CHR 0x00 \<notin> set (dec_string k)" for k using dec_string_digits [of "CHR 0x00" k] by (auto simp: is_digit_def)
  then have "\<forall>f \<in> set (identity_fields p m). CHR 0x00 \<notin> set f" "\<forall>f \<in> set (identity_fields q n). CHR 0x00 \<notin> set f"
    using assms(1,2) by (simp_all add: identity_fields_def)
  moreover have "identity_fields p m \<noteq> []" "identity_fields q n \<noteq> []" by (simp_all add: identity_fields_def)
  ultimately have "identity_fields p m = identity_fields q n" using joined_fields eq unfolding identity_bytes_def by metis
  then show "p = q \<and> m = n" by (rule identity_fields_inj)
qed

section \<open>Memoized digests\<close>

text \<open>
  A sequence of uses: a file with metadata \<open>m\<close> and bytes \<open>b\<close> is digested (its metadata afterwards, the
  time), or is remembered after Bellows wrote it, or old memos are pruned.
\<close>

datatype memo_use =
    Digested string metadata string "metadata option" nat | Remembered string metadata string nat
  | Pruned nat nat "nat option"

fun use_memos :: "(string \<Rightarrow> string) \<Rightarrow> memos \<Rightarrow> memo_use list \<Rightarrow> string option list" where
  "use_memos H ms [] = []"
| "use_memos H ms (Digested p m b after now # us) =
     (let (d, ms') = digest_of_file H now p (Some m) (Some b) after ms in d # use_memos H ms' us)"
| "use_memos H ms (Remembered p m b now # us) = use_memos H (remember H now p (Some m) (H b) ms) us"
| "use_memos H ms (Pruned now age marker # us) = use_memos H (fst (prune_memos now age marker ms)) us"

text \<open>What the digests should be, and which file each memo was written for.\<close>

fun plain_digests :: "(string \<Rightarrow> string) \<Rightarrow> memo_use list \<Rightarrow> string option list" where
  "plain_digests H [] = []"
| "plain_digests H (Digested p m b after now # us) = Some (H b) # plain_digests H us"
| "plain_digests H (u # us) = plain_digests H us"

fun memoized :: "(string \<Rightarrow> string) \<Rightarrow> memo_use \<Rightarrow> (string \<times> metadata \<times> string) list" where
  "memoized H (Digested p m b after now) =
     (if settled now m \<and> map_option (file_identity H p) after = Some (file_identity H p m) then [(p, m, b)] else [])"
| "memoized H (Remembered p m b now) = [(p, m, b)]"
| "memoized H (Pruned now age marker) = []"

text \<open>
  What the code relies on: a file that still has the identity of a memo that was written for it, by a use
  two seconds after its last change or by Bellows itself, still has the same bytes.
\<close>

fun identity_tells :: "(string \<Rightarrow> string) \<Rightarrow> (string \<times> metadata \<times> string) list \<Rightarrow> memo_use list \<Rightarrow> bool" where
  "identity_tells H seen [] = True"
| "identity_tells H seen (u # us) =
     ((case u of Digested p m b after now \<Rightarrow> list_all (\<lambda>(q, n, c). q = p \<and> n = m \<longrightarrow> c = b) seen | _ \<Rightarrow> True)
      \<and> identity_tells H (memoized H u @ seen) us)"

fun use_files :: "memo_use \<Rightarrow> (string \<times> metadata) list" where
  "use_files (Digested p m b after now) = [(p, m)]"
| "use_files (Remembered p m b now) = [(p, m)]"
| "use_files (Pruned now age marker) = []"

text \<open>No path holds a NUL byte, and no two of the identities hashed collide.\<close>

definition identities_apart :: "(string \<Rightarrow> string) \<Rightarrow> (string \<times> metadata) set \<Rightarrow> bool" where
  "identities_apart H fs \<longleftrightarrow> (\<forall>(p, m) \<in> fs. CHR 0x00 \<notin> set p) \<and> inj_on H ((\<lambda>(p, m). identity_bytes p m) ` fs)"

lemma identities_apartD:
  "identities_apart H fs \<Longrightarrow> (p, m) \<in> fs \<Longrightarrow> (q, n) \<in> fs \<Longrightarrow> file_identity H p m = file_identity H q n \<Longrightarrow> p = q \<and> m = n"
  unfolding identities_apart_def file_identity_def
  by (rule identity_bytes_inj) (auto dest: inj_onD)

definition memos_of :: "(string \<Rightarrow> string) \<Rightarrow> (string \<times> metadata \<times> string) list \<Rightarrow> memos \<Rightarrow> bool" where
  "memos_of H seen ms \<longleftrightarrow>
     (\<forall>key held t. ms key = Some (held, t) \<longrightarrow> (\<exists>(p, m, b) \<in> set seen. key = file_identity H p m \<and> held = H b))"

lemma memos_of_update: "memos_of H seen ms \<Longrightarrow> memos_of H ((p, m, b) # seen) (ms(file_identity H p m \<mapsto> (H b, t)))"
  by (auto simp: memos_of_def)

lemma memos_of_more: "memos_of H seen ms \<Longrightarrow> memos_of H (us @ seen) ms"
  by (fastforce simp: memos_of_def)

lemma memos_of_prune: "memos_of H seen ms \<Longrightarrow> memos_of H seen (fst (prune_memos now age marker ms))"
  by (auto simp: memos_of_def prune_memos_def split: option.splits if_splits)

lemma memos_of_remember: "memos_of H seen ms \<Longrightarrow> memos_of H ((p, m, b) # seen) (remember H now p (Some m) (H b) ms)"
  using memos_of_update memos_of_more [of H seen ms "[(p, m, b)]"] by (simp add: remember_def)

lemma memos_of_digest:
  assumes "memos_of H seen ms" "digest_of_file H now p (Some m) (Some b) after ms = (d, ms')"
  shows "memos_of H (memoized H (Digested p m b after now) @ seen) ms'"
proof -
  have "memos_of H (memoized H (Digested p m b after now) @ seen) (memo_step H now p m b after ms)"
    using memos_of_update [OF assms(1)] memos_of_more [OF assms(1)] by (auto simp: memo_step_def assms(1) split: option.splits)
  moreover have "ms' = ms \<or> ms' = memo_step H now p m b after ms"
    using assms(2) by (auto simp: digest_of_file_def split: if_splits option.splits)
  ultimately show ?thesis using memos_of_more [OF assms(1)] by blast
qed

lemma digest_is_plain:
  assumes "memos_of H seen ms" "list_all (\<lambda>(q, n, c). q = p \<and> n = m \<longrightarrow> c = b) seen"
    and "identities_apart H fs" "(p, m) \<in> fs" "\<forall>(q, n, c) \<in> set seen. (q, n) \<in> fs" and keys: "\<forall>x. trim (H x) = H x"
    and d: "digest_of_file H now p (Some m) (Some b) after ms = (d, ms')"
  shows "d = Some (H b)"
proof (cases "cached_digest ms (file_identity H p m)")
  case None
  then show ?thesis using d by (auto simp: digest_of_file_def split: if_splits)
next
  case (Some e)
  then obtain held t where held: "ms (file_identity H p m) = Some (held, t)" "e = trim held"
    by (auto simp: cached_digest_def split: option.splits if_splits)
  then obtain q n c where q: "(q, n, c) \<in> set seen" "file_identity H p m = file_identity H q n" "held = H c"
    using assms(1) by (fastforce simp: memos_of_def)
  then have "p = q \<and> m = n" using identities_apartD [OF assms(3,4) _ q(2)] assms(5) by blast
  then have "c = b" using assms(2) q(1) by (auto simp: list_all_iff)
  then show ?thesis using d held q(3) keys Some by (auto simp: digest_of_file_def split: if_splits)
qed

lemma use_memos_plain:
  "memos_of H seen ms \<Longrightarrow> identity_tells H seen us \<Longrightarrow> identities_apart H fs \<Longrightarrow> \<forall>(q, n, c) \<in> set seen. (q, n) \<in> fs \<Longrightarrow>
     set (concat (map use_files us)) \<subseteq> fs \<Longrightarrow> \<forall>x. trim (H x) = H x \<Longrightarrow> use_memos H ms us = plain_digests H us"
proof (induction us arbitrary: seen ms)
  case (Cons u us)
  have seen: "\<forall>(q, n, c) \<in> set (memoized H u @ seen). (q, n) \<in> fs" and us: "set (concat (map use_files us)) \<subseteq> fs"
    using Cons.prems(4,5) by (cases u; auto)+
  have later: "identity_tells H (memoized H u @ seen) us" using Cons.prems(2) by simp
  note IH = Cons.IH [OF _ later Cons.prems(3) seen us Cons.prems(6)]
  show ?case
  proof (cases u)
    case (Digested p m b after now)
    obtain d ms' where d: "digest_of_file H now p (Some m) (Some b) after ms = (d, ms')" by fastforce
    have "d = Some (H b)"
      by (rule digest_is_plain [OF Cons.prems(1) _ Cons.prems(3) _ Cons.prems(4) Cons.prems(6) d])
        (use Cons.prems(2,5) Digested in auto)
    then show ?thesis using IH memos_of_digest [OF Cons.prems(1) d] by (simp add: Digested d)
  next
    case (Remembered p m b now)
    then show ?thesis using IH memos_of_remember [OF Cons.prems(1)] by simp
  next
    case (Pruned now age marker)
    then show ?thesis using IH memos_of_prune [OF Cons.prems(1)] by simp
  qed
qed simp


text \<open>
  A memo that is used is not kept longer: \<open>prune\<close> goes by the time it was written.
\<close>

lemma used_memo_is_pruned:
  "cached_digest ms (file_identity H p m) = Some d \<Longrightarrow> ms (file_identity H p m) = Some (held, t) \<Longrightarrow> small_file \<le> mt_len m \<Longrightarrow>
     t + age < now \<Longrightarrow> fst (prune_memos now age None (snd (digest_of_file H now p (Some m) b after ms))) (file_identity H p m) = None"
  by (simp add: digest_of_file_def prune_memos_def)

section \<open>Examples\<close>

definition ex_large :: metadata where
  "ex_large = \<lparr>mt_len = small_file, mt_modified = 1, mt_created = 0, mt_dev = 1, mt_ino = 2, mt_ctime = (0, 1)\<rparr>"

definition ex_digest :: "string \<Rightarrow> string" where
  "ex_digest b = replicate 64 (if prefix ''v1'' b then CHR ''a'' else CHR ''b'')"


end
