(* ===== verification/Cli_Remote.thy ===== *)
theory Cli_Remote
  imports Server_Router Cli_Wrapper
begin

text \<open>
  The client's side of the HTTP interface (\<open>impl Remote\<close> in \<open>crates/bellows-cli/src/main.rs\<close>): its
  configuration, the requests it sends and what it makes of each answer. A \<^emph>\<open>wire\<close> carries a request to
  whatever answers it; the server of \<open>Server_Router\<close> behind one is \<open>server_wire\<close>.
\<close>

section \<open>Configuration\<close>

text \<open>What \<open>Url::parse\<close> gives; the host, password, query and fragment may be absent.\<close>

record url =
  ur_text :: string
  ur_scheme :: string
  ur_host :: "string option"
  ur_username :: string
  ur_password :: "string option"
  ur_query :: "string option"
  ur_fragment :: "string option"

record remote =
  rm_base :: string
  rm_token :: "string option"
  rm_connect_ms :: nat
  rm_request_ms :: nat
  rm_fetch_concurrency :: nat

datatype remote_error = BadUrl | UnsafeUrl | NotMilliseconds string | OutOfRange string

definition bounded_timeout :: "string \<Rightarrow> string option \<Rightarrow> nat \<Rightarrow> nat \<Rightarrow> nat \<Rightarrow> remote_error + nat" where
  "bounded_timeout name given default_ms minimum_ms maximum_ms =
     r_bind (case given of
         None \<Rightarrow> Inr default_ms
       | Some v \<Rightarrow> ok_or (u64_from_str v) (NotMilliseconds name)) (\<lambda>milliseconds.
       if minimum_ms \<le> milliseconds \<and> milliseconds \<le> maximum_ms then Inr milliseconds else Inl (OutOfRange name))"

definition fetch_concurrency :: "(string \<Rightarrow> string option) \<Rightarrow> remote_error + nat" where
  "fetch_concurrency env =
     (case env ''BELLOWS_FETCH_CONCURRENCY'' of
        None \<Rightarrow> Inr 16
      | Some v \<Rightarrow>
          r_bind (ok_or (u64_from_str v) (NotMilliseconds ''BELLOWS_FETCH_CONCURRENCY'')) (\<lambda>parsed.
            if 1 \<le> parsed \<and> parsed \<le> 64 then Inr parsed else Inl (OutOfRange ''BELLOWS_FETCH_CONCURRENCY'')))"

definition safe_url :: "url \<Rightarrow> bool" where
  "safe_url u \<longleftrightarrow> ur_scheme u \<in> {''http'', ''https''} \<and> ur_host u \<noteq> None \<and> ur_username u = [] \<and> ur_password u = None
     \<and> ur_query u = None \<and> ur_fragment u = None"

definition trim_end_slashes :: "string \<Rightarrow> string" where
  "trim_end_slashes s = rev (dropWhile (\<lambda>c. c = CHR ''/'') (rev s))"

definition remote_new :: "url option \<Rightarrow> string option \<Rightarrow> (string \<Rightarrow> string option) \<Rightarrow> remote_error + remote" where
  "remote_new parsed token env =
     r_bind (ok_or parsed BadUrl) (\<lambda>u.
     r_then (ensure (safe_url u) UnsafeUrl)
     (r_bind (bounded_timeout ''BELLOWS_CONNECT_TIMEOUT_MS'' (env ''BELLOWS_CONNECT_TIMEOUT_MS'') 2000 100 30000) (\<lambda>connect.
      r_bind (bounded_timeout ''BELLOWS_REQUEST_TIMEOUT_MS'' (env ''BELLOWS_REQUEST_TIMEOUT_MS'') 120000 1000 600000) (\<lambda>request.
      r_bind (fetch_concurrency env) (\<lambda>concurrency.
        Inr \<lparr>rm_base = trim_end_slashes (ur_text u), rm_token = (case token of Some t \<Rightarrow> if t = [] then None else Some t | None \<Rightarrow> None),
             rm_connect_ms = connect, rm_request_ms = request, rm_fetch_concurrency = concurrency\<rparr>)))))"

text \<open>\<open>bearer_auth\<close>: the header of every request.\<close>

definition auth_header :: "remote \<Rightarrow> string option" where
  "auth_header r = map_option (\<lambda>t. ''Bearer '' @ t) (rm_token r)"

section \<open>Exchanges\<close>

text \<open>
  The answer to a request, \<open>None\<close> where sending or receiving fails, and what is behind the wire afterwards.
\<close>

type_synonym 's wire = "api_request \<Rightarrow> 's \<Rightarrow> (api_error + api_response) option \<times> 's"

datatype client_error =
    Unreachable
  | Http_status nat
  | Bad_json
  | Bad_blob string
  | Blobs_panic
  | Bad_record check_error
  | Wrong_record
  | Client_store store_error

type_synonym ('s, 'a) request = "'s \<Rightarrow> (client_error + 'a) \<times> 's"

definition q_bind :: "('s, 'a) request \<Rightarrow> ('a \<Rightarrow> ('s, 'c) request) \<Rightarrow> ('s, 'c) request" where
  "q_bind f g s = (case f s of (Inl e, t) \<Rightarrow> (Inl e, t) | (Inr a, t) \<Rightarrow> g a t)"

definition q_lift :: "client_error + 'a \<Rightarrow> ('s, 'a) request" where
  "q_lift r s = (r, s)"

text \<open>\<open>send()?\<close>, and then \<open>error_for_status()?\<close>; an \<open>ApiError\<close>'s status is at least 400.\<close>

definition send :: "'s wire \<Rightarrow> api_request \<Rightarrow> ('s, api_error + api_response) request" where
  "send w req s = (case w req s of (None, t) \<Rightarrow> (Inl Unreachable, t) | (Some a, t) \<Rightarrow> (Inr a, t))"

definition error_for_status :: "api_error + api_response \<Rightarrow> client_error + api_response" where
  "error_for_status a = (case a of Inl (Api_error status _) \<Rightarrow> Inl (Http_status status) | Inr r \<Rightarrow> Inr r)"

definition send_ok :: "'s wire \<Rightarrow> api_request \<Rightarrow> ('s, api_response) request" where
  "send_ok w req = q_bind (send w req) (\<lambda>a. q_lift (error_for_status a))"

definition is_not_found :: "api_error + api_response \<Rightarrow> bool" where
  "is_not_found a = (case a of Inl (Api_error status _) \<Rightarrow> status = 404 | Inr _ \<Rightarrow> False)"

text \<open>The body of an answer as the type asked for.\<close>

definition the_blob :: "api_response \<Rightarrow> client_error + string" where
  "the_blob r = (case r of Blob_is b \<Rightarrow> Inr b | _ \<Rightarrow> Inl Bad_json)"

definition the_index :: "api_response \<Rightarrow> client_error + candidate_index" where
  "the_index r = (case r of Index_is i \<Rightarrow> Inr i | _ \<Rightarrow> Inl Bad_json)"

definition the_declared :: "api_response \<Rightarrow> client_error + declared_record" where
  "the_declared r = (case r of Declared_is d \<Rightarrow> Inr d | _ \<Rightarrow> Inl Bad_json)"

definition the_archive :: "api_response \<Rightarrow> client_error + archive_manifest" where
  "the_archive r = (case r of Archive_is m \<Rightarrow> Inr m | _ \<Rightarrow> Inl Bad_json)"

definition the_executed :: "api_response \<Rightarrow> client_error + execute_response" where
  "the_executed r = (case r of Executed_is x \<Rightarrow> Inr x | _ \<Rightarrow> Inl Bad_json)"

definition the_lease :: "api_response \<Rightarrow> client_error + lease_response" where
  "the_lease r = (case r of Lease_is x \<Rightarrow> Inr x | _ \<Rightarrow> Inl Bad_json)"

definition the_health :: "api_response \<Rightarrow> client_error + health_response" where
  "the_health r = (case r of Health_is x \<Rightarrow> Inr x | _ \<Rightarrow> Inl Bad_json)"

definition the_stats :: "api_response \<Rightarrow> client_error + server_stats" where
  "the_stats r = (case r of Stats_are x \<Rightarrow> Inr x | _ \<Rightarrow> Inl Bad_json)"

definition the_report :: "api_response \<Rightarrow> client_error + gc_report" where
  "the_report r = (case r of Report_is x \<Rightarrow> Inr x | _ \<Rightarrow> Inl Bad_json)"

section \<open>Requests\<close>

definition ask :: "'s wire \<Rightarrow> api_request \<Rightarrow> (api_response \<Rightarrow> client_error + 'a) \<Rightarrow> ('s, 'a) request" where
  "ask w req body = q_bind (send_ok w req) (\<lambda>r. q_lift (body r))"

definition tell :: "'s wire \<Rightarrow> api_request \<Rightarrow> ('s, unit) request" where
  "tell w req = q_bind (send_ok w req) (\<lambda>_. q_lift (Inr ()))"

definition remote_health :: "'s wire \<Rightarrow> ('s, health_response) request" where
  "remote_health w = ask w Get_health the_health"

definition remote_reachable :: "'s wire \<Rightarrow> ('s, unit) request" where
  "remote_reachable w = tell w Get_health"

definition remote_stats :: "'s wire \<Rightarrow> ('s, server_stats) request" where
  "remote_stats w = ask w Get_stats the_stats"

definition remote_candidates :: "'s wire \<Rightarrow> string \<Rightarrow> ('s, candidate_index) request" where
  "remote_candidates w static_key =
     q_bind (send w (Get_action static_key)) (\<lambda>a.
       if is_not_found a then q_lift (Inr []) else q_lift (r_bind (error_for_status a) the_index))"

definition fetch_blob :: "'b lib \<Rightarrow> 's wire \<Rightarrow> string \<Rightarrow> ('s, string) request" where
  "fetch_blob L w digest =
     q_bind (ask w (Get_blob digest) the_blob) (\<lambda>bytes.
       q_lift (if l_hash L bytes = digest then Inr bytes else Inl (Bad_blob digest)))"

text \<open>\<open>parallel_map\<close> makes every request, in some order, before the first failure counts.\<close>

fun each :: "('x \<Rightarrow> ('s, 'a) request) \<Rightarrow> 'x list \<Rightarrow> 's \<Rightarrow> (client_error + 'a) list \<times> 's" where
  "each f [] s = ([], s)"
| "each f (x # xs) s = (let (r, t) = f x s; (rs, u) = each f xs t in (r # rs, u))"

fun first_error :: "(client_error + 'a) list \<Rightarrow> client_error + 'a list" where
  "first_error [] = Inr []"
| "first_error (r # rs) = r_bind r (\<lambda>a. r_bind (first_error rs) (\<lambda>as. Inr (a # as)))"

text \<open>The fetched blobs go out as \<open>remote_blobs\<close> hands them.\<close>

definition fetch_blobs :: "'b lib \<Rightarrow> 's wire \<Rightarrow> string list \<Rightarrow> ('s, string list) request" where
  "fetch_blobs L w digests s =
     (let unique = unique_digests (l_hash L []) {} digests; (answers, t) = each (fetch_blob L w) unique s
      in (r_bind (first_error answers) (\<lambda>fetched.
           case remote_blobs L (map_of (zip unique fetched)) digests of Fetched blobs \<Rightarrow> Inr blobs | _ \<Rightarrow> Inl Blobs_panic), t))"

definition upload_without_asking :: nat where "upload_without_asking = 256 * 1024"

definition upload_blob :: "'s wire \<Rightarrow> string \<times> string \<Rightarrow> ('s, unit) request" where
  "upload_blob w = (\<lambda>(digest, bytes).
     let upload = tell w (Put_blob digest [Inr bytes])
     in if length bytes > upload_without_asking
        then q_bind (send w (Head_blob digest)) (\<lambda>a. case a of Inr _ \<Rightarrow> q_lift (Inr ()) | Inl _ \<Rightarrow> upload)
        else upload)"

definition upload_blobs :: "'s wire \<Rightarrow> (string \<times> string) list \<Rightarrow> ('s, unit) request" where
  "upload_blobs w blobs s =
     (let (answers, t) = each (upload_blob w) blobs s in (r_bind (first_error answers) (\<lambda>_. Inr ()), t))"

definition remote_declared :: "'b lib \<Rightarrow> 's wire \<Rightarrow> string \<Rightarrow> ('s, declared_record option) request" where
  "remote_declared L w key =
     q_bind (send w (Get_declared key)) (\<lambda>a.
       if is_not_found a then q_lift (Inr None)
       else q_lift (r_bind (r_bind (error_for_status a) the_declared) (\<lambda>r.
         r_then (map_err Bad_record (validate_declared_record L r))
           (if dr_key r \<noteq> key then Inl Wrong_record else Inr (Some r)))))"

definition remote_put_declared :: "'b lib \<Rightarrow> 's wire \<Rightarrow> declared_record \<Rightarrow> ('s, unit) request" where
  "remote_put_declared L w r =
     q_bind (q_lift (map_err Bad_record (validate_declared_record L r))) (\<lambda>_. tell w (Put_declared (dr_key r) r))"

definition remote_archive :: "'b lib \<Rightarrow> 's wire \<Rightarrow> string \<Rightarrow> ('s, archive_manifest option) request" where
  "remote_archive L w name =
     q_bind (send w (Get_archive name)) (\<lambda>a.
       if is_not_found a then q_lift (Inr None)
       else q_lift (r_bind (r_bind (error_for_status a) the_archive) (\<lambda>m.
         r_then (map_err Bad_record (validate_archive_manifest L m))
           (if am_name m \<noteq> name then Inl Wrong_record else Inr (Some m)))))"

definition remote_put_archive :: "'b lib \<Rightarrow> 's wire \<Rightarrow> archive_manifest \<Rightarrow> ('s, unit) request" where
  "remote_put_archive L w m =
     q_bind (q_lift (map_err Bad_record (validate_archive_manifest L m))) (\<lambda>_. tell w (Put_archive (am_name m) m))"

definition remote_execute :: "'s wire \<Rightarrow> execute_request \<Rightarrow> ('s, execute_response) request" where
  "remote_execute w x = ask w (Post_execute x) the_executed"

definition remote_gc :: "'s wire \<Rightarrow> gc_options \<Rightarrow> ('s, gc_report) request" where
  "remote_gc w x = ask w (Post_gc x) the_report"

definition remote_record_use :: "'s wire \<Rightarrow> action_candidate \<Rightarrow> 's \<Rightarrow> 's" where
  "remote_record_use w c s = snd (send w (Post_used (ac_static_key c) (ac_action_key c)) s)"

definition remote_put_candidate :: "'s wire \<Rightarrow> action_candidate \<Rightarrow> ('s, unit) request" where
  "remote_put_candidate w c = tell w (Put_action (ac_static_key c) (ac_action_key c) c)"

definition remote_acquire :: "'s wire \<Rightarrow> string \<Rightarrow> string \<Rightarrow> ('s, lease_response) request" where
  "remote_acquire w static_key client_id =
     ask w (Post_lease static_key \<lparr>lr_client_id = client_id, lr_ttl_ms = 120000\<rparr>) the_lease"

definition remote_release :: "'s wire \<Rightarrow> string \<Rightarrow> string \<Rightarrow> 's \<Rightarrow> 's" where
  "remote_release w static_key token s = snd (send w (Delete_lease static_key token) s)"

section \<open>Publishing a captured compile\<close>

definition publish :: "'b lib \<Rightarrow> 's wire \<Rightarrow> captured \<Rightarrow> ('s, string) request" where
  "publish L w c =
     q_bind (q_lift (map_err Bad_record (validate_candidate_manifest L (cp_candidate c)))) (\<lambda>_.
     q_bind (upload_blobs w (cp_blobs c)) (\<lambda>_.
     q_bind (remote_put_candidate w (cp_candidate c)) (\<lambda>_. q_lift (Inr (ac_action_key (cp_candidate c))))))"

fun keep_blobs :: "'b lib \<Rightarrow> nat \<Rightarrow> (string \<times> string) list \<Rightarrow> ('b, unit) store_op" where
  "keep_blobs L now [] = s_lift (Inr ())"
| "keep_blobs L now ((digest, bytes) # bs) = s_bind (put_blob L digest bytes now) (\<lambda>_. keep_blobs L now bs)"

definition cache_captured :: "'b lib \<Rightarrow> nat \<Rightarrow> captured \<Rightarrow> ('b, unit) store_op" where
  "cache_captured L now c =
     s_bind (keep_blobs L now (cp_blobs c)) (\<lambda>_. put_candidate L (cp_candidate c) 8 now)"

section \<open>The server behind a wire\<close>

text \<open>\<open>W\<close> gives the world each request of the sequence meets; the counter is the next one.\<close>

definition server_wire :: "'b lib \<Rightarrow> (nat \<Rightarrow> 'b world) \<Rightarrow> string option \<Rightarrow> ('b app \<times> nat) wire" where
  "server_wire L W header req = (\<lambda>(ap, n).
     let (a, ap') = handle L (W n) header req ap in (Some a, (ap', Suc n)))"

end
