(* ===== verification/Cli_Restore.thy ===== *)
theory Cli_Restore
  imports Cli_Script_Run
begin

text \<open>
  Restoring declared outputs as one transaction (\<open>restore.rs\<close>): every declared root is staged completely,
  then the roots are swapped in, and a failing swap puts the previous outputs back.
\<close>

section \<open>Roots\<close>

text \<open>Overlapping declarations collapse to the outermost root; \<open>sort_by_key\<close> is stable.\<close>

fun outermost :: "string list \<Rightarrow> string list \<Rightarrow> string list" where
  "outermost outer [] = outer"
| "outermost outer (root # roots) =
     outermost (if list_ex (path_starts_with root) outer then outer else outer @ [root]) roots"

definition outer_roots :: "string list \<Rightarrow> string list" where
  "outer_roots roots = outermost [] (sort_key (\<lambda>p. length (components p)) roots)"

section \<open>Staging\<close>

text \<open>What \<open>path.strip_prefix(root)\<close> leaves.\<close>

definition below_root :: "string \<Rightarrow> string \<Rightarrow> path_component list option" where
  "below_root root path =
     (if path_starts_with path root then Some (drop (length (components root)) (components path)) else None)"

definition component_names :: "path_component list \<Rightarrow> string list" where
  "component_names cs = concat (map (\<lambda>c. case c of Normal w \<Rightarrow> [w] | _ \<Rightarrow> []) cs)"

definition is_root_file :: "string \<Rightarrow> (artifact \<times> string) \<Rightarrow> bool" where
  "is_root_file root = (\<lambda>(a, bytes). path_eq (ar_file_name a) root)"

text \<open>
  The tree being staged: \<open>None\<close> until something is there. A write below a file or onto a directory fails.
\<close>

definition stage_file :: "string \<Rightarrow> (artifact \<times> string) \<Rightarrow> entry option \<Rightarrow> entry option option" where
  "stage_file root = (\<lambda>(a, bytes) staged.
     case below_root root (ar_file_name a) of
       None \<Rightarrow> Some staged
     | Some cs \<Rightarrow>
         if cs = [] then (case staged of Some (Folder es) \<Rightarrow> None | _ \<Rightarrow> Some (Some (Plain bytes (ar_executable a))))
         else (case staged of
           None \<Rightarrow> (case place (ar_executable a) bytes (component_names cs) [] of (es, ok) \<Rightarrow> if ok then Some (Some (Folder es)) else None)
         | Some (Folder es) \<Rightarrow> (case place (ar_executable a) bytes (component_names cs) es of (es', ok) \<Rightarrow> if ok then Some (Some (Folder es')) else None)
         | Some _ \<Rightarrow> None))"

fun stage_files :: "string \<Rightarrow> (artifact \<times> string) list \<Rightarrow> entry option \<Rightarrow> entry option option" where
  "stage_files root [] staged = Some staged"
| "stage_files root (f # fs) staged =
     (case stage_file root f staged of None \<Rightarrow> None | Some staged' \<Rightarrow> stage_files root fs staged')"

definition stage_root :: "(artifact \<times> string) list \<Rightarrow> string \<Rightarrow> entry option" where
  "stage_root files root =
     (if list_all (\<lambda>(a, b). validate_relative_path (ar_file_name a) = Inr (ar_file_name a)) files
      then Option.bind (stage_files root files (if list_ex (is_root_file root) files then None else Some (Folder []))) (\<lambda>s. s)
      else None)"

section \<open>Swapping\<close>

text \<open>
  \<open>ws\<close> is what lies at each root of the workspace. Every rename takes the next answer of the file system;
  after the answers run out renames succeed.
\<close>

record replacement =
  rp_dest :: string
  rp_new :: "entry option"
  rp_old :: "entry option"
  rp_failed :: "entry option"
  rp_had_old :: bool
  rp_installed :: bool

type_synonym workspace = "string \<Rightarrow> entry option"

definition replacement_of :: "string \<Rightarrow> entry \<Rightarrow> replacement" where
  "replacement_of dest e = \<lparr>rp_dest = dest, rp_new = Some e, rp_old = None, rp_failed = None, rp_had_old = False, rp_installed = False\<rparr>"

definition answer :: "bool list \<Rightarrow> bool \<times> bool list" where
  "answer as = (case as of [] \<Rightarrow> (True, []) | a # rest \<Rightarrow> (a, rest))"

text \<open>Moving the old output aside, if there is one, then the new one in.\<close>

definition move_aside :: "replacement \<Rightarrow> workspace \<Rightarrow> bool list \<Rightarrow> (replacement \<times> workspace \<times> bool list) \<times> bool" where
  "move_aside r ws as =
     (case ws (rp_dest r) of
        None \<Rightarrow> ((r, ws, as), True)
      | Some e \<Rightarrow>
          (let (ok, as') = answer as
           in if ok then ((r\<lparr>rp_old := Some e, rp_had_old := True\<rparr>, ws(rp_dest r := None), as'), True) else ((r, ws, as'), False)))"

definition move_in :: "replacement \<Rightarrow> workspace \<Rightarrow> bool list \<Rightarrow> (replacement \<times> workspace \<times> bool list) \<times> bool" where
  "move_in r ws as =
     (let (ok, as') = answer as
      in if ok then ((r\<lparr>rp_new := None, rp_installed := True\<rparr>, ws(rp_dest r := rp_new r), as'), True) else ((r, ws, as'), False))"

definition install_one :: "replacement \<Rightarrow> workspace \<Rightarrow> bool list \<Rightarrow> (replacement \<times> workspace \<times> bool list) \<times> bool" where
  "install_one r ws as =
     (case move_aside r ws as of
        ((r', ws', as'), True) \<Rightarrow> move_in r' ws' as'
      | failed \<Rightarrow> failed)"

fun install_all :: "replacement list \<Rightarrow> workspace \<Rightarrow> bool list \<Rightarrow> (replacement list \<times> workspace \<times> bool list) \<times> bool" where
  "install_all [] ws as = (([], ws, as), True)"
| "install_all (r # rs) ws as =
     (case install_one r ws as of
        ((r', ws', as'), True) \<Rightarrow>
          (let ((rs', ws'', as''), ok) = install_all rs ws' as' in ((r' # rs', ws'', as''), ok))
      | ((r', ws', as'), False) \<Rightarrow> ((r' # rs, ws', as'), False))"

text \<open>Putting one root back; a failure keeps the staging directory, backup included.\<close>

definition roll_back_one :: "replacement \<Rightarrow> workspace \<Rightarrow> bool list \<Rightarrow> (replacement \<times> workspace \<times> bool list) \<times> bool" where
  "roll_back_one r ws as =
     (let ((r1, ws1, as1), ok1) =
        (if rp_installed r
         then (let (ok, as') = answer as
               in if ok then ((r\<lparr>rp_failed := ws (rp_dest r)\<rparr>, ws(rp_dest r := None), as'), True) else ((r, ws, as'), False))
         else ((r, ws, as), True))
      in if \<not> ok1 then ((r1, ws1, as1), False)
         else if rp_had_old r1
         then (let (ok, as') = answer as1
               in if ok then ((r1\<lparr>rp_old := None\<rparr>, ws1(rp_dest r := rp_old r1), as'), True) else ((r1, ws1, as'), False))
         else ((r1, ws1, as1), True))"

text \<open>The replacements whose staging directory is kept, and the workspace.\<close>

fun roll_back :: "replacement list \<Rightarrow> workspace \<Rightarrow> bool list \<Rightarrow> replacement list \<times> workspace" where
  "roll_back [] ws as = ([], ws)"
| "roll_back (r # rs) ws as =
     (let ((r', ws', as'), ok) = roll_back_one r ws as; (saved, ws'') = roll_back rs ws' as'
      in (if ok then saved else r' # saved, ws''))"

datatype outputs_result =
    Replaced | Put_back | Left_backups "replacement list" | Not_started

fun stage_all :: "(string \<Rightarrow> bool) \<Rightarrow> (artifact \<times> string) list \<Rightarrow> string list \<Rightarrow> replacement list option" where
  "stage_all safe files [] = Some []"
| "stage_all safe files (root # roots) =
     (if \<not> safe root then None
      else case stage_root files root of
        None \<Rightarrow> None
      | Some e \<Rightarrow> map_option (Cons (replacement_of root e)) (stage_all safe files roots))"

text \<open>\<open>safe\<close> is \<open>safe_destination\<close>: parents that are directories, a destination that is no link.\<close>

definition declared_outputs :: "(string \<Rightarrow> bool) \<Rightarrow> declared_record \<Rightarrow> (artifact \<times> string) list \<Rightarrow> workspace \<Rightarrow> bool list \<Rightarrow>
    workspace \<times> outputs_result" where
  "declared_outputs safe r files ws as =
     (if validate_output_roots (dr_inputs r) (dr_output_paths r) \<noteq> Inr () then (ws, Not_started)
      else case stage_all safe files (outer_roots (dr_output_paths r)) of
        None \<Rightarrow> (ws, Not_started)
      | Some rs \<Rightarrow>
          (case install_all rs ws as of
             ((rs', ws', as'), True) \<Rightarrow> (ws', Replaced)
           | ((rs', ws', as'), False) \<Rightarrow>
               (case roll_back (rev rs') ws' as' of
                  ([], ws'') \<Rightarrow> (ws'', Put_back)
                | (saved, ws'') \<Rightarrow> (ws'', Left_backups saved))))"

end
