(* ===== verification/Cli_Declared.thy ===== *)
theory Cli_Declared
  imports Cli_Remote Cli_Restore
begin

text \<open>
  The declared actions and archives of the command line (\<open>crates/bellows-cli/src/main.rs\<close>): collecting declared
  inputs, running a command in a local sandbox, and looking up, publishing and restoring its record through the
  server or through the local store. A workspace's inputs are \<open>node\<close>s, what its output roots hold is the state
  of \<open>Cli_Restore\<close>; the command is a \<open>runner\<close>.
\<close>

section \<open>Errors\<close>

datatype declared_error =
    No_platform
  | Bad_path check_error
  | Input_unreadable string
  | Escapes_workspace string
  | Tree_symlink string
  | Tree_special string
  | Env_overrides string
  | Env_absent string
  | Sandbox_io
  | Command_failed
  | Missing_output string
  | No_declared_outputs
  | Remote_error client_error
  | Local_error store_error
  | Stream_mismatch
  | Not_replaced outputs_result
  | Not_a_directory
  | Empty_archive
  | No_archive string
  | Unsafe_destination string

section \<open>Inputs\<close>

text \<open>\<open>collect_tree\<close>: \<open>names\<close> lead from the root to the node.\<close>

fun read_tree :: "'b lib \<Rightarrow> string list \<Rightarrow> node \<Rightarrow> declared_error + (artifact \<times> string) list"
  and read_entries :: "'b lib \<Rightarrow> string list \<Rightarrow> (string \<times> node) list \<Rightarrow> declared_error + (artifact \<times> string) list"
where
  "read_tree L names (Link n) = Inl (Tree_symlink (join ''/'' names))"
| "read_tree L names (Dir es) = read_entries L names es"
| "read_tree L names node.Special = Inl (Tree_special (join ''/'' names))"
| "read_tree L names (File bytes executable) =
     r_bind (map_err Bad_path (validate_relative_path (join ''/'' names))) (\<lambda>relative.
       Inr [(\<lparr>ar_file_name = relative, ar_digest = l_hash L bytes, ar_executable = executable\<rparr>, bytes)])"
| "read_entries L names [] = Inr []"
| "read_entries L names ((n, e) # es) =
     r_bind (read_tree L (names @ [n]) e) (\<lambda>fs. r_bind (read_entries L names es) (\<lambda>gs. Inr (fs @ gs)))"

text \<open>
  What the command line finds in its workspace: \<open>canonicalize\<close>, the node at an absolute path, the process
  environment as far as it is Unicode, and \<open>PlatformIdentity::detect\<close>.
\<close>

record place_of_work =
  pw_workspace :: string
  pw_canonical :: "string \<Rightarrow> string option"
  pw_node :: "string \<Rightarrow> node option"
  pw_env :: "string \<Rightarrow> string option"
  pw_platform :: "platform_identity option"

definition names_below :: "string \<Rightarrow> string \<Rightarrow> string list" where
  "names_below root path = component_names (drop (length (components root)) (components path))"

fun collect_inputs :: "'b lib \<Rightarrow> place_of_work \<Rightarrow> string list \<Rightarrow> declared_error + (artifact \<times> string) list" where
  "collect_inputs L pw [] = Inr []"
| "collect_inputs L pw (path # paths) =
     (case pw_canonical pw (path_join (pw_workspace pw) path) of
        None \<Rightarrow> Inl (Input_unreadable path)
      | Some canonical \<Rightarrow>
          if \<not> path_starts_with canonical (pw_workspace pw) then Inl (Escapes_workspace path)
          else (case pw_node pw canonical of
            None \<Rightarrow> Inl (Input_unreadable path)
          | Some n \<Rightarrow>
              r_bind (read_tree L (names_below (pw_workspace pw) canonical) n) (\<lambda>fs.
                r_bind (collect_inputs L pw paths) (\<lambda>gs. Inr (fs @ gs)))))"

definition by_file_name :: "(artifact \<times> string) list \<Rightarrow> (artifact \<times> string) list" where
  "by_file_name fs = dedup_by (\<lambda>f. ar_file_name (fst f)) (sort_key (\<lambda>f. ar_file_name (fst f)) fs)"

definition collect_declared_inputs :: "'b lib \<Rightarrow> place_of_work \<Rightarrow> string list \<Rightarrow> declared_error + (artifact \<times> string) list" where
  "collect_declared_inputs L pw paths = r_bind (collect_inputs L pw paths) (\<lambda>fs. Inr (by_file_name fs))"

fun declared_environment :: "(string \<Rightarrow> string option) \<Rightarrow> string list \<Rightarrow> (string \<times> string) list \<Rightarrow>
    declared_error + (string \<times> string) list" where
  "declared_environment env [] values = Inr values"
| "declared_environment env (name # names) values =
     (if name \<in> set forbidden_env then Inl (Env_overrides name)
      else case env name of
        None \<Rightarrow> Inl (Env_absent name)
      | Some v \<Rightarrow> declared_environment env names (bt_insert name v values))"

text \<open>The text \<open>strip_prefix\<close> leaves after \<open>n\<close> names of an absolute path.\<close>

fun skip_separators :: "string \<Rightarrow> string" where
  "skip_separators [] = []"
| "skip_separators (c # cs) =
     (if c = CHR ''/'' \<or> c = CHR ''.'' \<and> (cs = [] \<or> hd cs = CHR ''/'') then skip_separators cs else c # cs)"

fun after_names :: "nat \<Rightarrow> string \<Rightarrow> string" where
  "after_names 0 p = rtrim (skip_separators p)"
| "after_names (Suc n) p = after_names n (dropWhile (\<lambda>c. c \<noteq> CHR ''/'') (skip_separators p))"

definition normalize_declared_path :: "string \<Rightarrow> string \<Rightarrow> declared_error + string" where
  "normalize_declared_path workspace path =
     r_bind (if is_absolute path
         then (if path_starts_with path workspace then Inr (after_names (length (components workspace) - 1) path)
               else Inl (Escapes_workspace path))
         else Inr path) (\<lambda>relative. map_err Bad_path (validate_relative_path relative))"

fun declared_output_paths :: "string \<Rightarrow> string list \<Rightarrow> declared_error + string list" where
  "declared_output_paths workspace [] = Inr []"
| "declared_output_paths workspace (p # ps) =
     r_bind (normalize_declared_path workspace p) (\<lambda>q. r_bind (declared_output_paths workspace ps) (\<lambda>qs. Inr (q # qs)))"

section \<open>Running in a local sandbox\<close>

text \<open>The sandbox's directory, the process around it and the command.\<close>

record sandbox =
  sb_host :: host
  sb_workspace :: string
  sb_run :: runner
  sb_now :: nat

fun write_local_inputs :: "(artifact \<times> string) list \<Rightarrow> workspace_files \<Rightarrow> declared_error + workspace_files" where
  "write_local_inputs [] ws = Inr ws"
| "write_local_inputs ((a, bytes) # is) ws =
     r_bind (map_err Bad_path (validate_relative_path (ar_file_name a))) (\<lambda>relative.
       let path = path_names relative
       in if ws_blocked ws path then Inl Sandbox_io
          else write_local_inputs is ((path, (bytes, ar_executable a)) # filter (\<lambda>(q, _). q \<noteq> path) ws))"

fun read_outputs :: "'b lib \<Rightarrow> (string \<times> node) list \<Rightarrow> string list \<Rightarrow> declared_error + (artifact \<times> string) list" where
  "read_outputs L tree [] = Inr []"
| "read_outputs L tree (d # ds) =
     r_bind (map_err Bad_path (validate_relative_path d)) (\<lambda>relative.
       case node_at tree (path_names relative) of
         None \<Rightarrow> Inl (Missing_output d)
       | Some n \<Rightarrow> r_bind (read_tree L (path_names relative) n) (\<lambda>fs. r_bind (read_outputs L tree ds) (\<lambda>gs. Inr (fs @ gs))))"

definition insert_blobs :: "(artifact \<times> string) list \<Rightarrow> (string \<times> string) list \<Rightarrow> (string \<times> string) list" where
  "insert_blobs fs blobs = foldl (\<lambda>m (a, bytes). bt_insert (ar_digest a) bytes m) blobs fs"

definition sandbox_command :: "host \<Rightarrow> string \<Rightarrow> execute_request \<Rightarrow> command" where
  "sandbox_command h workspace request =
     (let e = env_set ''CARGO_NET_OFFLINE'' ''true'' (env_set ''CARGO_HOME'' ''.bellows-cargo-home''
            (env_set ''HOME'' ''/homeless-shelter'' (env_set ''PATH'' (ho_path h) [])));
          e = env_sets (xr_environment request) (env_sets platform_environment e);
          e = env_set ''RUSTUP_HOME'' (ho_rustup_home h) e;
          e = (case pi_rustup_toolchain (xr_platform request) of Some v \<Rightarrow> env_set ''RUSTUP_TOOLCHAIN'' v e | None \<Rightarrow> e);
          program = hd (xr_command request);
          c = \<lparr>cm_program = program, cm_args = tl (xr_command request), cm_env = e\<rparr>
      in if program_name program = ''cargo'' then configure_cargo_remapping h workspace (xr_environment request) c
         else if program_name program = ''rustc''
         then c\<lparr>cm_args := tl (xr_command request) @ [''--remap-path-prefix'', workspace @ ''=/bellows/action'']\<rparr>
         else c)"

text \<open>The server's executor runs the same command in the same environment.\<close>

lemma sandbox_command_eq: "sandbox_command h workspace request = exec_command h workspace (xr_platform request) request"
  by (simp add: sandbox_command_def exec_command_def Let_def split: option.split)

definition local_record :: "'b lib \<Rightarrow> nat \<Rightarrow> execute_request \<Rightarrow> artifact list \<Rightarrow> string \<Rightarrow> string \<Rightarrow> nat \<Rightarrow> declared_record" where
  "local_record L now request outputs stdout stderr duration =
     \<lparr>dr_protocol = protocol_version, dr_key = xr_key request, dr_name = xr_name request, dr_created_ms = now,
      dr_platform = xr_platform request, dr_command = xr_command request, dr_environment = xr_environment request,
      dr_inputs = xr_inputs request, dr_output_paths = xr_outputs request, dr_outputs = outputs,
      dr_stdout = \<lparr>sa_digest = l_hash L stdout, sa_len = length stdout\<rparr>,
      dr_stderr = \<lparr>sa_digest = l_hash L stderr, sa_len = length stderr\<rparr>,
      dr_duration_ms = duration, dr_executor = ''local-sandbox''\<rparr>"

text \<open>The record, its blobs, and the two streams the command wrote, which the client passes on.\<close>

definition finish_local :: "'b lib \<Rightarrow> sandbox \<Rightarrow> execute_request \<Rightarrow> (artifact \<times> string) list \<Rightarrow> process_output \<Rightarrow>
    declared_error + (declared_record \<times> (string \<times> string) list)" where
  "finish_local L sb request inputs out =
     (if \<not> po_success out then Inl Command_failed
      else r_bind (read_outputs L (po_tree out) (xr_outputs request)) (\<lambda>collected.
        let outputs = map fst (by_file_name collected);
            n = new_normalizer [(''$SANDBOX'', sb_workspace sb)];
            stdout = normalize_bytes n (po_stdout out); stderr = normalize_bytes n (po_stderr out);
            blobs = bt_insert (l_hash L stderr) stderr (bt_insert (l_hash L stdout) stdout (insert_blobs collected (insert_blobs inputs [])))
        in if outputs = [] then Inl No_declared_outputs
           else Inr (local_record L (sb_now sb) request outputs stdout stderr (po_duration_ms out), blobs)))"

definition execute_local_declared :: "'b lib \<Rightarrow> sandbox \<Rightarrow> execute_request \<Rightarrow> (artifact \<times> string) list \<Rightarrow>
    (declared_error + (declared_record \<times> (string \<times> string) list)) \<times> (string \<times> string)" where
  "execute_local_declared L sb request inputs =
     (case write_local_inputs inputs [] of
        Inl e \<Rightarrow> (Inl e, ([], []))
      | Inr ws \<Rightarrow>
          (case sb_run sb (sandbox_command (sb_host sb) (sb_workspace sb) request) ws of
             None \<Rightarrow> (Inl Sandbox_io, ([], []))
           | Some out \<Rightarrow> (finish_local L sb request inputs out, (po_stdout out, po_stderr out))))"

section \<open>Restoring a record\<close>

text \<open>The two streams written so far, the workspace's output roots, and whether a run had to execute.\<close>

record declared_result =
  dv_status :: string
  dv_record :: declared_record
  dv_stdout :: string
  dv_stderr :: string

text \<open>\<open>swap\<close> is \<open>restore::declared_outputs\<close> on this workspace, with the renames' answers.\<close>

definition materialize_declared :: "(string \<Rightarrow> bool) \<Rightarrow> bool list \<Rightarrow> declared_record \<Rightarrow> (artifact \<times> string) list \<Rightarrow> workspace \<Rightarrow>
    (declared_error + unit) \<times> workspace" where
  "materialize_declared safe answers r artifacts ws =
     (case declared_outputs safe r artifacts ws answers of
        (ws', Replaced) \<Rightarrow> (Inr (), ws')
      | (ws', failed) \<Rightarrow> (Inl (Not_replaced failed), ws'))"

fun load_artifacts :: "'b lib \<Rightarrow> 'b store \<Rightarrow> artifact list \<Rightarrow> store_error + (artifact \<times> string) list" where
  "load_artifacts L st [] = Inr []"
| "load_artifacts L st (a # as) =
     r_bind (read_blob L (ar_digest a) st) (\<lambda>b. r_bind (load_artifacts L st as) (\<lambda>fs. Inr ((a, b) # fs)))"

definition load_declared_local :: "'b lib \<Rightarrow> 'b store \<Rightarrow> declared_record \<Rightarrow>
    declared_error + ((artifact \<times> string) list \<times> string \<times> string)" where
  "load_declared_local L st r =
     r_then (map_err Bad_path (validate_declared_record L r))
     (r_bind (map_err Local_error (load_artifacts L st (dr_outputs r))) (\<lambda>artifacts.
      r_bind (map_err Local_error (read_blob L (sa_digest (dr_stdout r)) st)) (\<lambda>stdout.
      r_bind (map_err Local_error (read_blob L (sa_digest (dr_stderr r)) st)) (\<lambda>stderr.
        if length stdout \<noteq> sa_len (dr_stdout r) \<or> length stderr \<noteq> sa_len (dr_stderr r) then Inl Stream_mismatch
        else Inr (artifacts, stdout, stderr)))))"

text \<open>The local store beside the workspace.\<close>

type_synonym ('s, 'a) action = "'s \<times> workspace \<Rightarrow> (declared_error + 'a) \<times> ('s \<times> workspace)"

definition replay :: "string \<Rightarrow> declared_record \<Rightarrow> string \<times> string \<Rightarrow> string \<times> string \<Rightarrow> declared_result" where
  "replay status r before streams =
     \<lparr>dv_status = status, dv_record = r, dv_stdout = fst before @ fst streams, dv_stderr = snd before @ snd streams\<rparr>"

definition restore_declared_local :: "'b lib \<Rightarrow> (string \<Rightarrow> bool) \<Rightarrow> bool list \<Rightarrow> string \<Rightarrow> string \<times> string \<Rightarrow> declared_record \<Rightarrow>
    ('b store, declared_result) action" where
  "restore_declared_local L safe answers status before r = (\<lambda>(st, ws).
     case load_declared_local L st r of
       Inl e \<Rightarrow> (Inl e, (st, ws))
     | Inr (artifacts, stdout, stderr) \<Rightarrow>
         (case materialize_declared safe answers r artifacts ws of
            (Inl e, ws') \<Rightarrow> (Inl e, (st, ws'))
          | (Inr _, ws') \<Rightarrow> (Inr (replay status r before (stdout, stderr)), (st, ws'))))"

section \<open>Running an action locally\<close>

text \<open>A record that raced publication is only warned about.\<close>

definition build_local :: "'b lib \<Rightarrow> (string \<Rightarrow> bool) \<Rightarrow> bool list \<Rightarrow> sandbox \<Rightarrow> execute_request \<Rightarrow> (artifact \<times> string) list \<Rightarrow>
    ('b store, declared_result) action" where
  "build_local L safe answers sb request inputs = (\<lambda>(st, ws).
     case execute_local_declared L sb request inputs of
       (Inl e, _) \<Rightarrow> (Inl e, (st, ws))
     | (Inr (r, blobs), streams) \<Rightarrow>
         (case keep_blobs L (sb_now sb) blobs st of
            (Inl e, st') \<Rightarrow> (Inl (Local_error e), (st', ws))
          | (Inr _, st') \<Rightarrow>
              restore_declared_local L safe answers ''miss'' streams r (snd (put_declared L r (sb_now sb) st'), ws)))"

definition run_local_declared_action :: "'b lib \<Rightarrow> (string \<Rightarrow> bool) \<Rightarrow> bool list \<Rightarrow> sandbox \<Rightarrow> execute_request \<Rightarrow> (artifact \<times> string) list \<Rightarrow>
    ('b store, declared_result) action" where
  "run_local_declared_action L safe answers sb request inputs = (\<lambda>(st, ws).
     case read_declared L (xr_key request) st of
       (Inl e, st') \<Rightarrow> (Inl (Local_error e), (st', ws))
     | (Inr None, st') \<Rightarrow> build_local L safe answers sb request inputs (st', ws)
     | (Inr (Some r), st') \<Rightarrow>
         (case load_declared_local L st' r of
            Inr _ \<Rightarrow> restore_declared_local L safe answers ''hit'' ([], []) r (st', ws)
          | Inl _ \<Rightarrow>
              (case remove_declared (xr_key request) st' of
                 (Inl e, st'') \<Rightarrow> (Inl (Local_error e), (st'', ws))
               | (Inr _, st'') \<Rightarrow> build_local L safe answers sb request inputs (st'', ws))))"

section \<open>Running an action through the server\<close>

definition restore_declared_record :: "'b lib \<Rightarrow> 's wire \<Rightarrow> (string \<Rightarrow> bool) \<Rightarrow> bool list \<Rightarrow> string \<Rightarrow> string \<times> string \<Rightarrow>
    declared_record \<Rightarrow> ('s, declared_result) action" where
  "restore_declared_record L w safe answers status before r = (\<lambda>(s, ws).
     case validate_declared_record L r of
       Inl e \<Rightarrow> (Inl (Bad_path e), (s, ws))
     | Inr _ \<Rightarrow>
         (case fetch_blobs L w (map ar_digest (dr_outputs r) @ [sa_digest (dr_stdout r), sa_digest (dr_stderr r)]) s of
            (Inl e, t) \<Rightarrow> (Inl (Remote_error e), (t, ws))
          | (Inr blobs, t) \<Rightarrow>
              let n = length (dr_outputs r); stdout = blobs ! n; stderr = blobs ! (n + 1)
              in if length stdout \<noteq> sa_len (dr_stdout r) \<or> length stderr \<noteq> sa_len (dr_stderr r) then (Inl Stream_mismatch, (t, ws))
                 else (case materialize_declared safe answers r (zip (dr_outputs r) (take n blobs)) ws of
                   (Inl e, ws') \<Rightarrow> (Inl e, (t, ws'))
                 | (Inr _, ws') \<Rightarrow> (Inr (replay status r before (stdout, stderr)), (t, ws')))))"

definition remote_step :: "('s, 'a) request \<Rightarrow> ('a \<Rightarrow> ('s, 'c) action) \<Rightarrow> ('s, 'c) action" where
  "remote_step f g = (\<lambda>(s, ws). case f s of (Inl e, t) \<Rightarrow> (Inl (Remote_error e), (t, ws)) | (Inr a, t) \<Rightarrow> g a (t, ws))"

definition publish_local :: "'b lib \<Rightarrow> 's wire \<Rightarrow> (string \<Rightarrow> bool) \<Rightarrow> bool list \<Rightarrow> sandbox \<Rightarrow> execute_request \<Rightarrow> (artifact \<times> string) list \<Rightarrow>
    ('s, declared_result) action" where
  "publish_local L w safe answers sb request inputs = (\<lambda>(s, ws).
     case execute_local_declared L sb request inputs of
       (Inl e, _) \<Rightarrow> (Inl e, (s, ws))
     | (Inr (r, blobs), streams) \<Rightarrow>
         remote_step (upload_blobs w blobs) (\<lambda>_.
         remote_step (remote_put_declared L w r) (\<lambda>_.
           restore_declared_record L w safe answers ''miss'' streams r)) (s, ws))"

definition run_remote_action :: "'b lib \<Rightarrow> 's wire \<Rightarrow> (string \<Rightarrow> bool) \<Rightarrow> bool list \<Rightarrow> sandbox \<Rightarrow> bool \<Rightarrow> execute_request \<Rightarrow>
    (artifact \<times> string) list \<Rightarrow> ('s, declared_result) action" where
  "run_remote_action L w safe answers sb remote_execution request inputs =
     remote_step (remote_declared L w (xr_key request)) (\<lambda>found.
       case found of
         Some r \<Rightarrow> restore_declared_record L w safe answers ''hit'' ([], []) r
       | None \<Rightarrow>
           remote_step (upload_blobs w (map (\<lambda>(a, bytes). (ar_digest a, bytes)) inputs)) (\<lambda>_.
             if remote_execution
             then remote_step (remote_execute w request) (\<lambda>response.
               restore_declared_record L w safe answers (if er_cache_hit response then ''hit'' else ''executed'') ([], [])
                 (er_record response))
             else publish_local L w safe answers sb request inputs))"

section \<open>The command\<close>

record declared_args =
  da_name :: string
  da_command :: "string list"
  da_inputs :: "string list"
  da_outputs :: "string list"
  da_environment :: "string list"

text \<open>The request a command line stands for, and its inputs' bytes.\<close>

definition declared_request :: "'b lib \<Rightarrow> place_of_work \<Rightarrow> declared_args \<Rightarrow> declared_error + (execute_request \<times> (artifact \<times> string) list)" where
  "declared_request L pw args =
     r_bind (ok_or (pw_platform pw) No_platform) (\<lambda>platform.
     r_then (map_err Bad_path (validate_declared_command (da_command args)))
     (r_bind (collect_declared_inputs L pw (da_inputs args)) (\<lambda>files.
      r_bind (declared_output_paths (pw_workspace pw) (da_outputs args)) (\<lambda>outputs.
      r_then (map_err Bad_path (validate_output_roots (map fst files) outputs))
      (r_bind (declared_environment (pw_env pw) (da_environment args) []) (\<lambda>environment.
        Inr (\<lparr>xr_key = declared_action_key L (da_name args) platform (da_command args) environment (map fst files) outputs,
              xr_name = da_name args, xr_platform = platform, xr_command = da_command args, xr_environment = environment,
              xr_inputs = map fst files, xr_outputs = outputs\<rparr>, files)))))))"

definition run_declared_action :: "'b lib \<Rightarrow> 's wire \<Rightarrow> (string \<Rightarrow> bool) \<Rightarrow> bool list \<Rightarrow> sandbox \<Rightarrow> place_of_work \<Rightarrow> declared_args \<Rightarrow> bool \<Rightarrow>
    ('s, declared_result) action" where
  "run_declared_action L w safe answers sb pw args remote_execution = (\<lambda>(s, ws).
     case declared_request L pw args of
       Inl e \<Rightarrow> (Inl e, (s, ws))
     | Inr (request, inputs) \<Rightarrow> run_remote_action L w safe answers sb remote_execution request inputs (s, ws))"

definition run_declared_locally :: "'b lib \<Rightarrow> (string \<Rightarrow> bool) \<Rightarrow> bool list \<Rightarrow> sandbox \<Rightarrow> place_of_work \<Rightarrow> declared_args \<Rightarrow>
    ('b store, declared_result) action" where
  "run_declared_locally L safe answers sb pw args = (\<lambda>(st, ws).
     case declared_request L pw args of
       Inl e \<Rightarrow> (Inl e, (st, ws))
     | Inr (request, inputs) \<Rightarrow> run_local_declared_action L safe answers sb request inputs (st, ws))"

section \<open>Archives\<close>

text \<open>\<open>bellows archive publish\<close>: the uploads precede the manifest.\<close>

definition archive_of :: "'b lib \<Rightarrow> string \<Rightarrow> nat \<Rightarrow> (artifact \<times> string) list \<Rightarrow> archive_manifest" where
  "archive_of L name now files =
     (let artifacts = sort_key ar_file_name (map fst files)
      in \<lparr>am_protocol = protocol_version, am_name = name, am_tree_digest = tree_digest L artifacts, am_created_ms = now,
          am_producer_action = None, am_files = artifacts\<rparr>)"

definition publish_archive :: "'b lib \<Rightarrow> 's wire \<Rightarrow> string \<Rightarrow> nat \<Rightarrow> node option \<Rightarrow> 's \<Rightarrow> (declared_error + archive_manifest) \<times> 's" where
  "publish_archive L w name now root s =
     (case root of
        Some (Dir es) \<Rightarrow>
          (case read_entries L [] es of
             Inl e \<Rightarrow> (Inl e, s)
           | Inr files \<Rightarrow>
               if files = [] then (Inl Empty_archive, s)
               else (case upload_blobs w (map (\<lambda>(a, bytes). (ar_digest a, bytes)) files) s of
                 (Inl e, t) \<Rightarrow> (Inl (Remote_error e), t)
               | (Inr _, t) \<Rightarrow>
                   (case remote_put_archive L w (archive_of L name now files) t of
                      (Inl e, u) \<Rightarrow> (Inl (Remote_error e), u)
                    | (Inr _, u) \<Rightarrow> (Inr (archive_of L name now files), u))))
      | _ \<Rightarrow> (Inl Not_a_directory, s))"

text \<open>\<open>bellows archive restore\<close> into a directory's entries; \<open>place\<close> is \<open>safe_destination\<close> and the write.\<close>

fun write_archive :: "(artifact \<times> string) list \<Rightarrow> (string \<times> entry) list \<Rightarrow> (declared_error + unit) \<times> (string \<times> entry) list" where
  "write_archive [] es = (Inr (), es)"
| "write_archive ((a, bytes) # fs) es =
     (case validate_relative_path (ar_file_name a) of
        Inl e \<Rightarrow> (Inl (Bad_path e), es)
      | Inr relative \<Rightarrow>
          (case normal_parts relative of
             None \<Rightarrow> (Inl (Unsafe_destination relative), es)
           | Some parts \<Rightarrow>
               (case place (ar_executable a) bytes parts es of
                  (es', False) \<Rightarrow> (Inl (Unsafe_destination relative), es')
                | (es', True) \<Rightarrow> write_archive fs es')))"

definition restore_archive :: "'b lib \<Rightarrow> 's wire \<Rightarrow> string \<Rightarrow> 's \<times> (string \<times> entry) list \<Rightarrow>
    (declared_error + archive_manifest) \<times> ('s \<times> (string \<times> entry) list)" where
  "restore_archive L w name = (\<lambda>(s, es).
     case remote_archive L w name s of
       (Inl e, t) \<Rightarrow> (Inl (Remote_error e), (t, es))
     | (Inr None, t) \<Rightarrow> (Inl (No_archive name), (t, es))
     | (Inr (Some m), t) \<Rightarrow>
         (case fetch_blobs L w (map ar_digest (am_files m)) t of
            (Inl e, u) \<Rightarrow> (Inl (Remote_error e), (u, es))
          | (Inr blobs, u) \<Rightarrow>
              (case write_archive (zip (am_files m) blobs) es of
                 (Inl e, es') \<Rightarrow> (Inl e, (u, es'))
               | (Inr _, es') \<Rightarrow> (Inr m, (u, es')))))"

end
