(* ===== verification/Cli_Remote_Props.thy ===== *)
theory Cli_Remote_Props
  imports Cli_Remote Server_Theorems Cli_Candidate_Props
begin

text \<open>
  What the client may rely on across the wire: the interface \<open>blob_server\<close> states what a server promises of
  blobs, and \<open>server_wire\<close> implements it; a compile that one machine publishes is found, complete, by the next.
\<close>

section \<open>Programs of requests\<close>

lemma q_bind_Inr: "q_bind f g s = (Inr b, u) \<longleftrightarrow> (\<exists>a t. f s = (Inr a, t) \<and> g a t = (Inr b, u))"
  by (auto simp: q_bind_def split: prod.splits sum.splits)

lemma q_lift_Inr: "q_lift r s = (Inr a, t) \<longleftrightarrow> r = Inr a \<and> t = s"
  by (auto simp: q_lift_def)

lemma send_Inr: "send w req s = (Inr a, t) \<longleftrightarrow> w req s = (Some a, t)"
  by (auto simp: send_def split: prod.splits option.splits)

lemma error_for_status_Inr: "error_for_status a = Inr r \<longleftrightarrow> a = Inr r"
  by (auto simp: error_for_status_def split: sum.splits api_error.splits)

lemma tell_Inr: "tell w req s = (Inr u, t) \<longleftrightarrow> (\<exists>r. w req s = (Some (Inr r), t))"
  by (auto simp: tell_def send_ok_def q_bind_Inr q_lift_Inr send_Inr error_for_status_Inr)

lemma ask_Inr: "ask w req body s = (Inr a, t) \<longleftrightarrow> (\<exists>r. w req s = (Some (Inr r), t) \<and> body r = Inr a)"
  by (auto simp: ask_def send_ok_def q_bind_Inr q_lift_Inr send_Inr error_for_status_Inr)

lemma the_blob_Inr: "the_blob r = Inr b \<longleftrightarrow> r = Blob_is b"
  by (cases r) (auto simp: the_blob_def)

lemma first_error_Inr: "first_error rs = Inr as \<longleftrightarrow> rs = map Inr as"
  by (induction rs arbitrary: as) (auto simp: Cons_eq_map_conv)

lemma first_error_map [simp]: "first_error (map Inr as) = Inr as"
  by (simp add: first_error_Inr)

lemma each_length: "each f xs s = (rs, t) \<Longrightarrow> length rs = length xs"
  by (induction xs arbitrary: s rs t) (auto simp: Let_def split: prod.splits)

section \<open>Blobs across a wire\<close>

text \<open>Every request but a collection and a remote execution.\<close>

definition plain_request :: "api_request \<Rightarrow> bool" where
  "plain_request req \<longleftrightarrow> (case req of Post_gc opts \<Rightarrow> False | Post_execute x \<Rightarrow> False | _ \<Rightarrow> True)"

text \<open>\<open>content\<close> is an intact blob's bytes.\<close>

locale blob_server =
  fixes L :: "'b lib" and wire :: "'s wire" and ready :: "'s \<Rightarrow> bool" and content :: "'s \<Rightarrow> string \<Rightarrow> string option"
  assumes stays_ready: "ready s \<Longrightarrow> plain_request req \<Longrightarrow> ready (snd (wire req s))"
    and stays_content: "ready s \<Longrightarrow> plain_request req \<Longrightarrow> content s d = Some b \<Longrightarrow> content (snd (wire req s)) d = Some b"
    and uploaded: "ready s \<Longrightarrow> wire (Put_blob d body) s = (Some (Inr r), t) \<Longrightarrow> \<exists>b. content t d = Some b"
    and asked: "ready s \<Longrightarrow> wire (Head_blob d) s = (Some (Inr r), t) \<Longrightarrow> \<exists>b. content t d = Some b"
    and served: "ready s \<Longrightarrow> content s d = Some b \<Longrightarrow> l_hash L b = d \<and> (\<exists>t. wire (Get_blob d) s = (Some (Inr (Blob_is b)), t))"
    and only_served: "ready s \<Longrightarrow> wire (Get_blob d) s = (Some (Inr (Blob_is b)), t) \<Longrightarrow> l_hash L b = d \<Longrightarrow> content t d = Some b"
begin

definition later :: "'s \<Rightarrow> 's \<Rightarrow> bool" where
  "later s t \<longleftrightarrow> ready t \<and> (\<forall>d b. content s d = Some b \<longrightarrow> content t d = Some b)"

lemma later_refl: "ready s \<Longrightarrow> later s s"
  by (simp add: later_def)

lemma later_trans: "later s t \<Longrightarrow> later t u \<Longrightarrow> later s u"
  by (simp add: later_def)

lemma wire_later: "ready s \<Longrightarrow> plain_request req \<Longrightarrow> wire req s = (a, t) \<Longrightarrow> later s t"
  using stays_ready [of s req] stays_content [of s req] by (simp add: later_def)

lemma blob_requests [simp]: "plain_request (Put_blob d body)" "plain_request (Head_blob d)" "plain_request (Get_blob d)"
  by (simp_all add: plain_request_def)

lemma send_later: "ready s \<Longrightarrow> plain_request req \<Longrightarrow> send wire req s = (a, t) \<Longrightarrow> later s t"
  using wire_later [of s req] by (auto simp: send_def split: prod.splits option.splits)

lemma tell_later: "ready s \<Longrightarrow> plain_request req \<Longrightarrow> tell wire req s = (a, t) \<Longrightarrow> later s t"
  using send_later [of s req]
  by (auto simp: tell_def send_ok_def q_bind_def q_lift_def split: prod.splits sum.splits)

lemma ask_later: "ready s \<Longrightarrow> plain_request req \<Longrightarrow> ask wire req body s = (a, t) \<Longrightarrow> later s t"
  using send_later [of s req]
  by (auto simp: ask_def send_ok_def q_bind_def q_lift_def split: prod.splits sum.splits)

lemma upload_blob_later:
  assumes "ready s" and "upload_blob wire (d, bytes) s = (a, t)"
  shows "later s t \<and> (a = Inr () \<longrightarrow> content t d \<noteq> None)"
proof -
  have put: "later u v \<and> (b = Inr () \<longrightarrow> content v d \<noteq> None)"
    if "ready u" "tell wire (Put_blob d [Inr bytes]) u = (b, v)" for b u v
    using tell_later [OF that(1) _ that(2)] uploaded [OF that(1)] that(2) tell_Inr [of wire _ u "()" v] by auto
  show ?thesis
  proof (cases "length bytes > upload_without_asking")
    case False
    then show ?thesis using put [OF assms(1)] assms(2) by (simp add: upload_blob_def)
  next
    case True
    obtain h u where h: "send wire (Head_blob d) s = (h, u)" by fastforce
    have lat: "later s u" using send_later [OF assms(1) _ h] by simp
    then have r: "ready u" by (simp add: later_def)
    show ?thesis
    proof (cases h)
      case (Inl e)
      then show ?thesis using True h assms(2) lat by (auto simp: upload_blob_def q_bind_def)
    next
      case (Inr x)
      show ?thesis
      proof (cases x)
        case (Inl e)
        have "tell wire (Put_blob d [Inr bytes]) u = (a, t)" using True h assms(2) Inr Inl by (simp add: upload_blob_def q_bind_def)
        then show ?thesis using put [OF r] later_trans [OF lat] by blast
      next
        case head: (Inr y)
        have "a = Inr () \<and> t = u" using True h assms(2) Inr head by (simp add: upload_blob_def q_bind_def q_lift_def)
        moreover have "content u d \<noteq> None" using asked [OF assms(1)] h Inr head by (auto simp: send_Inr)
        ultimately show ?thesis using lat by simp
      qed
    qed
  qed
qed

lemma each_upload:
  "ready s \<Longrightarrow> each (upload_blob wire) blobs s = (rs, t) \<Longrightarrow>
     later s t \<and> (\<forall>i < length rs. rs ! i = Inr () \<longrightarrow> content t (fst (blobs ! i)) \<noteq> None)"
proof (induction blobs arbitrary: s rs)
  case (Cons b blobs)
  obtain r u rs' where step: "upload_blob wire b s = (r, u)" "each (upload_blob wire) blobs u = (rs', t)" "rs = r # rs'"
    using Cons.prems(2) by (auto simp: Let_def split: prod.splits)
  have one: "later s u \<and> (r = Inr () \<longrightarrow> content u (fst b) \<noteq> None)"
    using upload_blob_later [OF Cons.prems(1), of "fst b" "snd b"] step(1) by simp
  then have "later u t \<and> (\<forall>i < length rs'. rs' ! i = Inr () \<longrightarrow> content t (fst (blobs ! i)) \<noteq> None)"
    using Cons.IH [OF _ step(2)] by (simp add: later_def)
  then show ?case using one later_trans step(3) by (auto simp: nth_Cons later_def split: nat.splits)
qed (simp add: later_refl)

lemma upload_blobs_later:
  assumes "ready s" and "upload_blobs wire blobs s = (r, t)"
  shows "later s t \<and> (r = Inr () \<longrightarrow> (\<forall>d \<in> fst ` set blobs. content t d \<noteq> None))"
proof -
  obtain rs where e: "each (upload_blob wire) blobs s = (rs, t)" "r = r_bind (first_error rs) (\<lambda>_. Inr ())"
    using assms(2) by (auto simp: upload_blobs_def split: prod.splits)
  note all = each_upload [OF assms(1) e(1)]
  have "content t d \<noteq> None" if r: "r = Inr ()" and d: "d \<in> fst ` set blobs" for d
  proof -
    have "\<exists>as. first_error rs = Inr as" using e(2) r by (cases "first_error rs") auto
    then obtain as where "rs = map Inr as" using first_error_Inr by blast
    moreover obtain i where "i < length blobs" "fst (blobs ! i) = d" using d by (metis in_set_conv_nth imageE)
    ultimately show ?thesis using all each_length [OF e(1)] by auto
  qed
  then show ?thesis using all by blast
qed

lemma fetch_blob_content:
  assumes "ready s" and "content s d = Some b"
  shows "\<exists>t. fetch_blob L wire d s = (Inr b, t) \<and> later s t"
proof -
  obtain t where g: "wire (Get_blob d) s = (Some (Inr (Blob_is b)), t)" "l_hash L b = d" using served [OF assms] by blast
  then have "ask wire (Get_blob d) the_blob s = (Inr b, t)" by (simp add: ask_Inr the_blob_def)
  then have "fetch_blob L wire d s = (Inr b, t)" using g(2) by (simp add: fetch_blob_def q_bind_def q_lift_def)
  then show ?thesis using wire_later [OF assms(1) _ g(1)] by auto
qed

lemma each_fetch:
  "ready s \<Longrightarrow> \<forall>d \<in> set ds. content s d = Some (f d) \<Longrightarrow> \<exists>t. each (fetch_blob L wire) ds s = (map (\<lambda>d. Inr (f d)) ds, t) \<and> later s t"
proof (induction ds arbitrary: s)
  case (Cons d ds)
  obtain u where b: "fetch_blob L wire d s = (Inr (f d), u)" "later s u"
    using fetch_blob_content [OF Cons.prems(1), of d] Cons.prems(2) by auto
  then have "ready u" "\<forall>d \<in> set ds. content u d = Some (f d)" using Cons.prems(2) by (simp_all add: later_def)
  then obtain t where bs: "each (fetch_blob L wire) ds u = (map (\<lambda>d. Inr (f d)) ds, t)" "later u t"
    using Cons.IH by blast
  have "each (fetch_blob L wire) (d # ds) s = (map (\<lambda>d. Inr (f d)) (d # ds), t)" using b(1) bs(1) by simp
  then show ?case using later_trans [OF b(2) bs(2)] by blast
qed (simp add: later_refl)

text \<open>The blobs a server has are fetched; the empty one is not even asked for.\<close>

definition fetched_content :: "'s \<Rightarrow> string \<Rightarrow> string" where
  "fetched_content s d = (if d = l_hash L [] then [] else the (content s d))"

lemma fetch_blobs_content:
  assumes "ready s" and "\<forall>d \<in> set ds. d \<noteq> l_hash L [] \<longrightarrow> content s d \<noteq> None"
  shows "\<exists>t. fetch_blobs L wire ds s = (Inr (map (fetched_content s) ds), t) \<and> later s t"
    and "map (l_hash L) (map (fetched_content s) ds) = ds"
proof -
  let ?u = "unique_digests (l_hash L []) {} ds" let ?f = "\<lambda>d. the (content s d)"
  have u: "set ?u = set ds - {l_hash L []}" by (simp add: set_unique_digests)
  then have "\<forall>d \<in> set ?u. content s d = Some (?f d)" using assms(2) by simp
  then obtain t where f: "each (fetch_blob L wire) ?u s = (map (\<lambda>d. Inr (?f d)) ?u, t)" "later s t"
    using each_fetch [OF assms(1), of ?u ?f] by blast
  have hash: "l_hash L (?f d) = d" if "d \<in> set ds" "d \<noteq> l_hash L []" for d
    using served [OF assms(1), of d "?f d"] bspec [OF assms(2) that(1)] that(2) by simp
  define get where "get = map_of (zip ?u (map ?f ?u))"
  have got: "get d = Some (?f d)" if "d \<in> set ds" "d \<noteq> l_hash L []" for d
    unfolding get_def using that u by (intro map_of_zip_map) simp
  have all: "\<forall>d \<in> set ds. blob_of L get d = Some (fetched_content s d)"
    using got hash by (simp add: blob_of_def remote_blob_def fetched_content_def)
  then have some: "\<forall>d \<in> set ds. blob_of L get d \<noteq> None" by simp
  have r: "remote_blobs L get ds = Fetched (map (\<lambda>d. the (blob_of L get d)) ds)" by (simp only: remote_blobs_eq if_P [OF some])
  have m: "map (\<lambda>d. the (blob_of L get d)) ds = map (fetched_content s) ds" using all by simp
  have e: "first_error (map (\<lambda>d. Inr (?f d)) ?u) = Inr (map ?f ?u)" by (simp add: first_error_Inr)
  have "fetch_blobs L wire ds s = (Inr (map (fetched_content s) ds), t)"
    using f(1) r by (simp add: fetch_blobs_def e get_def [symmetric] m)
  then show "\<exists>t. fetch_blobs L wire ds s = (Inr (map (fetched_content s) ds), t) \<and> later s t" using f(2) by blast
  show "map (l_hash L) (map (fetched_content s) ds) = ds"
    using hash by (auto simp: fetched_content_def intro!: map_idI)
qed

text \<open>And what is fetched is what the server has from then on.\<close>

lemma fetch_blob_ok:
  assumes "ready s" and "fetch_blob L wire d s = (Inr b, t)"
  shows "later s t \<and> content t d = Some b"
proof -
  have "wire (Get_blob d) s = (Some (Inr (Blob_is b)), t) \<and> l_hash L b = d"
    using assms(2) by (auto simp: fetch_blob_def q_bind_Inr q_lift_Inr ask_Inr the_blob_Inr split: if_splits)
  then show ?thesis using wire_later [OF assms(1), of "Get_blob d"] only_served [OF assms(1)] by simp
qed

lemma each_fetch_ok:
  "ready s \<Longrightarrow> each (fetch_blob L wire) ds s = (map Inr bs, t) \<Longrightarrow>
     later s t \<and> length bs = length ds \<and> (\<forall>(d, b) \<in> set (zip ds bs). content t d = Some b)"
proof (induction ds arbitrary: s bs)
  case (Cons d ds)
  obtain r u rs where step: "fetch_blob L wire d s = (r, u)" "each (fetch_blob L wire) ds u = (rs, t)" "map Inr bs = r # rs"
    using Cons.prems(2) by (auto simp: Let_def split: prod.splits)
  then obtain b cs where bs: "bs = b # cs" "r = Inr b" "rs = map Inr cs" by (auto simp: map_eq_Cons_conv)
  have one: "later s u" "content u d = Some b" using fetch_blob_ok [OF Cons.prems(1)] step(1) bs(2) by auto
  then have rest: "later u t \<and> length cs = length ds \<and> (\<forall>(d, b) \<in> set (zip ds cs). content t d = Some b)"
    using Cons.IH [of u cs] step(2) bs(3) by (simp add: later_def)
  then have "content t d = Some b" using one(2) by (simp add: later_def)
  then show ?case using rest bs(1) later_trans [OF one(1)] by auto
qed (simp add: later_refl)

lemma fetch_blobs_ok:
  assumes "ready s" and "fetch_blobs L wire ds s = (Inr bs, t)"
  shows "later s t \<and> bs = map (fetched_content t) ds \<and> (\<forall>d \<in> set ds. d \<noteq> l_hash L [] \<longrightarrow> content t d \<noteq> None)"
proof -
  let ?u = "unique_digests (l_hash L []) {} ds"
  obtain rs where e: "each (fetch_blob L wire) ?u s = (rs, t)" using assms(2) by (auto simp: fetch_blobs_def Let_def split: prod.splits)
  obtain as where as: "first_error rs = Inr as" using assms(2) e by (cases "first_error rs") (auto simp: fetch_blobs_def)
  then have rs: "rs = map Inr as" by (simp add: first_error_Inr)
  have f: "remote_blobs L (map_of (zip ?u as)) ds = Fetched bs"
    using assms(2) by (auto simp: fetch_blobs_def e as split: fetch.splits)
  note got = each_fetch_ok [OF assms(1) e [unfolded rs]]
  have lat: "later s t" and len: "length as = length ?u" and all: "\<forall>(d, b) \<in> set (zip ?u as). content t d = Some b"
    using got by blast+
  let ?get = "map_of (zip ?u as)"
  have c: "content t d = ?get d" if d: "d \<in> set ds" "d \<noteq> l_hash L []" for d
  proof -
    have "d \<in> set ?u" using d by (simp add: set_unique_digests)
    then obtain b where b: "?get d = Some b" using map_of_zip_is_Some [OF len [symmetric], of d] by blast
    then show ?thesis using all map_of_SomeD [OF b] by auto
  qed
  have blob: "\<forall>d \<in> set ds. blob_of L ?get d \<noteq> None" and bs: "bs = map (\<lambda>d. the (blob_of L ?get d)) ds"
    using f by (auto simp: remote_blobs_eq split: if_splits)
  have one: "the (blob_of L ?get d) = fetched_content t d \<and> (d \<noteq> l_hash L [] \<longrightarrow> content t d \<noteq> None)" if d: "d \<in> set ds" for d
  proof (cases "d = l_hash L []")
    case True
    then show ?thesis by (simp add: blob_of_def fetched_content_def)
  next
    case False
    obtain b where "?get d = Some b" "blob_of L ?get d = Some b"
      using bspec [OF blob d] False by (auto simp: blob_of_def remote_blob_def split: option.splits if_splits)
    then show ?thesis using c [OF d False] False by (simp add: fetched_content_def)
  qed
  then have "bs = map (fetched_content t) ds" using bs by simp
  then show ?thesis using lat one by blast
qed

lemma fetched_later: "later s t \<Longrightarrow> d \<noteq> l_hash L [] \<longrightarrow> content s d \<noteq> None \<Longrightarrow> fetched_content t d = fetched_content s d"
  by (auto simp: later_def fetched_content_def)

end

section \<open>The server implements it\<close>

definition open_server :: "'b lib \<Rightarrow> (nat \<Rightarrow> 'b world) \<Rightarrow> string option \<Rightarrow> nat \<Rightarrow> 'b app \<times> nat \<Rightarrow> bool" where
  "open_server L W header m s \<longleftrightarrow> codec_ok L \<and> (\<forall>n. w_now (W n) \<le> u64_max) \<and> authorize L (fst s) header = Inr ()
     \<and> ap_max_candidates (fst s) = m"

text \<open>What no request changes.\<close>

definition settings :: "'b app \<Rightarrow> string option \<times> nat" where
  "settings ap = (ap_auth_token ap, ap_max_candidates ap)"

definition blob_content :: "'b lib \<Rightarrow> 'b app \<times> nat \<Rightarrow> string \<Rightarrow> string option" where
  "blob_content L s d = (case read_blob L d (ap_store (fst s)) of Inr b \<Rightarrow> Some b | Inl _ \<Rightarrow> None)"

lemma blob_content_Some: "blob_content L s d = Some b \<longleftrightarrow> read_blob L d (ap_store (fst s)) = Inr b"
  by (simp add: blob_content_def split: sum.split)

lemma blob_content_intact: "blob_content L s d \<noteq> None \<longleftrightarrow> intact L (ap_store (fst s)) d"
  by (simp add: blob_content_def intact_def split: sum.split)

lemma server_wire_eq: "server_wire L W header req s = (Some (fst (handle L (W (snd s)) header req (fst s))), (snd (handle L (W (snd s)) header req (fst s)), Suc (snd s)))"
  by (cases s) (simp add: server_wire_def split: prod.split)

lemma settings_on_store [simp]: "settings (snd (on_store h f ap)) = settings ap"
  by (simp add: settings_def on_store_def Let_def case_prod_unfold)

lemma settings_bind_lift: "settings (snd (a_bind f (\<lambda>a. a_lift (g a)) ap)) = settings (snd (f ap))"
  by (cases "f ap"; cases "fst (f ap)") (simp_all add: a_bind_def a_lift_def)

lemma settings_respond [simp]: "settings (snd (respond f h ap)) = settings (snd (h ap))"
  by (cases "h ap"; cases "fst (h ap)") (simp_all add: respond_def)

lemma settings_authorized:
  "settings (snd (h ap)) = settings ap \<Longrightarrow> settings (snd (authorized L header h ap)) = settings ap"
  by (simp add: authorized_def split: sum.split)

lemma settings_run_declared [simp]: "settings (snd (run_declared L h run w now p x ap)) = settings ap"
  by (auto simp: settings_def run_declared_def split: prod.split sum.split)

lemma settings_find_or_run [simp]: "settings (snd (find_or_run L h run w now p x ap)) = settings ap"
proof (cases "on_store internal (read_declared L (xr_key x)) ap")
  case (Pair r ap')
  have "settings ap' = settings ap" using settings_on_store [of internal "read_declared L (xr_key x)" ap] Pair by simp
  then show ?thesis using Pair by (auto simp: find_or_run_def a_bind_def a_lift_def split: sum.split option.split)
qed

lemma settings_leases [simp]:
  "settings (snd (acquire_lease L header now k x ap)) = settings ap" "settings (snd (release_lease L header k tok ap)) = settings ap"
  by (auto simp: settings_def acquire_lease_def release_lease_def authorized_def Let_def split: sum.split option.split)

lemma settings_handlers:
  "settings (snd (health L v header ap)) = settings ap"
  "settings (snd (stats L ls header now ap)) = settings ap"
  "settings (snd (get_blob L header d ap)) = settings ap"
  "settings (snd (head_blob L header now d ap)) = settings ap"
  "settings (snd (put_blob_handler L header now d body ap)) = settings ap"
  "settings (snd (get_candidates L header k ap)) = settings ap"
  "settings (snd (put_candidate_handler L header now k a c ap)) = settings ap"
  "settings (snd (record_use_handler L header now k a ap)) = settings ap"
  "settings (snd (get_declared L header k ap)) = settings ap"
  "settings (snd (put_declared_handler L header now k r ap)) = settings ap"
  "settings (snd (get_archive L header n ap)) = settings ap"
  "settings (snd (put_archive_handler L header now n m ap)) = settings ap"
  "settings (snd (execute L h run w detected header now x ap)) = settings ap"
  unfolding health_def stats_def get_blob_def head_blob_def put_blob_handler_def get_candidates_def put_candidate_handler_def
    record_use_handler_def get_declared_def put_declared_handler_def get_archive_def put_archive_handler_def execute_def
  by (intro settings_authorized; auto simp: store_candidate_def settings_bind_lift Let_def split: sum.split store_error.split option.split)+

lemma settings_handle: "\<not> is_gc req \<Longrightarrow> settings (snd (handle L W header req ap)) = settings ap"
  by (cases req) (simp_all add: handle_def Let_def is_gc_def settings_handlers)

subsection \<open>Blobs keep their bytes\<close>

definition keeps_blobs :: "'b lib \<Rightarrow> 'b store \<Rightarrow> 'b store \<Rightarrow> bool" where
  "keeps_blobs L s t \<longleftrightarrow> (\<forall>d b. read_blob L d s = Inr b \<longrightarrow> read_blob L d t = Inr b)"

lemma keeps_same: "st_blobs t = st_blobs s \<Longrightarrow> keeps_blobs L s t"
  by (simp add: keeps_blobs_def read_blob_ok)

lemma keeps_refl [simp]: "keeps_blobs L s s"
  by (simp add: keeps_blobs_def)

lemma read_candidates_blobs: "read_candidates L k s = (r, t) \<Longrightarrow> st_blobs t = st_blobs s"
  by (auto simp: read_candidates_def quarantine_action_def split: sum.splits option.splits)

lemma read_declared_blobs: "read_declared L k s = (r, t) \<Longrightarrow> st_blobs t = st_blobs s"
  by (auto simp: read_declared_def quarantine_declared_def split: sum.splits option.splits)

lemma read_archive_blobs: "read_archive L k s = (r, t) \<Longrightarrow> st_blobs t = st_blobs s"
  by (auto simp: read_archive_def quarantine_archive_def split: sum.splits option.splits)

lemma record_use_blobs: "record_use k a now s = (r, t) \<Longrightarrow> st_blobs t = st_blobs s"
  by (auto simp: record_use_def split: sum.splits)

lemma put_candidate_blobs: "put_candidate L c n now s = (r, t) \<Longrightarrow> st_blobs t = st_blobs s"
  by (auto simp: put_candidate_def put_candidate_unlocked_def s_bind_def s_lift_def split: prod.splits sum.splits
      dest!: read_candidates_blobs record_use_blobs)

lemma put_declared_blobs: "put_declared L x now s = (r, t) \<Longrightarrow> st_blobs t = st_blobs s"
  by (auto simp: put_declared_def put_declared_unlocked_def s_bind_def s_lift_def split: prod.splits sum.splits option.splits if_splits
      dest!: read_declared_blobs)

lemma put_archive_blobs: "put_archive L x now s = (r, t) \<Longrightarrow> st_blobs t = st_blobs s"
  by (auto simp: put_archive_def put_archive_unlocked_def s_bind_def s_lift_def split: prod.splits sum.splits option.splits if_splits
      dest!: read_archive_blobs)

lemma touch_blob_keeps: "touch_blob d now s = (r, t) \<Longrightarrow> keeps_blobs L s t"
  by (auto simp: touch_blob_def keeps_blobs_def read_blob_ok split: sum.splits option.splits)

lemma commit_blob_keeps: "commit_blob L d temp now s = (r, t) \<Longrightarrow> keeps_blobs L s t"
proof -
  assume c: "commit_blob L d temp now s = (r, t)"
  show ?thesis
  proof (cases "key_ok d")
    case True
    have other: "read_blob L d' t = Inr b" if "read_blob L d' s = Inr b" "st_blobs t = (st_blobs s)(d \<mapsto> f)" "d' \<noteq> d" for d' b f
      using that by (simp add: read_blob_ok)
    show ?thesis
    proof (cases "read_blob L d s")
      case (Inl e)
      then have "st_blobs t = (st_blobs s)(d \<mapsto> \<lparr>bf_bytes = temp, bf_modified = now\<rparr>)" using c True by (auto simp: commit_blob_cases)
      then show ?thesis unfolding keeps_blobs_def using other Inl by (metis Inl_Inr_False)
    next
      case (Inr b)
      then have t: "st_blobs t = (st_blobs s)(d \<mapsto> \<lparr>bf_bytes = b, bf_modified = now\<rparr>)" using c True by (auto simp: commit_blob_cases)
      then have "read_blob L d t = Inr b" using Inr by (auto simp: read_blob_ok)
      then show ?thesis unfolding keeps_blobs_def using other [OF _ t] Inr by (metis sum.inject(2))
    qed
  next
    case False
    then obtain e where "blob_path d = Inl e" using blob_path_cases by blast
    then show ?thesis using c by (simp add: commit_blob_def)
  qed
qed

lemma put_blob_keeps: "put_blob L d b now s = (r, t) \<Longrightarrow> keeps_blobs L s t"
  using commit_blob_keeps by (auto simp: put_blob_def Let_def split: if_splits sum.splits)

lemma keeps_authorized: "keeps_blobs L (ap_store ap) (ap_store (snd (h ap))) \<Longrightarrow> keeps_blobs L (ap_store ap) (ap_store (snd (authorized L header h ap)))"
  by (simp add: authorized_def split: sum.split)

lemma keeps_handlers:
  "keeps_blobs L (ap_store ap) (ap_store (snd (health L v header ap)))"
  "keeps_blobs L (ap_store ap) (ap_store (snd (stats L ls header now ap)))"
  "keeps_blobs L (ap_store ap) (ap_store (snd (get_blob L header d ap)))"
  "keeps_blobs L (ap_store ap) (ap_store (snd (head_blob L header now d ap)))"
  "keeps_blobs L (ap_store ap) (ap_store (snd (put_blob_handler L header now d body ap)))"
  "keeps_blobs L (ap_store ap) (ap_store (snd (get_candidates L header k ap)))"
  "keeps_blobs L (ap_store ap) (ap_store (snd (put_candidate_handler L header now k a c ap)))"
  "keeps_blobs L (ap_store ap) (ap_store (snd (record_use_handler L header now k a ap)))"
  "keeps_blobs L (ap_store ap) (ap_store (snd (get_declared L header k ap)))"
  "keeps_blobs L (ap_store ap) (ap_store (snd (put_declared_handler L header now k x ap)))"
  "keeps_blobs L (ap_store ap) (ap_store (snd (get_archive L header n ap)))"
  "keeps_blobs L (ap_store ap) (ap_store (snd (put_archive_handler L header now n m ap)))"
  unfolding health_def stats_def get_blob_def head_blob_def put_blob_handler_def get_candidates_def put_candidate_handler_def
    record_use_handler_def get_declared_def put_declared_handler_def get_archive_def put_archive_handler_def
  by (intro keeps_authorized; auto simp: store_candidate_def store_bind_lift Let_def split: sum.split store_error.split option.split
      intro: keeps_same touch_blob_keeps [OF prod.collapse [symmetric]] commit_blob_keeps [OF prod.collapse [symmetric]]
        read_candidates_blobs [OF prod.collapse [symmetric]] put_candidate_blobs [OF prod.collapse [symmetric]]
        record_use_blobs [OF prod.collapse [symmetric]] read_declared_blobs [OF prod.collapse [symmetric]]
        put_declared_blobs [OF prod.collapse [symmetric]] read_archive_blobs [OF prod.collapse [symmetric]]
        put_archive_blobs [OF prod.collapse [symmetric]])+

lemma handle_keeps: "plain_request req \<Longrightarrow> keeps_blobs L (ap_store ap) (ap_store (snd (handle L W header req ap)))"
  by (cases req) (simp_all add: handle_def Let_def plain_request_def keeps_handlers)

lemma handle_blob_ok:
  assumes "authorize L ap header = Inr ()"
  shows "handle L W header (Put_blob d body) ap = (Inr r, ap') \<Longrightarrow> intact L (ap_store ap') d"
    and "handle L W header (Head_blob d) ap = (Inr r, ap') \<Longrightarrow> intact L (ap_store ap') d"
    and "read_blob L d (ap_store ap) = Inr b \<Longrightarrow> handle L W header (Get_blob d) ap = (Inr (Blob_is b), ap) \<and> l_hash L b = d"
proof -
  assume "handle L W header (Put_blob d body) ap = (Inr r, ap')"
  then obtain bytes created where b: "key_ok d" "l_hash L bytes = d"
      "on_store internal (commit_blob L d bytes (w_now W)) ap = (Inr created, ap')"
    by (auto simp: handle_def respond_def put_blob_handler_def authorized_ok [OF assms] a_bind_def a_lift_def
        split: sum.splits prod.splits if_splits)
  then obtain s' where "commit_blob L d bytes (w_now W) (ap_store ap) = (Inr created, s')" "ap' = ap\<lparr>ap_store := s'\<rparr>"
    by (auto simp: on_store_def split: prod.splits)
  then show "intact L (ap_store ap') d" using b(1,2)
    by (auto simp: commit_blob_cases intact_iff read_blob_ok split: sum.splits)
next
  assume "handle L W header (Head_blob d) ap = (Inr r, ap')"
  then obtain b u where b: "read_blob L d (ap_store ap) = Inr b" "on_store internal (touch_blob d (w_now W)) ap = (Inr u, ap')"
    by (auto simp: handle_def respond_def head_blob_def authorized_ok [OF assms] split: sum.splits prod.splits if_splits)
  then have "intact L (ap_store ap) d" by (auto simp: intact_def)
  moreover have "ap_store ap' = snd (touch_blob d (w_now W) (ap_store ap))" using b(2) store_on_store [of internal "touch_blob d (w_now W)" ap] by simp
  ultimately show "intact L (ap_store ap') d" using advances_intact [OF advances_touch_blob] by metis
next
  assume "read_blob L d (ap_store ap) = Inr b"
  then show "handle L W header (Get_blob d) ap = (Inr (Blob_is b), ap) \<and> l_hash L b = d"
    by (auto simp: read_blob_ok handle_def respond_def get_blob_def authorized_ok [OF assms])
qed

lemma plain_not_gc: "plain_request req \<Longrightarrow> \<not> is_gc req"
  by (cases req) (simp_all add: plain_request_def is_gc_def)

interpretation served: blob_server L "server_wire L W header" "open_server L W header m" "blob_content L"
  for L :: "'b lib" and W header m
proof unfold_locales
  fix s :: "'b app \<times> nat" and req d body r t b
  assume ready: "open_server L W header m s"
  then have L: "codec_ok L" "w_now (W (snd s)) \<le> u64_max" "authorize L (fst s) header = Inr ()" by (auto simp: open_server_def)
  show "open_server L W header m (snd (server_wire L W header req s))" if "plain_request req"
    using ready settings_handle [OF plain_not_gc [OF that], of L "W (snd s)" header "fst s"]
      authorize_cong [of "snd (handle L (W (snd s)) header req (fst s))" "fst s" L header]
    by (simp add: open_server_def server_wire_eq settings_def)
  show "blob_content L (snd (server_wire L W header req s)) d = Some b" if "plain_request req" "blob_content L s d = Some b"
    using handle_keeps [OF that(1), of L "fst s" "W (snd s)" header] that(2) by (simp add: blob_content_Some keeps_blobs_def server_wire_eq)
  show "\<exists>b. blob_content L t d = Some b" if "server_wire L W header (Put_blob d body) s = (Some (Inr r), t)"
    using handle_blob_ok(1) [OF L(3), of "W (snd s)" d body r "fst t"] that by (auto simp: server_wire_eq blob_content_Some intact_def prod_eq_iff)
  show "\<exists>b. blob_content L t d = Some b" if "server_wire L W header (Head_blob d) s = (Some (Inr r), t)"
    using handle_blob_ok(2) [OF L(3), of "W (snd s)" d r "fst t"] that by (auto simp: server_wire_eq blob_content_Some intact_def prod_eq_iff)
  show "blob_content L t d = Some b" if "server_wire L W header (Get_blob d) s = (Some (Inr (Blob_is b)), t)" "l_hash L b = d"
  proof -
    have "handle L (W (snd s)) header (Get_blob d) (fst s) = (Inr (Blob_is b), fst t)" using that(1) by (auto simp: server_wire_eq prod_eq_iff)
    then show ?thesis using that(2)
      by (auto simp: handle_def respond_def get_blob_def authorized_ok [OF L(3)] blob_content_Some read_blob_ok
          split: sum.splits prod.splits option.splits store_error.splits)
  qed
  show "l_hash L b = d \<and> (\<exists>t. server_wire L W header (Get_blob d) s = (Some (Inr (Blob_is b)), t))" if "blob_content L s d = Some b"
    using handle_blob_ok(3) [OF L(3), of d b "W (snd s)"] that by (auto simp: server_wire_eq blob_content_Some)
qed

section \<open>A published compile\<close>

lemma handle_put_candidate:
  assumes "codec_ok L" and "authorize L ap header = Inr ()" and "ap_max_candidates ap \<le> 1024"
    and "handle L W header (Put_action (ac_static_key c) (ac_action_key c) c) ap = (Inr r, ap')"
  shows "candidate_checks L (ap_store ap) c = Inr ()
      \<and> (\<exists>cs. index_found L (ap_store ap') (ac_static_key c) = Some (c # cs) \<and> key_ok (ac_static_key c))
      \<and> (\<forall>d. intact L (ap_store ap') d = intact L (ap_store ap) d)"
proof -
  let ?s = "ap_store ap" let ?k = "ac_static_key c"
  obtain u where c: "candidate_checks L ?s c = Inr ()" and p: "put_candidate L c (ap_max_candidates ap) (w_now W) ?s = (Inr u, ap_store ap')"
    using assms(4)
    by (auto simp: handle_def respond_def put_candidate_handler_def authorized_ok [OF assms(2)] store_candidate_def on_store_def
        split: sum.splits prod.splits)
  have "validate_candidate_manifest L c = Inr ()" using c by (simp add: candidate_checks_def)
  then have ok: "candidate_ok L c" by (simp add: candidate_manifest_ok)
  note k = candidate_ok_keys [OF ok]
  show ?thesis
  proof (cases "index_found L ?s ?k")
    case None
    from read_candidates_broken [OF conjunct1 [OF k] this] obtain e f where
      "read_candidates L ?k ?s = (Inl e, quarantine_action ?k f ?s)" by blast
    then have "fst (put_candidate L c (ap_max_candidates ap) (w_now W) ?s) = Inl e"
      using k \<open>validate_candidate_manifest L c = Inr ()\<close> by (simp add: put_candidate_def put_candidate_unlocked_def put_unfold)
    then show ?thesis using p by simp
  next
    case (Some index)
    let ?new = "updated_index c (ap_max_candidates ap) index"
    have t: "ap_store ap' = index_written L c (ap_max_candidates ap) (w_now W) index ?s"
      using put_candidate_found [OF ok Some] p by simp
    have "index_ok L ?k ?new" using updated_index_ok [OF ok index_found_ok [OF Some] assms(3)] .
    then have "index_found L (ap_store ap') ?k = Some ?new"
      using assms(1) by (simp add: t index_found_def index_written_def)
    moreover have "\<exists>cs. ?new = c # cs" by (simp add: updated_index_def take_Cons')
    moreover have "\<forall>d. intact L (ap_store ap') d = intact L ?s d" by (simp add: t index_written_def intact_iff)
    ultimately show ?thesis using c k by auto
  qed
qed

lemma handle_get_action:
  assumes "authorize L ap header = Inr ()" and "key_ok k" and "index_found L (ap_store ap) k = Some (c # cs)"
  shows "handle L W header (Get_action k) ap = (Inr (Index_is (c # cs)), ap)"
  using read_candidates_found [OF assms(2,3)]
  by (simp add: handle_def respond_def get_candidates_def authorized_ok [OF assms(1)] a_bind_def a_lift_def on_store_def)

text \<open>
  C39. What one machine publishes, the next one gets: when the client's publication of a captured compile succeeds
  against a server that keeps at most 1024 candidates, asking for its static key returns the very candidate
  first, and the blobs it names, the compiler's streams included, are fetched complete: each has its digest, and
  each stream that is not empty has the length the candidate records, whether it was uploaded or the server
  answered that it has it. No intact blob on the server changes its bytes.
\<close>

theorem published_compile_is_served:
  assumes "codec_ok L" and "\<forall>n. w_now (W n) \<le> u64_max" and "ap_max_candidates ap \<le> 1024" and "authorize L ap header = Inr ()"
    and "publish L (server_wire L W header) c (ap, n) = (Inr key, s)"
  defines "cand \<equiv> cp_candidate c"
  shows "\<exists>cs s' blobs. remote_candidates (server_wire L W header) (ac_static_key cand) s = (Inr (cand # cs), s')
     \<and> fst (fetch_blobs L (server_wire L W header) (requested_digests cand) s') = Inr blobs
     \<and> map (l_hash L) blobs = requested_digests cand \<and> key = ac_action_key cand
     \<and> (\<forall>(b, x) \<in> set (zip (drop (length (ac_artifacts cand)) blobs) [ac_stdout cand, ac_stderr cand]).
           sa_digest x \<noteq> l_hash L [] \<longrightarrow> length b = sa_len x)
     \<and> (\<forall>d b. read_blob L d (ap_store ap) = Inr b \<longrightarrow> read_blob L d (ap_store (fst s)) = Inr b)"
proof -
  let ?w = "server_wire L W header" and ?m = "ap_max_candidates ap"
  have open0: "open_server L W header ?m (ap, n)" using assms(1-4) by (simp add: open_server_def)
  obtain s1 where up: "upload_blobs ?w (cp_blobs c) (ap, n) = (Inr (), s1)"
    and put: "remote_put_candidate ?w cand s1 = (Inr (), s)" and key: "key = ac_action_key cand"
    using assms(5) by (auto simp: publish_def q_bind_Inr q_lift_Inr cand_def)
  let ?put = "Put_action (ac_static_key cand) (ac_action_key cand) cand"
  have later: "served.later L W header ?m (ap, n) s1" using served.upload_blobs_later [OF open0 up] by blast
  then have s1: "open_server L W header ?m s1" by (simp add: served.later_def)
  have auth1: "authorize L (fst s1) header = Inr ()" "ap_max_candidates (fst s1) \<le> 1024" using s1 assms(3) by (simp_all add: open_server_def)
  obtain r where wire: "?w ?put s1 = (Some (Inr r), s)" using put by (auto simp: remote_put_candidate_def tell_Inr)
  then have h: "handle L (W (snd s1)) header ?put (fst s1) = (Inr r, fst s)" by (auto simp: server_wire_eq prod_eq_iff)
  note stored = handle_put_candidate [OF assms(1) auth1 h]
  then obtain cs where cs: "index_found L (ap_store (fst s)) (ac_static_key cand) = Some (cand # cs)" "key_ok (ac_static_key cand)"
    by blast
  have plain: "plain_request ?put" "plain_request (Get_action (ac_static_key cand))" by (simp_all add: plain_request_def)
  have later1: "served.later L W header ?m s1 s" using served.wire_later [OF s1 plain(1) wire] .
  then have s: "open_server L W header ?m s" by (simp add: served.later_def)
  then have auth: "authorize L (fst s) header = Inr ()" by (simp add: open_server_def)
  let ?s' = "(fst s, Suc (snd s))"
  have look: "?w (Get_action (ac_static_key cand)) s = (Some (Inr (Index_is (cand # cs))), ?s')"
    using handle_get_action [OF auth cs(2,1)] by (simp add: server_wire_eq)
  then have get: "remote_candidates ?w (ac_static_key cand) s = (Inr (cand # cs), ?s')"
    by (simp add: remote_candidates_def q_bind_def q_lift_def send_def is_not_found_def error_for_status_def the_index_def)
  have later2: "served.later L W header ?m s ?s'" using served.wire_later [OF s plain(2) look] .
  then have s': "open_server L W header ?m ?s'" by (simp add: served.later_def)
  have from1: "blob_content L ?s' d = Some b" if "read_blob L d (ap_store (fst s1)) = Inr b" for d b
    using that later1 later2 by (simp add: served.later_def blob_content_Some [of L s1, symmetric])
  have "\<forall>d \<in> set (candidate_digests cand). intact L (ap_store (fst s1)) d"
    using candidate_checks_intact [OF conjunct1 [OF stored]] .
  moreover have "set (requested_digests cand) \<subseteq> set (candidate_digests cand)"
    by (auto simp: requested_digests_def candidate_digests_def)
  ultimately have "\<forall>d \<in> set (requested_digests cand). d \<noteq> l_hash L [] \<longrightarrow> blob_content L ?s' d \<noteq> None"
    using from1 unfolding intact_def by (metis option.distinct(1) subsetD)
  note got = served.fetch_blobs_content [OF s' this]
  let ?f = "served.fetched_content L ?s'"
  have stream: "length (?f (sa_digest x)) = sa_len x" if x: "x \<in> {ac_stdout cand, ac_stderr cand}" "sa_digest x \<noteq> l_hash L []" for x
  proof -
    have "check_stream L (ap_store (fst s1)) ''referenced blob'' ''compiler stream length does not match manifest'' x = Inr ()"
      using conjunct1 [OF stored] x(1) unfolding candidate_checks_def r_then_ok check_all_ok by auto
    then obtain b where "read_blob L (sa_digest x) (ap_store (fst s1)) = Inr b" "length b = sa_len x"
      by (auto simp: check_stream_def check_blob_def)
    then show ?thesis using from1 x(2) by (simp add: served.fetched_content_def)
  qed
  have "drop (length (ac_artifacts cand)) (map ?f (requested_digests cand)) = [?f (sa_digest (ac_stdout cand)), ?f (sa_digest (ac_stderr cand))]"
    by (simp add: requested_digests_def)
  then have streams: "\<forall>(b, x) \<in> set (zip (drop (length (ac_artifacts cand)) (map ?f (requested_digests cand))) [ac_stdout cand, ac_stderr cand]).
           sa_digest x \<noteq> l_hash L [] \<longrightarrow> length b = sa_len x" using stream by simp
  have kept: "read_blob L d (ap_store (fst s)) = Inr b" if "read_blob L d (ap_store ap) = Inr b" for d b
    using that later later1 by (simp add: served.later_def blob_content_Some)
  obtain t where "fetch_blobs L ?w (requested_digests cand) ?s' = (Inr (map ?f (requested_digests cand)), t)" using got(1) by blast
  then have fetched: "fst (fetch_blobs L ?w (requested_digests cand) ?s') = Inr (map ?f (requested_digests cand))" by simp
  show ?thesis using get fetched got(2) key streams kept by blast
qed

section \<open>Examples\<close>

definition ex_wire :: "(ex_doc app \<times> nat) wire" where
  "ex_wire = server_wire ex_codec (\<lambda>n. ex_world 5) ex_auth"

definition ex_captured :: captured where
  "ex_captured = \<lparr>cp_candidate = ex_plain, cp_blobs = [(ex_key, ''data'')], cp_pinned = False\<rparr>"

definition ex_uploaded :: "ex_doc store" where
  "ex_uploaded = empty_store\<lparr>st_blobs := [ex_key \<mapsto> \<lparr>bf_bytes = ''data'', bf_modified = 5\<rparr>]\<rparr>"

lemma ex_hash_data [simp]: "l_hash ex_codec ''data'' = ex_key"
  by (simp add: ex_codec_def)

lemma ex_app_simps [simp]:
  "ap_store (ex_app s) = s" "ap_max_blob_bytes (ex_app s) = 1024" "ap_max_candidates (ex_app s) = 8" "(ex_app s)\<lparr>ap_store := t\<rparr> = ex_app t"
  by (simp_all add: ex_app_def)

lemma ex_upload:
  "handle ex_codec (ex_world 5) ex_auth (Put_blob ex_key [Inr ''data'']) (ex_app empty_store) = (Inr (Put_is Created), ex_app ex_uploaded)"
proof -
  have "commit_blob ex_codec ex_key ''data'' 5 empty_store = (Inr True, ex_uploaded)"
    by (simp add: commit_blob_cases read_blob_def ex_uploaded_def split: sum.split)
  then show ?thesis
    by (simp add: handle_def respond_def put_blob_handler_def authorized_ok [OF ex_authorized] receive_blob_def
        ex_world_def on_store_def a_bind_def a_lift_def put_status_def)
qed

lemma ex_put_action:
  "\<exists>ap'. handle ex_codec (ex_world 5) ex_auth (Put_action ex_key ex_key ex_plain) (ex_app ex_uploaded) = (Inr No_content, ap')"
proof -
  have "validate_candidate_manifest ex_codec ex_plain = Inr ()" using ex_candidates_ok(1) by (simp add: candidate_manifest_ok)
  moreover have "read_blob ex_codec ex_key ex_uploaded = Inr ''data''" by (simp add: read_blob_ok ex_uploaded_def)
  moreover have "ar_digest (ex_artifact n) = ex_key" for n by (simp add: ex_artifact_def ex_key_def)
  ultimately have c: "candidate_checks ex_codec ex_uploaded ex_plain = Inr ()"
    by (simp add: candidate_checks_def check_stream_def check_blob_def ex_plain_def ex_candidate_def)
  have "index_found ex_codec ex_uploaded (ac_static_key ex_plain) = Some []" by (simp add: index_found_def ex_uploaded_def)
  from put_candidate_found [OF ex_candidates_ok(1) this, of 8 5] c
  show ?thesis
    by (simp add: handle_def respond_def put_candidate_handler_def authorized_ok [OF ex_authorized] store_candidate_def
        on_store_def ex_world_def)
qed

lemma ex_publish: "\<exists>s. publish ex_codec ex_wire ex_captured (ex_app empty_store, 0) = (Inr ex_key, s)"
proof -
  have "validate_candidate_manifest ex_codec ex_plain = Inr ()" using ex_candidates_ok(1) by (simp add: candidate_manifest_ok)
  moreover obtain ap' where "handle ex_codec (ex_world 5) ex_auth (Put_action ex_key ex_key ex_plain) (ex_app ex_uploaded) = (Inr No_content, ap')"
    using ex_put_action by blast
  ultimately show ?thesis
    by (simp add: publish_def ex_captured_def q_bind_def q_lift_def upload_blobs_def upload_blob_def upload_without_asking_def
        tell_def send_ok_def send_def ex_wire_def server_wire_def ex_upload error_for_status_def remote_put_candidate_def)
qed

theorem published_compile_is_served_witness:
  "\<exists>s cs s'. fst (publish ex_codec ex_wire ex_captured (ex_app empty_store, 0)) = Inr ex_key
     \<and> remote_candidates ex_wire ex_key s = (Inr (ex_plain # cs), s')"
proof -
  obtain s where p: "publish ex_codec (server_wire ex_codec (\<lambda>n. ex_world 5) ex_auth) ex_captured (ex_app empty_store, 0) = (Inr ex_key, s)"
    using ex_publish unfolding ex_wire_def by blast
  have W: "\<forall>n. w_now ((\<lambda>n :: nat. ex_world 5) n) \<le> u64_max" by (simp add: ex_world_def u64_max_def)
  have M: "ap_max_candidates (ex_app empty_store) \<le> 1024" by simp
  obtain cs s' where "remote_candidates ex_wire ex_key s = (Inr (ex_plain # cs), s')"
    using published_compile_is_served [OF ex_codec_ok W M ex_authorized p] unfolding ex_wire_def [symmetric]
    by (auto simp: ex_captured_def)
  then show ?thesis using p unfolding ex_wire_def [symmetric] by (metis fst_conv)
qed

end
