(* ===== verification/Cli_Restore_Props.thy ===== *)
theory Cli_Restore_Props
  imports Cli_Restore
begin

text \<open>
  The restore of declared outputs: the roots it swaps cover every declaration and lie apart, and the
  swap is all or nothing.
\<close>

section \<open>Outermost roots\<close>

lemma starts_with_refl [simp]: "path_starts_with p p"
  by (simp add: path_starts_with_def)

lemma starts_with_trans: "path_starts_with p q \<Longrightarrow> path_starts_with q r \<Longrightarrow> path_starts_with p r"
  unfolding path_starts_with_def by (rule prefix_order.order_trans)

definition apart :: "string list \<Rightarrow> bool" where
  "apart ps \<longleftrightarrow> sorted_wrt (\<lambda>p q. \<not> path_starts_with p q \<and> \<not> path_starts_with q p) ps"

lemma apart_snoc: "apart (ps @ [p]) \<longleftrightarrow> apart ps \<and> (\<forall>q \<in> set ps. \<not> path_starts_with p q \<and> \<not> path_starts_with q p)"
  by (auto simp: apart_def sorted_wrt_append)

lemma apart_distinct: "apart ps \<Longrightarrow> distinct ps"
  unfolding apart_def by (induction ps) auto

lemma outermost_ok:
  "apart outer \<Longrightarrow> sorted (map (\<lambda>p. length (components p)) roots) \<Longrightarrow>
     \<forall>q \<in> set outer. \<forall>p \<in> set roots. length (components q) \<le> length (components p) \<Longrightarrow>
   apart (outermost outer roots) \<and> set outer \<subseteq> set (outermost outer roots) \<and> set (outermost outer roots) \<subseteq> set outer \<union> set roots
     \<and> (\<forall>p \<in> set roots. \<exists>q \<in> set (outermost outer roots). path_starts_with p q)"
proof (induction outer roots rule: outermost.induct)
  case (1 outer)
  then show ?case by simp
next
  case (2 outer root roots)
  let ?outer = "if list_ex (path_starts_with root) outer then outer else outer @ [root]"
  have "apart ?outer"
  proof (cases "list_ex (path_starts_with root) outer")
    case False
    have "\<not> path_starts_with q root" if q: "q \<in> set outer" for q
    proof
      assume s: "path_starts_with q root"
      have "length (components q) \<le> length (components root)" using 2(4) q by simp
      then have "components q = components root"
        using s prefix_length_le by (auto simp: path_starts_with_def prefix_def)
      then show False using False q by (auto simp: list_ex_iff path_starts_with_def)
    qed
    then show ?thesis using False 2(2) by (auto simp: apart_snoc list_ex_iff)
  qed (use 2(2) in simp)
  moreover have "\<forall>q \<in> set ?outer. \<forall>p \<in> set roots. length (components q) \<le> length (components p)"
    using 2(3,4) by auto
  ultimately have IH: "apart (outermost ?outer roots)" "set ?outer \<subseteq> set (outermost ?outer roots)"
      "set (outermost ?outer roots) \<subseteq> set ?outer \<union> set roots" "\<forall>p \<in> set roots. \<exists>q \<in> set (outermost ?outer roots). path_starts_with p q"
    using 2(1,3) by simp_all
  have "\<exists>q \<in> set ?outer. path_starts_with root q" by (auto simp: list_ex_iff)
  then have "\<exists>q \<in> set (outermost ?outer roots). path_starts_with root q" using IH(2) by blast
  then show ?case using IH by (auto split: if_splits)
qed

lemma outer_roots_ok:
  "apart (outer_roots roots) \<and> set (outer_roots roots) \<subseteq> set roots
     \<and> (\<forall>p \<in> set roots. \<exists>q \<in> set (outer_roots roots). path_starts_with p q)"
  using outermost_ok [of "[]" "sort_key (\<lambda>p. length (components p)) roots"] by (simp add: outer_roots_def apart_def)

lemma apart_pairs: "apart ps \<Longrightarrow> q \<in> set ps \<Longrightarrow> q' \<in> set ps \<Longrightarrow> q \<noteq> q' \<Longrightarrow> \<not> path_starts_with q q'"
  unfolding apart_def by (induction ps) auto

section \<open>One root\<close>

text \<open>How far a root is, against what lay there and what lies there now.\<close>

definition swap_state :: "entry option \<Rightarrow> replacement \<Rightarrow> entry option \<Rightarrow> bool" where
  "swap_state before r now \<longleftrightarrow>
     (if rp_installed r then rp_old r = before \<and> (rp_had_old r \<longleftrightarrow> before \<noteq> None)
      else if rp_had_old r then now = None \<and> rp_old r = before \<and> before \<noteq> None
      else now = before \<and> rp_old r = None)"

definition untouched :: "replacement \<Rightarrow> bool" where
  "untouched r \<longleftrightarrow> \<not> rp_had_old r \<and> \<not> rp_installed r \<and> rp_old r = None \<and> rp_new r \<noteq> None"

lemma install_one_effect:
  assumes "install_one r ws as = ((r', ws', as'), ok)" "untouched r"
  shows "rp_dest r' = rp_dest r \<and> (\<forall>p. p \<noteq> rp_dest r \<longrightarrow> ws' p = ws p) \<and> swap_state (ws (rp_dest r)) r' (ws' (rp_dest r))
     \<and> (ok \<longrightarrow> ws' (rp_dest r) = rp_new r)"
  using assms by (auto simp: install_one_def move_aside_def move_in_def untouched_def swap_state_def Let_def
      split: option.splits prod.splits if_splits bool.splits)

lemma install_all_effect:
  assumes "install_all rs ws as = ((rs', ws', as'), ok)" "\<forall>r \<in> set rs. untouched r" "distinct (map rp_dest rs)"
  shows "map rp_dest rs' = map rp_dest rs \<and> (\<forall>p. p \<notin> rp_dest ` set rs \<longrightarrow> ws' p = ws p)
     \<and> (\<forall>r \<in> set rs'. swap_state (ws (rp_dest r)) r (ws' (rp_dest r)))
     \<and> (ok \<longrightarrow> (\<forall>r \<in> set rs. ws' (rp_dest r) = rp_new r))"
  using assms
proof (induction rs arbitrary: ws as rs' ws' as' ok)
  case (Cons r rs)
  obtain r1 ws1 as1 ok1 where one: "install_one r ws as = ((r1, ws1, as1), ok1)" by (metis prod.exhaust)
  note eff = install_one_effect [OF one]
  have r: "untouched r" using Cons.prems(2) by simp
  show ?case
  proof (cases ok1)
    case True
    obtain rs2 ws2 as2 ok2 where rest: "install_all rs ws1 as1 = ((rs2, ws2, as2), ok2)" by (metis prod.exhaust)
    have out: "rs' = r1 # rs2" "ws' = ws2" "ok = ok2" using Cons.prems(1) one True rest by auto
    have IH: "map rp_dest rs2 = map rp_dest rs" "\<forall>p. p \<notin> rp_dest ` set rs \<longrightarrow> ws2 p = ws1 p"
        "\<forall>r \<in> set rs2. swap_state (ws1 (rp_dest r)) r (ws2 (rp_dest r))" "ok2 \<longrightarrow> (\<forall>r \<in> set rs. ws2 (rp_dest r) = rp_new r)"
      using Cons.IH [OF rest] Cons.prems(2,3) by simp_all
    have fresh: "rp_dest r \<notin> rp_dest ` set rs" using Cons.prems(3) by simp
    have "rp_dest ` set rs2 = rp_dest ` set rs" using IH(1) by (metis list.set_map)
    then have "swap_state (ws (rp_dest q)) q (ws2 (rp_dest q))" if "q \<in> set rs2" for q
      using IH(3) that fresh eff r by (metis image_eqI)
    then show ?thesis using eff r IH(1,2,4) fresh True unfolding out by auto
  next
    case False
    have out: "rs' = r1 # rs" "ws' = ws1" "\<not> ok" using Cons.prems(1) one False by auto
    have "swap_state (ws (rp_dest q)) q (ws1 (rp_dest q))" if q: "q \<in> set rs" for q
    proof -
      have "rp_dest q \<in> rp_dest ` set rs" using q by blast
      then have "rp_dest q \<noteq> rp_dest r" using Cons.prems(3) by auto
      then have "ws1 (rp_dest q) = ws (rp_dest q)" using eff r by blast
      moreover have "untouched q" using q Cons.prems(2) by simp
      ultimately show ?thesis by (simp add: swap_state_def untouched_def)
    qed
    then show ?thesis using eff r out by auto
  qed
qed simp

section \<open>Rolling back\<close>

lemma roll_back_one_effect:
  assumes "roll_back_one r ws as = ((r', ws', as'), ok)" "swap_state before r (ws (rp_dest r))"
  shows "rp_dest r' = rp_dest r \<and> (\<forall>p. p \<noteq> rp_dest r \<longrightarrow> ws' p = ws p)
     \<and> (if ok then ws' (rp_dest r) = before else before \<noteq> None \<longrightarrow> rp_old r' = before)"
  using assms by (auto simp: roll_back_one_def swap_state_def Let_def split: prod.splits if_splits)

lemma roll_back_effect:
  assumes "roll_back rs ws as = (saved, ws')" "\<forall>r \<in> set rs. swap_state (before (rp_dest r)) r (ws (rp_dest r))"
    "distinct (map rp_dest rs)"
  shows "(\<forall>p. p \<notin> rp_dest ` set rs \<longrightarrow> ws' p = ws p)
     \<and> (\<forall>p \<in> rp_dest ` set rs. ws' p = before p \<or> saved \<noteq> [] \<and> (before p \<noteq> None \<longrightarrow> (\<exists>s \<in> set saved. rp_dest s = p \<and> rp_old s = before p)))"
  using assms
proof (induction rs arbitrary: ws as saved ws')
  case (Cons r rs)
  obtain r1 ws1 as1 ok where one: "roll_back_one r ws as = ((r1, ws1, as1), ok)" by (metis prod.exhaust)
  obtain saved2 ws2 where rest: "roll_back rs ws1 as1 = (saved2, ws2)" by fastforce
  have out: "saved = (if ok then saved2 else r1 # saved2)" "ws' = ws2" using Cons.prems(1) one rest by auto
  have r: "swap_state (before (rp_dest r)) r (ws (rp_dest r))" using Cons.prems(2) by simp
  note eff = roll_back_one_effect [OF one r]
  have fresh: "rp_dest r \<notin> rp_dest ` set rs" using Cons.prems(3) by simp
  have "\<forall>q \<in> set rs. swap_state (before (rp_dest q)) q (ws1 (rp_dest q))"
    using eff Cons.prems(2) fresh by (metis image_eqI list.set_intros(2))
  then have IH: "\<forall>p. p \<notin> rp_dest ` set rs \<longrightarrow> ws2 p = ws1 p"
      "\<forall>p \<in> rp_dest ` set rs. ws2 p = before p \<or> saved2 \<noteq> [] \<and> (before p \<noteq> None \<longrightarrow> (\<exists>s \<in> set saved2. rp_dest s = p \<and> rp_old s = before p))"
    using Cons.IH [OF rest] Cons.prems(3) by simp_all
  show ?case
  proof (cases ok)
    case True
    then show ?thesis using eff IH fresh unfolding out by auto
  next
    case False
    then show ?thesis using eff IH fresh unfolding out by auto
  qed
qed simp

section \<open>The transaction\<close>

lemma stage_all_ok:
  "stage_all safe files roots = Some rs \<Longrightarrow>
     map rp_dest rs = roots \<and> (\<forall>r \<in> set rs. untouched r \<and> rp_new r = stage_root files (rp_dest r))"
  by (induction roots arbitrary: rs) (auto simp: replacement_of_def untouched_def split: if_splits option.splits)

text \<open>When a restore succeeds, and that without a failing rename every other restore of those files does.\<close>

lemma declared_outputs_replaced:
  assumes "declared_outputs safe r files ws as = (ws', Replaced)"
  shows "validate_output_roots (dr_inputs r) (dr_output_paths r) = Inr ()"
    and "\<exists>rs. stage_all safe files (outer_roots (dr_output_paths r)) = Some rs"
    and "p \<in> set (outer_roots (dr_output_paths r)) \<Longrightarrow> ws' p = stage_root files p"
    and "p \<notin> set (outer_roots (dr_output_paths r)) \<Longrightarrow> ws' p = ws p"
proof -
  show v: "validate_output_roots (dr_inputs r) (dr_output_paths r) = Inr ()"
    using assms by (auto simp: declared_outputs_def split: if_splits)
  obtain rs where rs: "stage_all safe files (outer_roots (dr_output_paths r)) = Some rs"
    using assms v by (auto simp: declared_outputs_def split: option.splits)
  then show "\<exists>rs. stage_all safe files (outer_roots (dr_output_paths r)) = Some rs" by blast
  note staged = stage_all_ok [OF rs]
  obtain rs' ws1 as1 ok where all: "install_all rs ws as = ((rs', ws1, as1), ok)" by (metis prod.exhaust)
  have ok: "ok" "ws1 = ws'" using assms by (auto simp: declared_outputs_def v rs all split: bool.splits prod.splits list.splits)
  have d: "map rp_dest rs = outer_roots (dr_output_paths r)" "distinct (map rp_dest rs)"
    using staged apart_distinct outer_roots_ok by simp_all
  note eff = install_all_effect [OF all _ d(2)]
  have dest: "rp_dest ` set rs = set (outer_roots (dr_output_paths r))" using d(1) by (metis list.set_map)
  show "ws' p = ws p" if "p \<notin> set (outer_roots (dr_output_paths r))" using eff staged ok that dest by simp
  show "ws' p = stage_root files p" if "p \<in> set (outer_roots (dr_output_paths r))"
  proof -
    have "p \<in> rp_dest ` set rs" using that by (simp only: dest)
    then obtain q where "p = rp_dest q" "q \<in> set rs" by (rule imageE)
    then show ?thesis using eff staged ok by simp
  qed
qed

lemma install_all_succeeds: "snd (install_all rs ws [])"
proof (induction rs arbitrary: ws)
  case (Cons r rs)
  obtain r' ws' where "install_one r ws [] = ((r', ws', []), True)"
    by (cases "ws (rp_dest r)") (auto simp: install_one_def move_aside_def move_in_def answer_def)
  then show ?case using Cons.IH [of ws'] by (auto split: prod.split)
qed simp

lemma declared_outputs_succeeds:
  assumes "validate_output_roots (dr_inputs r) (dr_output_paths r) = Inr ()"
    and "stage_all safe files (outer_roots (dr_output_paths r)) = Some rs"
  shows "\<exists>ws'. declared_outputs safe r files ws [] = (ws', Replaced)"
proof -
  obtain rs' ws' as' where "install_all rs ws [] = ((rs', ws', as'), True)"
    using install_all_succeeds [of rs ws] by (metis prod.collapse)
  then show ?thesis using assms by (simp add: declared_outputs_def)
qed

text \<open>
  C36. Restoring declared outputs is all or nothing. On success every outermost root holds exactly what was staged for it
  and nothing else changed; when a rename fails and the roll-back succeeds the workspace is as it was; and when even
  the roll-back fails, each root still has its previous output, or that output is in a staging directory that is kept.
  The roots cover every declared output and no two of them overlap, so no swap undoes another.
\<close>

theorem outputs_all_or_nothing:
  assumes "declared_outputs safe r files ws as = (ws', result)"
  defines "roots \<equiv> outer_roots (dr_output_paths r)"
  shows "(case result of
       Replaced \<Rightarrow> \<forall>p. ws' p = (if p \<in> set roots then stage_root files p else ws p)
     | Put_back \<Rightarrow> ws' = ws
     | Not_started \<Rightarrow> ws' = ws
     | Left_backups saved \<Rightarrow> \<forall>p. ws p \<noteq> None \<longrightarrow> ws' p = ws p
         \<or> p \<in> set roots \<and> (\<exists>s \<in> set saved. rp_dest s = p \<and> rp_old s = ws p))
     \<and> (\<forall>p \<in> set (dr_output_paths r). \<exists>q \<in> set roots. path_starts_with p q)
     \<and> (\<forall>q \<in> set roots. \<forall>q' \<in> set roots. q \<noteq> q' \<longrightarrow> \<not> path_starts_with q q')"
proof -
  have outer: "apart roots" "\<forall>p \<in> set (dr_output_paths r). \<exists>q \<in> set roots. path_starts_with p q"
    unfolding roots_def using outer_roots_ok by blast+
  have main: "case result of
       Replaced \<Rightarrow> \<forall>p. ws' p = (if p \<in> set roots then stage_root files p else ws p)
     | Put_back \<Rightarrow> ws' = ws | Not_started \<Rightarrow> ws' = ws
     | Left_backups saved \<Rightarrow> \<forall>p. ws p \<noteq> None \<longrightarrow> ws' p = ws p
         \<or> p \<in> set roots \<and> (\<exists>s \<in> set saved. rp_dest s = p \<and> rp_old s = ws p)"
  proof (cases "validate_output_roots (dr_inputs r) (dr_output_paths r) = Inr () \<and> stage_all safe files roots \<noteq> None")
    case False
    then have "declared_outputs safe r files ws as = (ws, Not_started)"
      by (auto simp: declared_outputs_def roots_def)
    then show ?thesis using assms(1) by simp
  next
    case valid: True
    then obtain rs where rs: "stage_all safe files roots = Some rs" by blast
    note staged = stage_all_ok [OF rs]
    have dest: "rp_dest ` set rs = set roots" "distinct (map rp_dest rs)"
      using staged apart_distinct [OF outer(1)] by (metis list.set_map, simp)
    obtain rs' ws1 as1 ok where all: "install_all rs ws as = ((rs', ws1, as1), ok)" by (metis prod.exhaust)
    note eff = install_all_effect [OF all _ dest(2)]
    have inst: "map rp_dest rs' = map rp_dest rs" "\<forall>p. p \<notin> set roots \<longrightarrow> ws1 p = ws p"
        "\<forall>r \<in> set rs'. swap_state (ws (rp_dest r)) r (ws1 (rp_dest r))" "ok \<longrightarrow> (\<forall>r \<in> set rs. ws1 (rp_dest r) = rp_new r)"
      using eff staged dest(1) by auto
    show ?thesis
    proof (cases ok)
      case True
      then have "ws' = ws1 \<and> result = Replaced"
        using assms(1) valid rs all unfolding declared_outputs_def roots_def by simp
      moreover have "ws1 p = stage_root files p" if p: "p \<in> set roots" for p
      proof -
        have "p \<in> rp_dest ` set rs" using p by (simp only: dest(1))
        then obtain q where q: "p = rp_dest q" "q \<in> set rs" by (rule imageE)
        have "ws1 (rp_dest q) = rp_new q" using inst(4) True q(2) by simp
        also have "rp_new q = stage_root files (rp_dest q)" using conjunct2 [OF staged] q(2) by simp
        finally show ?thesis by (simp add: q(1))
      qed
      ultimately show ?thesis using inst(2) by simp
    next
      case False
      obtain saved ws2 where rb: "roll_back (rev rs') ws1 as1 = (saved, ws2)" by fastforce
      have res: "ws' = ws2 \<and> result = (if saved = [] then Put_back else Left_backups saved)"
        using assms(1) valid rs all False rb
        by (auto simp: declared_outputs_def roots_def split: list.splits)
      have d: "rp_dest ` set (rev rs') = set roots" "distinct (map rp_dest (rev rs'))"
        using inst(1) dest by (metis list.set_map set_rev, simp add: rev_map [symmetric])
      have "\<forall>p. p \<notin> set roots \<longrightarrow> ws2 p = ws1 p"
        "\<forall>p \<in> set roots. ws2 p = ws p \<or> saved \<noteq> [] \<and> (ws p \<noteq> None \<longrightarrow> (\<exists>s \<in> set saved. rp_dest s = p \<and> rp_old s = ws p))"
        using roll_back_effect [OF rb _ d(2), of ws] inst(3) unfolding d(1) by simp_all
      then show ?thesis using res inst(2) by (auto simp: fun_eq_iff)
    qed
  qed
  show ?thesis using main outer(2) apart_pairs [OF outer(1)] by blast
qed

section \<open>Examples\<close>

definition ex_overlapping :: declared_record where
  "ex_overlapping = \<lparr>dr_protocol = 6, dr_key = [], dr_name = [], dr_created_ms = 0,
     dr_platform = \<lparr>pi_rustc = [], pi_cargo = [], pi_os = [], pi_arch = [], pi_path_digest = [], pi_rustup_home_digest = [],
       pi_rustup_toolchain = None, pi_host_cc = None, pi_host_ld = None, pi_host_ar = None\<rparr>,
     dr_command = [], dr_environment = [], dr_inputs = [], dr_output_paths = [''out/gen'', ''out''], dr_outputs = [],
     dr_stdout = \<lparr>sa_digest = [], sa_len = 0\<rparr>, dr_stderr = \<lparr>sa_digest = [], sa_len = 0\<rparr>, dr_duration_ms = 0, dr_executor = []\<rparr>"

text \<open>The second rename fails; the previous directory is put back.\<close>

theorem outputs_all_or_nothing_witness:
  "fst (declared_outputs (\<lambda>p. True) ex_overlapping [(\<lparr>ar_file_name = ''out/gen/a'', ar_digest = [], ar_executable = False\<rparr>, ''x'')]
     [''out'' \<mapsto> Folder []] [True, False, True]) = [''out'' \<mapsto> Folder []]"
proof -
  let ?d = "declared_outputs (\<lambda>p. True) ex_overlapping [(\<lparr>ar_file_name = ''out/gen/a'', ar_digest = [], ar_executable = False\<rparr>, ''x'')]
     [''out'' \<mapsto> Folder []] [True, False, True]"
  have "snd ?d = Put_back" by code_simp
  then have "?d = (fst ?d, Put_back)" by (metis prod.collapse)
  from outputs_all_or_nothing [OF this] show ?thesis by simp
qed

end
