(* ===== verification/Cli_Declared_Props.thy ===== *)
theory Cli_Declared_Props
  imports Cli_Declared Cli_Remote_Props Cli_Restore_Props
begin

text \<open>
  A declared action runs once: whoever has run it, the next run with the same key restores the same outputs
  without executing anything. Locally that follows from the store; across a wire from the interface
  \<open>record_server\<close>, which extends \<open>blob_server\<close> by declared records and which the server implements.
\<close>

section \<open>Materializing\<close>

lemma materialize_Inr: "materialize_declared safe answers r fs ws = (Inr u, ws') \<longleftrightarrow> declared_outputs safe r fs ws answers = (ws', Replaced)"
  by (auto simp: materialize_declared_def split: prod.splits outputs_result.splits)

lemma materialize_again:
  assumes "materialize_declared safe answers r fs ws = (Inr u, ws')"
  shows "\<exists>ws3. materialize_declared safe [] r fs ws2 = (Inr (), ws3)
     \<and> (\<forall>p. ws3 p = (if p \<in> set (outer_roots (dr_output_paths r)) then ws' p else ws2 p))"
proof -
  have d: "declared_outputs safe r fs ws answers = (ws', Replaced)" using assms by (simp add: materialize_Inr)
  note rep = declared_outputs_replaced [OF d]
  obtain ws3 where w: "declared_outputs safe r fs ws2 [] = (ws3, Replaced)"
    using declared_outputs_succeeds [OF rep(1)] rep(2) by blast
  note rep3 = declared_outputs_replaced [OF w]
  have "ws3 p = (if p \<in> set (outer_roots (dr_output_paths r)) then ws' p else ws2 p)" for p
    using rep(3) rep3(3,4) by simp
  then show ?thesis using w by (auto simp: materialize_Inr)
qed

section \<open>The local store\<close>

lemma keep_blobs_keeps: "keep_blobs L now bs s = (r, t) \<Longrightarrow> keeps_blobs L s t \<and> st_declared t = st_declared s"
proof (induction bs arbitrary: s)
  case (Cons b bs)
  obtain d bytes where b: "b = (d, bytes)" by (cases b)
  obtain x u where p: "put_blob L d bytes now s = (x, u)" by fastforce
  have k: "keeps_blobs L s u" using put_blob_keeps [OF p] .
  have dec: "st_declared u = st_declared s" using p
    by (auto simp: put_blob_def commit_blob_def touch_blob_def s_bind_def s_lift_def Let_def split: if_splits sum.splits option.splits)
  show ?case
  proof (cases x)
    case (Inl e)
    then show ?thesis using Cons.prems k dec by (simp add: b s_bind_def p)
  next
    case (Inr y)
    then have "keep_blobs L now bs u = (r, t)" using Cons.prems by (simp add: b s_bind_def p)
    from Cons.IH [OF this] show ?thesis using k dec by (simp add: keeps_blobs_def)
  qed
qed (auto simp: s_lift_def)

lemma load_artifacts_keeps:
  "keeps_blobs L s t \<Longrightarrow> load_artifacts L s as = Inr fs \<Longrightarrow> load_artifacts L t as = Inr fs"
  by (induction as arbitrary: fs) (auto simp: keeps_blobs_def)

lemma load_declared_keeps:
  "keeps_blobs L s t \<Longrightarrow> load_declared_local L s r = Inr x \<Longrightarrow> load_declared_local L t r = Inr x"
  using load_artifacts_keeps [of L s t "dr_outputs r"]
  by (auto simp: load_declared_local_def keeps_blobs_def split: if_splits)

lemma read_declared_None: "read_declared L k s = (Inr None, t) \<Longrightarrow> t = s \<and> st_declared s k = None \<and> key_ok k"
  by (auto simp: read_declared_def split: sum.splits option.splits)

lemma restore_local_Inr:
  assumes "restore_declared_local L safe answers status before r (st, ws) = (Inr res, (st', ws'))"
  shows "st' = st \<and> (\<exists>fs out err. load_declared_local L st r = Inr (fs, out, err)
     \<and> materialize_declared safe answers r fs ws = (Inr (), ws') \<and> res = replay status r before (out, err))"
  using assms by (auto simp: restore_declared_local_def split: sum.splits prod.splits)

lemma build_local_Inr:
  assumes L: "codec_ok L" and "build_local L safe answers sb request inputs (st, ws) = (Inr res, (st', ws'))"
    and none: "st_declared st (xr_key request) = None"
  shows "\<exists>fs out err. declared_found L st' (xr_key request) = Some (dv_record res)
     \<and> load_declared_local L st' (dv_record res) = Inr (fs, out, err)
     \<and> materialize_declared safe answers (dv_record res) fs ws = (Inr (), ws')
     \<and> suffix out (dv_stdout res) \<and> suffix err (dv_stderr res)"
proof -
  obtain r blobs streams where e: "execute_local_declared L sb request inputs = (Inr (r, blobs), streams)"
    using assms(2) by (auto simp: build_local_def split: prod.splits sum.splits)
  obtain u where kept: "keep_blobs L (sb_now sb) blobs st = (Inr (), u)"
    using assms(2) e by (auto simp: build_local_def split: prod.splits sum.splits)
  have key: "dr_key r = xr_key request"
    using e by (auto simp: execute_local_declared_def finish_local_def Let_def local_record_def split: sum.splits option.splits if_splits)
  let ?v = "snd (put_declared L r (sb_now sb) u)"
  have res: "restore_declared_local L safe answers ''miss'' streams r (?v, ws) = (Inr res, (st', ws'))"
    using assms(2) by (simp add: build_local_def e kept)
  from restore_local_Inr [OF res] obtain fs out err where st': "st' = ?v" and l: "load_declared_local L ?v r = Inr (fs, out, err)"
    and m: "materialize_declared safe answers r fs ws = (Inr (), ws')" and rp: "res = replay ''miss'' r streams (out, err)"
    by blast
  have "validate_declared_record L r = Inr ()" using l by (simp add: load_declared_local_def)
  then have ok: "declared_ok L r" by (simp add: declared_record_ok)
  have "st_declared u (dr_key r) = None" using keep_blobs_keeps [OF kept] none key by simp
  from put_declared_fresh [OF ok this, of "sb_now sb"] obtain v where "put_declared L r (sb_now sb) u = (Inr True, v)" by blast
  then have "declared_found L st' (xr_key request) = Some r" using put_declared_kept [OF L, of r "sb_now sb" u True v] st' key by simp
  moreover have "dv_record res = r" "suffix out (dv_stdout res)" "suffix err (dv_stderr res)" using rp by (simp_all add: replay_def suffix_def)
  ultimately show ?thesis using l m st' by auto
qed

lemma run_local_Inr:
  assumes L: "codec_ok L" and "run_local_declared_action L safe answers sb request inputs (st, ws) = (Inr res, (st', ws'))"
  shows "\<exists>fs out err. declared_found L st' (xr_key request) = Some (dv_record res)
     \<and> load_declared_local L st' (dv_record res) = Inr (fs, out, err)
     \<and> materialize_declared safe answers (dv_record res) fs ws = (Inr (), ws')
     \<and> suffix out (dv_stdout res) \<and> suffix err (dv_stderr res)"
proof -
  obtain found u where rd: "read_declared L (xr_key request) st = (Inr found, u)"
    using assms(2) by (auto simp: run_local_declared_action_def split: prod.splits sum.splits)
  show ?thesis
  proof (cases found)
    case None
    then have "build_local L safe answers sb request inputs (u, ws) = (Inr res, (st', ws'))"
      using assms(2) rd by (simp add: run_local_declared_action_def)
    then show ?thesis using build_local_Inr [OF L] read_declared_None [of L "xr_key request" st u] rd None by auto
  next
    case (Some r)
    then have u: "u = st" "declared_found L st (xr_key request) = Some r" using read_declared_hit rd by blast+
    show ?thesis
    proof (cases "load_declared_local L st r")
      case (Inr x)
      then have "restore_declared_local L safe answers ''hit'' ([], []) r (st, ws) = (Inr res, (st', ws'))"
        using assms(2) rd Some u by (simp add: run_local_declared_action_def)
      from restore_local_Inr [OF this] obtain fs out err where "st' = st" "load_declared_local L st r = Inr (fs, out, err)"
        "materialize_declared safe answers r fs ws = (Inr (), ws')" "res = replay ''hit'' r ([], []) (out, err)" by blast
      then show ?thesis using u(2) by (simp add: replay_def)
    next
      case (Inl e)
      obtain x v where rm: "remove_declared (xr_key request) st = (Inr x, v)"
        and b: "build_local L safe answers sb request inputs (v, ws) = (Inr res, (st', ws'))"
        using assms(2) rd Some u Inl by (auto simp: run_local_declared_action_def split: prod.splits sum.splits)
      have "st_declared v (xr_key request) = None" using rm by (auto simp: remove_declared_def split: sum.splits if_splits)
      then show ?thesis using build_local_Inr [OF L b] by simp
    qed
  qed
qed

text \<open>
  C40. A local declared action runs once: after any run of it that ended well, whether it found a record, built one or
  rebuilt a stale one, the next run with the same key restores the same record from the local store, whatever
  the command would do now, writes the same outputs into its workspace, leaves everything else there alone, and
  prints the recorded streams.
\<close>

theorem local_action_runs_once:
  assumes "codec_ok L" and "run_local_declared_action L safe answers sb request inputs (st, ws) = (Inr res, (st', ws'))"
  shows "\<exists>out err ws3. run_local_declared_action L safe [] sb2 request inputs2 (st', ws2)
       = (Inr \<lparr>dv_status = ''hit'', dv_record = dv_record res, dv_stdout = out, dv_stderr = err\<rparr>, (st', ws3))
     \<and> (\<forall>p. ws3 p = (if p \<in> set (outer_roots (dr_output_paths (dv_record res))) then ws' p else ws2 p))
     \<and> suffix out (dv_stdout res) \<and> suffix err (dv_stderr res)"
proof -
  obtain fs out err where found: "declared_found L st' (xr_key request) = Some (dv_record res)"
    and l: "load_declared_local L st' (dv_record res) = Inr (fs, out, err)"
    and m: "materialize_declared safe answers (dv_record res) fs ws = (Inr (), ws')"
    and streams: "suffix out (dv_stdout res)" "suffix err (dv_stderr res)"
    using run_local_Inr [OF assms] by blast
  obtain ws3 where "materialize_declared safe [] (dv_record res) fs ws2 = (Inr (), ws3)"
    "\<forall>p. ws3 p = (if p \<in> set (outer_roots (dr_output_paths (dv_record res))) then ws' p else ws2 p)"
    using materialize_again [OF m] by blast
  then show ?thesis using streams l read_declared_found [OF found]
    by (auto simp: run_local_declared_action_def restore_declared_local_def replay_def)
qed

text \<open>
  A run that executes passes the command's output on while it captures it, and prints it again when it restores the
  record it has just made.
\<close>

lemma built_action_prints_twice:
  assumes "build_local L safe answers sb request inputs (st, ws) = (Inr res, (st', ws'))"
  shows "\<exists>files out again. sb_run sb (sandbox_command (sb_host sb) (sb_workspace sb) request) files = Some out
     \<and> dv_stdout res = po_stdout out @ again
     \<and> length again = length (normalize_bytes (new_normalizer [(''$SANDBOX'', sb_workspace sb)]) (po_stdout out))
     \<and> l_hash L again = l_hash L (normalize_bytes (new_normalizer [(''$SANDBOX'', sb_workspace sb)]) (po_stdout out))"
proof -
  obtain r blobs streams where e: "execute_local_declared L sb request inputs = (Inr (r, blobs), streams)"
    using assms by (auto simp: build_local_def split: prod.splits sum.splits)
  then obtain files out where run: "sb_run sb (sandbox_command (sb_host sb) (sb_workspace sb) request) files = Some out"
    and f: "finish_local L sb request inputs out = Inr (r, blobs)" and s: "streams = (po_stdout out, po_stderr out)"
    by (auto simp: execute_local_declared_def split: sum.splits option.splits)
  let ?n = "normalize_bytes (new_normalizer [(''$SANDBOX'', sb_workspace sb)]) (po_stdout out)"
  have r: "dr_stdout r = \<lparr>sa_digest = l_hash L ?n, sa_len = length ?n\<rparr>"
    using f by (auto simp: finish_local_def Let_def local_record_def split: if_splits)
  obtain u where "keep_blobs L (sb_now sb) blobs st = (Inr (), u)"
    using assms e by (auto simp: build_local_def split: prod.splits sum.splits)
  then have "restore_declared_local L safe answers ''miss'' streams r (snd (put_declared L r (sb_now sb) u), ws) = (Inr res, (st', ws'))"
    using assms by (simp add: build_local_def e)
  from restore_local_Inr [OF this] obtain fs again err where "load_declared_local L (snd (put_declared L r (sb_now sb) u)) r = Inr (fs, again, err)"
    "res = replay ''miss'' r streams (again, err)" by blast
  then have "length again = sa_len (dr_stdout r)" "l_hash L again = sa_digest (dr_stdout r)" "dv_stdout res = po_stdout out @ again"
    by (auto simp: load_declared_local_def read_blob_ok replay_def s split: if_splits)
  then show ?thesis using run r by auto
qed

section \<open>Across a wire\<close>

locale record_server = blob_server L wire ready content
  for L :: "'b lib" and wire :: "'s wire" and ready content +
  fixes stored :: "'s \<Rightarrow> string \<Rightarrow> declared_record option"
  assumes stays_record: "ready s \<Longrightarrow> plain_request req \<Longrightarrow> stored s k = Some r \<Longrightarrow> stored (snd (wire req s)) k = Some r"
    and recorded: "ready s \<Longrightarrow> wire (Put_declared k r) s = (Some (Inr x), t) \<Longrightarrow> stored t k = Some r"
    and looked_up: "ready s \<Longrightarrow> stored s k = Some r \<Longrightarrow> \<exists>t. wire (Get_declared k) s = (Some (Inr (Declared_is r)), t)"
    and found: "ready s \<Longrightarrow> wire (Get_declared k) s = (Some (Inr (Declared_is r)), t) \<Longrightarrow> stored t k = Some r"
begin

definition after :: "'s \<Rightarrow> 's \<Rightarrow> bool" where
  "after s t \<longleftrightarrow> later s t \<and> (\<forall>k r. stored s k = Some r \<longrightarrow> stored t k = Some r)"

lemma wire_after: "ready s \<Longrightarrow> plain_request req \<Longrightarrow> wire req s = (a, t) \<Longrightarrow> after s t"
  using wire_later [of s req a t] stays_record [of s req] by (auto simp: after_def)

lemma after_refl: "ready s \<Longrightarrow> after s s"
  by (simp add: after_def later_refl)

lemma after_trans: "after s t \<Longrightarrow> after t u \<Longrightarrow> after s u"
  unfolding after_def using later_trans by blast

lemma after_ready: "after s t \<Longrightarrow> ready t"
  by (simp add: after_def later_def)

lemma send_after: "ready s \<Longrightarrow> plain_request req \<Longrightarrow> send wire req s = (a, t) \<Longrightarrow> after s t"
  using wire_after [of s req] by (auto simp: send_def split: prod.splits option.splits)

lemma bind_lift_after: "after s (snd (f s)) \<Longrightarrow> after s (snd (q_bind f (\<lambda>a. q_lift (g a)) s))"
  by (cases "f s"; cases "fst (f s)") (auto simp: q_bind_def q_lift_def)

lemma ask_after: "ready s \<Longrightarrow> plain_request req \<Longrightarrow> after s (snd (ask wire req body s))"
  unfolding ask_def send_ok_def using send_after [of s req]
  by (intro bind_lift_after) (metis prod.collapse)

lemma tell_after: "ready s \<Longrightarrow> plain_request req \<Longrightarrow> after s (snd (tell wire req s))"
  unfolding tell_def send_ok_def using send_after [of s req]
  by (intro bind_lift_after) (metis prod.collapse)

lemma fetch_after: "ready s \<Longrightarrow> after s (snd (fetch_blob L wire d s))"
  unfolding fetch_blob_def by (intro bind_lift_after ask_after) simp_all

lemma each_after:
  assumes "\<And>s x. ready s \<Longrightarrow> after s (snd (f x s))"
  shows "ready s \<Longrightarrow> after s (snd (each f xs s))"
proof (induction xs arbitrary: s)
  case (Cons x xs)
  obtain r t where x: "f x s = (r, t)" by fastforce
  then have st: "after s t" using assms [OF Cons.prems, of x] by simp
  from after_trans [OF st Cons.IH [OF after_ready [OF st]]] show ?case by (simp add: x Let_def case_prod_unfold)
qed (simp add: after_refl)

lemma fetch_blobs_after: "ready s \<Longrightarrow> fetch_blobs L wire ds s = (a, t) \<Longrightarrow> after s t"
  using each_after [of "fetch_blob L wire", OF fetch_after, of s "unique_digests (l_hash L []) {} ds"]
  by (auto simp: fetch_blobs_def Let_def split: prod.splits)

lemma upload_blob_after: "ready s \<Longrightarrow> after s (snd (upload_blob wire b s))"
proof -
  assume r: "ready s"
  obtain d bytes where b: "b = (d, bytes)" by (cases b)
  obtain h t where h: "send wire (Head_blob d) s = (h, t)" by fastforce
  have st: "after s t" using send_after [OF r _ h] by simp
  have "after t (snd (tell wire (Put_blob d [Inr bytes]) t))" using tell_after [OF after_ready [OF st]] by simp
  then have "after s (snd (tell wire (Put_blob d [Inr bytes]) t))" by (rule after_trans [OF st])
  then show ?thesis using st h tell_after [OF r, of "Put_blob d [Inr bytes]"]
    by (auto simp: upload_blob_def b q_bind_def q_lift_def Let_def split: sum.split)
qed

lemma upload_blobs_after: "ready s \<Longrightarrow> upload_blobs wire bs s = (a, t) \<Longrightarrow> after s t"
  using each_after [of "upload_blob wire", OF upload_blob_after, of s bs] by (auto simp: upload_blobs_def split: prod.splits)

text \<open>The declared record of a key, and the end of a run: its record restored.\<close>

lemma remote_declared_after: "ready s \<Longrightarrow> remote_declared L wire k s = (a, t) \<Longrightarrow> after s t"
proof -
  assume r: "ready s" and d: "remote_declared L wire k s = (a, t)"
  obtain x u where x: "send wire (Get_declared k) s = (x, u)" by fastforce
  have "after s u" using send_after [OF r _ x] by (simp add: plain_request_def)
  then show ?thesis using d x by (auto simp: remote_declared_def q_bind_def q_lift_def split: sum.splits if_splits)
qed

lemma remote_declared_Some:
  assumes "ready s" and "remote_declared L wire k s = (Inr (Some r), t)"
  shows "stored t k = Some r \<and> validate_declared_record L r = Inr () \<and> dr_key r = k"
proof -
  obtain x where "wire (Get_declared k) s = (Some x, t)" "r_bind (r_bind (error_for_status x) the_declared) (\<lambda>r.
         r_then (map_err Bad_record (validate_declared_record L r)) (if dr_key r \<noteq> k then Inl Wrong_record else Inr (Some r))) = Inr (Some r)"
    using assms(2) by (auto simp: remote_declared_def q_bind_Inr q_lift_Inr send_Inr split: if_splits)
  moreover from this obtain y where y: "x = Inr y" by (cases x) (auto simp: error_for_status_def split: api_error.splits)
  ultimately show ?thesis using found [OF assms(1), of k r t]
    by (cases y) (auto simp: error_for_status_def the_declared_def split: if_splits)
qed

lemma remote_declared_again:
  assumes "ready s" and "stored s k = Some r" and "validate_declared_record L r = Inr ()" and "dr_key r = k"
  shows "\<exists>t. remote_declared L wire k s = (Inr (Some r), t)"
  using looked_up [OF assms(1,2)] assms(3,4)
  by (auto simp: remote_declared_def q_bind_def q_lift_def send_def is_not_found_def error_for_status_def the_declared_def)

lemma put_declared_Inr:
  assumes "ready s" and "remote_put_declared L wire r s = (Inr u, t)"
  shows "after s t \<and> stored t (dr_key r) = Some r \<and> validate_declared_record L r = Inr ()"
proof -
  obtain x where x: "validate_declared_record L r = Inr ()" "wire (Put_declared (dr_key r) r) s = (Some (Inr x), t)"
    using assms(2) by (auto simp: remote_put_declared_def q_bind_Inr q_lift_Inr tell_Inr)
  then show ?thesis using recorded [OF assms(1) x(2)] wire_after [OF assms(1) _ x(2)] by (simp add: plain_request_def)
qed

definition record_digests :: "declared_record \<Rightarrow> string list" where
  "record_digests r = map ar_digest (dr_outputs r) @ [sa_digest (dr_stdout r), sa_digest (dr_stderr r)]"

definition restorable :: "(string \<Rightarrow> bool) \<Rightarrow> 's \<Rightarrow> declared_record \<Rightarrow> workspace \<Rightarrow> bool" where
  "restorable safe s r ws' \<longleftrightarrow> ready s \<and> stored s (dr_key r) = Some r \<and> validate_declared_record L r = Inr ()
     \<and> (\<forall>d \<in> set (record_digests r). d \<noteq> l_hash L [] \<longrightarrow> content s d \<noteq> None)
     \<and> length (fetched_content s (sa_digest (dr_stdout r))) = sa_len (dr_stdout r)
     \<and> length (fetched_content s (sa_digest (dr_stderr r))) = sa_len (dr_stderr r)
     \<and> (\<exists>answers ws. materialize_declared safe answers r
           (zip (dr_outputs r) (map (\<lambda>a. fetched_content s (ar_digest a)) (dr_outputs r))) ws = (Inr (), ws'))"

lemma restore_makes_restorable:
  assumes s: "ready s" and "restore_declared_record L wire safe answers status before r (s, ws) = (Inr res, (t, ws'))"
    and st: "stored s (dr_key r) = Some r"
  shows "restorable safe t r ws' \<and> dv_record res = r
     \<and> suffix (fetched_content t (sa_digest (dr_stdout r))) (dv_stdout res)
     \<and> suffix (fetched_content t (sa_digest (dr_stderr r))) (dv_stderr res)"
proof -
  let ?n = "length (dr_outputs r)"
  obtain blobs where v: "validate_declared_record L r = Inr ()" and f: "fetch_blobs L wire (record_digests r) s = (Inr blobs, t)"
    and len: "length (blobs ! ?n) = sa_len (dr_stdout r)" "length (blobs ! (?n + 1)) = sa_len (dr_stderr r)"
    and m: "materialize_declared safe answers r (zip (dr_outputs r) (take ?n blobs)) ws = (Inr (), ws')"
    and res: "res = replay status r before (blobs ! ?n, blobs ! (?n + 1))"
    using assms(2) by (auto simp: restore_declared_record_def record_digests_def Let_def split: sum.splits prod.splits if_splits)
  have st: "after s t" using fetch_blobs_after [OF s f] .
  then have "stored t (dr_key r) = Some r" "ready t" using assms(3) after_ready by (auto simp: after_def)
  moreover note got = fetch_blobs_ok [OF s f]
  moreover from got have b: "blobs = map (\<lambda>a. fetched_content t (ar_digest a)) (dr_outputs r)
      @ [fetched_content t (sa_digest (dr_stdout r)), fetched_content t (sa_digest (dr_stderr r))]"
    by (simp add: record_digests_def)
  moreover have "take ?n blobs = map (\<lambda>a. fetched_content t (ar_digest a)) (dr_outputs r)" by (simp add: b)
  moreover have "blobs ! ?n = fetched_content t (sa_digest (dr_stdout r))" "blobs ! (?n + 1) = fetched_content t (sa_digest (dr_stderr r))"
    by (simp_all add: b nth_append)
  ultimately show ?thesis using v len m res unfolding restorable_def replay_def suffix_def by auto
qed

lemma restorable_restores:
  assumes "restorable safe s r ws'"
  shows "\<exists>t ws3. restore_declared_record L wire safe [] status before r (s, ws2)
       = (Inr (replay status r before (fetched_content s (sa_digest (dr_stdout r)), fetched_content s (sa_digest (dr_stderr r)))), (t, ws3))
     \<and> (\<forall>p. ws3 p = (if p \<in> set (outer_roots (dr_output_paths r)) then ws' p else ws2 p))"
proof -
  let ?n = "length (dr_outputs r)" and ?fs = "map (\<lambda>a. fetched_content s (ar_digest a)) (dr_outputs r)"
  note r = assms [unfolded restorable_def]
  obtain answers ws where m: "materialize_declared safe answers r (zip (dr_outputs r) ?fs) ws = (Inr (), ws')" using r by blast
  obtain ws3 where w: "materialize_declared safe [] r (zip (dr_outputs r) ?fs) ws2 = (Inr (), ws3)"
    "\<forall>p. ws3 p = (if p \<in> set (outer_roots (dr_output_paths r)) then ws' p else ws2 p)"
    using materialize_again [OF m] by blast
  have ready: "ready s" and all: "\<forall>d \<in> set (record_digests r). d \<noteq> l_hash L [] \<longrightarrow> content s d \<noteq> None" using r by blast+
  obtain t where t: "fetch_blobs L wire (record_digests r) s = (Inr (map (fetched_content s) (record_digests r)), t)"
    using fetch_blobs_content(1) [OF ready all] by blast
  have b: "map (fetched_content s) (record_digests r) = ?fs @ [fetched_content s (sa_digest (dr_stdout r)), fetched_content s (sa_digest (dr_stderr r))]"
    by (simp add: record_digests_def)
  have "restore_declared_record L wire safe [] status before r (s, ws2)
       = (Inr (replay status r before (fetched_content s (sa_digest (dr_stdout r)), fetched_content s (sa_digest (dr_stderr r)))), (t, ws3))"
    using r w(1) t unfolding restore_declared_record_def b record_digests_def [symmetric]
    by (simp add: nth_append Let_def)
  then show ?thesis using w(2) by blast
qed

lemma run_makes_restorable:
  assumes s: "ready s" and run: "run_remote_action L wire safe answers sb False request inputs (s, ws) = (Inr res, (t, ws'))"
  shows "restorable safe t (dv_record res) ws' \<and> dr_key (dv_record res) = xr_key request
     \<and> suffix (fetched_content t (sa_digest (dr_stdout (dv_record res)))) (dv_stdout res)
     \<and> suffix (fetched_content t (sa_digest (dr_stderr (dv_record res)))) (dv_stderr res)"
proof -
  obtain found u where look: "remote_declared L wire (xr_key request) s = (Inr found, u)"
    using run by (auto simp: run_remote_action_def remote_step_def split: prod.splits sum.splits)
  have u: "ready u" using remote_declared_after [OF s look] after_ready by blast
  show ?thesis
  proof (cases found)
    case (Some r)
    then have "restore_declared_record L wire safe answers ''hit'' ([], []) r (u, ws) = (Inr res, (t, ws'))"
      using run look by (simp add: run_remote_action_def remote_step_def)
    moreover have "stored u (xr_key request) = Some r" "dr_key r = xr_key request"
      using remote_declared_Some [OF s look [unfolded Some]] by blast+
    ultimately show ?thesis using restore_makes_restorable [OF u, of safe answers "''hit''" "([], [])" r ws res t ws'] by simp
  next
    case None
    let ?inputs = "map (\<lambda>(a, bytes). (ar_digest a, bytes)) inputs"
    obtain x v where up: "upload_blobs wire ?inputs u = (Inr x, v)"
      and pub: "publish_local L wire safe answers sb request inputs (v, ws) = (Inr res, (t, ws'))"
      using run look None by (auto simp: run_remote_action_def remote_step_def split: prod.splits sum.splits)
    have v: "ready v" using upload_blobs_after [OF u up] after_ready by blast
    obtain r blobs streams where e: "execute_local_declared L sb request inputs = (Inr (r, blobs), streams)"
      using pub by (auto simp: publish_local_def split: prod.splits sum.splits)
    have key: "dr_key r = xr_key request"
      using e by (auto simp: execute_local_declared_def finish_local_def Let_def local_record_def split: sum.splits option.splits if_splits)
    obtain y v1 z v2 where up2: "upload_blobs wire blobs v = (Inr y, v1)" and put: "remote_put_declared L wire r v1 = (Inr z, v2)"
      and res: "restore_declared_record L wire safe answers ''miss'' streams r (v2, ws) = (Inr res, (t, ws'))"
      using pub e by (auto simp: publish_local_def remote_step_def split: prod.splits sum.splits)
    have v1: "ready v1" using upload_blobs_after [OF v up2] after_ready by blast
    note p = put_declared_Inr [OF v1 put]
    then have "ready v2" using after_ready by blast
    from restore_makes_restorable [OF this res] p key show ?thesis by auto
  qed
qed

lemma restorable_later:
  assumes "restorable safe s r ws'" and "after s t"
  shows "restorable safe t r ws'"
    and "d \<in> set (record_digests r) \<Longrightarrow> fetched_content t d = fetched_content s d"
proof -
  note r = assms(1) [unfolded restorable_def] and st = assms(2) [unfolded after_def]
  have same: "fetched_content t d = fetched_content s d \<and> (d \<noteq> l_hash L [] \<longrightarrow> content t d \<noteq> None)" if "d \<in> set (record_digests r)" for d
    using r st fetched_later [of s t d] that by (auto simp: later_def)
  then show "d \<in> set (record_digests r) \<Longrightarrow> fetched_content t d = fetched_content s d" by blast
  have in_digests: "sa_digest (dr_stdout r) \<in> set (record_digests r)" "sa_digest (dr_stderr r) \<in> set (record_digests r)"
    "\<forall>a \<in> set (dr_outputs r). ar_digest a \<in> set (record_digests r)" by (simp_all add: record_digests_def)
  have "map (\<lambda>a. fetched_content t (ar_digest a)) (dr_outputs r) = map (\<lambda>a. fetched_content s (ar_digest a)) (dr_outputs r)"
    using same in_digests(3) by (intro map_cong) auto
  moreover obtain answers ws where "materialize_declared safe answers r
      (zip (dr_outputs r) (map (\<lambda>a. fetched_content s (ar_digest a)) (dr_outputs r))) ws = (Inr (), ws')" using r by blast
  ultimately have "\<exists>answers ws. materialize_declared safe answers r
      (zip (dr_outputs r) (map (\<lambda>a. fetched_content t (ar_digest a)) (dr_outputs r))) ws = (Inr (), ws')" by metis
  then show "restorable safe t r ws'" using r st same in_digests(1,2) unfolding restorable_def later_def by simp
qed

lemma restorable_hits:
  assumes "restorable safe s r ws'" and "dr_key r = xr_key request"
  shows "\<exists>t ws3. run_remote_action L wire safe [] sb remote_execution request inputs (s, ws2)
       = (Inr (replay ''hit'' r ([], []) (fetched_content s (sa_digest (dr_stdout r)), fetched_content s (sa_digest (dr_stderr r)))), (t, ws3))
     \<and> (\<forall>p. ws3 p = (if p \<in> set (outer_roots (dr_output_paths r)) then ws' p else ws2 p))"
proof -
  note r = assms(1) [unfolded restorable_def]
  obtain u where look: "remote_declared L wire (xr_key request) s = (Inr (Some r), u)"
    using remote_declared_again [of s "xr_key request" r] r assms(2) by auto
  have su: "after s u" using remote_declared_after [OF _ look] r by blast
  note later = restorable_later [OF assms(1) su]
  have "fetched_content u d = fetched_content s d" if "d \<in> {sa_digest (dr_stdout r), sa_digest (dr_stderr r)}" for d
    using later(2) that by (auto simp: record_digests_def)
  then show ?thesis using restorable_restores [OF later(1), of "''hit''" "([], [])" ws2] look
    by (simp add: run_remote_action_def remote_step_def)
qed

end

subsection \<open>The server implements it\<close>

lemma authorized_st_declared: "st_declared (ap_store (snd (h ap))) = st_declared (ap_store ap) \<Longrightarrow>
    st_declared (ap_store (snd (authorized L header h ap))) = st_declared (ap_store ap)"
  by (simp add: authorized_def split: sum.split)

lemma store_ops_declared:
  "read_candidates L k s = (a, t) \<Longrightarrow> st_declared t = st_declared s"
  "read_archive L k s = (b, t) \<Longrightarrow> st_declared t = st_declared s"
  "record_use k k' now s = (c, t) \<Longrightarrow> st_declared t = st_declared s"
  "touch_blob d now s = (e, t) \<Longrightarrow> st_declared t = st_declared s"
  "commit_blob L d bytes now s = (f, t) \<Longrightarrow> st_declared t = st_declared s"
  by (auto simp: read_candidates_def quarantine_action_def read_archive_def quarantine_archive_def record_use_def touch_blob_def
      commit_blob_def s_bind_def s_lift_def split: sum.splits option.splits if_splits)

lemma put_ops_declared:
  "put_candidate L c n now s = (r, t) \<Longrightarrow> st_declared t = st_declared s"
  "put_archive L x now s = (q, t) \<Longrightarrow> st_declared t = st_declared s"
  by (auto simp: put_candidate_def put_candidate_unlocked_def put_archive_def put_archive_unlocked_def s_bind_def s_lift_def
      split: prod.splits sum.splits option.splits if_splits dest!: store_ops_declared)

lemma handlers_declared:
  "st_declared (ap_store (snd (health L v header ap))) = st_declared (ap_store ap)"
  "st_declared (ap_store (snd (stats L ls header now ap))) = st_declared (ap_store ap)"
  "st_declared (ap_store (snd (get_blob L header d ap))) = st_declared (ap_store ap)"
  "st_declared (ap_store (snd (head_blob L header now d ap))) = st_declared (ap_store ap)"
  "st_declared (ap_store (snd (put_blob_handler L header now d body ap))) = st_declared (ap_store ap)"
  "st_declared (ap_store (snd (get_candidates L header k ap))) = st_declared (ap_store ap)"
  "st_declared (ap_store (snd (put_candidate_handler L header now k a c ap))) = st_declared (ap_store ap)"
  "st_declared (ap_store (snd (record_use_handler L header now k a ap))) = st_declared (ap_store ap)"
  "st_declared (ap_store (snd (get_archive L header n ap))) = st_declared (ap_store ap)"
  "st_declared (ap_store (snd (put_archive_handler L header now n m ap))) = st_declared (ap_store ap)"
  unfolding health_def stats_def get_blob_def head_blob_def put_blob_handler_def get_candidates_def put_candidate_handler_def
    record_use_handler_def get_archive_def put_archive_handler_def
  by (intro authorized_st_declared; auto simp: store_candidate_def store_bind_lift Let_def split: sum.split store_error.split option.split
      intro: store_ops_declared [OF prod.collapse [symmetric]] put_ops_declared [OF prod.collapse [symmetric]])+

lemma declared_found_cong: "st_declared s k = st_declared t k \<Longrightarrow> declared_found L s k = declared_found L t k"
  by (simp add: declared_found_def)

lemma read_declared_keeps_found:
  assumes "declared_found L s k = Some r"
  shows "declared_found L (snd (read_declared L k' s)) k = Some r"
proof (cases "k' = k")
  case True
  then show ?thesis using read_declared_found [OF assms] assms by simp
next
  case False
  have "st_declared (snd (read_declared L k' s)) k = st_declared s k"
    using False by (auto simp: read_declared_def quarantine_declared_def split: sum.split option.split)
  then show ?thesis using assms declared_found_cong by metis
qed

lemma put_declared_keeps_found:
  assumes "declared_found L s k = Some r"
  shows "declared_found L (snd (put_declared L x now s)) k = Some r"
proof (cases "dr_key x = k")
  case True
  show ?thesis
  proof (cases "declared_ok L x")
    case True
    then show ?thesis using put_declared_found [of L x s r now] assms \<open>dr_key x = k\<close> by simp
  next
    case False
    then show ?thesis using put_declared_unfit [of L x now s] assms by auto
  qed
next
  case False
  then have "st_declared (snd (put_declared L x now s)) k = st_declared s k" using put_declared_where [of L x now s] by auto
  then show ?thesis using assms declared_found_cong by metis
qed

lemma found_same: "declared_found L s k = Some r \<Longrightarrow> st_declared t = st_declared s \<Longrightarrow> declared_found L t k = Some r"
  by (simp add: declared_found_def)

lemma handle_keeps_found:
  assumes "plain_request req" and f: "declared_found L (ap_store ap) k = Some r"
  shows "declared_found L (ap_store (snd (handle L W header req ap))) k = Some r"
proof -
  have g: "declared_found L (ap_store (snd (get_declared L header k' ap))) k = Some r" for k'
    using f read_declared_keeps_found [OF f] by (simp add: get_declared_def authorized_def store_bind_lift split: sum.split)
  have p: "declared_found L (ap_store (snd (put_declared_handler L header now k' x ap))) k = Some r" for now k' x
    using f put_declared_keeps_found [OF f] by (simp add: put_declared_handler_def authorized_def store_bind_lift split: sum.split)
  show ?thesis using assms(1)
    by (cases req) (simp_all add: handle_def Let_def plain_request_def g p found_same [OF f] handlers_declared)
qed

interpretation records: record_server L "server_wire L W header" "open_server L W header m" "blob_content L"
    "\<lambda>s k. declared_found L (ap_store (fst s)) k"
  for L :: "'b lib" and W header m
proof unfold_locales
  fix s :: "'b app \<times> nat" and req k r x t
  assume "open_server L W header m s"
  then have L: "codec_ok L" and auth: "authorize L (fst s) header = Inr ()" by (auto simp: open_server_def)
  show "declared_found L (ap_store (fst (snd (server_wire L W header req s)))) k = Some r"
    if "plain_request req" "declared_found L (ap_store (fst s)) k = Some r"
    using handle_keeps_found [OF that] by (simp add: server_wire_eq)
  show "declared_found L (ap_store (fst t)) k = Some r" if w: "server_wire L W header (Put_declared k r) s = (Some (Inr x), t)"
  proof -
    have "handle L (W (snd s)) header (Put_declared k r) (fst s) = (Inr x, fst t)" using w by (auto simp: server_wire_eq prod_eq_iff)
    then have "\<exists>b u. put_declared L r (w_now (W (snd s))) (ap_store (fst s)) = (Inr b, u) \<and> fst t = (fst s)\<lparr>ap_store := u\<rparr> \<and> dr_key r = k"
      by (auto simp: handle_def respond_def put_declared_handler_def authorized_ok [OF auth] a_bind_def a_lift_def on_store_def
          split: sum.splits prod.splits if_splits)
    then show ?thesis using put_declared_kept [OF L] by fastforce
  qed
  show "\<exists>t. server_wire L W header (Get_declared k) s = (Some (Inr (Declared_is r)), t)" if "declared_found L (ap_store (fst s)) k = Some r"
    using read_declared_found [OF that]
    by (simp add: server_wire_eq handle_def respond_def get_declared_def authorized_ok [OF auth] a_bind_def a_lift_def on_store_def)
  show "declared_found L (ap_store (fst t)) k = Some r" if w: "server_wire L W header (Get_declared k) s = (Some (Inr (Declared_is r)), t)"
  proof -
    have "handle L (W (snd s)) header (Get_declared k) (fst s) = (Inr (Declared_is r), fst t)" using w by (auto simp: server_wire_eq prod_eq_iff)
    then have "\<exists>u. read_declared L k (ap_store (fst s)) = (Inr (Some r), u) \<and> fst t = (fst s)\<lparr>ap_store := u\<rparr>"
      by (auto simp: handle_def respond_def get_declared_def authorized_ok [OF auth] a_bind_def a_lift_def on_store_def
          split: sum.splits prod.splits option.splits)
    then show ?thesis using read_declared_hit [of L k "ap_store (fst s)" r] by auto
  qed
qed

text \<open>
  C38. A declared action runs once for everyone: after a run through the server that ended well, executed here or found
  there, every later client with the same key gets the same record as a hit, without its command being run
  locally or remotely: the same outputs are written at the record's roots, nothing else in its workspace
  changes, and the recorded streams are printed.
\<close>

theorem declared_action_is_shared:
  assumes "codec_ok L" and "\<forall>n. w_now (W n) \<le> u64_max" and "authorize L ap header = Inr ()"
    and "run_remote_action L (server_wire L W header) safe answers sb False request inputs ((ap, n), ws) = (Inr res, (s, ws'))"
  shows "\<exists>out err t ws3. run_remote_action L (server_wire L W header) safe [] sb2 remote_execution request inputs2 (s, ws2)
       = (Inr \<lparr>dv_status = ''hit'', dv_record = dv_record res, dv_stdout = out, dv_stderr = err\<rparr>, (t, ws3))
     \<and> (\<forall>p. ws3 p = (if p \<in> set (outer_roots (dr_output_paths (dv_record res))) then ws' p else ws2 p))
     \<and> suffix out (dv_stdout res) \<and> suffix err (dv_stderr res) \<and> dr_key (dv_record res) = xr_key request"
proof -
  let ?m = "ap_max_candidates ap"
  have "open_server L W header ?m (ap, n)" using assms(1-3) by (simp add: open_server_def)
  note made = records.run_makes_restorable [OF this assms(4)]
  from records.restorable_hits [OF conjunct1 [OF made], of request sb2 remote_execution inputs2 ws2] made
  show ?thesis by (auto simp: replay_def)
qed

section \<open>Examples\<close>

text \<open>A hash that tells the empty string from every other one.\<close>

definition ex_codec2 :: "ex_doc lib" where
  "ex_codec2 = ex_codec\<lparr>l_hash := \<lambda>b. if b = [] then ex_ones else ex_key\<rparr>"

lemma ex_codec2_ok: "codec_ok ex_codec2"
  by (simp add: codec_ok_def ex_codec2_def ex_codec_def)

lemma ex_codec2_hash: "l_hash ex_codec2 b = (if b = [] then ex_ones else ex_key)"
  by (simp add: ex_codec2_def)

lemma ex_declared2_ok: "declared_ok ex_codec2 ex_declared"
proof -
  have "declared_action_key ex_codec2 ''n'' ex_platform ex_command [] [ex_artifact ''src/a.rs''] [''out''] = ex_key"
    by (simp add: declared_action_key_def ex_codec2_def ex_codec_def hash_key_field_def)
  then show ?thesis using ex_declared_ok by (simp add: declared_ok_def ex_declared_def)
qed

definition ex_served :: "ex_doc store" where
  "ex_served = empty_store\<lparr>st_declared := [ex_key \<mapsto> \<lparr>df_doc = Doc_declared ex_declared, df_modified = 4\<rparr>],
     st_blobs := [ex_key \<mapsto> \<lparr>bf_bytes = ''data'', bf_modified = 4\<rparr>]\<rparr>"

lemma ex_served_found: "declared_found ex_codec2 ex_served ex_key = Some ex_declared"
  using ex_declared2_ok by (simp add: declared_found_def declared_here_def ex_served_def ex_codec2_def ex_codec_def)

lemma ex_served_blob: "read_blob ex_codec2 ex_key ex_served = Inr ''data''"
  by (simp add: read_blob_ok ex_served_def ex_codec2_hash)

lemma ex_declared_fields:
  "dr_outputs ex_declared = [ex_artifact ''out/a'']" "dr_output_paths ex_declared = [''out'']"
  "sa_digest (dr_stdout ex_declared) = ex_key" "sa_len (dr_stdout ex_declared) = 4"
  "sa_digest (dr_stderr ex_declared) = ex_key" "sa_len (dr_stderr ex_declared) = 4"
  "ar_digest (ex_artifact n) = ex_key"
  by (simp_all add: ex_declared_def ex_artifact_def ex_key_def)

lemma ex_materialized:
  "\<exists>ws'. materialize_declared (\<lambda>p. True) [] ex_declared [(ex_artifact ''out/a'', ''data'')] Map.empty = (Inr (), ws')"
proof -
  have "validate_output_roots (dr_inputs ex_declared) (dr_output_paths ex_declared) = Inr ()"
    using ex_declared_ok by (simp add: declared_ok_def)
  moreover have "\<not> Option.is_none (stage_all (\<lambda>p. True) [(ex_artifact ''out/a'', ''data'')] (outer_roots [''out'']))"
    by code_simp
  then have "\<exists>rs. stage_all (\<lambda>p. True) [(ex_artifact ''out/a'', ''data'')] (outer_roots (dr_output_paths ex_declared)) = Some rs"
    unfolding ex_declared_fields by (simp add: Option.is_none_def)
  ultimately show ?thesis using declared_outputs_succeeds by (fastforce simp: materialize_Inr)
qed

definition ex_sandbox :: sandbox where
  "ex_sandbox = \<lparr>sb_host = \<lparr>ho_path = [], ho_rustup_home = [], ho_exe = [], ho_pid = 1\<rparr>, sb_workspace = ''/s'', sb_run = \<lambda>c ws. None, sb_now = 5\<rparr>"

lemma ex_local_hit:
  "\<exists>res ws'. run_local_declared_action ex_codec2 (\<lambda>p. True) [] ex_sandbox ex_request [] (ex_served, Map.empty) = (Inr res, (ex_served, ws'))
     \<and> dv_record res = ex_declared"
proof -
  obtain ws' where "materialize_declared (\<lambda>p. True) [] ex_declared [(ex_artifact ''out/a'', ''data'')] Map.empty = (Inr (), ws')"
    using ex_materialized by blast
  moreover have "load_declared_local ex_codec2 ex_served ex_declared = Inr ([(ex_artifact ''out/a'', ''data'')], ''data'', ''data'')"
    using ex_declared2_ok declared_record_ok [of ex_codec2 ex_declared]
    by (simp add: load_declared_local_def ex_declared_fields ex_served_blob)
  ultimately show ?thesis
    using read_declared_found [OF ex_served_found]
    by (simp add: run_local_declared_action_def ex_request_def restore_declared_local_def replay_def)
qed

theorem local_action_runs_once_witness:
  "\<exists>out err ws3. run_local_declared_action ex_codec2 (\<lambda>p. True) [] ex_sandbox ex_request [] (ex_served, [''b'' \<mapsto> Folder []])
     = (Inr \<lparr>dv_status = ''hit'', dv_record = ex_declared, dv_stdout = out, dv_stderr = err\<rparr>, (ex_served, ws3)) \<and> ws3 ''b'' = Some (Folder [])"
proof -
  obtain res ws' where r: "run_local_declared_action ex_codec2 (\<lambda>p. True) [] ex_sandbox ex_request [] (ex_served, Map.empty) = (Inr res, (ex_served, ws'))"
    and rec: "dv_record res = ex_declared" using ex_local_hit by blast
  have "''b'' \<notin> set (outer_roots (dr_output_paths ex_declared))" unfolding ex_declared_fields by code_simp
  then show ?thesis
    using local_action_runs_once [OF ex_codec2_ok r, where ?sb2.0 = ex_sandbox and ?inputs2.0 = "[]" and ?ws2.0 = "[''b'' \<mapsto> Folder []]"] rec
    by auto
qed

lemma ex_restorable: "\<exists>ws'. records.restorable ex_codec2 (\<lambda>n. ex_world 5) ex_auth 8 (\<lambda>p. True) (ex_app ex_served, 0) ex_declared ws'"
proof -
  have auth: "authorize ex_codec2 (ex_app s) ex_auth = Inr ()" for s
    by (simp add: authorize_def ex_app_def ex_auth_def supplied_token_def header_text_def strip_prefix_def)
  have c: "blob_content ex_codec2 (ex_app ex_served, 0) ex_key = Some ''data''" by (simp add: blob_content_Some ex_served_blob)
  have f: "served.fetched_content ex_codec2 (ex_app ex_served, 0) ex_key = ''data''"
    using c by (simp add: served.fetched_content_def ex_codec2_hash)
  have "validate_declared_record ex_codec2 ex_declared = Inr ()" using ex_declared2_ok by (simp add: declared_record_ok)
  moreover have "open_server ex_codec2 (\<lambda>n. ex_world 5) ex_auth 8 (ex_app ex_served, 0)"
    using ex_codec2_ok auth by (simp add: open_server_def ex_world_def u64_max_def)
  moreover obtain ws' where "materialize_declared (\<lambda>p. True) [] ex_declared [(ex_artifact ''out/a'', ''data'')] Map.empty = (Inr (), ws')"
    using ex_materialized by blast
  ultimately show ?thesis using ex_served_found c f
    by (auto simp: records.restorable_def records.record_digests_def ex_declared_fields)
qed

theorem declared_action_is_shared_witness:
  "\<exists>s out err t ws3. run_remote_action ex_codec2 (server_wire ex_codec2 (\<lambda>n. ex_world 5) ex_auth) (\<lambda>p. True) [] ex_sandbox True ex_request [] (s, Map.empty)
     = (Inr \<lparr>dv_status = ''hit'', dv_record = ex_declared, dv_stdout = out, dv_stderr = err\<rparr>, (t, ws3))"
proof -
  obtain ws' where "records.restorable ex_codec2 (\<lambda>n. ex_world 5) ex_auth 8 (\<lambda>p. True) (ex_app ex_served, 0) ex_declared ws'"
    using ex_restorable by blast
  from records.restorable_hits [OF this, of ex_request ex_sandbox False "[]" Map.empty] obtain res s ws2 where
    r: "run_remote_action ex_codec2 (server_wire ex_codec2 (\<lambda>n. ex_world 5) ex_auth) (\<lambda>p. True) [] ex_sandbox False ex_request []
      ((ex_app ex_served, 0), Map.empty) = (Inr res, (s, ws2))" and rec: "dv_record res = ex_declared"
    by (auto simp: ex_request_def replay_def)
  have W: "\<forall>n. w_now ((\<lambda>n :: nat. ex_world 5) n) \<le> u64_max" by (simp add: ex_world_def u64_max_def)
  have A: "authorize ex_codec2 (ex_app ex_served) ex_auth = Inr ()"
    by (simp add: authorize_def ex_app_def ex_auth_def supplied_token_def header_text_def strip_prefix_def)
  from declared_action_is_shared [OF ex_codec2_ok W A r, where ?sb2.0 = ex_sandbox and ?inputs2.0 = "[]" and ?ws2.0 = Map.empty and remote_execution = True]
  show ?thesis unfolding rec by blast
qed

end
